(* ===== verification/Rust_Prelude.thy ===== *)
theory Rust_Prelude
  imports Main "HOL-Library.Word"
begin

unbundle bit_operations_syntax

section \<open>Rust integers, results and byte order\<close>

text \<open>
  The types and primitive operations of Rust that every component of the silent-disco core
  uses, and the generic lemmas on them. A Rust \<open>uN\<close> is an \<open>N word\<close>, whose \<open>+\<close> wraps as an
  unchecked addition of a release build does; an \<open>i16\<close> PCM sample is a \<open>16 word\<close> read with
  \<open>sint\<close>; a \<open>usize\<close> (a length or an index, 64 bits wide on the shipped targets) is a \<open>nat\<close>,
  with the bound written out where the code checks it. A \<open>Result<T, E>\<close> is the sum
  \<open>E + T\<close>, \<open>Inl\<close> the error; the \<open>?\<close> operator is \<open>try_bind\<close>.
\<close>

named_theorems rust_int \<open>unfolding rules of the checked and saturating integer operations\<close>
named_theorems wire \<open>rewrite rules of the wire readers and writers\<close>

type_synonym u8 = "8 word"
type_synonym u16 = "16 word"
type_synonym u32 = "32 word"
type_synonym u64 = "64 word"
type_synonym i16 = "16 word"
type_synonym usize = nat

subsection \<open>Results\<close>

definition try_bind :: "'e + 'a \<Rightarrow> ('a \<Rightarrow> 'e + 'b) \<Rightarrow> 'e + 'b" where
  "try_bind r f = (case r of Inl e \<Rightarrow> Inl e | Inr x \<Rightarrow> f x)"

lemma try_bind_simps [simp]:
  "try_bind (Inl e) f = Inl e"
  "try_bind (Inr x) f = f x"
  by (simp_all add: try_bind_def)

lemma try_bind_Inr_iff:
  "try_bind r f = Inr y \<longleftrightarrow> (\<exists>x. r = Inr x \<and> f x = Inr y)"
  by (cases r) simp_all

lemma try_bind_Inl_iff:
  "try_bind r f = Inl e \<longleftrightarrow> r = Inl e \<or> (\<exists>x. r = Inr x \<and> f x = Inl e)"
  by (cases r) auto

lemma try_bind_InrE:
  assumes "try_bind r f = Inr y"
  obtains x where "r = Inr x" and "f x = Inr y"
  using assms by (cases r) auto

lemma guard_Inr_iff: "(if b then Inl e else m) = Inr y \<longleftrightarrow> \<not> b \<and> m = Inr y"
  by simp

lemma require_Inr_iff: "(if b then m else Inl e) = Inr y \<longleftrightarrow> b \<and> m = Inr y"
  by simp

lemma try_bind_assoc:
  "try_bind (try_bind r f) g = try_bind r (\<lambda>x. try_bind (f x) g)"
  by (cases r) simp_all

definition map_err :: "('e \<Rightarrow> 'f) \<Rightarrow> 'e + 'a \<Rightarrow> 'f + 'a" where
  "map_err g r = (case r of Inl e \<Rightarrow> Inl (g e) | Inr x \<Rightarrow> Inr x)"

lemma map_err_simps [simp]:
  "map_err g (Inl e) = Inl (g e)"
  "map_err g (Inr x) = Inr x"
  by (simp_all add: map_err_def)

lemma map_err_Inr_iff [simp]: "map_err g r = Inr x \<longleftrightarrow> r = Inr x"
  by (cases r) simp_all

definition is_ok :: "'e + 'a \<Rightarrow> bool" where
  "is_ok r = (case r of Inl _ \<Rightarrow> False | Inr _ \<Rightarrow> True)"

lemma is_ok_simps [simp]: "is_ok (Inr x)" "\<not> is_ok (Inl e)"
  by (simp_all add: is_ok_def)

lemma is_ok_iff: "is_ok r \<longleftrightarrow> (\<exists>x. r = Inr x)"
  by (cases r) auto

text \<open>\<open>Option::ok_or\<close>.\<close>

definition ok_or :: "'a option \<Rightarrow> 'e \<Rightarrow> 'e + 'a" where
  "ok_or v e = (case v of None \<Rightarrow> Inl e | Some x \<Rightarrow> Inr x)"

lemma ok_or_simps [simp]: "ok_or None e = Inl e" "ok_or (Some x) e = Inr x"
  by (simp_all add: ok_or_def)

lemma ok_or_Inr_iff: "ok_or x e = Inr y \<longleftrightarrow> x = Some y"
  by (cases x) simp_all

subsection \<open>Saturating and checked arithmetic\<close>

definition saturating_sub :: "'a::len word \<Rightarrow> 'a word \<Rightarrow> 'a word" where
  [rust_int]: "saturating_sub a b = (if a < b then 0 else a - b)"

definition saturating_add :: "'a::len word \<Rightarrow> 'a word \<Rightarrow> 'a word" where
  [rust_int]: "saturating_add a b =
     (if unat a + unat b < 2 ^ LENGTH('a) then a + b else - 1)"

definition saturating_mul :: "'a::len word \<Rightarrow> 'a word \<Rightarrow> 'a word" where
  [rust_int]: "saturating_mul a b =
     (if unat a * unat b < 2 ^ LENGTH('a) then a * b else - 1)"

definition checked_add :: "'a::len word \<Rightarrow> 'a word \<Rightarrow> 'a word option" where
  [rust_int]: "checked_add a b =
     (if unat a + unat b < 2 ^ LENGTH('a) then Some (a + b) else None)"

definition checked_sub :: "'a::len word \<Rightarrow> 'a word \<Rightarrow> 'a word option" where
  [rust_int]: "checked_sub a b = (if a < b then None else Some (a - b))"

definition abs_diff :: "'a::len word \<Rightarrow> 'a word \<Rightarrow> 'a word" where
  [rust_int]: "abs_diff a b = (if a < b then b - a else a - b)"

text \<open>The same on \<open>usize\<close>.\<close>

definition usize_max :: nat where
  "usize_max = 2 ^ 64 - 1"

definition checked_add_usize :: "usize \<Rightarrow> usize \<Rightarrow> usize option" where
  "checked_add_usize a b = (if a + b \<le> usize_max then Some (a + b) else None)"

definition checked_mul_usize :: "usize \<Rightarrow> usize \<Rightarrow> usize option" where
  "checked_mul_usize a b = (if a * b \<le> usize_max then Some (a * b) else None)"

text \<open>\<open>u64::try_from(n).unwrap_or(u64::MAX)\<close> of an unbounded (\<open>u128\<close>) value.\<close>

definition u64_or_max :: "nat \<Rightarrow> u64" where
  "u64_or_max n = (if n < 2 ^ 64 then word_of_nat n else - 1)"

definition u32_or_max :: "nat \<Rightarrow> u32" where
  "u32_or_max n = (if n < 2 ^ 32 then word_of_nat n else - 1)"

lemma u64_or_max_code [code]:
  "u64_or_max n = (if n < 18446744073709551616 then word_of_nat n else - 1)"
  by (simp add: u64_or_max_def)

lemma unat_saturating_sub: "unat (saturating_sub a b) = unat a - unat b"
  by (auto simp: saturating_sub_def word_less_nat_alt unat_sub word_le_nat_alt)

lemma unat_minus_1: "unat (- 1 :: 'a::len word) = 2 ^ LENGTH('a) - 1"
  by (simp add: unsigned_minus_1_eq_mask mask_eq_exp_minus_1)

lemma min_pred_power:
  fixes n :: nat
  shows "min n (2 ^ k - 1) = (if n < 2 ^ k then n else 2 ^ k - 1)"
  by (auto simp: min_def)

lemma unat_saturating_add:
  "unat (saturating_add a b :: 'a::len word) = min (unat a + unat b) (2 ^ LENGTH('a) - 1)"
  unfolding saturating_add_def min_pred_power by (simp add: unat_word_ariths unat_minus_1)

text \<open>\<open>u64::MAX\<close> as a number, kept folded in proofs.\<close>

definition U64_MAX :: nat where
  "U64_MAX = 2 ^ 64 - 1"

lemma unat_le_U64_MAX: "unat (x :: u64) \<le> U64_MAX"
proof -
  have "unat x < 2 ^ 64"
    using unsigned_less [of x, where ?'a = nat] by simp
  then show ?thesis
    by (simp add: U64_MAX_def)
qed

lemma unat_saturating_add_u64: "unat (saturating_add a b :: u64) = min (unat a + unat b) U64_MAX"
  by (simp add: unat_saturating_add U64_MAX_def)

lemma unat_saturating_mul:
  "unat (saturating_mul a b :: 'a::len word) = min (unat a * unat b) (2 ^ LENGTH('a) - 1)"
  unfolding saturating_mul_def min_pred_power by (simp add: unat_word_ariths unat_minus_1)

lemma unat_abs_diff: "unat (abs_diff a b) = (if unat a < unat b then unat b - unat a else unat a - unat b)"
  by (auto simp: abs_diff_def word_less_nat_alt unat_sub word_le_nat_alt)

lemma checked_add_SomeD:
  "checked_add a b = Some c \<Longrightarrow> unat c = unat a + unat b"
  by (auto simp: checked_add_def unat_word_ariths split: if_splits)

lemma checked_sub_SomeD:
  "checked_sub a b = Some c \<Longrightarrow> unat c = unat a - unat b \<and> unat b \<le> unat a"
  by (auto simp: checked_sub_def word_less_nat_alt unat_sub word_le_nat_alt split: if_splits)

lemma unat_u64_or_max: "unat (u64_or_max n) = min n (2 ^ 64 - 1)"
  by (auto simp: u64_or_max_def unat_minus_1 unat_of_nat min_def)

lemma unat_u32_or_max: "unat (u32_or_max n) = min n (2 ^ 32 - 1)"
  by (auto simp: u32_or_max_def unat_minus_1 unat_of_nat min_def)

lemma unat_succ:
  fixes x :: "'a::len word"
  assumes "x \<noteq> - 1"
  shows "unat (x + 1) = Suc (unat x)"
proof -
  have "unat x \<noteq> 2 ^ LENGTH('a) - 1"
    using assms by (metis unat_minus_1 word_unat_eq_iff)
  then have "Suc (unat x) < 2 ^ LENGTH('a)"
    using unsigned_less [of x] by (simp add: less_eq_Suc_le [symmetric] le_neq_implies_less)
  then show ?thesis
    by (simp add: unat_word_ariths)
qed

lemma less_minus_1: "x < y \<Longrightarrow> x \<noteq> (- 1 :: 'a::len word)"
  using word_n1_ge [of y] by auto

subsection \<open>Big-endian and little-endian bytes\<close>

text \<open>\<open>uN::to_be_bytes\<close> with \<open>n\<close> bytes, and \<open>uN::from_be_bytes\<close>.\<close>

primrec be_bytes :: "nat \<Rightarrow> nat \<Rightarrow> u8 list" where
  "be_bytes 0 v = []"
| "be_bytes (Suc n) v = be_bytes n (v div 256) @ [word_of_nat v]"

definition from_be :: "u8 list \<Rightarrow> nat" where
  "from_be bs = foldl (\<lambda>acc b. acc * 256 + unat b) 0 bs"

lemma be_bytes_numeral:
  "be_bytes (numeral n) v = be_bytes (pred_numeral n) (v div 256) @ [word_of_nat v]"
  using be_bytes.simps(2) [of "pred_numeral n" v] by (simp only: numeral_eq_Suc [of n, symmetric])

lemma length_be_bytes [simp]: "length (be_bytes n v) = n"
  by (induction n arbitrary: v) simp_all

lemma from_be_snoc: "from_be (bs @ [b]) = from_be bs * 256 + unat b"
  by (simp add: from_be_def)

lemma from_be_Nil [simp]: "from_be [] = 0"
  by (simp add: from_be_def)

lemma from_be_be_bytes: "v < 256 ^ n \<Longrightarrow> from_be (be_bytes n v) = v"
proof (induction n arbitrary: v)
  case (Suc n)
  then have "v div 256 < 256 ^ n"
    by (simp add: less_mult_imp_div_less mult.commute)
  with Suc.IH show ?case
    by (simp add: from_be_snoc unat_of_nat)
qed simp

lemma be_bytes_from_be: "length bs = n \<Longrightarrow> be_bytes n (from_be bs) = bs"
proof (induction n arbitrary: bs)
  case (Suc n)
  then obtain cs b where bs: "bs = cs @ [b]" and len: "length cs = n"
    by (metis length_Suc_conv_rev)
  have "unat b < 256"
    using unsigned_less [of b] by simp
  moreover have "word_of_nat (from_be cs * 256 + unat b) = b"
    by (simp add: word_unat_eq_iff unat_of_nat \<open>unat b < 256\<close> del: of_nat_add of_nat_mult)
  ultimately show ?case
    using Suc.IH [OF len] by (simp add: bs from_be_snoc)
qed simp

lemma from_be_less: "from_be bs < 256 ^ length bs"
proof (induction bs rule: rev_induct)
  case (snoc b bs)
  have "unat b < 256"
    using unsigned_less [of b] by simp
  with snoc show ?case
    by (simp add: from_be_snoc)
qed simp

lemma append_eq_longer_prefix:
  assumes "xs @ ys = us @ vs" and "length us \<le> length xs"
  obtains r where "xs = us @ r" "vs = r @ ys"
  using assms by (auto simp: append_eq_append_conv2)

lemma sorted_wrt_less_le_last:
  fixes xs :: "'a::order list"
  assumes "sorted_wrt (<) xs" and "x \<in> set xs"
  shows "x \<le> last xs"
proof (cases xs rule: rev_cases)
  case (snoc ys y)
  then show ?thesis
    using assms by (auto simp: sorted_wrt_append less_imp_le)
qed (use assms in simp)

end
