(* ===== verification/Rust_F64.thy ===== *)
theory Rust_F64
  imports Complex_Main Rust_Prelude "HOL-Library.Log_Nat" "HOL-Library.Code_Target_Numeral"
begin

section \<open>IEEE-754 binary64\<close>

text \<open>
  A Rust \<open>f64\<close> is its 64-bit pattern. \<open>f64_value\<close> reads the pattern as not-a-number, an
  infinity or a rational number (both zeros are the number 0), \<open>f64_of_rat\<close> rounds a
  rational to the nearest pattern, ties to even, as every arithmetic operation of the
  hardware does. The operations the repository applies to an \<open>f64\<close> are defined on top, all of
  them executable. A zero that an operation produces is the positive zero: the program never looks
  at the sign of a zero.
\<close>

datatype f64 = F64 (to_bits: u64)

abbreviation from_bits :: "u64 \<Rightarrow> f64" where
  "from_bits \<equiv> F64"

datatype f64_number = NaN | Infinite bool | Finite rat

text \<open>\<open>2\<^sup>k\<close> for an integer exponent.\<close>

definition pow2 :: "int \<Rightarrow> rat" where
  "pow2 k = (if 0 \<le> k then 2 ^ nat k else 1 / 2 ^ nat (- k))"

definition f64_sign :: "f64 \<Rightarrow> bool" where
  "f64_sign x \<longleftrightarrow> 2 ^ 63 \<le> unat (to_bits x)"

definition f64_exponent :: "f64 \<Rightarrow> nat" where
  "f64_exponent x = unat (to_bits x) mod 2 ^ 63 div 2 ^ 52"

definition f64_fraction :: "f64 \<Rightarrow> nat" where
  "f64_fraction x = unat (to_bits x) mod 2 ^ 52"

definition f64_magnitude :: "nat \<Rightarrow> nat \<Rightarrow> rat" where
  "f64_magnitude e m =
     (if e = 0 then of_nat m * pow2 (- 1074) else of_nat (2 ^ 52 + m) * pow2 (int e - 1075))"

lemma f64_magnitude_code [code]:
  "f64_magnitude e m =
     (if e = 0 then if m = 0 then 0 else of_nat m * pow2 (- 1074) else of_nat (2 ^ 52 + m) * pow2 (int e - 1075))"
  by (simp add: f64_magnitude_def)

definition f64_value :: "f64 \<Rightarrow> f64_number" where
  "f64_value x =
     (if f64_exponent x = 2047 then (if f64_fraction x = 0 then Infinite (f64_sign x) else NaN)
      else let a = f64_magnitude (f64_exponent x) (f64_fraction x)
           in Finite (if f64_sign x then - a else a))"

subsection \<open>Rounding to nearest, ties to even\<close>

definition floor_log2 :: "rat \<Rightarrow> int" where
  "floor_log2 a =
     (let (p, q) = quotient_of a;
          k = int (floorlog 2 (nat p)) - int (floorlog 2 (nat q))
      in if pow2 k \<le> a then k else k - 1)"

definition round_half_even :: "rat \<Rightarrow> int" where
  "round_half_even x =
     (let f = \<lfloor>x\<rfloor>; d = x - of_int f
      in if d < 1 / 2 then f else if 1 / 2 < d then f + 1 else if even f then f else f + 1)"

definition f64_infinity_bits :: nat where
  "f64_infinity_bits = 2047 * 2 ^ 52"

definition f64_of_rat :: "rat \<Rightarrow> f64" where
  "f64_of_rat r =
     (if r = 0 then F64 0
      else let a = \<bar>r\<bar>;
               e = max (floor_log2 a - 52) (- 1074);
               m = round_half_even (a * pow2 (- e));
               bits = min (nat (e + 1074) * 2 ^ 52 + nat m) f64_infinity_bits
           in F64 (word_of_nat (if r < 0 then 2 ^ 63 + bits else bits)))"

definition f64_nan :: f64 where
  "f64_nan = F64 0x7FF8000000000000"

definition f64_infinity :: "bool \<Rightarrow> f64" where
  "f64_infinity s = F64 (word_of_nat ((if s then 2 ^ 63 else 0) + f64_infinity_bits))"

subsection \<open>Operations\<close>

definition is_finite :: "f64 \<Rightarrow> bool" where
  "is_finite x = (case f64_value x of Finite _ \<Rightarrow> True | _ \<Rightarrow> False)"

text \<open>The partial order of \<open>PartialOrd for f64\<close>: every comparison with a NaN is false.\<close>

definition f64_le :: "f64 \<Rightarrow> f64 \<Rightarrow> bool" where
  "f64_le x y =
     (case (f64_value x, f64_value y) of
        (NaN, _) \<Rightarrow> False
      | (_, NaN) \<Rightarrow> False
      | (Infinite s, Infinite t) \<Rightarrow> s \<or> \<not> t
      | (Infinite s, Finite _) \<Rightarrow> s
      | (Finite _, Infinite t) \<Rightarrow> \<not> t
      | (Finite a, Finite b) \<Rightarrow> a \<le> b)"

definition f64_less :: "f64 \<Rightarrow> f64 \<Rightarrow> bool" where
  "f64_less x y =
     (case (f64_value x, f64_value y) of
        (NaN, _) \<Rightarrow> False
      | (_, NaN) \<Rightarrow> False
      | (Infinite s, Infinite t) \<Rightarrow> s \<and> \<not> t
      | (Infinite s, Finite _) \<Rightarrow> s
      | (Finite _, Infinite t) \<Rightarrow> \<not> t
      | (Finite a, Finite b) \<Rightarrow> a < b)"

definition f64_sub :: "f64 \<Rightarrow> f64 \<Rightarrow> f64" where
  "f64_sub x y =
     (case (f64_value x, f64_value y) of
        (NaN, _) \<Rightarrow> f64_nan
      | (_, NaN) \<Rightarrow> f64_nan
      | (Infinite s, Infinite t) \<Rightarrow> if s = t then f64_nan else f64_infinity s
      | (Infinite s, Finite _) \<Rightarrow> f64_infinity s
      | (Finite _, Infinite t) \<Rightarrow> f64_infinity (\<not> t)
      | (Finite a, Finite b) \<Rightarrow> f64_of_rat (a - b))"

definition f64_abs :: "f64 \<Rightarrow> f64" where
  "f64_abs x = F64 (word_of_nat (unat (to_bits x) mod 2 ^ 63))"

text \<open>\<open>x.round() as u64\<close>: halves away from zero, then the saturating cast (a NaN gives 0).\<close>

definition round_half_away :: "rat \<Rightarrow> int" where
  "round_half_away r = (if 0 \<le> r then \<lfloor>r + 1 / 2\<rfloor> else - \<lfloor>1 / 2 - r\<rfloor>)"

definition f64_round_as_u64 :: "f64 \<Rightarrow> u64" where
  "f64_round_as_u64 x =
     (case f64_value x of
        NaN \<Rightarrow> 0
      | Infinite s \<Rightarrow> if s then 0 else - 1
      | Finite r \<Rightarrow> u64_or_max (nat (round_half_away r)))"

definition u64_to_f64 :: "u64 \<Rightarrow> f64" where
  "u64_to_f64 n = f64_of_rat (of_nat (unat n))"

definition f64_add :: "f64 \<Rightarrow> f64 \<Rightarrow> f64" where
  "f64_add x y =
     (case (f64_value x, f64_value y) of
        (NaN, _) \<Rightarrow> f64_nan
      | (_, NaN) \<Rightarrow> f64_nan
      | (Infinite s, Infinite t) \<Rightarrow> if s = t then f64_infinity s else f64_nan
      | (Infinite s, Finite _) \<Rightarrow> f64_infinity s
      | (Finite _, Infinite t) \<Rightarrow> f64_infinity t
      | (Finite a, Finite b) \<Rightarrow> f64_of_rat (a + b))"

definition f64_mul :: "f64 \<Rightarrow> f64 \<Rightarrow> f64" where
  "f64_mul x y =
     (case (f64_value x, f64_value y) of
        (NaN, _) \<Rightarrow> f64_nan
      | (_, NaN) \<Rightarrow> f64_nan
      | (Finite a, Finite b) \<Rightarrow> f64_of_rat (a * b)
      | (Finite a, Infinite t) \<Rightarrow> if a = 0 then f64_nan else f64_infinity ((a < 0) \<noteq> t)
      | (Infinite s, Finite b) \<Rightarrow> if b = 0 then f64_nan else f64_infinity (s \<noteq> (b < 0))
      | (Infinite s, Infinite t) \<Rightarrow> f64_infinity (s \<noteq> t))"

definition f64_div :: "f64 \<Rightarrow> f64 \<Rightarrow> f64" where
  "f64_div x y =
     (case (f64_value x, f64_value y) of
        (NaN, _) \<Rightarrow> f64_nan
      | (_, NaN) \<Rightarrow> f64_nan
      | (Finite a, Finite b) \<Rightarrow>
          if b \<noteq> 0 then f64_of_rat (a / b)
          else if a = 0 then f64_nan else f64_infinity ((a < 0) \<noteq> f64_sign y)
      | (Finite a, Infinite t) \<Rightarrow> f64_of_rat 0
      | (Infinite s, Finite b) \<Rightarrow> f64_infinity (s \<noteq> f64_sign y)
      | (Infinite s, Infinite t) \<Rightarrow> f64_nan)"

text \<open>\<open>f64::max\<close> and \<open>f64::min\<close>: the other operand where one is a NaN.\<close>

definition f64_max :: "f64 \<Rightarrow> f64 \<Rightarrow> f64" where
  "f64_max x y = (if f64_value x = NaN then y else if f64_value y = NaN then x else if f64_le x y then y else x)"

definition f64_min :: "f64 \<Rightarrow> f64 \<Rightarrow> f64" where
  "f64_min x y = (if f64_value x = NaN then y else if f64_value y = NaN then x else if f64_le x y then x else y)"

text \<open>\<open>f64::total_cmp\<close> orders patterns by this key.\<close>

definition f64_total_key :: "f64 \<Rightarrow> int" where
  "f64_total_key x = (if f64_sign x then - 1 - int (unat (to_bits x) mod 2 ^ 63) else int (unat (to_bits x)))"

text \<open>\<open>sum::<f64>()\<close> adds from left to right.\<close>

definition f64_sum :: "f64 list \<Rightarrow> f64" where
  "f64_sum xs = foldl f64_add (f64_of_rat 0) xs"

end
