(* ===== verification/Domain_Settings.thy ===== *)
theory Domain_Settings
  imports Rust_F64
begin

section \<open>Tuning settings\<close>

text \<open>
  \<open>domain/settings.rs\<close>: the shared timing and buffering settings, their defaults and their
  validation (the ranges of every field, then the distance between the late-packet and the
  hard-resynchronisation thresholds).
\<close>

record tuning_settings =
  ts_sync_sample_window :: u16
  ts_sync_cadence_ms :: u64
  ts_startup_buffer_ms :: u64
  ts_late_packet_threshold_ms :: u64
  ts_hard_resync_threshold_ms :: u64
  ts_sync_drift_threshold_ms :: f64
  ts_scan_window_ms :: u64

datatype tuning_settings_validation_error =
    SyncSampleWindow
  | SyncCadence
  | StartupBuffer
  | LatePacketThreshold
  | HardResyncThreshold
  | SyncDriftThreshold
  | ScanWindow
  | ThresholdRelationship

definition MIN_RESYNC_THRESHOLD_GAP_MS :: u64 where
  "MIN_RESYNC_THRESHOLD_GAP_MS = 20"

definition tuning_settings_default :: tuning_settings where
  "tuning_settings_default =
     \<lparr>ts_sync_sample_window = 12, ts_sync_cadence_ms = 2000, ts_startup_buffer_ms = 400,
      ts_late_packet_threshold_ms = 40, ts_hard_resync_threshold_ms = 120,
      ts_sync_drift_threshold_ms = f64_of_rat 18, ts_scan_window_ms = 3000\<rparr>"

definition tuning_settings_validate ::
    "tuning_settings \<Rightarrow> tuning_settings_validation_error + unit" where
  "tuning_settings_validate s =
     (if \<not> (4 \<le> ts_sync_sample_window s \<and> ts_sync_sample_window s \<le> 32) then Inl SyncSampleWindow
      else if \<not> (500 \<le> ts_sync_cadence_ms s \<and> ts_sync_cadence_ms s \<le> 5000) then Inl SyncCadence
      else if \<not> (100 \<le> ts_startup_buffer_ms s \<and> ts_startup_buffer_ms s \<le> 1500)
      then Inl StartupBuffer
      else if \<not> (10 \<le> ts_late_packet_threshold_ms s \<and> ts_late_packet_threshold_ms s \<le> 250)
      then Inl LatePacketThreshold
      else if \<not> (40 \<le> ts_hard_resync_threshold_ms s \<and> ts_hard_resync_threshold_ms s \<le> 500)
      then Inl HardResyncThreshold
      else if \<not> is_finite (ts_sync_drift_threshold_ms s) \<or>
              \<not> (f64_le (f64_of_rat 4) (ts_sync_drift_threshold_ms s) \<and>
                 f64_le (ts_sync_drift_threshold_ms s) (f64_of_rat 100))
      then Inl SyncDriftThreshold
      else if \<not> (1000 \<le> ts_scan_window_ms s \<and> ts_scan_window_ms s \<le> 10000) then Inl ScanWindow
      else try_bind
             (ok_or (checked_add (ts_late_packet_threshold_ms s) MIN_RESYNC_THRESHOLD_GAP_MS)
                ThresholdRelationship)
             (\<lambda>minimum_hard_resync.
                if ts_hard_resync_threshold_ms s < minimum_hard_resync
                then Inl ThresholdRelationship else Inr ()))"

lemma f64_value_4: "f64_value (f64_of_rat 4) = Finite 4"
  by code_simp

lemma f64_value_18: "f64_value (f64_of_rat 18) = Finite 18"
  by code_simp

lemma f64_value_100: "f64_value (f64_of_rat 100) = Finite 100"
  by code_simp

lemma f64_le_value_cases:
  assumes "is_finite x" and "f64_le (f64_of_rat 4) x" and "f64_le x (f64_of_rat 100)"
  obtains d where "f64_value x = Finite d" and "4 \<le> d" and "d \<le> 100"
  using assms
  by (auto simp: is_finite_def f64_le_def f64_value_4 f64_value_100 split: f64_number.splits)

text \<open>
  Validated tuning settings are usable. Settings that pass \<open>TuningSettings::validate\<close> have a
  drift threshold that is a number (not a NaN, not infinite) between 4 and 100 milliseconds, a
  positive synchronisation cadence, a startup buffer within 100 to 1500 milliseconds, and a
  hard-resynchronisation threshold that exceeds the late-packet threshold by at least 20
  milliseconds, as integers and without wrap-around.
\<close>

theorem tuning_validate_ok:
  assumes "tuning_settings_validate s = Inr ()"
  shows "(\<exists>d. f64_value (ts_sync_drift_threshold_ms s) = Finite d \<and> 4 \<le> d \<and> d \<le> 100) \<and>
     0 < ts_sync_cadence_ms s \<and>
     100 \<le> unat (ts_startup_buffer_ms s) \<and> unat (ts_startup_buffer_ms s) \<le> 1500 \<and>
     unat (ts_late_packet_threshold_ms s) + 20 \<le> unat (ts_hard_resync_threshold_ms s) \<and>
     unat (ts_hard_resync_threshold_ms s) \<le> 500"
proof -
  have ranges: "is_finite (ts_sync_drift_threshold_ms s)"
    "f64_le (f64_of_rat 4) (ts_sync_drift_threshold_ms s)"
    "f64_le (ts_sync_drift_threshold_ms s) (f64_of_rat 100)"
    "500 \<le> ts_sync_cadence_ms s" "100 \<le> ts_startup_buffer_ms s" "ts_startup_buffer_ms s \<le> 1500"
    "ts_hard_resync_threshold_ms s \<le> 500"
    and gap: "try_bind
      (ok_or (checked_add (ts_late_packet_threshold_ms s) MIN_RESYNC_THRESHOLD_GAP_MS)
         ThresholdRelationship)
      (\<lambda>m. if ts_hard_resync_threshold_ms s < m then Inl ThresholdRelationship else Inr ())
      = Inr ()"
    using assms unfolding tuning_settings_validate_def by (simp_all split: if_splits)
  obtain d where d: "f64_value (ts_sync_drift_threshold_ms s) = Finite d" "4 \<le> d" "d \<le> 100"
    using ranges(1-3) by (rule f64_le_value_cases)
  obtain m where m: "checked_add (ts_late_packet_threshold_ms s) MIN_RESYNC_THRESHOLD_GAP_MS = Some m"
    "m \<le> ts_hard_resync_threshold_ms s"
    using gap by (auto simp: try_bind_Inr_iff ok_or_def split: option.splits if_splits)
  have "unat m = unat (ts_late_packet_threshold_ms s) + 20"
    using checked_add_SomeD [OF m(1)] by (simp add: MIN_RESYNC_THRESHOLD_GAP_MS_def)
  with d m(2) ranges(4-7) show ?thesis
    by (auto simp: word_le_nat_alt word_less_nat_alt)
qed

text \<open>The default settings are such settings.\<close>

theorem tuning_validate_ok_witness:
  "tuning_settings_validate tuning_settings_default = Inr () \<and>
   unat (ts_late_packet_threshold_ms tuning_settings_default) + 20
     \<le> unat (ts_hard_resync_threshold_ms tuning_settings_default)"
proof -
  have h: "tuning_settings_validate tuning_settings_default = Inr ()"
    by (simp add: tuning_settings_validate_def tuning_settings_default_def is_finite_def f64_le_def
        f64_value_4 f64_value_18 f64_value_100 checked_add_def MIN_RESYNC_THRESHOLD_GAP_MS_def)
  show ?thesis
    using h tuning_validate_ok [OF h] by simp
qed

end
