(* ===== verification/Rust_Str.thy ===== *)
theory Rust_Str
  imports Rust_Prelude
begin

section \<open>Rust characters and strings\<close>

text \<open>
  A Rust \<open>char\<close> is a Unicode scalar value, a \<open>str\<close> a sequence of them stored in UTF-8. The
  theory defines the type of scalar values, the part of \<open>core::str\<close> and \<open>core::char\<close> the
  repository uses (\<open>len\<close>, \<open>as_bytes\<close>, \<open>from_utf8\<close>, \<open>trim\<close>, \<open>is_control\<close>,
  \<open>is_whitespace\<close>, \<open>char_indices\<close>), and shows that UTF-8 decoding is the exact inverse of
  encoding: the two halves are an interpretation of the \<open>byte_codec\<close> contract.
\<close>

subsection \<open>Unicode scalar values\<close>

definition is_scalar :: "nat \<Rightarrow> bool" where
  "is_scalar n \<longleftrightarrow> n < 0x110000 \<and> \<not> (0xD800 \<le> n \<and> n \<le> 0xDFFF)"

typedef uchar = "{n. is_scalar n}"
  morphisms code_point Uchar
  by (rule exI [of _ 0]) (simp add: is_scalar_def)

setup_lifting type_definition_uchar

text \<open>The character of a code point; outside the scalar values, the replacement character.\<close>

lift_definition mk_char :: "nat \<Rightarrow> uchar" is "\<lambda>n. if is_scalar n then n else 0xFFFD"
  by (simp add: is_scalar_def)

instantiation uchar :: equal
begin

definition equal_uchar :: "uchar \<Rightarrow> uchar \<Rightarrow> bool" where
  "equal_uchar a b \<longleftrightarrow> code_point a = code_point b"

instance
  by standard (simp add: equal_uchar_def code_point_inject)

end

instantiation uchar :: linorder
begin

definition less_eq_uchar :: "uchar \<Rightarrow> uchar \<Rightarrow> bool" where
  "less_eq_uchar a b \<longleftrightarrow> code_point a \<le> code_point b"

definition less_uchar :: "uchar \<Rightarrow> uchar \<Rightarrow> bool" where
  "less_uchar a b \<longleftrightarrow> code_point a < code_point b"

instance
  by standard (auto simp: less_eq_uchar_def less_uchar_def code_point_inject)

end

lemma code_point_scalar [simp]: "is_scalar (code_point c)"
  using code_point [of c] by simp

lemma code_point_mk_char [simp]: "is_scalar n \<Longrightarrow> code_point (mk_char n) = n"
  by transfer simp

lemma mk_char_code_point [simp]: "mk_char (code_point c) = c"
  by transfer simp

lemma mk_char_inject: "is_scalar m \<Longrightarrow> is_scalar n \<Longrightarrow> mk_char m = mk_char n \<longleftrightarrow> m = n"
  by (metis code_point_mk_char)

type_synonym str = "uchar list"

text \<open>An ASCII literal of the source as a \<open>str\<close>.\<close>

definition lit :: "string \<Rightarrow> str" where
  "lit s = map (\<lambda>c. mk_char (of_char c)) s"

lemma is_scalar_of_char [simp]: "is_scalar (of_char c)"
  using nat_of_char_less_256 [of c] by (simp add: is_scalar_def del: nat_of_char_less_256)

lemma code_points_lit: "map code_point (lit s) = map of_char s"
  by (simp add: lit_def)

lemma lit_inject [simp]: "lit s = lit t \<longleftrightarrow> s = t"
proof
  assume "lit s = lit t"
  then have "map (of_char :: char \<Rightarrow> nat) s = map of_char t"
    using code_points_lit by metis
  then show "s = t"
    by (rule map_injective) (simp add: inj_on_def)
qed simp

subsection \<open>Character classes and trimming\<close>

text \<open>\<open>char::is_control\<close> (general category Cc) and \<open>char::is_whitespace\<close> (White\_Space).\<close>

definition is_control :: "uchar \<Rightarrow> bool" where
  "is_control c \<longleftrightarrow> (let n = code_point c in n \<le> 0x1F \<or> (0x7F \<le> n \<and> n \<le> 0x9F))"

definition is_whitespace :: "uchar \<Rightarrow> bool" where
  "is_whitespace c \<longleftrightarrow> (let n = code_point c in
     (0x09 \<le> n \<and> n \<le> 0x0D) \<or> n = 0x20 \<or> n = 0x85 \<or> n = 0xA0 \<or> n = 0x1680 \<or>
     (0x2000 \<le> n \<and> n \<le> 0x200A) \<or> n = 0x2028 \<or> n = 0x2029 \<or> n = 0x202F \<or>
     n = 0x205F \<or> n = 0x3000)"

definition trim :: "str \<Rightarrow> str" where
  "trim s = rev (dropWhile is_whitespace (rev (dropWhile is_whitespace s)))"

subsection \<open>UTF-8\<close>

text \<open>\<open>char::encode_utf8\<close>, as byte values.\<close>

definition utf8_nats :: "nat \<Rightarrow> nat list" where
  "utf8_nats c =
     (if c < 0x80 then [c]
      else if c < 0x800 then [0xC0 + c div 64, 0x80 + c mod 64]
      else if c < 0x10000 then [0xE0 + c div 4096, 0x80 + c div 64 mod 64, 0x80 + c mod 64]
      else [0xF0 + c div 262144, 0x80 + c div 4096 mod 64, 0x80 + c div 64 mod 64,
            0x80 + c mod 64])"

definition is_cont :: "nat \<Rightarrow> bool" where
  "is_cont b \<longleftrightarrow> 0x80 \<le> b \<and> b \<le> 0xBF"

text \<open>
  The first character of a byte sequence and its width, with the second-byte ranges that
  \<open>core::str::from_utf8\<close> checks (no overlong form, no surrogate, nothing above U+10FFFF).
\<close>

definition utf8_step :: "nat list \<Rightarrow> (nat \<times> nat) option" where
  "utf8_step bs =
     (case bs of
        [] \<Rightarrow> None
      | b0 # r \<Rightarrow>
          if b0 < 0x80 then Some (b0, 1)
          else if 0xC2 \<le> b0 \<and> b0 \<le> 0xDF then
            (case r of
               b1 # _ \<Rightarrow> if is_cont b1 then Some ((b0 - 0xC0) * 64 + (b1 - 0x80), 2) else None
             | _ \<Rightarrow> None)
          else if 0xE0 \<le> b0 \<and> b0 \<le> 0xEF then
            (case r of
               b1 # b2 # _ \<Rightarrow>
                 if is_cont b1 \<and> is_cont b2 \<and> (b0 = 0xE0 \<longrightarrow> 0xA0 \<le> b1) \<and> (b0 = 0xED \<longrightarrow> b1 \<le> 0x9F)
                 then Some ((b0 - 0xE0) * 4096 + (b1 - 0x80) * 64 + (b2 - 0x80), 3) else None
             | _ \<Rightarrow> None)
          else if 0xF0 \<le> b0 \<and> b0 \<le> 0xF4 then
            (case r of
               b1 # b2 # b3 # _ \<Rightarrow>
                 if is_cont b1 \<and> is_cont b2 \<and> is_cont b3 \<and>
                    (b0 = 0xF0 \<longrightarrow> 0x90 \<le> b1) \<and> (b0 = 0xF4 \<longrightarrow> b1 \<le> 0x8F)
                 then Some ((b0 - 0xF0) * 262144 + (b1 - 0x80) * 4096 + (b2 - 0x80) * 64
                            + (b3 - 0x80), 4)
                 else None
             | _ \<Rightarrow> None)
          else None)"

lemma utf8_step_1: "b < 0x80 \<Longrightarrow> utf8_step (b # r) = Some (b, 1)"
  by (simp add: utf8_step_def)

lemma utf8_step_2:
  "2 \<le> a \<Longrightarrow> a \<le> 0x1F \<Longrightarrow> m < 64 \<Longrightarrow>
     utf8_step ((0xC0 + a) # (0x80 + m) # r) = Some (a * 64 + m, 2)"
  by (simp add: utf8_step_def is_cont_def)

lemma utf8_step_3:
  "a \<le> 0xF \<Longrightarrow> b < 64 \<Longrightarrow> m < 64 \<Longrightarrow> (a = 0 \<longrightarrow> 0x20 \<le> b) \<Longrightarrow> (a = 0xD \<longrightarrow> b \<le> 0x1F) \<Longrightarrow>
     utf8_step ((0xE0 + a) # (0x80 + b) # (0x80 + m) # r) = Some (a * 4096 + b * 64 + m, 3)"
  by (simp add: utf8_step_def is_cont_def)

lemma utf8_step_4:
  "a \<le> 4 \<Longrightarrow> b < 64 \<Longrightarrow> d < 64 \<Longrightarrow> m < 64 \<Longrightarrow> (a = 0 \<longrightarrow> 0x10 \<le> b) \<Longrightarrow> (a = 4 \<longrightarrow> b \<le> 0xF) \<Longrightarrow>
     utf8_step ((0xF0 + a) # (0x80 + b) # (0x80 + d) # (0x80 + m) # r)
     = Some (a * 262144 + b * 4096 + d * 64 + m, 4)"
  by (simp add: utf8_step_def is_cont_def)

lemma base64_digits:
  fixes c :: nat
  shows "c div 64 * 64 + c mod 64 = c" and "c mod 64 < 64"
    and "c div 4096 * 4096 + c div 64 mod 64 * 64 + c mod 64 = c" and "c div 64 mod 64 < 64"
    and "c div 262144 * 262144 + c div 4096 mod 64 * 4096 + c div 64 mod 64 * 64 + c mod 64 = c"
    and "c div 4096 mod 64 < 64"
proof -
  have q: "c div 4096 = c div 64 div 64" "c div 262144 = c div 64 div 64 div 64"
    by (simp_all add: div_mult2_eq [symmetric])
  show "c div 64 * 64 + c mod 64 = c"
    by (rule div_mult_mod_eq)
  show three: "c div 4096 * 4096 + c div 64 mod 64 * 64 + c mod 64 = c"
    using div_mult_mod_eq [of "c div 64" 64] div_mult_mod_eq [of c 64] unfolding q by linarith
  show "c div 262144 * 262144 + c div 4096 mod 64 * 4096 + c div 64 mod 64 * 64 + c mod 64 = c"
    using three div_mult_mod_eq [of "c div 64 div 64" 64] unfolding q by linarith
qed simp_all

lemma utf8_step_encode:
  assumes "is_scalar c"
  shows "utf8_step (utf8_nats c @ r) = Some (c, length (utf8_nats c))"
proof -
  have c: "c < 0x110000" "\<not> (0xD800 \<le> c \<and> c \<le> 0xDFFF)"
    using assms by (simp_all add: is_scalar_def)
  consider "c < 0x80" | "0x80 \<le> c" "c < 0x800" | "0x800 \<le> c" "c < 0x10000" | "0x10000 \<le> c"
    by linarith
  then show ?thesis
  proof cases
    case 1
    then show ?thesis by (simp add: utf8_nats_def utf8_step_1)
  next
    case 2
    then have "2 \<le> c div 64" "c div 64 \<le> 0x1F"
      using base64_digits(1,2) [of c] by linarith+
    then show ?thesis
      using 2 base64_digits(1,2) [of c] utf8_step_2 [of "c div 64" "c mod 64" r]
      by (simp add: utf8_nats_def)
  next
    case 3
    define a b m where "a = c div 4096" and "b = c div 64 mod 64" and "m = c mod 64"
    have sum: "a * 4096 + b * 64 + m = c" and bnd: "b < 64" "m < 64"
      using base64_digits [of c] by (simp_all add: a_def b_def m_def)
    then have "a \<le> 0xF" "a = 0 \<longrightarrow> 0x20 \<le> b" "a = 0xD \<longrightarrow> b \<le> 0x1F"
      using 3 c(2) by linarith+
    then show ?thesis
      using 3 sum bnd utf8_step_3 [of a b m r]
      by (simp add: utf8_nats_def a_def [symmetric] b_def [symmetric] m_def [symmetric])
  next
    case 4
    define a b d m where "a = c div 262144" and "b = c div 4096 mod 64"
      and "d = c div 64 mod 64" and "m = c mod 64"
    have sum: "a * 262144 + b * 4096 + d * 64 + m = c" and bnd: "b < 64" "d < 64" "m < 64"
      using base64_digits [of c] by (simp_all add: a_def b_def d_def m_def)
    then have "a \<le> 4" "a = 0 \<longrightarrow> 0x10 \<le> b" "a = 4 \<longrightarrow> b \<le> 0xF"
      using 4 c(1) by linarith+
    then show ?thesis
      using 4 sum bnd utf8_step_4 [of a b d m r]
      by (simp add: utf8_nats_def a_def [symmetric] b_def [symmetric] d_def [symmetric]
          m_def [symmetric])
  qed
qed

lemma low_digit:
  fixes m q :: nat
  assumes "m < 64"
  shows "(q * 64 + m) div 64 = q" and "(q * 64 + m) mod 64 = m"
  using assms by simp_all

lemma utf8_nats_2:
  "2 \<le> a \<Longrightarrow> a \<le> 0x1F \<Longrightarrow> m < 64 \<Longrightarrow> utf8_nats (a * 64 + m) = [0xC0 + a, 0x80 + m]"
  by (simp add: utf8_nats_def)

lemma utf8_nats_3:
  assumes "a \<le> 0xF" "b < 64" "m < 64" "a = 0 \<longrightarrow> 0x20 \<le> b"
  shows "utf8_nats (a * 4096 + b * 64 + m) = [0xE0 + a, 0x80 + b, 0x80 + m]"
proof -
  let ?c = "a * 4096 + b * 64 + m"
  have q: "?c = (a * 64 + b) * 64 + m" by simp
  have d: "?c div 64 = a * 64 + b" "?c mod 64 = m"
    unfolding q by (rule low_digit [OF assms(3)])+
  have "?c div 4096 = ?c div 64 div 64"
    by (simp add: div_mult2_eq [symmetric])
  then have "?c div 4096 = a" "?c div 64 mod 64 = b"
    unfolding d using assms(2) by simp_all
  moreover have "0x800 \<le> ?c" "?c < 0x10000"
    using assms by linarith+
  ultimately show ?thesis
    using d(2) unfolding utf8_nats_def by simp
qed

lemma utf8_nats_4:
  assumes "a \<le> 4" "b < 64" "d < 64" "m < 64" "a = 0 \<longrightarrow> 0x10 \<le> b"
  shows "utf8_nats (a * 262144 + b * 4096 + d * 64 + m) = [0xF0 + a, 0x80 + b, 0x80 + d, 0x80 + m]"
proof -
  let ?c = "a * 262144 + b * 4096 + d * 64 + m"
  have q: "?c = (a * 4096 + b * 64 + d) * 64 + m" "a * 4096 + b * 64 + d = (a * 64 + b) * 64 + d"
    by simp_all
  have d: "?c div 64 = (a * 64 + b) * 64 + d" "?c mod 64 = m"
    unfolding q(1) unfolding q(2) by (rule low_digit [OF assms(4)])+
  have "?c div 4096 = ?c div 64 div 64" "?c div 262144 = ?c div 64 div 64 div 64"
    by (simp_all add: div_mult2_eq [symmetric])
  then have "?c div 262144 = a" "?c div 4096 mod 64 = b" "?c div 64 mod 64 = d"
    unfolding d by (simp_all only: low_digit [OF assms(2)] low_digit [OF assms(3)])
  moreover have "0x10000 \<le> ?c"
    using assms by linarith
  ultimately show ?thesis
    using d(2) unfolding utf8_nats_def by simp
qed

lemma utf8_step_decode:
  assumes "utf8_step bs = Some (c, w)"
  shows "is_scalar c \<and> 0 < w \<and> w \<le> length bs \<and> utf8_nats c = take w bs"
proof -
  obtain b0 r where bs: "bs = b0 # r"
    using assms by (cases bs) (simp_all add: utf8_step_def)
  consider (one) "b0 < 0x80" "c = b0" "w = 1"
    | (two) b1 r' where "r = b1 # r'" "0xC2 \<le> b0" "b0 \<le> 0xDF" "is_cont b1"
        "c = (b0 - 0xC0) * 64 + (b1 - 0x80)" "w = 2"
    | (three) b1 b2 r' where "r = b1 # b2 # r'" "0xE0 \<le> b0" "b0 \<le> 0xEF" "is_cont b1" "is_cont b2"
        "b0 = 0xE0 \<longrightarrow> 0xA0 \<le> b1" "b0 = 0xED \<longrightarrow> b1 \<le> 0x9F"
        "c = (b0 - 0xE0) * 4096 + (b1 - 0x80) * 64 + (b2 - 0x80)" "w = 3"
    | (four) b1 b2 b3 r' where "r = b1 # b2 # b3 # r'" "0xF0 \<le> b0" "b0 \<le> 0xF4" "is_cont b1"
        "is_cont b2" "is_cont b3" "b0 = 0xF0 \<longrightarrow> 0x90 \<le> b1" "b0 = 0xF4 \<longrightarrow> b1 \<le> 0x8F"
        "c = (b0 - 0xF0) * 262144 + (b1 - 0x80) * 4096 + (b2 - 0x80) * 64 + (b3 - 0x80)" "w = 4"
    using assms unfolding bs utf8_step_def
    by (simp split: if_splits list.splits)
  then show ?thesis
  proof cases
    case one
    then show ?thesis by (simp add: bs utf8_nats_def is_scalar_def)
  next
    case two
    then obtain a m where ab: "b0 = 0xC0 + a" "b1 = 0x80 + m"
      by (auto simp: is_cont_def le_iff_add)
    then have bnd: "2 \<le> a" "a \<le> 0x1F" "m < 64" and c: "c = a * 64 + m"
      using two by (simp_all add: is_cont_def)
    have "is_scalar c"
      unfolding is_scalar_def c using bnd by linarith
    moreover have "utf8_nats c = [b0, b1]"
      unfolding c ab by (rule utf8_nats_2 [OF bnd])
    ultimately show ?thesis
      using two by (simp add: bs)
  next
    case three
    then obtain a b m where ab: "b0 = 0xE0 + a" "b1 = 0x80 + b" "b2 = 0x80 + m"
      by (auto simp: is_cont_def le_iff_add)
    then have bnd: "a \<le> 0xF" "b < 64" "m < 64" "a = 0 \<longrightarrow> 0x20 \<le> b" and surrogate: "a = 0xD \<longrightarrow> b < 0x20"
      and c: "c = a * 4096 + b * 64 + m"
      using three by (auto simp: is_cont_def)
    have "is_scalar c"
    proof (cases "a = 0xD")
      case True
      then show ?thesis using bnd surrogate by (simp add: c is_scalar_def)
    next
      case False
      then have "a \<le> 0xC \<or> 0xE \<le> a" by linarith
      then show ?thesis using bnd unfolding c is_scalar_def by linarith
    qed
    moreover have "utf8_nats c = [b0, b1, b2]"
      unfolding c ab by (rule utf8_nats_3 [OF bnd])
    ultimately show ?thesis
      using three by (simp add: bs)
  next
    case four
    then obtain a b d m where ab: "b0 = 0xF0 + a" "b1 = 0x80 + b" "b2 = 0x80 + d" "b3 = 0x80 + m"
      by (auto simp: is_cont_def le_iff_add)
    then have bnd: "a \<le> 4" "b < 64" "d < 64" "m < 64" "a = 0 \<longrightarrow> 0x10 \<le> b"
      and "a = 4 \<longrightarrow> b < 0x10" and c: "c = a * 262144 + b * 4096 + d * 64 + m"
      using four by (auto simp: is_cont_def)
    then have "is_scalar c"
      unfolding is_scalar_def by linarith
    moreover have "utf8_nats c = [b0, b1, b2, b3]"
      unfolding c ab by (rule utf8_nats_4 [OF bnd])
    ultimately show ?thesis
      using four by (simp add: bs)
  qed
qed

text \<open>The whole input, character by character: \<open>core::str::from_utf8\<close> and \<open>str::as_bytes\<close>.\<close>

function from_utf8_nats :: "nat list \<Rightarrow> nat list option" where
  "from_utf8_nats bs =
     (if bs = [] then Some []
      else case utf8_step bs of
             None \<Rightarrow> None
           | Some (c, w) \<Rightarrow> map_option ((#) c) (from_utf8_nats (drop w bs)))"
  by pat_completeness auto
termination
  by (relation "measure length") (auto dest: utf8_step_decode)

declare from_utf8_nats.simps [simp del]

definition from_utf8 :: "u8 list \<Rightarrow> str option" where
  "from_utf8 bs = map_option (map mk_char) (from_utf8_nats (map unat bs))"

definition str_nats :: "str \<Rightarrow> nat list" where
  "str_nats s = concat (map (\<lambda>c. utf8_nats (code_point c)) s)"

definition as_bytes :: "str \<Rightarrow> u8 list" where
  "as_bytes s = map word_of_nat (str_nats s)"

text \<open>\<open>str::len\<close> is the length in bytes.\<close>

definition str_len :: "str \<Rightarrow> usize" where
  "str_len s = length (as_bytes s)"

lemma utf8_nats_less_256:
  assumes "is_scalar c" and "b \<in> set (utf8_nats c)"
  shows "b < 256"
proof -
  have "c < 0x110000"
    using assms(1) by (simp add: is_scalar_def)
  then have "c div 262144 < 16" "c < 0x10000 \<Longrightarrow> c div 4096 < 16" "c < 0x800 \<Longrightarrow> c div 64 < 32"
    by (simp_all add: div_less_iff_less_mult)
  moreover have "c mod 64 < 64" "c div 64 mod 64 < 64" "c div 4096 mod 64 < 64"
    by simp_all
  ultimately show ?thesis
    using assms(2) by (auto simp: utf8_nats_def split: if_splits)
qed

lemma unat_as_bytes: "map unat (as_bytes s) = str_nats s"
proof -
  have "\<forall>b \<in> set (str_nats s). b < 256"
    by (auto simp: str_nats_def dest: utf8_nats_less_256 [OF code_point_scalar])
  then show ?thesis
    unfolding as_bytes_def by (auto simp: unat_of_nat intro: map_idI)
qed

lemma from_utf8_nats_encode: "from_utf8_nats (str_nats s) = Some (map code_point s)"
proof (induction s)
  case Nil
  then show ?case by (simp add: str_nats_def from_utf8_nats.simps)
next
  case (Cons c s)
  let ?e = "utf8_nats (code_point c)"
  have split: "str_nats (c # s) = ?e @ str_nats s"
    by (simp add: str_nats_def)
  have "utf8_step (?e @ str_nats s) = Some (code_point c, length ?e)"
    by (rule utf8_step_encode) simp
  moreover have "?e \<noteq> []"
    by (simp add: utf8_nats_def)
  ultimately show ?case
    using Cons unfolding split by (simp add: from_utf8_nats.simps [of "?e @ str_nats s"])
qed

lemma from_utf8_nats_decode:
  "from_utf8_nats bs = Some cs \<Longrightarrow> str_nats (map mk_char cs) = bs \<and> list_all is_scalar cs"
proof (induction bs arbitrary: cs rule: from_utf8_nats.induct)
  case (1 bs)
  show ?case
  proof (cases "bs = []")
    case True
    with "1.prems" show ?thesis
      by (simp add: from_utf8_nats.simps [of "[]"] str_nats_def)
  next
    case False
    with "1.prems" obtain c w ds where step: "utf8_step bs = Some (c, w)"
      and rest: "from_utf8_nats (drop w bs) = Some ds" and cs: "cs = c # ds"
      by (auto simp: from_utf8_nats.simps [of bs] split: option.splits)
    have IH: "str_nats (map mk_char ds) = drop w bs \<and> list_all is_scalar ds"
      by (rule "1.IH" [OF False step refl rest])
    have c: "is_scalar c" "utf8_nats c = take w bs"
      using utf8_step_decode [OF step] by simp_all
    then have "str_nats (map mk_char cs) = take w bs @ str_nats (map mk_char ds)"
      by (simp add: str_nats_def cs)
    with IH c(1) show ?thesis
      by (simp add: cs)
  qed
qed

subsection \<open>The contract of an exact byte encoding\<close>

text \<open>
  What the wire format relies on: decoding inverts encoding, and nothing but an encoding
  decodes (the encoding is canonical).
\<close>

locale byte_codec =
  fixes encode :: "'a \<Rightarrow> u8 list"
    and decode :: "u8 list \<Rightarrow> 'a option"
  assumes decode_encode: "decode (encode x) = Some x"
    and encode_decode: "decode bs = Some x \<Longrightarrow> encode x = bs"
begin

lemma decode_iff: "decode bs = Some x \<longleftrightarrow> bs = encode x"
  using decode_encode encode_decode by blast

lemma encode_inject: "encode x = encode y \<longleftrightarrow> x = y"
  using decode_encode by (metis option.inject)

lemma decode_inject: "decode bs = Some x \<Longrightarrow> decode cs = Some x \<Longrightarrow> bs = cs"
  by (simp add: decode_iff)

end

interpretation utf8: byte_codec as_bytes from_utf8
proof
  show "from_utf8 (as_bytes s) = Some s" for s
    by (simp add: from_utf8_def unat_as_bytes from_utf8_nats_encode o_def)
next
  fix bs s
  assume "from_utf8 bs = Some s"
  then obtain cs where cs: "from_utf8_nats (map unat bs) = Some cs" and s: "s = map mk_char cs"
    by (auto simp: from_utf8_def)
  then have "str_nats s = map unat bs"
    using from_utf8_nats_decode by blast
  then show "as_bytes s = bs"
    by (simp add: as_bytes_def o_def)
qed

lemma as_bytes_append: "as_bytes (s @ t) = as_bytes s @ as_bytes t"
  by (simp add: as_bytes_def str_nats_def)

lemma as_bytes_Nil [simp]: "as_bytes [] = []"
  by (simp add: as_bytes_def str_nats_def)

lemma as_bytes_eq_Nil_iff [simp]: "as_bytes s = [] \<longleftrightarrow> s = []"
  using utf8.encode_inject [of s "[]"] by simp

text \<open>An ASCII literal is stored as its own bytes.\<close>

lemma as_bytes_lit:
  assumes "\<forall>c \<in> set s. of_char c < (0x80 :: nat)"
  shows "as_bytes (lit s) = map (\<lambda>c. word_of_nat (of_char c)) s"
proof -
  have "str_nats (lit s) = map of_char s"
    using assms by (induction s) (simp_all add: str_nats_def lit_def utf8_nats_def)
  then show ?thesis
    by (simp add: as_bytes_def o_def)
qed

text \<open>Printable ASCII literals pass the character checks of the validators.\<close>

definition printable :: "string \<Rightarrow> bool" where
  "printable s \<longleftrightarrow> s \<noteq> [] \<and> of_char (hd s) \<noteq> (0x20 :: nat) \<and> of_char (last s) \<noteq> (0x20 :: nat) \<and>
     list_all (\<lambda>c. 0x20 \<le> (of_char c :: nat) \<and> of_char c \<le> (0x7E :: nat)) s"

definition printable_token :: "string \<Rightarrow> bool" where
  "printable_token s \<longleftrightarrow> s \<noteq> [] \<and> list_all (\<lambda>c. 0x21 \<le> (of_char c :: nat) \<and> of_char c \<le> (0x7E :: nat)) s"

lemma printable_token_printable:
  assumes "printable_token s"
  shows "printable s"
proof -
  have s: "s \<noteq> []" "\<forall>c \<in> set s. 0x21 \<le> (of_char c :: nat) \<and> of_char c \<le> (0x7E :: nat)"
    using assms by (simp_all add: printable_token_def list_all_iff)
  have "of_char (hd s) \<noteq> (0x20 :: nat)" "of_char (last s) \<noteq> (0x20 :: nat)"
    using bspec [OF s(2) hd_in_set [OF s(1)]] bspec [OF s(2) last_in_set [OF s(1)]] by linarith+
  moreover have "32 \<le> (of_char c :: nat)" if "c \<in> set s" for c
    using bspec [OF s(2) that] by linarith
  ultimately show ?thesis
    using s by (simp add: printable_def list_all_iff)
qed

lemma code_point_lit: "c \<in> set (lit s) \<Longrightarrow> \<exists>d \<in> set s. code_point c = of_char d"
  by (auto simp: lit_def)

lemma hd_last_lit: "s \<noteq> [] \<Longrightarrow> code_point (hd (lit s)) = of_char (hd s) \<and> code_point (last (lit s)) = of_char (last s)"
  by (simp add: lit_def hd_map last_map)

lemma trim_eq_if:
  assumes "s \<noteq> []" and "\<not> is_whitespace (hd s)" and "\<not> is_whitespace (last s)"
  shows "trim s = s"
proof -
  have "dropWhile is_whitespace s = s" "dropWhile is_whitespace (rev s) = rev s"
    using assms by (simp_all add: dropWhile_eq_self_iff hd_rev)
  then show ?thesis
    by (simp add: trim_def)
qed

lemma printable_whitespace:
  assumes "printable s" and "d \<in> set s" and "code_point c = of_char d" and "of_char d \<noteq> (0x20 :: nat)"
  shows "\<not> is_whitespace c"
  using assms by (auto simp: printable_def list_all_iff is_whitespace_def Let_def)

lemma printable_lit:
  assumes "printable s"
  shows "lit s \<noteq> []" and "trim (lit s) = lit s" and "\<not> list_ex is_control (lit s)" and "str_len (lit s) = length s"
proof -
  have s: "s \<noteq> []" "of_char (hd s) \<noteq> (0x20 :: nat)" "of_char (last s) \<noteq> (0x20 :: nat)"
    using assms by (simp_all add: printable_def)
  then show ne: "lit s \<noteq> []"
    by (simp add: lit_def)
  show "trim (lit s) = lit s"
    using ne s hd_last_lit [OF s(1)] printable_whitespace [OF assms hd_in_set [OF s(1)]]
      printable_whitespace [OF assms last_in_set [OF s(1)]] by (intro trim_eq_if) auto
  show "\<not> list_ex is_control (lit s)"
    using assms code_point_lit [of _ s] by (force simp: printable_def list_all_iff list_ex_iff is_control_def Let_def)
  have "\<forall>c \<in> set s. of_char c < (0x80 :: nat)"
    using assms by (force simp: printable_def list_all_iff)
  then show "str_len (lit s) = length s"
    by (simp add: str_len_def as_bytes_lit)
qed

lemma printable_token_lit:
  assumes "printable_token s"
  shows "\<not> list_ex is_whitespace (lit s)"
proof -
  have "\<not> is_whitespace c" if c: "c \<in> set (lit s)" for c
  proof -
    obtain d where d: "d \<in> set s" "code_point c = of_char d"
      using code_point_lit [OF c] by blast
    then show ?thesis
      using printable_whitespace [OF printable_token_printable [OF assms], of d c] assms
      by (auto simp: printable_token_def list_all_iff)
  qed
  then show ?thesis
    by (auto simp: list_ex_iff)
qed

end
