(* ===== verification/Domain_Ids.thy ===== *)
theory Domain_Ids
  imports Rust_Str
begin

section \<open>Opaque domain identifiers\<close>

text \<open>
  \<open>domain/ids.rs\<close>: the validated string identifiers (session, stream, device, request,
  operation, diagnostic run) and their canonical byte form. The macro
  \<open>define_string_identifier!\<close> is one set of functions over the kind and the newtype
  constructor; the numeric newtypes of \<open>define_u64_identifier!\<close> are plain \<open>u64\<close> values.
\<close>

definition MAX_IDENTIFIER_BYTES :: usize where
  "MAX_IDENTIFIER_BYTES = 128"

datatype identifier_kind = Session | Stream | Device | Request | Operation | DiagnosticRun

datatype id_validation_reason =
    Empty
  | TooLong (actual_bytes: usize) (maximum_bytes: usize)
  | SurroundingWhitespace
  | ControlCharacter (byte_index: usize)

record id_validation_error =
  ive_identifier_kind :: identifier_kind
  ive_reason :: id_validation_reason

datatype id_decode_error =
    IdInvalidUtf8 identifier_kind
  | IdInvalidIdentifier id_validation_error

text \<open>The byte index of the first control character (\<open>char_indices().find(..)\<close>).\<close>

fun control_index :: "usize \<Rightarrow> str \<Rightarrow> usize option" where
  "control_index i [] = None"
| "control_index i (c # cs) =
     (if is_control c then Some i else control_index (i + length (as_bytes [c])) cs)"

definition validate_identifier :: "identifier_kind \<Rightarrow> str \<Rightarrow> id_validation_error + unit" where
  "validate_identifier kind value =
     (let err = (\<lambda>r. Inl \<lparr>ive_identifier_kind = kind, ive_reason = r\<rparr>) in
      if trim value = [] then err Empty
      else if str_len value > MAX_IDENTIFIER_BYTES
      then err (TooLong (str_len value) MAX_IDENTIFIER_BYTES)
      else if trim value \<noteq> value then err SurroundingWhitespace
      else case control_index 0 value of
             Some i \<Rightarrow> err (ControlCharacter i)
           | None \<Rightarrow> Inr ())"

text \<open>The accepted values, as a predicate.\<close>

definition valid_identifier :: "str \<Rightarrow> bool" where
  "valid_identifier s \<longleftrightarrow>
     trim s \<noteq> [] \<and> trim s = s \<and> str_len s \<le> MAX_IDENTIFIER_BYTES \<and> \<not> list_ex is_control s"

subsection \<open>The string newtypes\<close>

datatype session_id = SessionId (session_id_str: str)
datatype stream_id = StreamId (stream_id_str: str)
datatype device_id = DeviceId (device_id_str: str)
datatype request_id = RequestId (request_id_str: str)
datatype operation_id = OperationId (operation_id_str: str)

definition id_new :: "identifier_kind \<Rightarrow> (str \<Rightarrow> 'i) \<Rightarrow> str \<Rightarrow> id_validation_error + 'i" where
  "id_new kind con value = try_bind (validate_identifier kind value) (\<lambda>_. Inr (con value))"

definition id_to_canonical_bytes :: "('i \<Rightarrow> str) \<Rightarrow> 'i \<Rightarrow> u8 list" where
  "id_to_canonical_bytes sel x = as_bytes (sel x)"

definition id_from_canonical_bytes ::
    "identifier_kind \<Rightarrow> (str \<Rightarrow> 'i) \<Rightarrow> u8 list \<Rightarrow> id_decode_error + 'i" where
  "id_from_canonical_bytes kind con bytes =
     try_bind (ok_or (from_utf8 bytes) (IdInvalidUtf8 kind))
       (\<lambda>value. map_err IdInvalidIdentifier (id_new kind con value))"

definition session_id_new :: "str \<Rightarrow> id_validation_error + session_id" where
  "session_id_new = id_new Session SessionId"

definition stream_id_new :: "str \<Rightarrow> id_validation_error + stream_id" where
  "stream_id_new = id_new Stream StreamId"

definition device_id_new :: "str \<Rightarrow> id_validation_error + device_id" where
  "device_id_new = id_new Device DeviceId"

type_synonym monotonic_millis = u64
type_synonym packet_sequence = u64
type_synonym sample_index = u64

subsection \<open>What validation accepts\<close>

lemma control_index_None_iff: "control_index i s = None \<longleftrightarrow> \<not> list_ex is_control s"
  by (induction i s rule: control_index.induct) simp_all

lemma control_index_Some:
  "control_index i s = Some j \<Longrightarrow>
     \<exists>s1 c s2. s = s1 @ c # s2 \<and> is_control c \<and> \<not> list_ex is_control s1 \<and> j = i + str_len s1"
proof (induction i s rule: control_index.induct)
  case (2 i c cs)
  show ?case
  proof (cases "is_control c")
    case True
    with "2.prems" show ?thesis
      by (intro exI [of _ "[]"]) (simp add: str_len_def)
  next
    case False
    with 2 obtain s1 d s2 where "cs = s1 @ d # s2" "is_control d" "\<not> list_ex is_control s1"
      "j = i + length (as_bytes [c]) + str_len s1"
      by auto
    with False show ?thesis
      by (intro exI [of _ "c # s1"] exI [of _ d] exI [of _ s2])
        (simp add: str_len_def as_bytes_append [of "[c]" s1, simplified])
  qed
qed simp

lemma validate_identifier_ok_iff:
  "validate_identifier kind s = Inr u \<longleftrightarrow> valid_identifier s"
  using control_index_None_iff [of 0 s]
  by (auto simp: validate_identifier_def valid_identifier_def Let_def split: option.splits)

lemma id_new_ok_iff: "id_new kind con s = Inr x \<longleftrightarrow> valid_identifier s \<and> x = con s"
  by (auto simp: id_new_def try_bind_Inr_iff validate_identifier_ok_iff)

lemma id_from_canonical_bytes_iff:
  assumes "\<And>s. sel (con s) = s" and "\<And>x. con (sel x) = x"
  shows "id_from_canonical_bytes kind con bs = Inr x \<longleftrightarrow>
     valid_identifier (sel x) \<and> bs = id_to_canonical_bytes sel x"
proof -
  have "id_from_canonical_bytes kind con bs = Inr x \<longleftrightarrow>
      (\<exists>s. from_utf8 bs = Some s \<and> valid_identifier s \<and> x = con s)"
    by (auto simp: id_from_canonical_bytes_def try_bind_Inr_iff ok_or_def id_new_ok_iff
        split: option.splits)
  then show ?thesis
    using assms by (auto simp: utf8.decode_iff id_to_canonical_bytes_def)
qed

text \<open>
  The canonical bytes of an identifier decode to it, and only to it. For every kind of
  identifier, a byte sequence decodes (\<open>from_canonical_bytes\<close>) to an identifier exactly when it
  is the canonical byte form (\<open>to_canonical_bytes\<close>) of that identifier and the identifier's
  value is valid: not blank, at most 128 bytes of UTF-8, no surrounding white space, no control
  character.
\<close>

theorem id_canonical_bytes_iff:
  "(id_from_canonical_bytes Session SessionId bs = Inr a \<longleftrightarrow>
      valid_identifier (session_id_str a) \<and> bs = id_to_canonical_bytes session_id_str a) \<and>
   (id_from_canonical_bytes Stream StreamId bs = Inr b \<longleftrightarrow>
      valid_identifier (stream_id_str b) \<and> bs = id_to_canonical_bytes stream_id_str b) \<and>
   (id_from_canonical_bytes Device DeviceId bs = Inr c \<longleftrightarrow>
      valid_identifier (device_id_str c) \<and> bs = id_to_canonical_bytes device_id_str c) \<and>
   (id_from_canonical_bytes Request RequestId bs = Inr d \<longleftrightarrow>
      valid_identifier (request_id_str d) \<and> bs = id_to_canonical_bytes request_id_str d) \<and>
   (id_from_canonical_bytes Operation OperationId bs = Inr e \<longleftrightarrow>
      valid_identifier (operation_id_str e) \<and> bs = id_to_canonical_bytes operation_id_str e)"
  by (intro conjI id_from_canonical_bytes_iff) simp_all

end
