(* ===== verification/Domain_Enums.thy ===== *)
theory Domain_Enums
  imports Rust_Str
begin

section \<open>Stable domain enums\<close>

text \<open>
  \<open>domain/enums.rs\<close>: the enums shared by the wire format, the storage and the bindings, each
  with a stable numeric code and a stable wire name. The macro \<open>define_stable_enum!\<close> is the
  pair of decoding functions \<open>enum_from_stable_code\<close> and \<open>enum_from_wire_name\<close> over the list of
  variants in source order; the locale \<open>stable_enum\<close> is what a user of such an enum relies on,
  and it is interpreted for every enum of the file.
\<close>

datatype enum_decode_error =
    UnsupportedWireName (enum_name: string)
  | UnsupportedStableCode (enum_name: string) (enum_code: u16)

definition enum_from_stable_code ::
    "string \<Rightarrow> 'v list \<Rightarrow> ('v \<Rightarrow> u16) \<Rightarrow> u16 \<Rightarrow> enum_decode_error + 'v" where
  "enum_from_stable_code name variants stable_code code =
     ok_or (find (\<lambda>v. stable_code v = code) variants) (UnsupportedStableCode name code)"

definition enum_from_wire_name ::
    "string \<Rightarrow> 'v list \<Rightarrow> ('v \<Rightarrow> string) \<Rightarrow> str \<Rightarrow> enum_decode_error + 'v" where
  "enum_from_wire_name name variants wire_name value =
     ok_or (find (\<lambda>v. lit (wire_name v) = value) variants) (UnsupportedWireName name)"

locale stable_enum =
  fixes name :: string
    and variants :: "'v list"
    and stable_code :: "'v \<Rightarrow> u16"
    and wire_name :: "'v \<Rightarrow> string"
  assumes all_variants: "v \<in> set variants"
    and distinct_codes: "distinct (map stable_code variants)"
    and distinct_names: "distinct (map wire_name variants)"
begin

lemma stable_code_inject: "stable_code v = stable_code w \<longleftrightarrow> v = w"
  using distinct_codes all_variants by (auto simp: distinct_map dest: inj_onD)

lemma wire_name_inject: "wire_name v = wire_name w \<longleftrightarrow> v = w"
  using distinct_names all_variants by (auto simp: distinct_map dest: inj_onD)

lemma find_variant: "find P variants = Some v \<Longrightarrow> P v"
  by (auto simp: find_Some_iff)

lemma find_unique:
  assumes "P v" and "\<And>w. P w \<Longrightarrow> w = v"
  shows "find P variants = Some v"
proof (cases "find P variants")
  case None
  then show ?thesis
    using assms(1) all_variants [of v] by (auto simp: find_None_iff)
next
  case (Some w)
  then show ?thesis
    using assms(2) find_variant by blast
qed

lemma from_stable_code_iff:
  "enum_from_stable_code name variants stable_code code = Inr v \<longleftrightarrow> code = stable_code v"
proof
  assume "enum_from_stable_code name variants stable_code code = Inr v"
  then show "code = stable_code v"
    by (auto simp: enum_from_stable_code_def ok_or_def dest: find_variant split: option.splits)
next
  assume "code = stable_code v"
  then have "find (\<lambda>w. stable_code w = code) variants = Some v"
    by (intro find_unique) (simp_all add: stable_code_inject)
  then show "enum_from_stable_code name variants stable_code code = Inr v"
    by (simp add: enum_from_stable_code_def)
qed

lemma from_wire_name_iff:
  "enum_from_wire_name name variants wire_name value = Inr v \<longleftrightarrow> value = lit (wire_name v)"
proof
  assume "enum_from_wire_name name variants wire_name value = Inr v"
  then show "value = lit (wire_name v)"
    by (auto simp: enum_from_wire_name_def ok_or_def dest: find_variant split: option.splits)
next
  assume "value = lit (wire_name v)"
  then have "find (\<lambda>w. lit (wire_name w) = value) variants = Some v"
    by (intro find_unique) (simp_all add: wire_name_inject)
  then show "enum_from_wire_name name variants wire_name value = Inr v"
    by (simp add: enum_from_wire_name_def)
qed

end

subsection \<open>\<open>AppRole\<close>\<close>

datatype app_role =
    RoleHost
  | RoleListener

primrec app_role_code :: "app_role \<Rightarrow> u16" where
  "app_role_code RoleHost = 1"
| "app_role_code RoleListener = 2"

primrec app_role_wire_name :: "app_role \<Rightarrow> string" where
  "app_role_wire_name RoleHost = ''host''"
| "app_role_wire_name RoleListener = ''listener''"

definition app_role_variants :: "app_role list" where
  "app_role_variants = [RoleHost, RoleListener]"

interpretation app_role_enum: stable_enum "''AppRole''" app_role_variants app_role_code app_role_wire_name
proof
  show "v \<in> set app_role_variants" for v
    by (cases v) (simp_all add: app_role_variants_def)
qed (simp_all add: app_role_variants_def)

subsection \<open>\<open>ApprovalMode\<close>\<close>

datatype approval_mode =
    ApprovalManual
  | ApprovalTrustedDevices
  | ApprovalInviteCode

primrec approval_mode_code :: "approval_mode \<Rightarrow> u16" where
  "approval_mode_code ApprovalManual = 1"
| "approval_mode_code ApprovalTrustedDevices = 2"
| "approval_mode_code ApprovalInviteCode = 3"

primrec approval_mode_wire_name :: "approval_mode \<Rightarrow> string" where
  "approval_mode_wire_name ApprovalManual = ''manual''"
| "approval_mode_wire_name ApprovalTrustedDevices = ''trusted_devices''"
| "approval_mode_wire_name ApprovalInviteCode = ''invite_code''"

definition approval_mode_variants :: "approval_mode list" where
  "approval_mode_variants = [ApprovalManual, ApprovalTrustedDevices, ApprovalInviteCode]"

interpretation approval_mode_enum: stable_enum "''ApprovalMode''" approval_mode_variants approval_mode_code approval_mode_wire_name
proof
  show "v \<in> set approval_mode_variants" for v
    by (cases v) (simp_all add: approval_mode_variants_def)
qed (simp_all add: approval_mode_variants_def)

subsection \<open>\<open>HostLifecycle\<close>\<close>

datatype host_lifecycle =
    HostIdle
  | HostCreatingSession
  | HostAdvertising
  | HostWaitingForListeners
  | HostReady
  | HostStreaming
  | HostPaused
  | HostEndingSession
  | HostError

primrec host_lifecycle_code :: "host_lifecycle \<Rightarrow> u16" where
  "host_lifecycle_code HostIdle = 1"
| "host_lifecycle_code HostCreatingSession = 2"
| "host_lifecycle_code HostAdvertising = 3"
| "host_lifecycle_code HostWaitingForListeners = 4"
| "host_lifecycle_code HostReady = 5"
| "host_lifecycle_code HostStreaming = 6"
| "host_lifecycle_code HostPaused = 7"
| "host_lifecycle_code HostEndingSession = 8"
| "host_lifecycle_code HostError = 9"

primrec host_lifecycle_wire_name :: "host_lifecycle \<Rightarrow> string" where
  "host_lifecycle_wire_name HostIdle = ''idle''"
| "host_lifecycle_wire_name HostCreatingSession = ''creating_session''"
| "host_lifecycle_wire_name HostAdvertising = ''advertising''"
| "host_lifecycle_wire_name HostWaitingForListeners = ''waiting_for_listeners''"
| "host_lifecycle_wire_name HostReady = ''ready''"
| "host_lifecycle_wire_name HostStreaming = ''streaming''"
| "host_lifecycle_wire_name HostPaused = ''paused''"
| "host_lifecycle_wire_name HostEndingSession = ''ending_session''"
| "host_lifecycle_wire_name HostError = ''error''"

definition host_lifecycle_variants :: "host_lifecycle list" where
  "host_lifecycle_variants = [HostIdle, HostCreatingSession, HostAdvertising, HostWaitingForListeners, HostReady, HostStreaming, HostPaused, HostEndingSession, HostError]"

interpretation host_lifecycle_enum: stable_enum "''HostLifecycle''" host_lifecycle_variants host_lifecycle_code host_lifecycle_wire_name
proof
  show "v \<in> set host_lifecycle_variants" for v
    by (cases v) (simp_all add: host_lifecycle_variants_def)
qed (simp_all add: host_lifecycle_variants_def)

subsection \<open>\<open>ListenerLifecycle\<close>\<close>

datatype listener_lifecycle =
    ListenerIdle
  | ListenerScanning
  | ListenerSessionSelected
  | ListenerJoinRequested
  | ListenerAwaitingApproval
  | ListenerApproved
  | ListenerConnecting
  | ListenerSyncingClock
  | ListenerBuffering
  | ListenerPlaying
  | ListenerReconnecting
  | ListenerDesynced
  | ListenerDisconnected
  | ListenerError

primrec listener_lifecycle_code :: "listener_lifecycle \<Rightarrow> u16" where
  "listener_lifecycle_code ListenerIdle = 1"
| "listener_lifecycle_code ListenerScanning = 2"
| "listener_lifecycle_code ListenerSessionSelected = 3"
| "listener_lifecycle_code ListenerJoinRequested = 4"
| "listener_lifecycle_code ListenerAwaitingApproval = 5"
| "listener_lifecycle_code ListenerApproved = 6"
| "listener_lifecycle_code ListenerConnecting = 7"
| "listener_lifecycle_code ListenerSyncingClock = 8"
| "listener_lifecycle_code ListenerBuffering = 9"
| "listener_lifecycle_code ListenerPlaying = 10"
| "listener_lifecycle_code ListenerReconnecting = 11"
| "listener_lifecycle_code ListenerDesynced = 12"
| "listener_lifecycle_code ListenerDisconnected = 13"
| "listener_lifecycle_code ListenerError = 14"

primrec listener_lifecycle_wire_name :: "listener_lifecycle \<Rightarrow> string" where
  "listener_lifecycle_wire_name ListenerIdle = ''idle''"
| "listener_lifecycle_wire_name ListenerScanning = ''scanning''"
| "listener_lifecycle_wire_name ListenerSessionSelected = ''session_selected''"
| "listener_lifecycle_wire_name ListenerJoinRequested = ''join_requested''"
| "listener_lifecycle_wire_name ListenerAwaitingApproval = ''awaiting_approval''"
| "listener_lifecycle_wire_name ListenerApproved = ''approved''"
| "listener_lifecycle_wire_name ListenerConnecting = ''connecting''"
| "listener_lifecycle_wire_name ListenerSyncingClock = ''syncing_clock''"
| "listener_lifecycle_wire_name ListenerBuffering = ''buffering''"
| "listener_lifecycle_wire_name ListenerPlaying = ''playing''"
| "listener_lifecycle_wire_name ListenerReconnecting = ''reconnecting''"
| "listener_lifecycle_wire_name ListenerDesynced = ''desynced''"
| "listener_lifecycle_wire_name ListenerDisconnected = ''disconnected''"
| "listener_lifecycle_wire_name ListenerError = ''error''"

definition listener_lifecycle_variants :: "listener_lifecycle list" where
  "listener_lifecycle_variants = [ListenerIdle, ListenerScanning, ListenerSessionSelected, ListenerJoinRequested, ListenerAwaitingApproval, ListenerApproved, ListenerConnecting, ListenerSyncingClock, ListenerBuffering, ListenerPlaying, ListenerReconnecting, ListenerDesynced, ListenerDisconnected, ListenerError]"

interpretation listener_lifecycle_enum: stable_enum "''ListenerLifecycle''" listener_lifecycle_variants listener_lifecycle_code listener_lifecycle_wire_name
proof
  show "v \<in> set listener_lifecycle_variants" for v
    by (cases v) (simp_all add: listener_lifecycle_variants_def)
qed (simp_all add: listener_lifecycle_variants_def)

subsection \<open>\<open>PlaybackState\<close>\<close>

datatype playback_state =
    PlaybackStopped
  | PlaybackBuffering
  | PlaybackReady
  | PlaybackPlaying
  | PlaybackPaused
  | PlaybackUnderrun
  | PlaybackError

primrec playback_state_code :: "playback_state \<Rightarrow> u16" where
  "playback_state_code PlaybackStopped = 1"
| "playback_state_code PlaybackBuffering = 2"
| "playback_state_code PlaybackReady = 3"
| "playback_state_code PlaybackPlaying = 4"
| "playback_state_code PlaybackPaused = 5"
| "playback_state_code PlaybackUnderrun = 6"
| "playback_state_code PlaybackError = 7"

primrec playback_state_wire_name :: "playback_state \<Rightarrow> string" where
  "playback_state_wire_name PlaybackStopped = ''stopped''"
| "playback_state_wire_name PlaybackBuffering = ''buffering''"
| "playback_state_wire_name PlaybackReady = ''ready''"
| "playback_state_wire_name PlaybackPlaying = ''playing''"
| "playback_state_wire_name PlaybackPaused = ''paused''"
| "playback_state_wire_name PlaybackUnderrun = ''underrun''"
| "playback_state_wire_name PlaybackError = ''error''"

definition playback_state_variants :: "playback_state list" where
  "playback_state_variants = [PlaybackStopped, PlaybackBuffering, PlaybackReady, PlaybackPlaying, PlaybackPaused, PlaybackUnderrun, PlaybackError]"

interpretation playback_state_enum: stable_enum "''PlaybackState''" playback_state_variants playback_state_code playback_state_wire_name
proof
  show "v \<in> set playback_state_variants" for v
    by (cases v) (simp_all add: playback_state_variants_def)
qed (simp_all add: playback_state_variants_def)

subsection \<open>\<open>TransportState\<close>\<close>

datatype transport_state =
    TransportIdle
  | TransportDiscovering
  | TransportAdvertising
  | TransportConnecting
  | TransportConnected
  | TransportRetrying
  | TransportDisconnected
  | TransportFailed

primrec transport_state_code :: "transport_state \<Rightarrow> u16" where
  "transport_state_code TransportIdle = 1"
| "transport_state_code TransportDiscovering = 2"
| "transport_state_code TransportAdvertising = 3"
| "transport_state_code TransportConnecting = 4"
| "transport_state_code TransportConnected = 5"
| "transport_state_code TransportRetrying = 6"
| "transport_state_code TransportDisconnected = 7"
| "transport_state_code TransportFailed = 8"

primrec transport_state_wire_name :: "transport_state \<Rightarrow> string" where
  "transport_state_wire_name TransportIdle = ''idle''"
| "transport_state_wire_name TransportDiscovering = ''discovering''"
| "transport_state_wire_name TransportAdvertising = ''advertising''"
| "transport_state_wire_name TransportConnecting = ''connecting''"
| "transport_state_wire_name TransportConnected = ''connected''"
| "transport_state_wire_name TransportRetrying = ''retrying''"
| "transport_state_wire_name TransportDisconnected = ''disconnected''"
| "transport_state_wire_name TransportFailed = ''failed''"

definition transport_state_variants :: "transport_state list" where
  "transport_state_variants = [TransportIdle, TransportDiscovering, TransportAdvertising, TransportConnecting, TransportConnected, TransportRetrying, TransportDisconnected, TransportFailed]"

interpretation transport_state_enum: stable_enum "''TransportState''" transport_state_variants transport_state_code transport_state_wire_name
proof
  show "v \<in> set transport_state_variants" for v
    by (cases v) (simp_all add: transport_state_variants_def)
qed (simp_all add: transport_state_variants_def)

subsection \<open>\<open>SyncConfidence\<close>\<close>

datatype sync_confidence =
    ConfidenceUnknown
  | ConfidencePoor
  | ConfidenceFair
  | ConfidenceGood
  | ConfidenceExcellent

primrec sync_confidence_code :: "sync_confidence \<Rightarrow> u16" where
  "sync_confidence_code ConfidenceUnknown = 1"
| "sync_confidence_code ConfidencePoor = 2"
| "sync_confidence_code ConfidenceFair = 3"
| "sync_confidence_code ConfidenceGood = 4"
| "sync_confidence_code ConfidenceExcellent = 5"

primrec sync_confidence_wire_name :: "sync_confidence \<Rightarrow> string" where
  "sync_confidence_wire_name ConfidenceUnknown = ''unknown''"
| "sync_confidence_wire_name ConfidencePoor = ''poor''"
| "sync_confidence_wire_name ConfidenceFair = ''fair''"
| "sync_confidence_wire_name ConfidenceGood = ''good''"
| "sync_confidence_wire_name ConfidenceExcellent = ''excellent''"

definition sync_confidence_variants :: "sync_confidence list" where
  "sync_confidence_variants = [ConfidenceUnknown, ConfidencePoor, ConfidenceFair, ConfidenceGood, ConfidenceExcellent]"

interpretation sync_confidence_enum: stable_enum "''SyncConfidence''" sync_confidence_variants sync_confidence_code sync_confidence_wire_name
proof
  show "v \<in> set sync_confidence_variants" for v
    by (cases v) (simp_all add: sync_confidence_variants_def)
qed (simp_all add: sync_confidence_variants_def)

subsection \<open>\<open>TrustState\<close>\<close>

datatype trust_state =
    TrustSessionOnly
  | TrustTrusted

primrec trust_state_code :: "trust_state \<Rightarrow> u16" where
  "trust_state_code TrustSessionOnly = 1"
| "trust_state_code TrustTrusted = 2"

primrec trust_state_wire_name :: "trust_state \<Rightarrow> string" where
  "trust_state_wire_name TrustSessionOnly = ''session_only''"
| "trust_state_wire_name TrustTrusted = ''trusted''"

definition trust_state_variants :: "trust_state list" where
  "trust_state_variants = [TrustSessionOnly, TrustTrusted]"

interpretation trust_state_enum: stable_enum "''TrustState''" trust_state_variants trust_state_code trust_state_wire_name
proof
  show "v \<in> set trust_state_variants" for v
    by (cases v) (simp_all add: trust_state_variants_def)
qed (simp_all add: trust_state_variants_def)

subsection \<open>\<open>DeliverySeverity\<close>\<close>

datatype delivery_severity =
    DeliveryOk
  | DeliveryZeroPeers
  | DeliveryPartialFailure

primrec delivery_severity_code :: "delivery_severity \<Rightarrow> u16" where
  "delivery_severity_code DeliveryOk = 1"
| "delivery_severity_code DeliveryZeroPeers = 2"
| "delivery_severity_code DeliveryPartialFailure = 3"

primrec delivery_severity_wire_name :: "delivery_severity \<Rightarrow> string" where
  "delivery_severity_wire_name DeliveryOk = ''ok''"
| "delivery_severity_wire_name DeliveryZeroPeers = ''zero_peers''"
| "delivery_severity_wire_name DeliveryPartialFailure = ''partial_failure''"

definition delivery_severity_variants :: "delivery_severity list" where
  "delivery_severity_variants = [DeliveryOk, DeliveryZeroPeers, DeliveryPartialFailure]"

interpretation delivery_severity_enum: stable_enum "''DeliverySeverity''" delivery_severity_variants delivery_severity_code delivery_severity_wire_name
proof
  show "v \<in> set delivery_severity_variants" for v
    by (cases v) (simp_all add: delivery_severity_variants_def)
qed (simp_all add: delivery_severity_variants_def)

subsection \<open>Round trips\<close>

text \<open>
  Every stable enum decodes exactly its own codes and names. For each enum of the file a
  numeric code decodes to a variant if and only if it is that variant's stable code, and a text
  decodes to a variant if and only if it is that variant's wire name; so both representations
  round-trip and no two variants share one.
\<close>

theorem stable_enum_round_trips:
  "(enum_from_stable_code ''AppRole'' app_role_variants app_role_code n = Inr v1 \<longleftrightarrow> n = app_role_code v1) \<and>
   (enum_from_wire_name ''AppRole'' app_role_variants app_role_wire_name s = Inr v1 \<longleftrightarrow> s = lit (app_role_wire_name v1)) \<and>
   (enum_from_stable_code ''ApprovalMode'' approval_mode_variants approval_mode_code n = Inr v2 \<longleftrightarrow> n = approval_mode_code v2) \<and>
   (enum_from_wire_name ''ApprovalMode'' approval_mode_variants approval_mode_wire_name s = Inr v2 \<longleftrightarrow> s = lit (approval_mode_wire_name v2)) \<and>
   (enum_from_stable_code ''HostLifecycle'' host_lifecycle_variants host_lifecycle_code n = Inr v3 \<longleftrightarrow> n = host_lifecycle_code v3) \<and>
   (enum_from_wire_name ''HostLifecycle'' host_lifecycle_variants host_lifecycle_wire_name s = Inr v3 \<longleftrightarrow> s = lit (host_lifecycle_wire_name v3)) \<and>
   (enum_from_stable_code ''ListenerLifecycle'' listener_lifecycle_variants listener_lifecycle_code n = Inr v4 \<longleftrightarrow> n = listener_lifecycle_code v4) \<and>
   (enum_from_wire_name ''ListenerLifecycle'' listener_lifecycle_variants listener_lifecycle_wire_name s = Inr v4 \<longleftrightarrow> s = lit (listener_lifecycle_wire_name v4)) \<and>
   (enum_from_stable_code ''PlaybackState'' playback_state_variants playback_state_code n = Inr v5 \<longleftrightarrow> n = playback_state_code v5) \<and>
   (enum_from_wire_name ''PlaybackState'' playback_state_variants playback_state_wire_name s = Inr v5 \<longleftrightarrow> s = lit (playback_state_wire_name v5)) \<and>
   (enum_from_stable_code ''TransportState'' transport_state_variants transport_state_code n = Inr v6 \<longleftrightarrow> n = transport_state_code v6) \<and>
   (enum_from_wire_name ''TransportState'' transport_state_variants transport_state_wire_name s = Inr v6 \<longleftrightarrow> s = lit (transport_state_wire_name v6)) \<and>
   (enum_from_stable_code ''SyncConfidence'' sync_confidence_variants sync_confidence_code n = Inr v7 \<longleftrightarrow> n = sync_confidence_code v7) \<and>
   (enum_from_wire_name ''SyncConfidence'' sync_confidence_variants sync_confidence_wire_name s = Inr v7 \<longleftrightarrow> s = lit (sync_confidence_wire_name v7)) \<and>
   (enum_from_stable_code ''TrustState'' trust_state_variants trust_state_code n = Inr v8 \<longleftrightarrow> n = trust_state_code v8) \<and>
   (enum_from_wire_name ''TrustState'' trust_state_variants trust_state_wire_name s = Inr v8 \<longleftrightarrow> s = lit (trust_state_wire_name v8)) \<and>
   (enum_from_stable_code ''DeliverySeverity'' delivery_severity_variants delivery_severity_code n = Inr v9 \<longleftrightarrow> n = delivery_severity_code v9) \<and>
   (enum_from_wire_name ''DeliverySeverity'' delivery_severity_variants delivery_severity_wire_name s = Inr v9 \<longleftrightarrow> s = lit (delivery_severity_wire_name v9))"
  by (intro conjI app_role_enum.from_stable_code_iff app_role_enum.from_wire_name_iff
      approval_mode_enum.from_stable_code_iff approval_mode_enum.from_wire_name_iff
      host_lifecycle_enum.from_stable_code_iff host_lifecycle_enum.from_wire_name_iff
      listener_lifecycle_enum.from_stable_code_iff listener_lifecycle_enum.from_wire_name_iff
      playback_state_enum.from_stable_code_iff playback_state_enum.from_wire_name_iff
      transport_state_enum.from_stable_code_iff transport_state_enum.from_wire_name_iff
      sync_confidence_enum.from_stable_code_iff sync_confidence_enum.from_wire_name_iff
      trust_state_enum.from_stable_code_iff trust_state_enum.from_wire_name_iff
      delivery_severity_enum.from_stable_code_iff delivery_severity_enum.from_wire_name_iff)

end
