(* ===== verification/Protocol_Types.thy ===== *)
theory Protocol_Types
  imports Domain_Ids Domain_Enums Rust_F64
begin

section \<open>Protocol data\<close>

text \<open>
  \<open>protocol/types.rs\<close>: the constants, message kinds, message structs and frames of the wire
  protocol, one record per struct and one datatype per enum. Struct fields carry a prefix for
  their struct, since several structs share field names.
\<close>

definition PROTOCOL_MAGIC :: "u8 list" where
  "PROTOCOL_MAGIC = [0x53, 0x44, 0x50, 0x32]"

definition PROTOCOL_VERSION :: u16 where
  "PROTOCOL_VERSION = 3"

definition FRAME_HEADER_BYTES :: usize where
  "FRAME_HEADER_BYTES = 16"

definition FRAME_HEADER_LENGTH :: u16 where
  "FRAME_HEADER_LENGTH = 16"

definition MAX_CONTROL_PAYLOAD_BYTES :: usize where
  "MAX_CONTROL_PAYLOAD_BYTES = 64 * 1024"

definition MAX_AUDIO_DATAGRAM_BYTES :: usize where
  "MAX_AUDIO_DATAGRAM_BYTES = 4 * 1024"

definition MAX_SESSION_NAME_BYTES :: usize where
  "MAX_SESSION_NAME_BYTES = 128"

definition MAX_DISPLAY_NAME_BYTES :: usize where
  "MAX_DISPLAY_NAME_BYTES = 128"

definition MAX_INVITE_CODE_BYTES :: usize where
  "MAX_INVITE_CODE_BYTES = 64"

definition MAX_REASON_BYTES :: usize where
  "MAX_REASON_BYTES = 256"

definition MAX_SYNC_CONFIDENCE_WIRE_NAME_BYTES :: usize where
  "MAX_SYNC_CONFIDENCE_WIRE_NAME_BYTES = 32"

definition FLAG_PAYLOAD_INTEGRITY :: u16 where
  "FLAG_PAYLOAD_INTEGRITY = 1"

definition SUPPORTED_FRAME_FLAGS :: u16 where
  "SUPPORTED_FRAME_FLAGS = FLAG_PAYLOAD_INTEGRITY"

lemmas protocol_limits =
  FRAME_HEADER_BYTES_def MAX_CONTROL_PAYLOAD_BYTES_def MAX_AUDIO_DATAGRAM_BYTES_def
  MAX_SESSION_NAME_BYTES_def MAX_DISPLAY_NAME_BYTES_def MAX_INVITE_CODE_BYTES_def
  MAX_REASON_BYTES_def MAX_SYNC_CONFIDENCE_WIRE_NAME_BYTES_def MAX_IDENTIFIER_BYTES_def

subsection \<open>Message kinds\<close>

datatype message_kind =
    MkHello
  | MkJoinRequest
  | MkJoinApproval
  | MkJoinRejection
  | MkHeartbeat
  | MkStreamStart
  | MkPause
  | MkStop
  | MkDisconnect
  | MkResyncNotice
  | MkSynchronizationReport
  | MkTrackBoundary
  | MkSyncRequest
  | MkSyncResponse
  | MkAudio

primrec message_kind_code :: "message_kind \<Rightarrow> u16" where
  "message_kind_code MkHello = 1"
| "message_kind_code MkJoinRequest = 2"
| "message_kind_code MkJoinApproval = 3"
| "message_kind_code MkJoinRejection = 4"
| "message_kind_code MkHeartbeat = 5"
| "message_kind_code MkStreamStart = 6"
| "message_kind_code MkPause = 7"
| "message_kind_code MkStop = 8"
| "message_kind_code MkDisconnect = 9"
| "message_kind_code MkResyncNotice = 10"
| "message_kind_code MkSynchronizationReport = 11"
| "message_kind_code MkTrackBoundary = 12"
| "message_kind_code MkSyncRequest = 100"
| "message_kind_code MkSyncResponse = 101"
| "message_kind_code MkAudio = 200"

definition is_control_kind :: "message_kind \<Rightarrow> bool" where
  "is_control_kind k \<longleftrightarrow>
     k \<in> {MkHello, MkJoinRequest, MkJoinApproval, MkJoinRejection, MkHeartbeat, MkStreamStart,
          MkPause, MkStop, MkDisconnect, MkResyncNotice, MkSynchronizationReport, MkTrackBoundary}"

definition maximum_payload_bytes :: "message_kind \<Rightarrow> usize" where
  "maximum_payload_bytes k =
     (case k of
        MkAudio \<Rightarrow> MAX_AUDIO_DATAGRAM_BYTES - FRAME_HEADER_BYTES
      | _ \<Rightarrow> MAX_CONTROL_PAYLOAD_BYTES)"

text \<open>\<open>TryFrom<u16> for MessageKind\<close>: the error is the rejected code.\<close>

definition message_kind_of_code :: "u16 \<Rightarrow> u16 + message_kind" where
  "message_kind_of_code code =
     (if code = 1 then Inr MkHello
      else if code = 2 then Inr MkJoinRequest
      else if code = 3 then Inr MkJoinApproval
      else if code = 4 then Inr MkJoinRejection
      else if code = 5 then Inr MkHeartbeat
      else if code = 6 then Inr MkStreamStart
      else if code = 7 then Inr MkPause
      else if code = 8 then Inr MkStop
      else if code = 9 then Inr MkDisconnect
      else if code = 10 then Inr MkResyncNotice
      else if code = 11 then Inr MkSynchronizationReport
      else if code = 12 then Inr MkTrackBoundary
      else if code = 100 then Inr MkSyncRequest
      else if code = 101 then Inr MkSyncResponse
      else if code = 200 then Inr MkAudio
      else Inl code)"

lemma message_kind_of_code_iff:
  "message_kind_of_code c = Inr k \<longleftrightarrow> c = message_kind_code k"
  by (cases k) (auto simp: message_kind_of_code_def)

record frame_header =
  fh_version :: u16
  fh_kind :: message_kind
  fh_flags :: u16
  fh_header_length :: u16
  fh_payload_length :: u32

definition frame_header_new :: "message_kind \<Rightarrow> u16 \<Rightarrow> u32 \<Rightarrow> frame_header" where
  "frame_header_new kind flags payload_length =
     \<lparr>fh_version = PROTOCOL_VERSION, fh_kind = kind, fh_flags = flags,
      fh_header_length = FRAME_HEADER_LENGTH, fh_payload_length = payload_length\<rparr>"

subsection \<open>Messages\<close>

record device_identity =
  di_device_id :: device_id
  di_display_name :: str

record hello =
  hello_session_id :: session_id
  hello_session_name :: str
  hello_host_name :: str
  hello_approval_required :: bool

record join_request =
  jr_session_id :: session_id
  jr_device :: device_identity
  jr_invite_code :: "str option"
  jr_sync_port :: u16
  jr_audio_port :: u16

record join_approval =
  ja_session_id :: session_id
  ja_listener_id :: device_id
  ja_trusted_for_future :: bool

record join_rejection =
  jrej_session_id :: session_id
  jrej_listener_id :: device_id
  jrej_reason :: str

record heartbeat =
  hb_session_id :: session_id
  hb_listener_id :: device_id
  hb_sent_at_elapsed_ms :: monotonic_millis

record stream_start =
  ss_session_id :: session_id
  ss_stream_id :: stream_id
  ss_host_start_time_ms :: monotonic_millis
  ss_sample_rate :: u32
  ss_channels :: u16
  ss_samples_per_packet :: u32
  ss_current_entry_id :: "str option"
  ss_current_display_name :: "str option"

record track_boundary =
  tb_session_id :: session_id
  tb_stream_id :: stream_id
  tb_first_sample_index :: sample_index
  tb_entry_id :: str
  tb_display_name :: str

record pause =
  pause_session_id :: session_id
  pause_stream_id :: stream_id
  pause_host_pause_time_ms :: monotonic_millis

record stop =
  stop_session_id :: session_id
  stop_stream_id :: stream_id
  stop_host_stop_time_ms :: monotonic_millis

record disconnect =
  dc_session_id :: session_id
  dc_listener_id :: device_id
  dc_reason :: str

record resync_notice =
  rn_session_id :: session_id
  rn_listener_id :: device_id
  rn_reason :: str

record synchronization_report =
  sr_session_id :: session_id
  sr_listener_id :: device_id
  sr_confidence :: sync_confidence
  sr_offset_ms :: f64
  sr_round_trip_ms :: f64
  sr_drift_ppm :: f64

datatype control_message =
    CmHello hello
  | CmJoinRequest join_request
  | CmJoinApproval join_approval
  | CmJoinRejection join_rejection
  | CmHeartbeat heartbeat
  | CmStreamStart stream_start
  | CmTrackBoundary track_boundary
  | CmPause pause
  | CmStop stop
  | CmDisconnect disconnect
  | CmResyncNotice resync_notice
  | CmSynchronizationReport synchronization_report

primrec control_kind :: "control_message \<Rightarrow> message_kind" where
  "control_kind (CmHello _) = MkHello"
| "control_kind (CmJoinRequest _) = MkJoinRequest"
| "control_kind (CmJoinApproval _) = MkJoinApproval"
| "control_kind (CmJoinRejection _) = MkJoinRejection"
| "control_kind (CmHeartbeat _) = MkHeartbeat"
| "control_kind (CmStreamStart _) = MkStreamStart"
| "control_kind (CmTrackBoundary _) = MkTrackBoundary"
| "control_kind (CmPause _) = MkPause"
| "control_kind (CmStop _) = MkStop"
| "control_kind (CmDisconnect _) = MkDisconnect"
| "control_kind (CmResyncNotice _) = MkResyncNotice"
| "control_kind (CmSynchronizationReport _) = MkSynchronizationReport"

primrec control_session_id :: "control_message \<Rightarrow> session_id" where
  "control_session_id (CmHello v) = hello_session_id v"
| "control_session_id (CmJoinRequest v) = jr_session_id v"
| "control_session_id (CmJoinApproval v) = ja_session_id v"
| "control_session_id (CmJoinRejection v) = jrej_session_id v"
| "control_session_id (CmHeartbeat v) = hb_session_id v"
| "control_session_id (CmStreamStart v) = ss_session_id v"
| "control_session_id (CmTrackBoundary v) = tb_session_id v"
| "control_session_id (CmPause v) = pause_session_id v"
| "control_session_id (CmStop v) = stop_session_id v"
| "control_session_id (CmDisconnect v) = dc_session_id v"
| "control_session_id (CmResyncNotice v) = rn_session_id v"
| "control_session_id (CmSynchronizationReport v) = sr_session_id v"

record sync_request =
  sreq_session_id :: session_id
  sreq_correlation_id :: u64
  sreq_t1_listener_send_elapsed_ms :: monotonic_millis

record sync_response =
  sres_session_id :: session_id
  sres_correlation_id :: u64
  sres_t1_listener_send_elapsed_ms :: monotonic_millis
  sres_t2_host_receive_elapsed_ms :: monotonic_millis
  sres_t3_host_send_elapsed_ms :: monotonic_millis

datatype audio_codec = PcmS16Le

primrec audio_codec_code :: "audio_codec \<Rightarrow> u8" where
  "audio_codec_code PcmS16Le = 1"

definition audio_codec_of_code :: "u8 \<Rightarrow> u8 + audio_codec" where
  "audio_codec_of_code code = (if code = 1 then Inr PcmS16Le else Inl code)"

lemma audio_codec_of_code_iff: "audio_codec_of_code b = Inr c \<longleftrightarrow> b = audio_codec_code c"
  by (cases c) (simp add: audio_codec_of_code_def)

record audio_datagram =
  ad_session_id :: session_id
  ad_stream_id :: stream_id
  ad_sequence :: packet_sequence
  ad_codec :: audio_codec
  ad_sample_rate :: u32
  ad_channels :: u16
  ad_samples_per_packet :: u32
  ad_first_sample_index :: sample_index
  ad_host_presentation_time_ms :: monotonic_millis
  ad_payload :: "u8 list"

datatype protocol_frame =
    PfControl control_message
  | PfSyncRequest sync_request
  | PfSyncResponse sync_response
  | PfAudio audio_datagram

primrec frame_kind :: "protocol_frame \<Rightarrow> message_kind" where
  "frame_kind (PfControl m) = control_kind m"
| "frame_kind (PfSyncRequest _) = MkSyncRequest"
| "frame_kind (PfSyncResponse _) = MkSyncResponse"
| "frame_kind (PfAudio _) = MkAudio"

primrec frame_session_id :: "protocol_frame \<Rightarrow> session_id" where
  "frame_session_id (PfControl m) = control_session_id m"
| "frame_session_id (PfSyncRequest v) = sreq_session_id v"
| "frame_session_id (PfSyncResponse v) = sres_session_id v"
| "frame_session_id (PfAudio v) = ad_session_id v"

lemma control_kind_is_control: "is_control_kind (control_kind m)"
  by (cases m) (simp_all add: is_control_kind_def)

end
