(* ===== verification/Protocol_Wire.thy ===== *)
theory Protocol_Wire
  imports Protocol_Types
begin

section \<open>Wire primitives\<close>

text \<open>
  \<open>protocol/codec/mod.rs\<close> and the \<open>Encoder\<close> and \<open>Reader\<close> of \<open>codec/encoding.rs\<close> and
  \<open>codec/decoding.rs\<close>: protocol errors and their classes, the text and audio-parameter checks,
  the CRC, and the field writers and readers. The locale \<open>wire_field\<close> is the contract between a
  writer and its reader (what is written is read back, and nothing else reads as that value);
  it is interpreted for every field type, and the message codecs rest on its two laws only.
\<close>

datatype parse_failure_class = Malformed | Unsupported | Unauthorized | Stale | Oversized

datatype protocol_error =
    Truncated
  | TrailingBytes
  | InvalidMagic
  | UnsupportedVersion u16
  | UnsupportedMessageKind u16
  | UnsupportedFlags u16
  | InvalidHeaderLength u16
  | PayloadTooLarge (ptl_actual: usize) (ptl_maximum: usize)
  | LengthMismatch (lm_declared: usize) (lm_actual: usize)
  | InvalidBoolean u8
  | InvalidUtf8
  | InvalidIdentifier
  | InvalidField string
  | UnsupportedAudioCodec u8
  | IntegrityMismatch
  | UnauthorizedSession
  | StaleAudioSequence

fun classification :: "protocol_error \<Rightarrow> parse_failure_class" where
  "classification (UnsupportedVersion _) = Unsupported"
| "classification (UnsupportedMessageKind _) = Unsupported"
| "classification (UnsupportedFlags _) = Unsupported"
| "classification (UnsupportedAudioCodec _) = Unsupported"
| "classification (PayloadTooLarge _ _) = Oversized"
| "classification UnauthorizedSession = Unauthorized"
| "classification StaleAudioSequence = Stale"
| "classification Truncated = Malformed"
| "classification TrailingBytes = Malformed"
| "classification InvalidMagic = Malformed"
| "classification (InvalidHeaderLength _) = Malformed"
| "classification (LengthMismatch _ _) = Malformed"
| "classification (InvalidBoolean _) = Malformed"
| "classification InvalidUtf8 = Malformed"
| "classification InvalidIdentifier = Malformed"
| "classification (InvalidField _) = Malformed"
| "classification IntegrityMismatch = Malformed"

subsection \<open>Checks\<close>

definition validate_text :: "string \<Rightarrow> str \<Rightarrow> usize \<Rightarrow> bool \<Rightarrow> protocol_error + unit" where
  "validate_text field value maximum secret =
     (if trim value = [] \<or> trim value \<noteq> value \<or> str_len value > maximum then Inl (InvalidField field)
      else if list_ex is_control value then Inl (InvalidField field)
      else if secret \<and> list_ex is_whitespace value then Inl (InvalidField field)
      else Inr ())"

definition validate_audio_parameters :: "audio_datagram \<Rightarrow> protocol_error + unit" where
  "validate_audio_parameters audio =
     (if \<not> (8000 \<le> ad_sample_rate audio \<and> ad_sample_rate audio \<le> 384000)
      then Inl (InvalidField ''sample_rate'')
      else if \<not> (1 \<le> ad_channels audio \<and> ad_channels audio \<le> 8) then Inl (InvalidField ''channels'')
      else if ad_samples_per_packet audio = 0 then Inl (InvalidField ''samples_per_packet'')
      else try_bind
        (ok_or (Option.bind (checked_mul_usize (unat (ad_samples_per_packet audio))
                                               (unat (ad_channels audio)))
                  (\<lambda>sample_values. checked_mul_usize sample_values 2))
           (InvalidField ''samples_per_packet''))
        (\<lambda>expected.
           if expected \<noteq> length (ad_payload audio)
           then Inl (LengthMismatch expected (length (ad_payload audio)))
           else Inr ()))"

text \<open>CRC-32, bit by bit with the reflected polynomial.\<close>

definition crc32_bit :: "u32 \<Rightarrow> u32" where
  "crc32_bit crc = drop_bit 1 crc XOR (0xedb88320 AND (0 - (crc AND 1)))"

definition crc32_byte :: "u32 \<Rightarrow> u8 \<Rightarrow> u32" where
  "crc32_byte crc byte = (crc32_bit ^^ 8) (crc XOR ucast byte)"

definition crc32 :: "u8 list \<Rightarrow> u32" where
  "crc32 bytes = NOT (foldl crc32_byte (- 1) bytes)"

subsection \<open>The encoder\<close>

type_synonym encoder = "u8 list"

definition put_u8 :: "u8 \<Rightarrow> encoder \<Rightarrow> encoder" where
  "put_u8 v e = e @ [v]"

definition put_u16 :: "u16 \<Rightarrow> encoder \<Rightarrow> encoder" where
  "put_u16 v e = e @ be_bytes 2 (unat v)"

definition put_u32 :: "u32 \<Rightarrow> encoder \<Rightarrow> encoder" where
  "put_u32 v e = e @ be_bytes 4 (unat v)"

definition put_u64 :: "u64 \<Rightarrow> encoder \<Rightarrow> encoder" where
  "put_u64 v e = e @ be_bytes 8 (unat v)"

definition put_f64 :: "f64 \<Rightarrow> encoder \<Rightarrow> encoder" where
  "put_f64 v e = put_u64 (to_bits v) e"

definition put_bool :: "bool \<Rightarrow> encoder \<Rightarrow> encoder" where
  "put_bool v e = put_u8 (if v then 1 else 0) e"

definition put_bytes :: "u8 list \<Rightarrow> encoder \<Rightarrow> encoder" where
  "put_bytes bs e = e @ bs"

definition put_string :: "string \<Rightarrow> usize \<Rightarrow> bool \<Rightarrow> str \<Rightarrow> encoder \<Rightarrow> protocol_error + encoder" where
  "put_string field maximum secret value e =
     try_bind (validate_text field value maximum secret)
       (\<lambda>_. if str_len value < 2 ^ 16
            then Inr (put_bytes (as_bytes value) (put_u16 (word_of_nat (str_len value)) e))
            else Inl (InvalidField field))"

definition put_optional_string ::
    "string \<Rightarrow> usize \<Rightarrow> bool \<Rightarrow> str option \<Rightarrow> encoder \<Rightarrow> protocol_error + encoder" where
  "put_optional_string field maximum secret value e =
     (case value of
        Some s \<Rightarrow> put_string field maximum secret s (put_u8 1 e)
      | None \<Rightarrow> Inr (put_u8 0 e))"

definition put_session_id :: "session_id \<Rightarrow> encoder \<Rightarrow> protocol_error + encoder" where
  "put_session_id v = put_string ''session_id'' MAX_IDENTIFIER_BYTES False (session_id_str v)"

definition put_stream_id :: "stream_id \<Rightarrow> encoder \<Rightarrow> protocol_error + encoder" where
  "put_stream_id v = put_string ''stream_id'' MAX_IDENTIFIER_BYTES False (stream_id_str v)"

definition put_device_id :: "device_id \<Rightarrow> encoder \<Rightarrow> protocol_error + encoder" where
  "put_device_id v = put_string ''device_id'' MAX_IDENTIFIER_BYTES False (device_id_str v)"

subsection \<open>The reader\<close>

record reader =
  rd_bytes :: "u8 list"
  rd_position :: usize

type_synonym 'a rd = "reader \<Rightarrow> protocol_error + 'a \<times> reader"

definition reader_new :: "u8 list \<Rightarrow> reader" where
  "reader_new bytes = \<lparr>rd_bytes = bytes, rd_position = 0\<rparr>"

definition remaining :: "reader \<Rightarrow> usize" where
  "remaining r = length (rd_bytes r) - rd_position r"

definition rd_return :: "'a \<Rightarrow> 'a rd" where
  "rd_return x r = Inr (x, r)"

definition rd_bind :: "'a rd \<Rightarrow> ('a \<Rightarrow> 'b rd) \<Rightarrow> 'b rd" where
  "rd_bind m f r = try_bind (m r) (\<lambda>(x, r'). f x r')"

definition rd_lift :: "protocol_error + 'a \<Rightarrow> 'a rd" where
  "rd_lift v r = try_bind v (\<lambda>x. Inr (x, r))"

text \<open>
  \<open>Reader::take\<close>. A position that overflows \<open>usize\<close> and a range past the end of the slice are the
  same error, and the first implies the second (no slice is that long), so one test covers both.
\<close>

definition rd_take :: "usize \<Rightarrow> u8 list rd" where
  "rd_take n r =
     (if rd_position r + n \<le> length (rd_bytes r)
      then Inr (take n (drop (rd_position r) (rd_bytes r)), r\<lparr>rd_position := rd_position r + n\<rparr>)
      else Inl Truncated)"

definition read_u8 :: "u8 rd" where
  "read_u8 = rd_bind (rd_take 1) (\<lambda>bs. rd_return (hd bs))"

definition read_u16 :: "u16 rd" where
  "read_u16 = rd_bind (rd_take 2) (\<lambda>bs. rd_return (word_of_nat (from_be bs)))"

definition read_u32 :: "u32 rd" where
  "read_u32 = rd_bind (rd_take 4) (\<lambda>bs. rd_return (word_of_nat (from_be bs)))"

definition read_u64 :: "u64 rd" where
  "read_u64 = rd_bind (rd_take 8) (\<lambda>bs. rd_return (word_of_nat (from_be bs)))"

definition read_bool :: "bool rd" where
  "read_bool = rd_bind read_u8
     (\<lambda>b. if b = 0 then rd_return False else if b = 1 then rd_return True
          else rd_lift (Inl (InvalidBoolean b)))"

definition read_f64 :: "f64 rd" where
  "read_f64 = rd_bind read_u64 (\<lambda>b. rd_return (from_bits b))"

definition read_string :: "string \<Rightarrow> usize \<Rightarrow> bool \<Rightarrow> str rd" where
  "read_string field maximum secret =
     rd_bind read_u16 (\<lambda>l. let len = unat l in
       if len > maximum then rd_lift (Inl (PayloadTooLarge len maximum))
       else rd_bind (rd_take len) (\<lambda>bs.
         rd_bind (rd_lift (ok_or (from_utf8 bs) InvalidUtf8)) (\<lambda>value.
         rd_bind (rd_lift (validate_text field value maximum secret)) (\<lambda>_.
         rd_return value))))"

definition read_optional_string :: "string \<Rightarrow> usize \<Rightarrow> bool \<Rightarrow> str option rd" where
  "read_optional_string field maximum secret =
     rd_bind read_u8
       (\<lambda>b. if b = 0 then rd_return None
            else if b = 1 then rd_bind (read_string field maximum secret) (\<lambda>s. rd_return (Some s))
            else rd_lift (Inl (InvalidBoolean b)))"

definition read_session_id :: "session_id rd" where
  "read_session_id =
     rd_bind (read_string ''session_id'' MAX_IDENTIFIER_BYTES False)
       (\<lambda>v. rd_lift (map_err (\<lambda>_. InvalidIdentifier) (session_id_new v)))"

definition read_stream_id :: "stream_id rd" where
  "read_stream_id =
     rd_bind (read_string ''stream_id'' MAX_IDENTIFIER_BYTES False)
       (\<lambda>v. rd_lift (map_err (\<lambda>_. InvalidIdentifier) (stream_id_new v)))"

definition read_device_id :: "device_id rd" where
  "read_device_id =
     rd_bind (read_string ''device_id'' MAX_IDENTIFIER_BYTES False)
       (\<lambda>v. rd_lift (map_err (\<lambda>_. InvalidIdentifier) (device_id_new v)))"

definition rd_finish :: "reader \<Rightarrow> protocol_error + unit" where
  "rd_finish r = (if remaining r = 0 then Inr () else Inl TrailingBytes)"

subsection \<open>Readers at a split of their input\<close>

text \<open>A reader that has consumed \<open>pre\<close> and has \<open>rest\<close> before it.\<close>

definition reader_at :: "u8 list \<Rightarrow> u8 list \<Rightarrow> reader" where
  "reader_at pre rest = \<lparr>rd_bytes = pre @ rest, rd_position = length pre\<rparr>"

lemma reader_new_at: "reader_new bs = reader_at [] bs"
  by (simp add: reader_new_def reader_at_def)

lemma remaining_at [wire]: "remaining (reader_at pre rest) = length rest"
  by (simp add: remaining_def reader_at_def)

lemma finish_at_iff [wire]: "rd_finish (reader_at pre rest) = Inr u \<longleftrightarrow> rest = []"
  by (simp add: rd_finish_def remaining_at)

lemma rd_return_iff [wire]: "rd_return x r = Inr (y, r') \<longleftrightarrow> y = x \<and> r' = r"
  by (auto simp: rd_return_def)

lemma rd_bind_iff [wire]:
  "rd_bind m f r = Inr (y, r'') \<longleftrightarrow> (\<exists>x r'. m r = Inr (x, r') \<and> f x r' = Inr (y, r''))"
  by (auto simp: rd_bind_def try_bind_Inr_iff)

lemma rd_lift_iff [wire]: "rd_lift v r = Inr (y, r') \<longleftrightarrow> v = Inr y \<and> r' = r"
  by (auto simp: rd_lift_def try_bind_Inr_iff)

lemma rd_guard_iff [wire]:
  "(if b then rd_lift (Inl e) else m) r = Inr (y, r') \<longleftrightarrow> \<not> b \<and> m r = Inr (y, r')"
  by (simp add: rd_lift_def)

declare ok_or_Inr_iff [wire]

lemma rd_take_iff [wire]:
  "rd_take n (reader_at pre s) = Inr (bs, r') \<longleftrightarrow>
     (\<exists>rest. length bs = n \<and> s = bs @ rest \<and> r' = reader_at (pre @ bs) rest)"
proof
  assume "rd_take n (reader_at pre s) = Inr (bs, r')"
  then have "n \<le> length s" "bs = take n s"
    "r' = \<lparr>rd_bytes = pre @ s, rd_position = length pre + n\<rparr>"
    by (simp_all add: rd_take_def reader_at_def split: if_splits)
  then show "\<exists>rest. length bs = n \<and> s = bs @ rest \<and> r' = reader_at (pre @ bs) rest"
    by (intro exI [of _ "drop n s"]) (simp add: reader_at_def)
qed (auto simp: rd_take_def reader_at_def)

subsection \<open>The contract between a writer and its reader\<close>

text \<open>
  \<open>field_bytes v\<close> is what the field adds to the frame, if the value is writable. The writer
  appends exactly these bytes; the reader yields \<open>v\<close> exactly on input that starts with them.
\<close>

locale wire_field =
  fixes field_bytes :: "'a \<Rightarrow> u8 list option"
    and put :: "'a \<Rightarrow> encoder \<Rightarrow> protocol_error + encoder"
    and get :: "'a rd"
  assumes put_iff: "put v e = Inr e' \<longleftrightarrow> (\<exists>bs. field_bytes v = Some bs \<and> e' = e @ bs)"
    and get_iff: "get (reader_at pre s) = Inr (v, r') \<longleftrightarrow>
      (\<exists>bs rest. field_bytes v = Some bs \<and> s = bs @ rest \<and> r' = reader_at (pre @ bs) rest)"
begin

text \<open>The two laws as rewrite rules for a field inside a longer writer or reader.\<close>

lemma put_bind: "try_bind (put v e) k = Inr x \<longleftrightarrow> (\<exists>bs. field_bytes v = Some bs \<and> k (e @ bs) = Inr x)"
  by (auto simp: try_bind_Inr_iff put_iff)

lemma get_bind:
  "rd_bind get k (reader_at pre s) = Inr (y, r) \<longleftrightarrow>
     (\<exists>v bs rest. field_bytes v = Some bs \<and> s = bs @ rest \<and> k v (reader_at (pre @ bs) rest) = Inr (y, r))"
  by (auto simp: rd_bind_iff get_iff)

text \<open>A reader in front of a field's bytes yields the field.\<close>

lemma get_forward:
  "field_bytes v = Some bs \<Longrightarrow> rd_bind get k (reader_at pre (bs @ rest)) = k v (reader_at (pre @ bs) rest)"
  using get_iff [of pre "bs @ rest" v "reader_at (pre @ bs) rest"] by (simp add: rd_bind_def)

lemma get_forward_last:
  "field_bytes v = Some bs \<Longrightarrow> rd_bind get k (reader_at pre bs) = k v (reader_at (pre @ bs) [])"
  using get_forward [of v bs k pre "[]"] by simp

text \<open>Reading right after writing gives the value back and stops where the writer stopped.\<close>

lemma get_after_put:
  assumes "put v e = Inr e'"
  shows "\<exists>bs. e' = e @ bs \<and> get (reader_at e (bs @ rest)) = Inr (v, reader_at e' rest)"
  using assms by (auto simp: put_iff get_iff)

text \<open>What has been read is what the writer would write: the representation is canonical.\<close>

lemma put_after_get:
  assumes "get (reader_at e s) = Inr (v, r')"
  shows "\<exists>e' rest. put v e = Inr e' \<and> e @ s = e' @ rest \<and> r' = reader_at e' rest"
  using assms by (auto simp: put_iff get_iff)

end

lemma read_word_iff:
  fixes v :: "'a::len word"
  assumes "LENGTH('a) = 8 * n"
  shows "rd_bind (rd_take n) (\<lambda>bs. rd_return (word_of_nat (from_be bs))) (reader_at pre s) = Inr (v, r')
     \<longleftrightarrow> (\<exists>rest. s = be_bytes n (unat v) @ rest \<and> r' = reader_at (pre @ be_bytes n (unat v)) rest)"
proof -
  have pow: "(2::nat) ^ LENGTH('a) = 256 ^ n"
    by (simp add: assms power_mult)
  have "bs = be_bytes n (unat v)" if len: "length bs = n" and v: "v = word_of_nat (from_be bs)" for bs
  proof -
    have "from_be bs < 2 ^ LENGTH('a)"
      using from_be_less [of bs] len by (simp add: pow)
    then have "unat v = from_be bs"
      by (simp add: v unat_of_nat)
    then show ?thesis
      using len by (simp add: be_bytes_from_be)
  qed
  moreover have "unat v < 256 ^ n"
    unfolding pow [symmetric] by (rule unsigned_less)
  then have "v = word_of_nat (from_be (be_bytes n (unat v)))"
    by (simp add: from_be_be_bytes)
  ultimately have eq:
    "length bs = n \<and> v = word_of_nat (from_be bs) \<longleftrightarrow> bs = be_bytes n (unat v)" for bs
    by auto
  have "rd_bind (rd_take n) (\<lambda>bs. rd_return (word_of_nat (from_be bs))) (reader_at pre s) = Inr (v, r')
     \<longleftrightarrow> (\<exists>bs rest. (length bs = n \<and> v = word_of_nat (from_be bs)) \<and> s = bs @ rest \<and>
           r' = reader_at (pre @ bs) rest)"
    by (auto simp: wire)
  then show ?thesis
    unfolding eq by simp
qed

lemma read_u8_at:
  "read_u8 (reader_at pre s) =
     (case s of [] \<Rightarrow> Inl Truncated | b # rest \<Rightarrow> Inr (b, reader_at (pre @ [b]) rest))"
  by (cases s)
    (simp_all add: read_u8_def rd_bind_def rd_take_def rd_return_def reader_at_def)

interpretation u8_field: wire_field "\<lambda>v. Some [v]" "\<lambda>v e. Inr (put_u8 v e)" read_u8
proof
  fix pre s v r'
  show "read_u8 (reader_at pre s) = Inr (v, r') \<longleftrightarrow>
      (\<exists>bs rest. Some [v] = Some bs \<and> s = bs @ rest \<and> r' = reader_at (pre @ bs) rest)"
    by (auto simp: read_u8_def wire length_Suc_conv)
qed (auto simp: put_u8_def)

interpretation u16_field: wire_field "\<lambda>v. Some (be_bytes 2 (unat v))" "\<lambda>v e. Inr (put_u16 v e)" read_u16
  by unfold_locales (auto simp: put_u16_def read_u16_def read_word_iff)

interpretation u32_field: wire_field "\<lambda>v. Some (be_bytes 4 (unat v))" "\<lambda>v e. Inr (put_u32 v e)" read_u32
  by unfold_locales (auto simp: put_u32_def read_u32_def read_word_iff)

interpretation u64_field: wire_field "\<lambda>v. Some (be_bytes 8 (unat v))" "\<lambda>v e. Inr (put_u64 v e)" read_u64
  by unfold_locales (auto simp: put_u64_def read_u64_def read_word_iff)

interpretation f64_field: wire_field "\<lambda>v. Some (be_bytes 8 (unat (to_bits v)))" "\<lambda>v e. Inr (put_f64 v e)" read_f64
proof
  fix pre s v r'
  show "read_f64 (reader_at pre s) = Inr (v, r') \<longleftrightarrow>
      (\<exists>bs rest. Some (be_bytes 8 (unat (to_bits v))) = Some bs \<and> s = bs @ rest \<and>
         r' = reader_at (pre @ bs) rest)"
    by (cases v) (auto simp: read_f64_def wire u64_field.get_iff)
qed (auto simp: put_f64_def put_u64_def)

interpretation bool_field: wire_field "\<lambda>v. Some [if v then 1 else 0]" "\<lambda>v e. Inr (put_bool v e)" read_bool
proof
  fix pre s v r'
  show "read_bool (reader_at pre s) = Inr (v, r') \<longleftrightarrow>
      (\<exists>bs rest. Some [if v then 1 else 0] = Some bs \<and> s = bs @ rest \<and>
         r' = reader_at (pre @ bs) rest)"
    by (cases s) (auto simp: read_bool_def rd_bind_def read_u8_at rd_return_def rd_lift_def)
qed (auto simp: put_bool_def put_u8_def)

subsection \<open>Text fields\<close>

definition text_ok :: "usize \<Rightarrow> bool \<Rightarrow> str \<Rightarrow> bool" where
  "text_ok maximum secret value \<longleftrightarrow>
     trim value \<noteq> [] \<and> trim value = value \<and> str_len value \<le> maximum \<and>
     \<not> list_ex is_control value \<and> \<not> (secret \<and> list_ex is_whitespace value)"

lemma validate_text_ok_iff: "validate_text field value maximum secret = Inr u \<longleftrightarrow> text_ok maximum secret value"
  by (auto simp: validate_text_def text_ok_def)

lemma valid_identifier_text: "valid_identifier v \<longleftrightarrow> text_ok MAX_IDENTIFIER_BYTES False v"
  by (auto simp: valid_identifier_def text_ok_def)

definition text_bytes :: "usize \<Rightarrow> bool \<Rightarrow> str \<Rightarrow> u8 list option" where
  "text_bytes maximum secret value =
     (if text_ok maximum secret value \<and> str_len value < 2 ^ 16
      then Some (be_bytes 2 (str_len value) @ as_bytes value) else None)"

definition optional_text_bytes :: "usize \<Rightarrow> bool \<Rightarrow> str option \<Rightarrow> u8 list option" where
  "optional_text_bytes maximum secret value =
     (case value of None \<Rightarrow> Some [0] | Some s \<Rightarrow> map_option ((#) 1) (text_bytes maximum secret s))"

lemma unat_of_nat_u16: "n < 2 ^ 16 \<Longrightarrow> unat (word_of_nat n :: u16) = n"
  by (simp add: unat_of_nat)

interpretation text_field: wire_field "text_bytes maximum secret" "put_string field maximum secret"
    "read_string field maximum secret" for field maximum secret
proof
  fix v e e'
  show "put_string field maximum secret v e = Inr e' \<longleftrightarrow>
      (\<exists>bs. text_bytes maximum secret v = Some bs \<and> e' = e @ bs)"
    by (auto simp: put_string_def try_bind_Inr_iff validate_text_ok_iff text_bytes_def put_u16_def
        put_bytes_def unat_of_nat_u16)
next
  fix pre s v r'
  show "read_string field maximum secret (reader_at pre s) = Inr (v, r') \<longleftrightarrow>
      (\<exists>bs rest. text_bytes maximum secret v = Some bs \<and> s = bs @ rest \<and> r' = reader_at (pre @ bs) rest)"
    (is "?l \<longleftrightarrow> ?r")
  proof
    assume ?l
    then obtain l t bs rest where l: "s = be_bytes 2 (unat (l::u16)) @ t" "t = bs @ rest"
      "length bs = unat l" "from_utf8 bs = Some v" "text_ok maximum secret v"
      "r' = reader_at (pre @ be_bytes 2 (unat l) @ bs) rest"
      by (fastforce simp: read_string_def wire u16_field.get_iff validate_text_ok_iff Let_def)
    then have "bs = as_bytes v" "unat l = str_len v"
      by (auto simp: utf8.decode_iff str_len_def)
    moreover have "unat l < 2 ^ 16"
      using unsigned_less [of l] by simp
    ultimately show ?r
      using l by (auto simp: text_bytes_def)
  next
    assume ?r
    then obtain rest where v: "text_ok maximum secret v" "str_len v < 2 ^ 16"
      "s = be_bytes 2 (str_len v) @ as_bytes v @ rest"
      "r' = reader_at (pre @ be_bytes 2 (str_len v) @ as_bytes v) rest"
      by (auto simp: text_bytes_def split: if_splits)
    define l :: u16 where "l = word_of_nat (str_len v)"
    have l: "unat l = str_len v"
      unfolding l_def by (rule unat_of_nat_u16 [OF v(2)])
    have "read_u16 (reader_at pre s) = Inr (l, reader_at (pre @ be_bytes 2 (str_len v)) (as_bytes v @ rest))"
      by (simp add: u16_field.get_iff v(3) l)
    moreover have "rd_take (str_len v) (reader_at (pre @ be_bytes 2 (str_len v)) (as_bytes v @ rest))
        = Inr (as_bytes v, r')"
      by (simp add: rd_take_iff v(4) str_len_def)
    moreover have "validate_text field v maximum secret = Inr ()"
      using v(1) by (simp only: validate_text_ok_iff)
    moreover have "str_len v \<le> maximum"
      using v(1) by (simp add: text_ok_def)
    ultimately show ?l
      by (simp add: read_string_def rd_bind_def Let_def l utf8.decode_encode rd_lift_def rd_return_def)
  qed
qed

interpretation optional_text_field: wire_field "optional_text_bytes maximum secret"
    "put_optional_string field maximum secret" "read_optional_string field maximum secret"
    for field maximum secret
proof
  fix v e e'
  show "put_optional_string field maximum secret v e = Inr e' \<longleftrightarrow>
      (\<exists>bs. optional_text_bytes maximum secret v = Some bs \<and> e' = e @ bs)"
    by (auto simp: put_optional_string_def optional_text_bytes_def put_u8_def text_field.put_iff
        split: option.splits)
next
  fix pre s v r'
  show "read_optional_string field maximum secret (reader_at pre s) = Inr (v, r') \<longleftrightarrow>
      (\<exists>bs rest. optional_text_bytes maximum secret v = Some bs \<and> s = bs @ rest \<and>
         r' = reader_at (pre @ bs) rest)"
    by (cases s; cases v)
      (auto simp: read_optional_string_def rd_bind_def read_u8_at rd_return_def rd_lift_def
        optional_text_bytes_def text_field.get_iff try_bind_Inr_iff)
qed

subsection \<open>Identifier fields\<close>

lemma read_identifier_iff:
  assumes new: "\<And>s. new s = id_new kind con s" and con: "\<And>s. sel (con s) = s" "\<And>x. con (sel x) = x"
  shows "rd_bind (read_string field MAX_IDENTIFIER_BYTES False)
      (\<lambda>v. rd_lift (map_err (\<lambda>_. InvalidIdentifier) (new v))) (reader_at pre s) = Inr (x, r') \<longleftrightarrow>
    (\<exists>bs rest. text_bytes MAX_IDENTIFIER_BYTES False (sel x) = Some bs \<and> s = bs @ rest \<and>
       r' = reader_at (pre @ bs) rest)"
proof -
  have valid: "valid_identifier v" if "text_bytes MAX_IDENTIFIER_BYTES False v = Some bs" for v bs
    using that by (simp add: text_bytes_def valid_identifier_text split: if_splits)
  have eq: "x = con v \<longleftrightarrow> v = sel x" for v
    using con by metis
  show ?thesis
    by (auto simp: rd_bind_iff rd_lift_iff new id_new_ok_iff text_field.get_iff eq dest: valid)
qed

interpretation session_id_field: wire_field
    "\<lambda>v. text_bytes MAX_IDENTIFIER_BYTES False (session_id_str v)" put_session_id read_session_id
  by unfold_locales
    (simp_all add: put_session_id_def text_field.put_iff read_session_id_def
      read_identifier_iff [where kind = Session and con = SessionId and sel = session_id_str]
      session_id_new_def)

interpretation stream_id_field: wire_field
    "\<lambda>v. text_bytes MAX_IDENTIFIER_BYTES False (stream_id_str v)" put_stream_id read_stream_id
  by unfold_locales
    (simp_all add: put_stream_id_def text_field.put_iff read_stream_id_def
      read_identifier_iff [where kind = Stream and con = StreamId and sel = stream_id_str]
      stream_id_new_def)

interpretation device_id_field: wire_field
    "\<lambda>v. text_bytes MAX_IDENTIFIER_BYTES False (device_id_str v)" put_device_id read_device_id
  by unfold_locales
    (simp_all add: put_device_id_def text_field.put_iff read_device_id_def
      read_identifier_iff [where kind = Device and con = DeviceId and sel = device_id_str]
      device_id_new_def)

end
