(* ===== verification/Protocol_Codec.thy ===== *)
theory Protocol_Codec
  imports Protocol_Wire
begin

section \<open>The frame codec\<close>

text \<open>
  \<open>protocol/codec/encoding.rs\<close> and \<open>protocol/codec/decoding.rs\<close>: the payload of every message,
  the frame header, and the diagnosing \<open>ProtocolDecoder\<close>. The main result is that
  \<open>decode_frame\<close> and \<open>encode_frame\<close> are exact inverses: a byte sequence decodes to a frame if and
  only if it is the encoding of that frame.
\<close>

subsection \<open>Encoding\<close>

definition encode_control :: "control_message \<Rightarrow> protocol_error + u8 list" where
  "encode_control message =
     (case message of
        CmHello v \<Rightarrow>
          try_bind (put_session_id (hello_session_id v) []) (\<lambda>e.
          try_bind (put_string ''session_name'' MAX_SESSION_NAME_BYTES False (hello_session_name v) e) (\<lambda>e.
          try_bind (put_string ''host_name'' MAX_DISPLAY_NAME_BYTES False (hello_host_name v) e) (\<lambda>e.
          Inr (put_bool (hello_approval_required v) e))))
      | CmJoinRequest v \<Rightarrow>
          try_bind (put_session_id (jr_session_id v) []) (\<lambda>e.
          try_bind (put_device_id (di_device_id (jr_device v)) e) (\<lambda>e.
          try_bind (put_string ''display_name'' MAX_DISPLAY_NAME_BYTES False
                      (di_display_name (jr_device v)) e) (\<lambda>e.
          try_bind (put_optional_string ''invite_code'' MAX_INVITE_CODE_BYTES True
                      (jr_invite_code v) e) (\<lambda>e.
          Inr (put_u16 (jr_audio_port v) (put_u16 (jr_sync_port v) e))))))
      | CmJoinApproval v \<Rightarrow>
          try_bind (put_session_id (ja_session_id v) []) (\<lambda>e.
          try_bind (put_device_id (ja_listener_id v) e) (\<lambda>e.
          Inr (put_bool (ja_trusted_for_future v) e)))
      | CmJoinRejection v \<Rightarrow>
          try_bind (put_session_id (jrej_session_id v) []) (\<lambda>e.
          try_bind (put_device_id (jrej_listener_id v) e) (\<lambda>e.
          put_string ''reason'' MAX_REASON_BYTES False (jrej_reason v) e))
      | CmHeartbeat v \<Rightarrow>
          try_bind (put_session_id (hb_session_id v) []) (\<lambda>e.
          try_bind (put_device_id (hb_listener_id v) e) (\<lambda>e.
          Inr (put_u64 (hb_sent_at_elapsed_ms v) e)))
      | CmStreamStart v \<Rightarrow>
          try_bind (put_session_id (ss_session_id v) []) (\<lambda>e.
          try_bind (put_stream_id (ss_stream_id v) e) (\<lambda>e.
          try_bind (put_optional_string ''current_entry_id'' MAX_IDENTIFIER_BYTES False
                      (ss_current_entry_id v)
                      (put_u32 (ss_samples_per_packet v) (put_u16 (ss_channels v)
                        (put_u32 (ss_sample_rate v) (put_u64 (ss_host_start_time_ms v) e))))) (\<lambda>e.
          put_optional_string ''current_display_name'' MAX_DISPLAY_NAME_BYTES False
            (ss_current_display_name v) e)))
      | CmTrackBoundary v \<Rightarrow>
          try_bind (put_session_id (tb_session_id v) []) (\<lambda>e.
          try_bind (put_stream_id (tb_stream_id v) e) (\<lambda>e.
          try_bind (put_string ''entry_id'' MAX_IDENTIFIER_BYTES False (tb_entry_id v)
                      (put_u64 (tb_first_sample_index v) e)) (\<lambda>e.
          put_string ''display_name'' MAX_DISPLAY_NAME_BYTES False (tb_display_name v) e)))
      | CmPause v \<Rightarrow>
          try_bind (put_session_id (pause_session_id v) []) (\<lambda>e.
          try_bind (put_stream_id (pause_stream_id v) e) (\<lambda>e.
          Inr (put_u64 (pause_host_pause_time_ms v) e)))
      | CmStop v \<Rightarrow>
          try_bind (put_session_id (stop_session_id v) []) (\<lambda>e.
          try_bind (put_stream_id (stop_stream_id v) e) (\<lambda>e.
          Inr (put_u64 (stop_host_stop_time_ms v) e)))
      | CmDisconnect v \<Rightarrow>
          try_bind (put_session_id (dc_session_id v) []) (\<lambda>e.
          try_bind (put_device_id (dc_listener_id v) e) (\<lambda>e.
          put_string ''reason'' MAX_REASON_BYTES False (dc_reason v) e))
      | CmResyncNotice v \<Rightarrow>
          try_bind (put_session_id (rn_session_id v) []) (\<lambda>e.
          try_bind (put_device_id (rn_listener_id v) e) (\<lambda>e.
          put_string ''reason'' MAX_REASON_BYTES False (rn_reason v) e))
      | CmSynchronizationReport v \<Rightarrow>
          try_bind (put_session_id (sr_session_id v) []) (\<lambda>e.
          try_bind (put_device_id (sr_listener_id v) e) (\<lambda>e.
          try_bind (put_string ''confidence'' MAX_SYNC_CONFIDENCE_WIRE_NAME_BYTES False
                      (lit (sync_confidence_wire_name (sr_confidence v))) e) (\<lambda>e.
          Inr (put_f64 (sr_drift_ppm v) (put_f64 (sr_round_trip_ms v) (put_f64 (sr_offset_ms v) e)))))))"

definition encode_sync_request :: "sync_request \<Rightarrow> protocol_error + u8 list" where
  "encode_sync_request v =
     try_bind (put_session_id (sreq_session_id v) []) (\<lambda>e.
     Inr (put_u64 (sreq_t1_listener_send_elapsed_ms v) (put_u64 (sreq_correlation_id v) e)))"

definition encode_sync_response :: "sync_response \<Rightarrow> protocol_error + u8 list" where
  "encode_sync_response v =
     (if sres_t3_host_send_elapsed_ms v < sres_t2_host_receive_elapsed_ms v
      then Inl (InvalidField ''host_timestamp_order'')
      else try_bind (put_session_id (sres_session_id v) []) (\<lambda>e.
           Inr (put_u64 (sres_t3_host_send_elapsed_ms v)
                 (put_u64 (sres_t2_host_receive_elapsed_ms v)
                   (put_u64 (sres_t1_listener_send_elapsed_ms v)
                     (put_u64 (sres_correlation_id v) e))))))"

definition encode_audio :: "audio_datagram \<Rightarrow> protocol_error + u8 list" where
  "encode_audio v =
     try_bind (validate_audio_parameters v) (\<lambda>_.
     try_bind (put_session_id (ad_session_id v) []) (\<lambda>e.
     try_bind (put_stream_id (ad_stream_id v) e) (\<lambda>e.
     let e = put_u64 (ad_host_presentation_time_ms v)
               (put_u64 (ad_first_sample_index v)
                 (put_u32 (ad_samples_per_packet v)
                   (put_u16 (ad_channels v)
                     (put_u32 (ad_sample_rate v)
                       (put_u8 (audio_codec_code (ad_codec v))
                         (put_u64 (ad_sequence v) e)))))) in
     if length (ad_payload v) < 2 ^ 16
     then let encoded = put_bytes (ad_payload v)
                (put_u32 (crc32 (ad_payload v)) (put_u16 (word_of_nat (length (ad_payload v))) e));
              maximum = MAX_AUDIO_DATAGRAM_BYTES - FRAME_HEADER_BYTES
          in if length encoded > maximum then Inl (PayloadTooLarge (length encoded) maximum)
             else Inr encoded
     else Inl (PayloadTooLarge (length (ad_payload v)) (2 ^ 16 - 1)))))"

definition encode_payload :: "protocol_frame \<Rightarrow> protocol_error + u8 list \<times> u16" where
  "encode_payload frame =
     (case frame of
        PfControl m \<Rightarrow> try_bind (encode_control m) (\<lambda>p. Inr (p, 0))
      | PfSyncRequest v \<Rightarrow> try_bind (encode_sync_request v) (\<lambda>p. Inr (p, 0))
      | PfSyncResponse v \<Rightarrow> try_bind (encode_sync_response v) (\<lambda>p. Inr (p, 0))
      | PfAudio v \<Rightarrow> try_bind (encode_audio v) (\<lambda>p. Inr (p, FLAG_PAYLOAD_INTEGRITY)))"

definition encode_frame :: "protocol_frame \<Rightarrow> protocol_error + u8 list" where
  "encode_frame frame =
     try_bind (encode_payload frame) (\<lambda>(payload, flags).
     let maximum = maximum_payload_bytes (frame_kind frame) in
     if length payload > maximum then Inl (PayloadTooLarge (length payload) maximum)
     else if length payload < 2 ^ 32
     then let header = frame_header_new (frame_kind frame) flags (word_of_nat (length payload))
          in Inr (put_bytes payload
               (put_u32 (fh_payload_length header)
                 (put_u16 (fh_header_length header)
                   (put_u16 (fh_flags header)
                     (put_u16 (message_kind_code (fh_kind header))
                       (put_u16 (fh_version header)
                         (put_bytes PROTOCOL_MAGIC [])))))))
     else Inl (PayloadTooLarge (length payload) maximum))"

subsection \<open>Decoding\<close>

definition decode_stream_start :: "stream_start rd" where
  "decode_stream_start =
     rd_bind read_session_id (\<lambda>session_id.
     rd_bind read_stream_id (\<lambda>stream_id.
     rd_bind read_u64 (\<lambda>host_start_time_ms.
     rd_bind read_u32 (\<lambda>sample_rate.
     rd_bind read_u16 (\<lambda>channels.
     rd_bind read_u32 (\<lambda>samples_per_packet.
     rd_bind (read_optional_string ''current_entry_id'' MAX_IDENTIFIER_BYTES False) (\<lambda>current_entry_id.
     rd_bind (read_optional_string ''current_display_name'' MAX_DISPLAY_NAME_BYTES False) (\<lambda>current_display_name.
     rd_return \<lparr>ss_session_id = session_id, ss_stream_id = stream_id,
       ss_host_start_time_ms = host_start_time_ms, ss_sample_rate = sample_rate,
       ss_channels = channels, ss_samples_per_packet = samples_per_packet,
       ss_current_entry_id = current_entry_id, ss_current_display_name = current_display_name\<rparr>))))))))"

text \<open>The field \<open>confidence\<close> of a synchronization report: a wire name read as a string.\<close>

definition read_confidence :: "sync_confidence rd" where
  "read_confidence =
     rd_bind (read_string ''confidence'' MAX_SYNC_CONFIDENCE_WIRE_NAME_BYTES False) (\<lambda>name.
       rd_lift (map_err (\<lambda>_. InvalidField ''confidence'')
         (enum_from_wire_name ''SyncConfidence'' sync_confidence_variants sync_confidence_wire_name name)))"

text \<open>The \<open>match\<close> of \<open>decode_control\<close>, before the reader is finished.\<close>

definition decode_control_fields :: "message_kind \<Rightarrow> control_message rd" where
  "decode_control_fields kind =
     (case kind of
        MkHello \<Rightarrow>
          rd_bind read_session_id (\<lambda>session_id.
          rd_bind (read_string ''session_name'' MAX_SESSION_NAME_BYTES False) (\<lambda>session_name.
          rd_bind (read_string ''host_name'' MAX_DISPLAY_NAME_BYTES False) (\<lambda>host_name.
          rd_bind read_bool (\<lambda>approval_required.
          rd_return (CmHello \<lparr>hello_session_id = session_id, hello_session_name = session_name,
            hello_host_name = host_name, hello_approval_required = approval_required\<rparr>)))))
      | MkJoinRequest \<Rightarrow>
          rd_bind read_session_id (\<lambda>session_id.
          rd_bind read_device_id (\<lambda>device_id.
          rd_bind (read_string ''display_name'' MAX_DISPLAY_NAME_BYTES False) (\<lambda>display_name.
          rd_bind (read_optional_string ''invite_code'' MAX_INVITE_CODE_BYTES True) (\<lambda>invite_code.
          rd_bind read_u16 (\<lambda>sync_port.
          rd_bind read_u16 (\<lambda>audio_port.
          rd_return (CmJoinRequest \<lparr>jr_session_id = session_id,
            jr_device = \<lparr>di_device_id = device_id, di_display_name = display_name\<rparr>,
            jr_invite_code = invite_code, jr_sync_port = sync_port, jr_audio_port = audio_port\<rparr>)))))))
      | MkJoinApproval \<Rightarrow>
          rd_bind read_session_id (\<lambda>session_id.
          rd_bind read_device_id (\<lambda>listener_id.
          rd_bind read_bool (\<lambda>trusted_for_future.
          rd_return (CmJoinApproval \<lparr>ja_session_id = session_id, ja_listener_id = listener_id,
            ja_trusted_for_future = trusted_for_future\<rparr>))))
      | MkJoinRejection \<Rightarrow>
          rd_bind read_session_id (\<lambda>session_id.
          rd_bind read_device_id (\<lambda>listener_id.
          rd_bind (read_string ''reason'' MAX_REASON_BYTES False) (\<lambda>reason.
          rd_return (CmJoinRejection \<lparr>jrej_session_id = session_id, jrej_listener_id = listener_id,
            jrej_reason = reason\<rparr>))))
      | MkHeartbeat \<Rightarrow>
          rd_bind read_session_id (\<lambda>session_id.
          rd_bind read_device_id (\<lambda>listener_id.
          rd_bind read_u64 (\<lambda>sent_at_elapsed_ms.
          rd_return (CmHeartbeat \<lparr>hb_session_id = session_id, hb_listener_id = listener_id,
            hb_sent_at_elapsed_ms = sent_at_elapsed_ms\<rparr>))))
      | MkStreamStart \<Rightarrow> rd_bind decode_stream_start (\<lambda>v. rd_return (CmStreamStart v))
      | MkTrackBoundary \<Rightarrow>
          rd_bind read_session_id (\<lambda>session_id.
          rd_bind read_stream_id (\<lambda>stream_id.
          rd_bind read_u64 (\<lambda>first_sample_index.
          rd_bind (read_string ''entry_id'' MAX_IDENTIFIER_BYTES False) (\<lambda>entry_id.
          rd_bind (read_string ''display_name'' MAX_DISPLAY_NAME_BYTES False) (\<lambda>display_name.
          rd_return (CmTrackBoundary \<lparr>tb_session_id = session_id, tb_stream_id = stream_id,
            tb_first_sample_index = first_sample_index, tb_entry_id = entry_id,
            tb_display_name = display_name\<rparr>))))))
      | MkPause \<Rightarrow>
          rd_bind read_session_id (\<lambda>session_id.
          rd_bind read_stream_id (\<lambda>stream_id.
          rd_bind read_u64 (\<lambda>host_pause_time_ms.
          rd_return (CmPause \<lparr>pause_session_id = session_id, pause_stream_id = stream_id,
            pause_host_pause_time_ms = host_pause_time_ms\<rparr>))))
      | MkStop \<Rightarrow>
          rd_bind read_session_id (\<lambda>session_id.
          rd_bind read_stream_id (\<lambda>stream_id.
          rd_bind read_u64 (\<lambda>host_stop_time_ms.
          rd_return (CmStop \<lparr>stop_session_id = session_id, stop_stream_id = stream_id,
            stop_host_stop_time_ms = host_stop_time_ms\<rparr>))))
      | MkDisconnect \<Rightarrow>
          rd_bind read_session_id (\<lambda>session_id.
          rd_bind read_device_id (\<lambda>listener_id.
          rd_bind (read_string ''reason'' MAX_REASON_BYTES False) (\<lambda>reason.
          rd_return (CmDisconnect \<lparr>dc_session_id = session_id, dc_listener_id = listener_id,
            dc_reason = reason\<rparr>))))
      | MkResyncNotice \<Rightarrow>
          rd_bind read_session_id (\<lambda>session_id.
          rd_bind read_device_id (\<lambda>listener_id.
          rd_bind (read_string ''reason'' MAX_REASON_BYTES False) (\<lambda>reason.
          rd_return (CmResyncNotice \<lparr>rn_session_id = session_id, rn_listener_id = listener_id,
            rn_reason = reason\<rparr>))))
      | MkSynchronizationReport \<Rightarrow>
          rd_bind read_session_id (\<lambda>session_id.
          rd_bind read_device_id (\<lambda>listener_id.
          rd_bind read_confidence (\<lambda>confidence.
          rd_bind read_f64 (\<lambda>offset_ms.
          rd_bind read_f64 (\<lambda>round_trip_ms.
          rd_bind read_f64 (\<lambda>drift_ppm.
          rd_return (CmSynchronizationReport \<lparr>sr_session_id = session_id, sr_listener_id = listener_id,
            sr_confidence = confidence, sr_offset_ms = offset_ms, sr_round_trip_ms = round_trip_ms,
            sr_drift_ppm = drift_ppm\<rparr>)))))))
      | _ \<Rightarrow> rd_lift (Inl (UnsupportedMessageKind (message_kind_code kind))))"

text \<open>Running a reader over a whole payload: \<open>Reader::new\<close>, the fields, \<open>Reader::finish\<close>.\<close>

definition rd_run :: "'a rd \<Rightarrow> u8 list \<Rightarrow> protocol_error + 'a" where
  "rd_run m payload =
     try_bind (m (reader_new payload)) (\<lambda>(value, r). try_bind (rd_finish r) (\<lambda>_. Inr value))"

definition decode_control :: "message_kind \<Rightarrow> u8 list \<Rightarrow> protocol_error + control_message" where
  "decode_control kind payload = rd_run (decode_control_fields kind) payload"

definition decode_sync_request :: "u8 list \<Rightarrow> protocol_error + sync_request" where
  "decode_sync_request =
     rd_run (
       rd_bind read_session_id (\<lambda>session_id.
       rd_bind read_u64 (\<lambda>correlation_id.
       rd_bind read_u64 (\<lambda>t1.
       rd_return \<lparr>sreq_session_id = session_id, sreq_correlation_id = correlation_id,
         sreq_t1_listener_send_elapsed_ms = t1\<rparr>))))"

definition decode_sync_response :: "u8 list \<Rightarrow> protocol_error + sync_response" where
  "decode_sync_response payload =
     try_bind (rd_run (
       rd_bind read_session_id (\<lambda>session_id.
       rd_bind read_u64 (\<lambda>correlation_id.
       rd_bind read_u64 (\<lambda>t1.
       rd_bind read_u64 (\<lambda>t2.
       rd_bind read_u64 (\<lambda>t3.
       rd_return \<lparr>sres_session_id = session_id, sres_correlation_id = correlation_id,
         sres_t1_listener_send_elapsed_ms = t1, sres_t2_host_receive_elapsed_ms = t2,
         sres_t3_host_send_elapsed_ms = t3\<rparr>)))))) payload) (\<lambda>value.
     if sres_t3_host_send_elapsed_ms value < sres_t2_host_receive_elapsed_ms value
     then Inl (InvalidField ''host_timestamp_order'')
     else Inr value)"

definition rd_remaining :: "usize rd" where
  "rd_remaining r = Inr (remaining r, r)"

definition read_audio_codec :: "audio_codec rd" where
  "read_audio_codec =
     rd_bind read_u8 (\<lambda>codec_code. rd_lift (map_err UnsupportedAudioCodec (audio_codec_of_code codec_code)))"

text \<open>The audio payload: its declared length and checksum against what is left of the input.\<close>

definition read_audio_payload :: "u8 list rd" where
  "read_audio_payload =
     rd_bind read_u16 (\<lambda>declared.
     rd_bind read_u32 (\<lambda>checksum.
     rd_bind rd_remaining (\<lambda>left.
     if unat declared > left then rd_lift (Inl (LengthMismatch (unat declared) left))
     else if unat declared < left then rd_lift (Inl TrailingBytes)
     else rd_bind (rd_take (unat declared)) (\<lambda>payload_bytes.
       if crc32 payload_bytes \<noteq> checksum then rd_lift (Inl IntegrityMismatch)
       else rd_return payload_bytes))))"

definition decode_audio :: "u8 list \<Rightarrow> protocol_error + audio_datagram" where
  "decode_audio payload =
     try_bind (rd_run (
       rd_bind read_session_id (\<lambda>session_id.
       rd_bind read_stream_id (\<lambda>stream_id.
       rd_bind read_u64 (\<lambda>sequence.
       rd_bind read_audio_codec (\<lambda>codec.
       rd_bind read_u32 (\<lambda>sample_rate.
       rd_bind read_u16 (\<lambda>channels.
       rd_bind read_u32 (\<lambda>samples_per_packet.
       rd_bind read_u64 (\<lambda>first_sample_index.
       rd_bind read_u64 (\<lambda>host_presentation_time_ms.
       rd_bind read_audio_payload (\<lambda>payload_bytes.
       rd_return \<lparr>ad_session_id = session_id, ad_stream_id = stream_id, ad_sequence = sequence,
         ad_codec = codec, ad_sample_rate = sample_rate, ad_channels = channels,
         ad_samples_per_packet = samples_per_packet, ad_first_sample_index = first_sample_index,
         ad_host_presentation_time_ms = host_presentation_time_ms,
         ad_payload = payload_bytes\<rparr>))))))))))) payload) (\<lambda>value.
     try_bind (validate_audio_parameters value) (\<lambda>_. Inr value))"

text \<open>
  The header. \<open>payload_length\<close> fits \<open>usize\<close> (32 and 64 bit targets alike), so the conversion that
  follows it in the source cannot fail.
\<close>

definition decode_header_fields :: "frame_header rd" where
  "decode_header_fields =
     rd_bind (rd_take (length PROTOCOL_MAGIC)) (\<lambda>magic.
     if magic \<noteq> PROTOCOL_MAGIC then rd_lift (Inl InvalidMagic)
     else rd_bind read_u16 (\<lambda>version.
     if version \<noteq> PROTOCOL_VERSION then rd_lift (Inl (UnsupportedVersion version))
     else rd_bind read_u16 (\<lambda>kind_code.
     rd_bind (rd_lift (map_err UnsupportedMessageKind (message_kind_of_code kind_code))) (\<lambda>kind.
     rd_bind read_u16 (\<lambda>flags.
     if flags AND NOT SUPPORTED_FRAME_FLAGS \<noteq> 0 then rd_lift (Inl (UnsupportedFlags flags))
     else if flags \<noteq> (if kind = MkAudio then FLAG_PAYLOAD_INTEGRITY else 0)
     then rd_lift (Inl (UnsupportedFlags flags))
     else rd_bind read_u16 (\<lambda>header_length.
     if unat header_length \<noteq> FRAME_HEADER_BYTES
     then rd_lift (Inl (InvalidHeaderLength header_length))
     else rd_bind read_u32 (\<lambda>payload_length.
     rd_return \<lparr>fh_version = version, fh_kind = kind, fh_flags = flags,
       fh_header_length = header_length, fh_payload_length = payload_length\<rparr>)))))))"

definition decode_header :: "u8 list \<Rightarrow> protocol_error + frame_header" where
  "decode_header bytes =
     (if length bytes < FRAME_HEADER_BYTES then Inl Truncated
      else try_bind (rd_run decode_header_fields (take FRAME_HEADER_BYTES bytes)) (\<lambda>header.
        let maximum = maximum_payload_bytes (fh_kind header) in
        if unat (fh_payload_length header) > maximum
        then Inl (PayloadTooLarge (unat (fh_payload_length header)) maximum)
        else Inr header))"

text \<open>The final \<open>match header.kind\<close> of \<open>decode_frame\<close>.\<close>

definition decode_payload :: "message_kind \<Rightarrow> u8 list \<Rightarrow> protocol_error + protocol_frame" where
  "decode_payload kind payload =
     (if is_control_kind kind then try_bind (decode_control kind payload) (\<lambda>m. Inr (PfControl m))
      else case kind of
          MkSyncRequest \<Rightarrow> try_bind (decode_sync_request payload) (\<lambda>v. Inr (PfSyncRequest v))
        | MkSyncResponse \<Rightarrow> try_bind (decode_sync_response payload) (\<lambda>v. Inr (PfSyncResponse v))
        | MkAudio \<Rightarrow> try_bind (decode_audio payload) (\<lambda>v. Inr (PfAudio v))
        | _ \<Rightarrow> Inl (UnsupportedMessageKind (message_kind_code kind)))"

definition decode_frame :: "u8 list \<Rightarrow> protocol_error + protocol_frame" where
  "decode_frame bytes =
     try_bind (decode_header bytes) (\<lambda>header.
     let payload_length = unat (fh_payload_length header);
         kind = fh_kind header in
     try_bind (ok_or (checked_add_usize FRAME_HEADER_BYTES payload_length)
                 (PayloadTooLarge usize_max (maximum_payload_bytes kind))) (\<lambda>expected_total.
     if length bytes < expected_total
     then Inl (LengthMismatch payload_length (length bytes - FRAME_HEADER_BYTES))
     else if length bytes > expected_total then Inl TrailingBytes
     else decode_payload kind (take payload_length (drop FRAME_HEADER_BYTES bytes))))"

subsection \<open>Payloads: decoding inverts encoding\<close>

interpretation confidence_field: wire_field
    "\<lambda>v. text_bytes MAX_SYNC_CONFIDENCE_WIRE_NAME_BYTES False (lit (sync_confidence_wire_name v))"
    "\<lambda>v. put_string ''confidence'' MAX_SYNC_CONFIDENCE_WIRE_NAME_BYTES False (lit (sync_confidence_wire_name v))"
    read_confidence
  by unfold_locales
    (auto simp: text_field.put_iff read_confidence_def rd_bind_iff rd_lift_iff text_field.get_iff
      map_err_Inr_iff sync_confidence_enum.from_wire_name_iff)

interpretation codec_field: wire_field
    "\<lambda>v. Some [audio_codec_code v]" "\<lambda>v e. Inr (put_u8 (audio_codec_code v) e)" read_audio_codec
  by unfold_locales
    (auto simp: put_u8_def read_audio_codec_def rd_bind_iff rd_lift_iff u8_field.get_iff
      map_err_Inr_iff audio_codec_of_code_iff)

lemmas put_bind_iffs =
  session_id_field.put_bind stream_id_field.put_bind device_id_field.put_bind text_field.put_bind
  optional_text_field.put_bind confidence_field.put_bind
  session_id_field.put_iff stream_id_field.put_iff device_id_field.put_iff text_field.put_iff
  optional_text_field.put_iff confidence_field.put_iff

lemmas get_bind_iffs =
  session_id_field.get_bind stream_id_field.get_bind device_id_field.get_bind text_field.get_bind
  optional_text_field.get_bind confidence_field.get_bind codec_field.get_bind
  u8_field.get_bind u16_field.get_bind u32_field.get_bind u64_field.get_bind f64_field.get_bind
  bool_field.get_bind

lemmas pure_puts = put_u8_def put_u16_def put_u32_def put_u64_def put_f64_def put_bool_def put_bytes_def

lemma rd_run_iff:
  "rd_run m payload = Inr v \<longleftrightarrow> (\<exists>r. m (reader_at [] payload) = Inr (v, r) \<and> rd_finish r = Inr ())"
  by (auto simp: rd_run_def reader_new_at try_bind_Inr_iff)

lemmas get_forwards =
  session_id_field.get_forward stream_id_field.get_forward device_id_field.get_forward
  text_field.get_forward optional_text_field.get_forward confidence_field.get_forward
  codec_field.get_forward [OF refl, simplified] u16_field.get_forward [OF refl] u32_field.get_forward [OF refl]
  u64_field.get_forward [OF refl] f64_field.get_forward [OF refl]
  text_field.get_forward_last optional_text_field.get_forward_last
  u16_field.get_forward_last [OF refl] u64_field.get_forward_last [OF refl]
  f64_field.get_forward_last [OF refl] bool_field.get_forward_last [OF refl]

lemma rd_bind_assoc: "rd_bind (rd_bind m f) g = rd_bind m (\<lambda>x. rd_bind (f x) g)"
  by (auto simp: rd_bind_def fun_eq_iff try_bind_assoc intro!: arg_cong [where f = "try_bind _"])

lemma rd_bind_return: "rd_bind (rd_return x) f = f x"
  by (simp add: rd_bind_def fun_eq_iff rd_return_def)

lemma rd_run_forward:
  "m (reader_at [] payload) = rd_return v (reader_at pre []) \<Longrightarrow> rd_run m payload = Inr v"
  by (simp add: rd_run_def reader_new_at rd_return_def rd_finish_def remaining_at)

lemma rd_bind_lift: "rd_bind (rd_lift (Inr x)) f = f x"
  by (simp add: rd_bind_def fun_eq_iff rd_lift_def)

lemma rd_take_forward:
  "rd_bind (rd_take (length bs)) f (reader_at pre (bs @ rest)) = f bs (reader_at (pre @ bs) rest)"
proof -
  have "rd_take (length bs) (reader_at pre (bs @ rest)) = Inr (bs, reader_at (pre @ bs) rest)"
    by (simp add: rd_take_iff)
  then show ?thesis
    by (simp add: rd_bind_def)
qed

lemma rd_run_Inl: "m = rd_lift (Inl e) \<Longrightarrow> rd_run m payload = Inl e"
  by (simp add: rd_run_def rd_lift_def)

lemma decode_encode_control:
  assumes "encode_control m = Inr p"
  shows "decode_control (control_kind m) p = Inr m"
  unfolding decode_control_def
  by (rule rd_run_forward [where pre = p], use assms in \<open>cases m\<close>)
    (auto simp: encode_control_def put_bind_iffs pure_puts decode_control_fields_def
      decode_stream_start_def rd_bind_assoc rd_bind_return get_forwards rd_return_def)

lemma encode_decode_control:
  assumes "decode_control k p = Inr m"
  shows "control_kind m = k \<and> encode_control m = Inr p"
  using assms
  by (cases k) (auto simp: encode_control_def put_bind_iffs pure_puts decode_control_def rd_run_iff
      decode_control_fields_def decode_stream_start_def rd_bind_assoc rd_bind_return get_bind_iffs
      rd_return_iff rd_lift_iff finish_at_iff)

lemma sync_request_iff: "encode_sync_request v = Inr p \<longleftrightarrow> decode_sync_request p = Inr v"
proof
  assume "encode_sync_request v = Inr p"
  then show "decode_sync_request p = Inr v"
    unfolding decode_sync_request_def
    by (intro rd_run_forward [where pre = p])
      (auto simp: encode_sync_request_def put_bind_iffs pure_puts get_forwards rd_return_def)
qed (auto simp: encode_sync_request_def put_bind_iffs pure_puts decode_sync_request_def rd_run_iff
      get_bind_iffs rd_return_iff finish_at_iff)

lemma sync_response_iff: "encode_sync_response v = Inr p \<longleftrightarrow> decode_sync_response p = Inr v"
proof
  assume enc: "encode_sync_response v = Inr p"
  then show "decode_sync_response p = Inr v"
    unfolding decode_sync_response_def
    by (subst rd_run_forward [where pre = p and v = v])
      (auto simp: encode_sync_response_def put_bind_iffs pure_puts get_forwards rd_return_def
        split: if_splits)
qed (auto simp: encode_sync_response_def put_bind_iffs pure_puts decode_sync_response_def rd_run_iff
      get_bind_iffs rd_return_iff finish_at_iff try_bind_Inr_iff split: if_splits)

definition audio_payload_bytes :: "u8 list \<Rightarrow> u8 list" where
  "audio_payload_bytes v = be_bytes 2 (length v) @ be_bytes 4 (unat (crc32 v)) @ v"

lemma rd_take_all: "rd_take (length v) (reader_at q v) = Inr (v, reader_at (q @ v) [])"
  by (simp add: rd_take_iff)

text \<open>
  The audio payload is the last field: it reads back exactly when its length and its checksum
  are those of the bytes that follow.
\<close>

lemma read_audio_payload_iff:
  "read_audio_payload (reader_at pre s) = Inr (v, r') \<longleftrightarrow>
     length v < 2 ^ 16 \<and> s = audio_payload_bytes v \<and> r' = reader_at (pre @ s) []"
  (is "?l \<longleftrightarrow> ?r")
proof
  assume ?l
  then obtain d c rest where s: "s = be_bytes 2 (unat (d :: u16)) @ be_bytes 4 (unat (c :: u32)) @ rest"
    and step: "rd_bind rd_remaining (\<lambda>left.
        if unat d > left then rd_lift (Inl (LengthMismatch (unat d) left))
        else if unat d < left then rd_lift (Inl TrailingBytes)
        else rd_bind (rd_take (unat d)) (\<lambda>payload_bytes.
          if crc32 payload_bytes \<noteq> c then rd_lift (Inl IntegrityMismatch)
          else rd_return payload_bytes))
      (reader_at (pre @ be_bytes 2 (unat d) @ be_bytes 4 (unat c)) rest) = Inr (v, r')"
    by (auto simp: read_audio_payload_def get_bind_iffs)
  from step have d: "unat d = length rest"
    by (auto simp: rd_bind_def [of rd_remaining] rd_remaining_def remaining_at rd_lift_def split: if_splits)
  with step have "v = rest" "crc32 rest = c" "r' = reader_at (pre @ s) []"
    by (auto simp: rd_bind_def rd_remaining_def remaining_at rd_lift_def rd_take_all rd_return_def s
        split: if_splits)
  moreover have "unat d < 2 ^ 16"
    using unsigned_less [of d] by simp
  ultimately show ?r
    by (simp add: audio_payload_bytes_def s d)
next
  assume r: ?r
  define d :: u16 where "d = word_of_nat (length v)"
  have d: "unat d = length v"
    using r unat_of_nat_u16 by (simp add: d_def)
  show ?l
    using r by (simp add: audio_payload_bytes_def read_audio_payload_def d [symmetric]
        u16_field.get_forward [OF refl] u32_field.get_forward [OF refl])
      (simp add: rd_bind_def rd_remaining_def remaining_at d rd_take_all rd_return_def)
qed

lemma encode_audio_iff:
  "encode_audio v = Inr p \<longleftrightarrow>
     validate_audio_parameters v = Inr () \<and> length (ad_payload v) < 2 ^ 16 \<and>
     length p \<le> MAX_AUDIO_DATAGRAM_BYTES - FRAME_HEADER_BYTES \<and>
     (\<exists>bs1 bs2. text_bytes MAX_IDENTIFIER_BYTES False (session_id_str (ad_session_id v)) = Some bs1 \<and>
        text_bytes MAX_IDENTIFIER_BYTES False (stream_id_str (ad_stream_id v)) = Some bs2 \<and>
        p = bs1 @ bs2 @ be_bytes 8 (unat (ad_sequence v)) @ [audio_codec_code (ad_codec v)] @
          be_bytes 4 (unat (ad_sample_rate v)) @ be_bytes 2 (unat (ad_channels v)) @
          be_bytes 4 (unat (ad_samples_per_packet v)) @ be_bytes 8 (unat (ad_first_sample_index v)) @
          be_bytes 8 (unat (ad_host_presentation_time_ms v)) @ audio_payload_bytes (ad_payload v))"
  by (cases "validate_audio_parameters v")
    (auto simp: encode_audio_def put_bind_iffs pure_puts audio_payload_bytes_def Let_def
      unat_of_nat_u16 guard_Inr_iff require_Inr_iff)

lemma decode_audio_iff:
  "decode_audio p = Inr v \<longleftrightarrow>
     validate_audio_parameters v = Inr () \<and> length (ad_payload v) < 2 ^ 16 \<and>
     (\<exists>bs1 bs2. text_bytes MAX_IDENTIFIER_BYTES False (session_id_str (ad_session_id v)) = Some bs1 \<and>
        text_bytes MAX_IDENTIFIER_BYTES False (stream_id_str (ad_stream_id v)) = Some bs2 \<and>
        p = bs1 @ bs2 @ be_bytes 8 (unat (ad_sequence v)) @ [audio_codec_code (ad_codec v)] @
          be_bytes 4 (unat (ad_sample_rate v)) @ be_bytes 2 (unat (ad_channels v)) @
          be_bytes 4 (unat (ad_samples_per_packet v)) @ be_bytes 8 (unat (ad_first_sample_index v)) @
          be_bytes 8 (unat (ad_host_presentation_time_ms v)) @ audio_payload_bytes (ad_payload v))"
  (is "?l \<longleftrightarrow> ?r")
proof
  assume ?l
  then show ?r
    by (auto simp: decode_audio_def rd_run_iff get_bind_iffs rd_bind_iff [of read_audio_payload]
        read_audio_payload_iff rd_return_iff finish_at_iff try_bind_Inr_iff)
next
  assume r: ?r
  then have "read_audio_payload (reader_at pre (audio_payload_bytes (ad_payload v))) =
      Inr (ad_payload v, reader_at (pre @ audio_payload_bytes (ad_payload v)) [])" for pre
    by (simp add: read_audio_payload_iff)
  then have payload: "rd_bind read_audio_payload f (reader_at pre (audio_payload_bytes (ad_payload v))) =
      f (ad_payload v) (reader_at (pre @ audio_payload_bytes (ad_payload v)) [])" for f pre
    by (simp add: rd_bind_def)
  show ?l
    unfolding decode_audio_def
    by (subst rd_run_forward [where pre = p and v = v]) (use r in \<open>auto simp: get_forwards payload rd_return_def\<close>)
qed

subsection \<open>Frames: decoding inverts encoding\<close>

text \<open>The sixteen header bytes of a frame with a payload of length \<open>n\<close>.\<close>

definition header_bytes :: "message_kind \<Rightarrow> nat \<Rightarrow> u8 list" where
  "header_bytes kind n =
     PROTOCOL_MAGIC @ be_bytes 2 (unat PROTOCOL_VERSION) @ be_bytes 2 (unat (message_kind_code kind)) @
     be_bytes 2 (unat (if kind = MkAudio then FLAG_PAYLOAD_INTEGRITY else 0)) @
     be_bytes 2 (unat FRAME_HEADER_LENGTH) @ be_bytes 4 n"

lemma length_header_bytes: "length (header_bytes kind n) = FRAME_HEADER_BYTES"
  by (simp add: header_bytes_def PROTOCOL_MAGIC_def FRAME_HEADER_BYTES_def)

definition frame_header_of :: "message_kind \<Rightarrow> u32 \<Rightarrow> frame_header" where
  "frame_header_of kind n =
     frame_header_new kind (if kind = MkAudio then FLAG_PAYLOAD_INTEGRITY else 0) n"

lemma unat_header_length_iff: "unat l = FRAME_HEADER_BYTES \<longleftrightarrow> l = FRAME_HEADER_LENGTH"
  by (simp add: FRAME_HEADER_BYTES_def FRAME_HEADER_LENGTH_def word_unat_eq_iff)

lemma header_fields_iff:
  "rd_run decode_header_fields bytes = Inr h \<longleftrightarrow>
     h = frame_header_of (fh_kind h) (fh_payload_length h) \<and>
     bytes = header_bytes (fh_kind h) (unat (fh_payload_length h))"
  (is "?l \<longleftrightarrow> ?r")
proof
  assume ?l
  then show ?r
    by (auto simp: decode_header_fields_def rd_run_iff rd_bind_iff [of "rd_take _"] rd_take_iff rd_guard_iff
        get_bind_iffs rd_bind_iff [of "rd_lift _"] rd_lift_iff message_kind_of_code_iff
        rd_return_iff finish_at_iff unat_header_length_iff header_bytes_def frame_header_of_def
        frame_header_new_def)
next
  assume r: ?r
  have flags: "(if k = MkAudio then FLAG_PAYLOAD_INTEGRITY else 0) AND NOT SUPPORTED_FRAME_FLAGS = 0" for k
    by (simp add: SUPPORTED_FRAME_FLAGS_def)
  have kind: "message_kind_of_code (message_kind_code k) = Inr k" for k
    by (simp add: message_kind_of_code_iff)
  show ?l
    by (rule rd_run_forward [where pre = bytes], subst r [THEN conjunct2], unfold header_bytes_def decode_header_fields_def)
      (use r in \<open>simp add: rd_take_forward get_forwards u32_field.get_forward_last [OF refl] flags kind
        rd_bind_lift unat_header_length_iff rd_return_def frame_header_of_def frame_header_new_def header_bytes_def\<close>)
qed

lemma decode_header_iff:
  "decode_header bytes = Inr h \<longleftrightarrow>
     h = frame_header_of (fh_kind h) (fh_payload_length h) \<and>
     unat (fh_payload_length h) \<le> maximum_payload_bytes (fh_kind h) \<and>
     (\<exists>rest. bytes = header_bytes (fh_kind h) (unat (fh_payload_length h)) @ rest)"
  (is "?l \<longleftrightarrow> ?r")
proof
  assume ?l
  then have *: "take FRAME_HEADER_BYTES bytes = header_bytes (fh_kind h) (unat (fh_payload_length h))"
    and "h = frame_header_of (fh_kind h) (fh_payload_length h)"
    "unat (fh_payload_length h) \<le> maximum_payload_bytes (fh_kind h)"
    by (auto simp: decode_header_def guard_Inr_iff try_bind_Inr_iff Let_def header_fields_iff)
  then show ?r
    by (metis append_take_drop_id)
next
  assume ?r
  then obtain rest where "bytes = header_bytes (fh_kind h) (unat (fh_payload_length h)) @ rest" by blast
  with \<open>?r\<close> show ?l
    using length_header_bytes [of "fh_kind h" "unat (fh_payload_length h)"]
    by (auto simp: decode_header_def guard_Inr_iff try_bind_Inr_iff Let_def header_fields_iff)
qed

definition payload_ok :: "protocol_frame \<Rightarrow> u8 list \<Rightarrow> bool" where
  "payload_ok frame payload \<longleftrightarrow>
     (case frame of
        PfControl m \<Rightarrow> encode_control m = Inr payload
      | PfSyncRequest v \<Rightarrow> encode_sync_request v = Inr payload
      | PfSyncResponse v \<Rightarrow> encode_sync_response v = Inr payload
      | PfAudio v \<Rightarrow> encode_audio v = Inr payload)"

lemma non_control_kinds:
  "\<not> is_control_kind MkSyncRequest" "\<not> is_control_kind MkSyncResponse" "\<not> is_control_kind MkAudio"
  by (simp_all add: is_control_kind_def)

lemma control_kind_neq_audio: "control_kind m \<noteq> MkAudio"
  by (cases m) simp_all

lemma encode_payload_iff:
  "encode_payload frame = Inr (payload, flags) \<longleftrightarrow>
     payload_ok frame payload \<and> flags = (if frame_kind frame = MkAudio then FLAG_PAYLOAD_INTEGRITY else 0)"
  by (cases frame) (auto simp: encode_payload_def payload_ok_def try_bind_Inr_iff control_kind_neq_audio)

lemma maximum_payload_bound: "maximum_payload_bytes kind \<le> 65536"
  by (cases kind) (simp_all add: maximum_payload_bytes_def protocol_limits)

lemma unat_of_nat_u32: "n < 2 ^ 32 \<Longrightarrow> unat (word_of_nat n :: u32) = n"
  by (simp add: unat_of_nat)

lemma encode_frame_iff:
  "encode_frame frame = Inr bytes \<longleftrightarrow>
     (\<exists>payload. payload_ok frame payload \<and> length payload \<le> maximum_payload_bytes (frame_kind frame) \<and>
        bytes = header_bytes (frame_kind frame) (length payload) @ payload)"
proof -
  have "length payload < 2 ^ 32" if "length payload \<le> maximum_payload_bytes (frame_kind frame)"
    for payload :: "u8 list"
    using that maximum_payload_bound [of "frame_kind frame"] by simp
  then show ?thesis
    by (auto simp: encode_frame_def try_bind_Inr_iff encode_payload_iff Let_def guard_Inr_iff
        require_Inr_iff pure_puts frame_header_new_def header_bytes_def unat_of_nat_u32)
qed

lemma decode_payload_iff:
  "decode_payload kind payload = Inr frame \<and>
    length payload \<le> maximum_payload_bytes kind \<longleftrightarrow>
    kind = frame_kind frame \<and> payload_ok frame payload \<and> length payload \<le> maximum_payload_bytes kind"
  (is "?l \<longleftrightarrow> ?r")
proof
  assume ?l
  then show ?r
    by (cases kind)
      (auto simp: decode_payload_def is_control_kind_def try_bind_Inr_iff payload_ok_def sync_request_iff sync_response_iff
        decode_audio_iff encode_audio_iff maximum_payload_bytes_def dest: encode_decode_control)
next
  assume ?r
  then show ?l
    by (cases frame)
      (auto simp: decode_payload_def payload_ok_def sync_request_iff sync_response_iff control_kind_is_control
        decode_audio_iff encode_audio_iff maximum_payload_bytes_def non_control_kinds try_bind_Inr_iff
        dest: decode_encode_control)
qed

lemma decode_frame_at:
  assumes "length payload \<le> maximum_payload_bytes kind"
  shows "decode_frame (header_bytes kind (length payload) @ payload) = decode_payload kind payload"
proof -
  let ?bytes = "header_bytes kind (length payload) @ payload"
  define h where "h = frame_header_of kind (word_of_nat (length payload))"
  have bound: "length payload \<le> 65536"
    using assms maximum_payload_bound [of kind] by simp
  then have n: "unat (fh_payload_length h) = length payload"
    unfolding h_def frame_header_of_def frame_header_new_def by (simp add: unat_of_nat)
  have k: "fh_kind h = kind"
    by (simp add: h_def frame_header_of_def frame_header_new_def)
  have "decode_header ?bytes = Inr h"
    unfolding decode_header_iff using assms n k
    by (auto simp: h_def frame_header_of_def frame_header_new_def)
  moreover have "FRAME_HEADER_BYTES + length payload \<le> usize_max"
    using bound by (simp add: FRAME_HEADER_BYTES_def usize_max_def)
  ultimately show ?thesis
    by (simp add: decode_frame_def n k Let_def checked_add_usize_def length_header_bytes)
qed

lemma decode_frame_iff:
  "decode_frame bytes = Inr frame \<longleftrightarrow>
     (\<exists>payload. payload_ok frame payload \<and> length payload \<le> maximum_payload_bytes (frame_kind frame) \<and>
        bytes = header_bytes (frame_kind frame) (length payload) @ payload)"
  (is "?l \<longleftrightarrow> ?r")
proof
  assume ?l
  then obtain h where h: "decode_header bytes = Inr h"
    by (auto simp: decode_frame_def try_bind_Inr_iff)
  then obtain rest where bytes: "bytes = header_bytes (fh_kind h) (unat (fh_payload_length h)) @ rest"
    and max: "unat (fh_payload_length h) \<le> maximum_payload_bytes (fh_kind h)"
    by (auto simp: decode_header_iff)
  have len: "length bytes = FRAME_HEADER_BYTES + length rest"
    by (simp add: bytes length_header_bytes)
  have total: "length rest = unat (fh_payload_length h)"
    using \<open>?l\<close> by (auto simp: decode_frame_def h Let_def try_bind_Inr_iff ok_or_Inr_iff guard_Inr_iff
        checked_add_usize_def len split: if_splits)
  have fits: "FRAME_HEADER_BYTES + unat (fh_payload_length h) \<le> usize_max"
    using max maximum_payload_bound [of "fh_kind h"] by (simp add: FRAME_HEADER_BYTES_def usize_max_def)
  have "drop FRAME_HEADER_BYTES bytes = rest"
    by (simp add: bytes length_header_bytes)
  with \<open>?l\<close> have "fh_kind h = frame_kind frame \<and> payload_ok frame rest \<and>
      length rest \<le> maximum_payload_bytes (fh_kind h)"
    unfolding decode_payload_iff [symmetric]
    using max fits by (simp add: total decode_frame_def h Let_def checked_add_usize_def len)
  then show ?r
    using bytes total by auto
next
  assume ?r
  then obtain payload where p: "payload_ok frame payload"
    "length payload \<le> maximum_payload_bytes (frame_kind frame)"
    "bytes = header_bytes (frame_kind frame) (length payload) @ payload" by blast
  then show ?l
    using decode_payload_iff [of "frame_kind frame" payload frame]
    by (simp add: decode_frame_at)
qed

text \<open>
  C1: the frame codec is canonical. A byte sequence decodes to a frame if and only if it is
  exactly what \<open>encode_frame\<close> produces for that frame. So every encoded frame decodes to itself
  (nothing is lost or altered on the wire), and every byte sequence the decoder accepts is the
  one encoding of the frame it returns: there is no second byte sequence with the same meaning.
\<close>

theorem frame_codec_canonical: "decode_frame bytes = Inr frame \<longleftrightarrow> encode_frame frame = Inr bytes"
  by (simp only: decode_frame_iff encode_frame_iff)

end
