(* ===== verification/Protocol_Integrity.thy ===== *)
theory Protocol_Integrity
  imports Protocol_Codec
begin

section \<open>Payload integrity and the diagnosing decoder\<close>

text \<open>
  What the checksum of an audio datagram detects (\<open>crc32\<close> of \<open>protocol/codec/mod.rs\<close>), the size of
  every frame on the wire, and the \<open>ProtocolDecoder\<close>, which applies the authorization and
  staleness policy and counts each rejected frame by its failure class.
\<close>

subsection \<open>The CRC is linear and injective\<close>

lemma crc32_bit_alt: "crc32_bit x = drop_bit 1 x XOR (if bit x 0 then 0xedb88320 else 0)"
proof (cases "bit x 0")
  case True
  then have "x AND 1 = 1"
    by (simp add: and_one_eq bit_0 mod2_eq_if)
  then show ?thesis
    using True by (simp add: crc32_bit_def)
next
  case False
  then have "x AND 1 = 0"
    by (simp add: and_one_eq bit_0 mod2_eq_if)
  then show ?thesis
    using False by (simp add: crc32_bit_def)
qed

lemma crc32_bit_xor: "crc32_bit (x XOR y) = crc32_bit x XOR crc32_bit y"
  by (auto simp: crc32_bit_alt bit_xor_iff drop_bit_xor xor.assoc xor.left_commute)

lemma crc32_bit_eq_0: "crc32_bit x = 0 \<Longrightarrow> x = 0"
proof (rule ccontr)
  assume z: "crc32_bit x = 0" and "x \<noteq> 0"
  have "bit (crc32_bit x) 31 = bit x 0"
    by (auto simp: crc32_bit_alt bit_xor_iff bit_drop_bit_eq dest: bit_imp_le_length)
  with z have low: "\<not> bit x 0"
    by simp
  with z have "drop_bit 1 x = 0"
    by (simp add: crc32_bit_alt)
  then have "\<not> bit x (Suc n)" for n
    using bit_drop_bit_eq [of 1 x] by (metis bit_0_eq bot_apply bot_bool_def o_apply plus_1_eq_Suc)
  with low have "\<not> bit x n" for n
    by (cases n) auto
  with \<open>x \<noteq> 0\<close> show False
    by (metis bit_eqI bit_0_eq bot_apply bot_bool_def)
qed

definition crc32_step :: "u32 \<Rightarrow> u32" where
  "crc32_step = crc32_bit ^^ 8"

lemma funpow_xor:
  fixes f :: "u32 \<Rightarrow> u32"
  assumes "\<And>x y. f (x XOR y) = f x XOR f y"
  shows "(f ^^ n) (x XOR y) = (f ^^ n) x XOR (f ^^ n) y"
proof (induction n)
  case (Suc n)
  then show ?case
    by (simp only: funpow.simps o_apply assms)
qed simp

lemma xor_cancel_left: "a XOR b = a XOR c \<longleftrightarrow> b = c" for a b c :: u32
proof
  assume "a XOR b = a XOR c"
  then have "(a XOR a) XOR b = (a XOR a) XOR c"
    by (simp only: xor.assoc)
  then show "b = c"
    by simp
qed simp

lemma xor_cancel_right: "b XOR a = c XOR a \<longleftrightarrow> b = c" for a b c :: u32
  using xor_cancel_left [of a b c] by (simp only: xor.commute)

lemmas xor_cancel = xor_cancel_left xor_cancel_right

lemma crc32_step_xor: "crc32_step (x XOR y) = crc32_step x XOR crc32_step y"
  unfolding crc32_step_def by (rule funpow_xor) (rule crc32_bit_xor)

lemma crc32_step_inject: "crc32_step x = crc32_step y \<longleftrightarrow> x = y"
proof
  have zero: "(crc32_bit ^^ n) x = 0 \<Longrightarrow> x = 0" for n x
    by (induction n arbitrary: x) (auto dest: crc32_bit_eq_0)
  assume "crc32_step x = crc32_step y"
  then have "crc32_step (x XOR y) = 0"
    by (simp add: crc32_step_xor)
  then have "x XOR y = 0"
    unfolding crc32_step_def by (rule zero)
  then show "x = y"
    using xor_cancel_right [of x y y] by simp
qed simp

lemma crc32_byte_step: "crc32_byte crc b = crc32_step (crc XOR ucast b)"
  by (simp add: crc32_byte_def crc32_step_def)

text \<open>Shifts of a value with enough low zero bits meet no feedback.\<close>

lemma crc32_bit_shift: "(\<And>i. i < n \<Longrightarrow> \<not> bit x i) \<Longrightarrow> (crc32_bit ^^ n) x = drop_bit n x"
proof (induction n)
  case (Suc n)
  then have "(crc32_bit ^^ Suc n) x = crc32_bit (drop_bit n x)"
    by simp
  also have "\<dots> = drop_bit (Suc n) x"
    using Suc.prems [of n] by (simp add: crc32_bit_alt bit_drop_bit_eq)
  finally show ?case .
qed simp

lemma crc32_step_push:
  fixes w :: u32
  assumes "\<And>i. bit w i \<Longrightarrow> i < 24"
  shows "crc32_step (push_bit 8 w) = w"
proof -
  have "crc32_step (push_bit 8 w) = drop_bit 8 (push_bit 8 w)"
    unfolding crc32_step_def by (rule crc32_bit_shift) (simp add: bit_push_bit_iff)
  also have "\<dots> = w"
    using assms by (intro bit_eqI) (auto simp: bit_drop_bit_eq bit_push_bit_iff)
  finally show ?thesis .
qed

text \<open>Up to four bytes, packed into the word they enter the register with.\<close>

fun pack :: "u8 list \<Rightarrow> u32" where
  "pack [] = 0"
| "pack (b # bs) = ucast b XOR push_bit 8 (pack bs)"

lemma bit_pack: "bit (pack bs) i \<Longrightarrow> i < 8 * length bs"
proof (induction bs arbitrary: i)
  case (Cons b bs)
  then consider "bit b i" | "8 \<le> i" "bit (pack bs) (i - 8)"
    by (auto simp: bit_xor_iff bit_push_bit_iff bit_ucast_iff)
  then show ?case
  proof cases
    case 1
    then have "i < 8"
      using bit_imp_le_length [of b i] by simp
    then show ?thesis
      by simp
  next
    case 2
    then show ?thesis
      using Cons.IH [of "i - 8"] by simp
  qed
qed simp

lemma crc32_packed:
  "length bs \<le> 4 \<Longrightarrow> foldl crc32_byte s bs = (crc32_step ^^ length bs) (s XOR pack bs)"
proof (induction bs arbitrary: s)
  case (Cons b bs)
  then have bits: "\<And>i. bit (pack bs) i \<Longrightarrow> i < 24"
    by (fastforce dest: bit_pack)
  have "foldl crc32_byte s (b # bs) = (crc32_step ^^ length bs) (crc32_step (s XOR ucast b) XOR pack bs)"
    using Cons by (simp add: crc32_byte_step [of s b])
  also have "\<dots> = (crc32_step ^^ length bs) (crc32_step (s XOR pack (b # bs)))"
    using crc32_step_push [OF bits] by (simp add: crc32_step_xor xor.assoc)
  finally show ?case
    by (simp add: funpow_swap1)
qed simp

lemma pack_inject: "length bs = length cs \<Longrightarrow> length bs \<le> 4 \<Longrightarrow> pack bs = pack cs \<Longrightarrow> bs = cs"
proof (induction bs cs rule: list_induct2)
  case (Cons b bs c cs)
  have "b = c"
  proof (rule bit_eqI)
    fix i assume "possible_bit TYPE(u8) i"
    then have "i < 8"
      by (simp add: possible_bit_word)
    then show "bit b i = bit c i"
      using arg_cong [where f = "\<lambda>w. bit w i", OF Cons.prems(2)]
      by (simp add: bit_xor_iff bit_push_bit_iff bit_ucast_iff)
  qed
  then have push: "push_bit 8 (pack bs) = push_bit 8 (pack cs)"
    using Cons.prems by (simp add: xor_cancel)
  have unpush: "crc32_step (push_bit 8 (pack ds)) = pack ds" if "length ds \<le> 3" for ds
    using that by (intro crc32_step_push) (fastforce dest: bit_pack)
  have "length bs \<le> 3" "length cs \<le> 3"
    using Cons.prems(1) Cons.hyps by simp_all
  then have "pack bs = pack cs"
    using unpush [of bs] unpush [of cs] push by metis
  with \<open>b = c\<close> show ?case
    using Cons by simp
qed simp

lemma foldl_crc32_inject: "foldl crc32_byte s bs = foldl crc32_byte t bs \<longleftrightarrow> s = t"
proof (induction bs arbitrary: s t)
  case (Cons b bs)
  then show ?case
    by (simp add: crc32_byte_step [of _ b] crc32_step_inject xor_cancel)
qed simp

lemma crc32_burst:
  assumes "length old = length new" and "length old \<le> 4"
  shows "crc32 (pre @ old @ post) = crc32 (pre @ new @ post) \<longleftrightarrow> old = new"
proof
  have inject: "(crc32_step ^^ n) x = (crc32_step ^^ n) y \<longleftrightarrow> x = y" for n x y
    by (induction n) (simp_all add: crc32_step_inject)
  assume "crc32 (pre @ old @ post) = crc32 (pre @ new @ post)"
  then have "foldl crc32_byte (foldl crc32_byte (- 1) pre) old = foldl crc32_byte (foldl crc32_byte (- 1) pre) new"
    unfolding crc32_def by (simp add: foldl_crc32_inject)
  then have "foldl crc32_byte (- 1) pre XOR pack old = foldl crc32_byte (- 1) pre XOR pack new"
    using assms by (simp add: crc32_packed inject)
  then have "pack old = pack new"
    by (simp add: xor_cancel)
  then show "old = new"
    using assms by (rule_tac pack_inject)
qed simp

subsection \<open>Corrupted audio payloads are rejected\<close>

lemma read_audio_payload_mismatch:
  assumes "length v < 2 ^ 16" and "crc32 v \<noteq> c"
  shows "read_audio_payload (reader_at pre (be_bytes 2 (length v) @ be_bytes 4 (unat c) @ v)) =
    Inl IntegrityMismatch"
proof -
  define d :: u16 where "d = word_of_nat (length v)"
  have d: "unat d = length v"
    unfolding d_def by (rule unat_of_nat_u16) (rule assms(1))
  show ?thesis
    using assms(2)
    by (simp add: read_audio_payload_def d [symmetric] u16_field.get_forward [OF refl]
        u32_field.get_forward [OF refl])
      (simp add: rd_bind_def rd_remaining_def remaining_at d rd_take_all rd_lift_def)
qed

lemma rd_run_error: "m (reader_at [] payload) = Inl e \<Longrightarrow> rd_run m payload = Inl e"
  by (simp add: rd_run_def reader_new_at)

lemma rd_bind_error: "m r = Inl e \<Longrightarrow> rd_bind m f r = Inl e"
  by (simp add: rd_bind_def)

text \<open>The fields of an audio datagram in front of the declared payload length.\<close>

definition audio_prefix :: "audio_datagram \<Rightarrow> u8 list \<Rightarrow> u8 list \<Rightarrow> u8 list" where
  "audio_prefix v bs1 bs2 =
     bs1 @ bs2 @ be_bytes 8 (unat (ad_sequence v)) @ [audio_codec_code (ad_codec v)] @
     be_bytes 4 (unat (ad_sample_rate v)) @ be_bytes 2 (unat (ad_channels v)) @
     be_bytes 4 (unat (ad_samples_per_packet v)) @ be_bytes 8 (unat (ad_first_sample_index v)) @
     be_bytes 8 (unat (ad_host_presentation_time_ms v))"

lemma decode_audio_mismatch:
  assumes "text_bytes MAX_IDENTIFIER_BYTES False (session_id_str (ad_session_id v)) = Some bs1"
    and "text_bytes MAX_IDENTIFIER_BYTES False (stream_id_str (ad_stream_id v)) = Some bs2"
    and "length received < 2 ^ 16" and "crc32 received \<noteq> c"
  shows "decode_audio (audio_prefix v bs1 bs2 @ be_bytes 2 (length received) @ be_bytes 4 (unat c) @ received) =
    Inl IntegrityMismatch"
proof -
  have mismatch: "rd_bind read_audio_payload f
      (reader_at pre (be_bytes 2 (length received) @ be_bytes 4 (unat c) @ received)) = Inl IntegrityMismatch"
    for f :: "u8 list \<Rightarrow> audio_datagram rd" and pre
    by (intro rd_bind_error read_audio_payload_mismatch assms)
  show ?thesis
    unfolding decode_audio_def audio_prefix_def
    by (subst rd_run_error [where e = IntegrityMismatch])
      (use assms(1,2) in \<open>simp_all add: get_forwards mismatch\<close>)
qed

text \<open>
  C3: the checksum catches every burst of up to four corrupted bytes. Take any encoded audio
  frame and replace at most four consecutive bytes of its PCM payload by different bytes: the
  decoder rejects the result as an integrity mismatch, it never delivers altered audio.
\<close>

theorem audio_corruption_detected:
  assumes enc: "encode_frame (PfAudio v) = Inr (pre @ old @ post)"
    and inside: "length (old @ post) \<le> length (ad_payload v)"
    and burst: "length new = length old" "length old \<le> 4" "new \<noteq> old"
  shows "decode_frame (pre @ new @ post) = Inl IntegrityMismatch"
proof -
  obtain p bs1 bs2 where p: "p = audio_prefix v bs1 bs2 @ audio_payload_bytes (ad_payload v)"
    "length p \<le> maximum_payload_bytes MkAudio" "length (ad_payload v) < 2 ^ 16"
    "pre @ old @ post = header_bytes MkAudio (length p) @ p"
    and ids: "text_bytes MAX_IDENTIFIER_BYTES False (session_id_str (ad_session_id v)) = Some bs1"
      "text_bytes MAX_IDENTIFIER_BYTES False (stream_id_str (ad_stream_id v)) = Some bs2"
    using enc by (auto simp: encode_frame_iff payload_ok_def encode_audio_iff audio_prefix_def)
  let ?q = "header_bytes MkAudio (length p) @ audio_prefix v bs1 bs2 @
      be_bytes 2 (length (ad_payload v)) @ be_bytes 4 (unat (crc32 (ad_payload v)))"
  have split: "pre @ old @ post = ?q @ ad_payload v"
    unfolding p(4) by (simp add: p(1) audio_payload_bytes_def)
  have "length ?q \<le> length pre"
    using inside arg_cong [where f = length, OF split] by simp
  with split obtain pre' where pre': "pre = ?q @ pre'" "ad_payload v = pre' @ old @ post"
    by (rule append_eq_longer_prefix)
  let ?received = "pre' @ new @ post"
  let ?p = "audio_prefix v bs1 bs2 @ be_bytes 2 (length ?received) @
      be_bytes 4 (unat (crc32 (ad_payload v))) @ ?received"
  have same: "length ?received = length (ad_payload v)" "length ?p = length p"
    using burst(1) pre'(2) by (simp_all add: p(1) audio_payload_bytes_def)
  have "crc32 ?received \<noteq> crc32 (ad_payload v)"
    using crc32_burst [of new old pre' post] burst by (simp add: pre'(2))
  then have "decode_audio ?p = Inl IntegrityMismatch"
    using ids p(3) same(1) by (intro decode_audio_mismatch) simp_all
  then have "decode_frame (header_bytes MkAudio (length ?p) @ ?p) = Inl IntegrityMismatch"
    using p(2) same(2) by (subst decode_frame_at) (simp_all add: decode_payload_def is_control_kind_def)
  then show ?thesis
    using same pre'(1) by simp
qed

text \<open>A one-sample datagram and its frame, up to the PCM payload.\<close>

definition audio_example :: audio_datagram where
  "audio_example = \<lparr>ad_session_id = SessionId (lit ''s''), ad_stream_id = StreamId (lit ''t''),
     ad_sequence = 7, ad_codec = PcmS16Le, ad_sample_rate = 8000, ad_channels = 1,
     ad_samples_per_packet = 1, ad_first_sample_index = 7, ad_host_presentation_time_ms = 20,
     ad_payload = [1, 2]\<rparr>"

definition audio_example_head :: "u8 list" where
  "audio_example_head =
     [0x53, 0x44, 0x50, 0x32, 0, 3, 0, 200, 0, 1, 0, 16, 0, 0, 0, 49,
      0, 1, 115, 0, 1, 116, 0, 0, 0, 0, 0, 0, 0, 7, 1, 0, 0, 31, 64, 0, 1, 0, 0, 0, 1,
      0, 0, 0, 0, 0, 0, 0, 7, 0, 0, 0, 0, 0, 0, 0, 20, 0, 2] @ be_bytes 4 (unat (crc32 [1, 2]))"

lemma text_examples:
  "text_bytes 128 False (lit ''s'') = Some [0, 1, 115]"
  "text_bytes 128 False (lit ''t'') = Some [0, 1, 116]"
  by code_simp+

lemma audio_example_encodes:
  "encode_frame (PfAudio audio_example) = Inr (audio_example_head @ [1, 2] @ [])"
  unfolding encode_frame_iff payload_ok_def
  by (simp add: encode_audio_iff audio_example_def text_examples validate_audio_parameters_def
      checked_mul_usize_def usize_max_def maximum_payload_bytes_def protocol_limits
      audio_payload_bytes_def audio_example_head_def header_bytes_def PROTOCOL_MAGIC_def
      PROTOCOL_VERSION_def FLAG_PAYLOAD_INTEGRITY_def FRAME_HEADER_LENGTH_def be_bytes_numeral)

theorem audio_corruption_detected_witness:
  "encode_frame (PfAudio audio_example) = Inr (audio_example_head @ [1, 2] @ []) \<and>
   decode_frame (audio_example_head @ [1, 3] @ []) = Inl IntegrityMismatch"
  using audio_corruption_detected [OF audio_example_encodes, of "[1, 3]"] audio_example_encodes
  by (simp add: audio_example_def)

subsection \<open>Frame sizes\<close>

lemma length_text_bytes: "text_bytes maximum secret v = Some bs \<Longrightarrow> length bs \<le> maximum + 2"
  by (auto simp: text_bytes_def text_ok_def str_len_def split: if_splits)

lemma length_optional_text_bytes: "optional_text_bytes maximum secret v = Some bs \<Longrightarrow> length bs \<le> maximum + 3"
  by (auto simp: optional_text_bytes_def dest!: length_text_bytes split: option.splits)

lemma length_control_payload: "encode_control m = Inr p \<Longrightarrow> length p \<le> 560"
  by (cases m)
    (auto simp: encode_control_def put_bind_iffs pure_puts protocol_limits
      dest!: length_text_bytes length_optional_text_bytes)

text \<open>
  Bounds on the wire. Every frame is at least its sixteen header bytes; an audio frame fits
  the datagram limit of 4096 bytes, and every control and clock-synchronization frame is at most
  576 bytes, far below the 64 KiB payload limit the encoder checks, so that check never rejects a
  control message whose fields are valid.
\<close>

theorem encoded_frame_size:
  assumes "encode_frame frame = Inr bytes"
  shows "FRAME_HEADER_BYTES \<le> length bytes \<and>
    length bytes \<le> (if frame_kind frame = MkAudio then MAX_AUDIO_DATAGRAM_BYTES else 576)"
proof -
  obtain p where p: "payload_ok frame p" "length p \<le> maximum_payload_bytes (frame_kind frame)"
    "bytes = header_bytes (frame_kind frame) (length p) @ p"
    using assms by (auto simp: encode_frame_iff)
  have len: "length bytes = FRAME_HEADER_BYTES + length p"
    by (simp add: p(3) length_header_bytes)
  show ?thesis
  proof (cases frame)
    case (PfControl m)
    then show ?thesis
      using p(1) length_control_payload [of m p]
      by (simp add: payload_ok_def len control_kind_neq_audio FRAME_HEADER_BYTES_def)
  next
    case (PfAudio v)
    then show ?thesis
      using p(2) by (simp add: len maximum_payload_bytes_def protocol_limits)
  qed (use p(1) in \<open>auto simp: payload_ok_def len encode_sync_request_def encode_sync_response_def
      put_bind_iffs pure_puts protocol_limits guard_Inr_iff dest!: length_text_bytes\<close>)
qed

theorem encoded_frame_size_witness:
  "encode_frame (PfAudio audio_example) = Inr (audio_example_head @ [1, 2] @ []) \<and>
   FRAME_HEADER_BYTES \<le> length (audio_example_head @ [1, 2] @ []) \<and>
   length (audio_example_head @ [1, 2] @ []) \<le> MAX_AUDIO_DATAGRAM_BYTES"
  using encoded_frame_size [OF audio_example_encodes] audio_example_encodes by simp

subsection \<open>The diagnosing decoder\<close>

record protocol_diagnostic_counters =
  pdc_malformed :: u64
  pdc_unsupported :: u64
  pdc_unauthorized :: u64
  pdc_stale :: u64
  pdc_oversized :: u64

definition protocol_diagnostic_counters_default :: protocol_diagnostic_counters where
  "protocol_diagnostic_counters_default =
     \<lparr>pdc_malformed = 0, pdc_unsupported = 0, pdc_unauthorized = 0, pdc_stale = 0, pdc_oversized = 0\<rparr>"

definition counters_record ::
    "parse_failure_class \<Rightarrow> protocol_diagnostic_counters \<Rightarrow> protocol_diagnostic_counters" where
  "counters_record cl c =
     (case cl of
        Malformed \<Rightarrow> c\<lparr>pdc_malformed := saturating_add (pdc_malformed c) 1\<rparr>
      | Unsupported \<Rightarrow> c\<lparr>pdc_unsupported := saturating_add (pdc_unsupported c) 1\<rparr>
      | Unauthorized \<Rightarrow> c\<lparr>pdc_unauthorized := saturating_add (pdc_unauthorized c) 1\<rparr>
      | Stale \<Rightarrow> c\<lparr>pdc_stale := saturating_add (pdc_stale c) 1\<rparr>
      | Oversized \<Rightarrow> c\<lparr>pdc_oversized := saturating_add (pdc_oversized c) 1\<rparr>)"

record decode_policy =
  dp_expected_session_id :: "session_id option"
  dp_minimum_audio_sequence :: "packet_sequence option"

record protocol_decoder =
  pd_counters :: protocol_diagnostic_counters

definition apply_policy :: "decode_policy \<Rightarrow> protocol_frame \<Rightarrow> protocol_error + protocol_frame" where
  "apply_policy policy frame =
     (if (case dp_expected_session_id policy of
            Some expected \<Rightarrow> frame_session_id frame \<noteq> expected | None \<Rightarrow> False)
      then Inl UnauthorizedSession
      else case (frame, dp_minimum_audio_sequence policy) of
          (PfAudio audio, Some minimum) \<Rightarrow>
            if ad_sequence audio < minimum then Inl StaleAudioSequence else Inr frame
        | _ \<Rightarrow> Inr frame)"

definition decoder_decode ::
    "protocol_decoder \<Rightarrow> u8 list \<Rightarrow> decode_policy \<Rightarrow>
     (protocol_error + protocol_frame) \<times> protocol_decoder" where
  "decoder_decode self bytes policy =
     (let result = try_bind (decode_frame bytes) (apply_policy policy) in
      case result of
        Inl e \<Rightarrow> (result, self\<lparr>pd_counters := counters_record (classification e) (pd_counters self)\<rparr>)
      | Inr _ \<Rightarrow> (result, self))"

primrec class_counter :: "parse_failure_class \<Rightarrow> protocol_diagnostic_counters \<Rightarrow> u64" where
  "class_counter Malformed c = pdc_malformed c"
| "class_counter Unsupported c = pdc_unsupported c"
| "class_counter Unauthorized c = pdc_unauthorized c"
| "class_counter Stale c = pdc_stale c"
| "class_counter Oversized c = pdc_oversized c"

text \<open>A decoder that is handed a sequence of datagrams, each with the policy of its moment.\<close>

primrec decode_run ::
    "protocol_decoder \<Rightarrow> (u8 list \<times> decode_policy) list \<Rightarrow>
     (protocol_error + protocol_frame) list \<times> protocol_decoder" where
  "decode_run d [] = ([], d)"
| "decode_run d (i # is) =
     (let (r, d') = decoder_decode d (fst i) (snd i); (rs, d'') = decode_run d' is in (r # rs, d''))"

definition fails_with :: "parse_failure_class \<Rightarrow> protocol_error + protocol_frame \<Rightarrow> bool" where
  "fails_with cl r \<longleftrightarrow> (case r of Inl e \<Rightarrow> classification e = cl | Inr _ \<Rightarrow> False)"

definition failures_of_class :: "parse_failure_class \<Rightarrow> (protocol_error + protocol_frame) list \<Rightarrow> nat" where
  "failures_of_class cl rs = length (filter (fails_with cl) rs)"

lemma class_counter_record:
  "unat (class_counter cl (counters_record cl' c)) =
     (if cl = cl' then min (Suc (unat (class_counter cl c))) U64_MAX
      else unat (class_counter cl c))"
  by (cases cl; cases cl') (simp_all add: counters_record_def unat_saturating_add_u64)

lemma class_counter_decode:
  "unat (class_counter cl (pd_counters (snd (decoder_decode d bytes policy)))) =
     min (unat (class_counter cl (pd_counters d)) + of_bool (fails_with cl (fst (decoder_decode d bytes policy))))
       U64_MAX"
  using unat_le_U64_MAX [of "class_counter cl (pd_counters d)"]
  by (cases "try_bind (decode_frame bytes) (apply_policy policy)")
    (simp_all add: decoder_decode_def fails_with_def class_counter_record)

text \<open>
  Every rejected datagram is counted once, under its failure class. Over any sequence of
  datagrams and policies, each of the five counters grows by the number of failures of its class
  (malformed, unsupported, unauthorized, stale, oversized), saturating at the largest \<open>u64\<close>, and
  by nothing else.
\<close>

theorem decoder_counts_failures:
  "unat (class_counter cl (pd_counters (snd (decode_run d inputs)))) =
     min (unat (class_counter cl (pd_counters d)) + failures_of_class cl (fst (decode_run d inputs)))
       U64_MAX"
proof (induction inputs arbitrary: d)
  case Nil
  then show ?case
    using unat_le_U64_MAX [of "class_counter cl (pd_counters d)"] by (simp add: failures_of_class_def)
next
  case (Cons i "is")
  then show ?case
    by (simp add: case_prod_beta Let_def failures_of_class_def class_counter_decode min_def)
qed

text \<open>
  C29: the decoder delivers exactly what the policy admits. Whatever a datagram does to the decoder,
  it is delivered as a frame if and only if it is the encoding of that frame, the frame belongs to
  the expected session (when one is expected), and an audio frame is not older than the minimum
  sequence number (when one is set). A delivery leaves every counter as it was; a refusal counts
  once, in the class of its error, saturating, and in no other class.
\<close>

theorem decoder_delivers:
  "(fst (decoder_decode d bytes policy) = Inr frame \<longleftrightarrow>
      encode_frame frame = Inr bytes \<and>
      dp_expected_session_id policy \<in> {None, Some (frame_session_id frame)} \<and>
      (case (frame, dp_minimum_audio_sequence policy) of
         (PfAudio audio, Some minimum) \<Rightarrow> minimum \<le> ad_sequence audio
       | _ \<Rightarrow> True)) \<and>
   class_counter cl (pd_counters (snd (decoder_decode d bytes policy))) =
     (case fst (decoder_decode d bytes policy) of
        Inr _ \<Rightarrow> class_counter cl (pd_counters d)
      | Inl e \<Rightarrow> if classification e = cl then saturating_add (class_counter cl (pd_counters d)) 1
          else class_counter cl (pd_counters d))"
proof -
  have policy: "apply_policy policy f = Inr frame \<longleftrightarrow> f = frame \<and>
     dp_expected_session_id policy \<in> {None, Some (frame_session_id frame)} \<and>
     (case (frame, dp_minimum_audio_sequence policy) of
        (PfAudio audio, Some minimum) \<Rightarrow> minimum \<le> ad_sequence audio
      | _ \<Rightarrow> True)" for f
    by (auto simp: apply_policy_def not_less split: option.splits protocol_frame.splits if_splits)
  have result: "fst (decoder_decode d bytes policy) = try_bind (decode_frame bytes) (apply_policy policy)"
    by (simp add: decoder_decode_def Let_def split: sum.splits)
  have "class_counter cl (pd_counters (snd (decoder_decode d bytes policy))) =
     (case fst (decoder_decode d bytes policy) of
        Inr _ \<Rightarrow> class_counter cl (pd_counters d)
      | Inl e \<Rightarrow> if classification e = cl then saturating_add (class_counter cl (pd_counters d)) 1
          else class_counter cl (pd_counters d))"
    by (cases cl) (simp_all add: decoder_decode_def counters_record_def Let_def split: sum.splits parse_failure_class.splits)
  then show ?thesis
    unfolding result by (auto simp: try_bind_Inr_iff policy decode_frame_iff encode_frame_iff)
qed

end
