(* ===== verification/BTree_Map.thy ===== *)
theory BTree_Map
  imports Rust_Prelude
begin

section \<open>Ordered maps\<close>

text \<open>
  \<open>std::collections::BTreeMap\<close>, as far as the program uses it: an association list in strictly
  increasing key order. The locale \<open>ordered_map\<close> is what the clients (the jitter buffer, the
  synchronization estimator, the replay guard) rely on; it is interpreted on the operations below.
\<close>

type_synonym ('k, 'v) btree_map = "('k \<times> 'v) list"

definition bt_empty :: "('k, 'v) btree_map" where
  "bt_empty = []"

definition bt_get :: "('k::linorder, 'v) btree_map \<Rightarrow> 'k \<Rightarrow> 'v option" where
  "bt_get m k = map_of m k"

definition bt_contains_key :: "('k::linorder, 'v) btree_map \<Rightarrow> 'k \<Rightarrow> bool" where
  "bt_contains_key m k \<longleftrightarrow> bt_get m k \<noteq> None"

fun bt_insert :: "'k::linorder \<Rightarrow> 'v \<Rightarrow> ('k, 'v) btree_map \<Rightarrow> ('k, 'v) btree_map" where
  "bt_insert k v [] = [(k, v)]"
| "bt_insert k v ((k', v') # m) =
     (if k < k' then (k, v) # (k', v') # m
      else if k = k' then (k, v) # m
      else (k', v') # bt_insert k v m)"

definition bt_remove :: "'k::linorder \<Rightarrow> ('k, 'v) btree_map \<Rightarrow> ('k, 'v) btree_map" where
  "bt_remove k m = filter (\<lambda>e. fst e \<noteq> k) m"

definition bt_keys :: "('k, 'v) btree_map \<Rightarrow> 'k list" where
  "bt_keys m = map fst m"

definition bt_values :: "('k, 'v) btree_map \<Rightarrow> 'v list" where
  "bt_values m = map snd m"

text \<open>\<open>keys().next()\<close> and \<open>keys().next_back()\<close>.\<close>

definition bt_first_key :: "('k, 'v) btree_map \<Rightarrow> 'k option" where
  "bt_first_key m = (case m of [] \<Rightarrow> None | e # _ \<Rightarrow> Some (fst e))"

definition bt_last_key :: "('k, 'v) btree_map \<Rightarrow> 'k option" where
  "bt_last_key m = (if m = [] then None else Some (fst (last m)))"

definition bt_wf :: "('k::linorder, 'v) btree_map \<Rightarrow> bool" where
  "bt_wf m \<longleftrightarrow> sorted_wrt (<) (map fst m)"

subsection \<open>The contract\<close>

locale ordered_map =
  fixes wf :: "'m \<Rightarrow> bool"
    and lookup :: "'m \<Rightarrow> 'k::linorder \<Rightarrow> 'v option"
    and empty :: 'm
    and insert_at :: "'k \<Rightarrow> 'v \<Rightarrow> 'm \<Rightarrow> 'm"
    and remove :: "'k \<Rightarrow> 'm \<Rightarrow> 'm"
    and entries :: "'m \<Rightarrow> ('k \<times> 'v) list"
  assumes wf_empty: "wf empty"
    and wf_insert: "wf m \<Longrightarrow> wf (insert_at k v m)"
    and wf_remove: "wf m \<Longrightarrow> wf (remove k m)"
    and lookup_empty: "lookup empty k = None"
    and lookup_insert: "wf m \<Longrightarrow> lookup (insert_at k v m) = (lookup m)(k \<mapsto> v)"
    and lookup_remove: "wf m \<Longrightarrow> lookup (remove k m) = (lookup m)(k := None)"
    and entries_lookup: "wf m \<Longrightarrow> lookup m k = Some v \<longleftrightarrow> (k, v) \<in> set (entries m)"
    and entries_sorted: "wf m \<Longrightarrow> sorted_wrt (<) (map fst (entries m))"
begin

lemma keys_lookup: "wf m \<Longrightarrow> fst ` set (entries m) = dom (lookup m)"
  by (force simp: entries_lookup dom_def)

lemma entries_inject: "wf m \<Longrightarrow> (k, v) \<in> set (entries m) \<Longrightarrow> (k, w) \<in> set (entries m) \<Longrightarrow> v = w"
  using entries_lookup by (metis option.inject)

lemma set_entries_insert:
  "wf m \<Longrightarrow> set (entries (insert_at k v m)) = insert (k, v) {e \<in> set (entries m). fst e \<noteq> k}"
  by (auto simp flip: entries_lookup simp: wf_insert lookup_insert split: if_splits)

lemma set_entries_remove: "wf m \<Longrightarrow> set (entries (remove k m)) = {e \<in> set (entries m). fst e \<noteq> k}"
  by (auto simp flip: entries_lookup simp: wf_remove lookup_remove split: if_splits)

lemma length_entries: "wf m \<Longrightarrow> length (entries m) = card (dom (lookup m))"
proof -
  assume wf: "wf m"
  then have "distinct (map fst (entries m))"
    using entries_sorted strict_sorted_iff by blast
  then have "length (entries m) = card (set (map fst (entries m)))"
    by (metis distinct_card length_map)
  then show ?thesis
    using wf by (simp add: keys_lookup)
qed

text \<open>The first entry is the least one: nothing is stored below it.\<close>

lemma first_entry_least:
  assumes "wf m" and "entries m = e # es" and "(k, v) \<in> set (entries m)"
  shows "fst e \<le> k"
  using assms entries_sorted [OF assms(1)] by (force simp: less_imp_le)

lemma length_entries_insert:
  assumes "wf m" and "lookup m k = None"
  shows "length (entries (insert_at k v m)) = Suc (length (entries m))"
proof -
  have "finite (dom (lookup m))"
    by (simp flip: keys_lookup [OF assms(1)])
  then show ?thesis
    using assms by (simp add: length_entries wf_insert lookup_insert domIff)
qed

end

lemma map_of_filter_neq: "map_of (filter (\<lambda>e. fst e \<noteq> k) m) = (map_of m)(k := None)"
  by (induction m) auto

lemma bt_insert_keys: "fst ` set (bt_insert k v m) = insert k (fst ` set m)"
  by (induction k v m rule: bt_insert.induct) auto

lemma bt_wf_insert: "bt_wf m \<Longrightarrow> bt_wf (bt_insert k v m)"
proof (induction k v m rule: bt_insert.induct)
  case (2 k v k' v' m)
  have "set (map fst (bt_insert k v m)) = insert k (set (map fst m))"
    using bt_insert_keys [of k v m] by simp
  with 2 show ?case
    by (force simp: bt_wf_def)
qed (simp add: bt_wf_def)

lemma map_of_bt_insert: "bt_wf m \<Longrightarrow> map_of (bt_insert k v m) = (map_of m)(k \<mapsto> v)"
proof (induction k v m rule: bt_insert.induct)
  case (2 k v k' v' m)
  then show ?case
    by (auto simp: bt_wf_def fun_eq_iff)
qed simp

lemma bt_wf_distinct: "bt_wf m \<Longrightarrow> distinct (map fst m)"
  by (simp add: bt_wf_def strict_sorted_iff)

interpretation btree: ordered_map bt_wf bt_get bt_empty bt_insert bt_remove "\<lambda>m. m"
proof
  show "bt_wf m \<Longrightarrow> bt_wf (bt_remove k m)" for m k
    by (simp add: bt_wf_def bt_remove_def sorted_wrt_map sorted_wrt_filter)
  show "bt_wf m \<Longrightarrow> bt_get (bt_insert k v m) = (bt_get m)(k \<mapsto> v)" for m k v
    by (simp add: bt_get_def [abs_def] map_of_bt_insert)
  show "bt_wf m \<Longrightarrow> bt_get (bt_remove k m) = (bt_get m)(k := None)" for m k
    by (simp add: bt_get_def [abs_def] bt_remove_def map_of_filter_neq)
  show "bt_wf m \<Longrightarrow> bt_get m k = Some v \<longleftrightarrow> (k, v) \<in> set m" for m k v
    by (simp add: bt_get_def bt_wf_distinct)
qed (simp_all add: bt_wf_insert, simp_all add: bt_wf_def bt_empty_def bt_get_def)

lemma bt_wf_Nil [simp]: "bt_wf []"
  by (simp add: bt_wf_def)

lemma bt_contains_key_iff: "bt_contains_key m k \<longleftrightarrow> k \<in> fst ` set m"
  by (simp add: bt_contains_key_def bt_get_def map_of_eq_None_iff)

lemma bt_first_key_None_iff: "bt_first_key m = None \<longleftrightarrow> m = []"
  by (simp add: bt_first_key_def split: list.splits)

lemma bt_first_key_least:
  "bt_wf m \<Longrightarrow> bt_first_key m = Some l \<Longrightarrow> (k, v) \<in> set m \<Longrightarrow> l \<le> k"
  using btree.first_entry_least [of m "hd m" "tl m" k v] by (cases m) (auto simp: bt_first_key_def)

lemma bt_first_key_in: "bt_first_key m = Some l \<Longrightarrow> l \<in> fst ` set m"
  by (cases m) (auto simp: bt_first_key_def)

lemma bt_last_key_in: "bt_last_key m = Some l \<Longrightarrow> l \<in> fst ` set m"
  by (auto simp: bt_last_key_def split: if_splits)

lemma bt_last_key_greatest:
  assumes "bt_wf m" and "bt_last_key m = Some l" and "(k, v) \<in> set m"
  shows "k \<le> l"
proof -
  have "m \<noteq> []" and l: "l = fst (last m)"
    using assms(2) by (auto simp: bt_last_key_def split: if_splits)
  then obtain ys y where m: "m = ys @ [y]"
    by (metis rev_exhaust)
  with assms l show ?thesis
    by (force simp: bt_wf_def sorted_wrt_append less_imp_le)
qed

end
