(* ===== verification/Call_Runs.thy ===== *)
theory Call_Runs
  imports Rust_Prelude
begin

section \<open>Runs of calls\<close>

text \<open>
  A stateful component is used by a sequence of calls, each of which may emit items. \<open>call_run\<close>
  is the reachability relation of such a component (every call admissible where it is made), and
  \<open>call_exec\<close> its executable counterpart for concrete runs. The locale \<open>ordered_emitter\<close> is the
  contract of a component that emits items of a numbered stream in order: the jitter buffer and
  the playback scheduler both provide it.
\<close>

inductive call_run ::
    "('s \<Rightarrow> 'c \<Rightarrow> bool) \<Rightarrow> ('s \<Rightarrow> 'c \<Rightarrow> 'e list \<times> 's) \<Rightarrow> 's \<Rightarrow> 'c list \<Rightarrow> 'e list \<Rightarrow> 's \<Rightarrow> bool"
  for ok perform s0 where
  run_start: "call_run ok perform s0 [] [] s0"
| run_call: "call_run ok perform s0 cs out s \<Longrightarrow> ok s c \<Longrightarrow> perform s c = (es, s') \<Longrightarrow>
    call_run ok perform s0 (cs @ [c]) (out @ es) s'"

lemma call_run_trans:
  assumes "call_run ok perform s0 cs out s" and "call_run ok perform s cs' out' s'"
  shows "call_run ok perform s0 (cs @ cs') (out @ out') s'"
  using assms(2)
proof (induction rule: call_run.induct)
  case run_start
  then show ?case
    using assms(1) by simp
next
  case (run_call cs' out' s c es s')
  then show ?case
    using call_run.run_call by (metis append.assoc)
qed

lemma call_run_single: "ok s c \<Longrightarrow> perform s c = (es, s') \<Longrightarrow> call_run ok perform s [c] es s'"
  using run_call [OF run_start] by force

fun call_append :: "'e list \<Rightarrow> 'e list \<times> 's \<Rightarrow> 'e list \<times> 's" where
  "call_append out (es, s) = (out @ es, s)"

lemma call_append_eq: "call_append out p = (out @ fst p, snd p)"
  by (cases p) simp

fun call_exec_from ::
    "('s \<Rightarrow> 'c \<Rightarrow> bool) \<Rightarrow> ('s \<Rightarrow> 'c \<Rightarrow> 'e list \<times> 's) \<Rightarrow> 'e list \<times> 's \<Rightarrow> 'c list \<Rightarrow> ('e list \<times> 's) option" where
  "call_exec_from ok perform (out, s) [] = Some (out, s)"
| "call_exec_from ok perform (out, s) (c # cs) =
     (if ok s c then call_exec_from ok perform (call_append out (perform s c)) cs else None)"

definition call_exec ::
    "('s \<Rightarrow> 'c \<Rightarrow> bool) \<Rightarrow> ('s \<Rightarrow> 'c \<Rightarrow> 'e list \<times> 's) \<Rightarrow> 's \<Rightarrow> 'c list \<Rightarrow> ('e list \<times> 's) option" where
  "call_exec ok perform s cs = call_exec_from ok perform ([], s) cs"

lemma call_exec_run:
  assumes "call_exec ok perform s cs = Some (out, s')"
  shows "call_run ok perform s cs out s'"
proof -
  have "call_run ok perform s0 (cs0 @ cs) out s'"
    if "call_run ok perform s0 cs0 out0 s" "call_exec_from ok perform (out0, s) cs = Some (out, s')" for s0 cs0 out0 s
    using that
  proof (induction cs arbitrary: cs0 out0 s)
    case (Cons c cs)
    obtain es s1 where step: "perform s c = (es, s1)"
      by fastforce
    then have "call_run ok perform s0 (cs0 @ [c]) (out0 @ es) s1" "call_exec_from ok perform (out0 @ es, s1) cs = Some (out, s')"
      using Cons.prems by (auto intro: run_call split: if_splits)
    from Cons.IH [OF this] show ?case
      by simp
  qed simp
  from this [OF run_start assms [unfolded call_exec_def]] show ?thesis
    by simp
qed

text \<open>
  The number \<open>B\<close> bounds the stream numbers handed in; positions stay below the end of the \<open>u64\<close>
  range as long as \<open>B\<close> plus the number of calls does.
\<close>

locale ordered_emitter =
  fixes inv :: "nat \<Rightarrow> 's \<Rightarrow> bool"
    and position :: "'s \<Rightarrow> nat"
    and ok :: "'s \<Rightarrow> 'c \<Rightarrow> bool"
    and bounded :: "nat \<Rightarrow> 'c \<Rightarrow> bool"
    and perform :: "'s \<Rightarrow> 'c \<Rightarrow> 'e list \<times> 's"
    and label :: "'e \<Rightarrow> nat"
  assumes step: "inv B s \<Longrightarrow> max B (position s) + 1 < 2 ^ 64 \<Longrightarrow> ok s c \<Longrightarrow> bounded B c \<Longrightarrow>
      perform s c = (es, s') \<Longrightarrow>
      inv B s' \<and> position s \<le> position s' \<and> position s' \<le> max B (position s) + 1 \<and>
      sorted_wrt (<) (map label es) \<and> (\<forall>e \<in> set es. position s \<le> label e \<and> label e < position s')"
begin

lemma run_in_order:
  assumes "call_run ok perform s0 cs out s"
    and "inv B s0" and "position s0 \<le> B" and "\<forall>c \<in> set cs. bounded B c" and "B + length cs < 2 ^ 64"
  shows "inv B s \<and> position s0 \<le> position s \<and> position s \<le> B + length cs \<and>
    sorted_wrt (<) (map label out) \<and> (\<forall>e \<in> set out. position s0 \<le> label e \<and> label e < position s)"
  using assms
proof (induction rule: call_run.induct)
  case (run_call cs out s c es s')
  then have IH: "inv B s" "position s0 \<le> position s" "position s \<le> B + length cs"
    "sorted_wrt (<) (map label out)" "\<forall>e \<in> set out. position s0 \<le> label e \<and> label e < position s"
    by auto
  have step': "inv B s'" "position s \<le> position s'" "position s' \<le> max B (position s) + 1"
    "sorted_wrt (<) (map label es)" "\<forall>e \<in> set es. position s \<le> label e \<and> label e < position s'"
    using step [of B s c es s'] run_call IH by auto
  have "sorted_wrt (<) (map label (out @ es))"
    using IH(4,5) step'(4,5) by (fastforce simp: sorted_wrt_append)
  then show ?case
    using IH step' by force
qed simp

end

end
