(* ===== verification/Jitter_Buffer.thy ===== *)
theory Jitter_Buffer
  imports BTree_Map Call_Runs Protocol_Types
begin

section \<open>The jitter buffer\<close>

text \<open>
  \<open>audio/jitter_buffer.rs\<close>: the listener's bounded reordering buffer for one stream. One
  definition per method; a rejected packet is the value \<open>Inl kind\<close> (the diagnostic text that
  accompanies the kind is not modelled). The sequence and statistics counters are \<open>u64\<close> with the
  wrap-around of a release build. \<open>jb_perform\<close> is one call by the owner of the buffer; the run
  theorems follow by rule induction over \<open>call_run\<close> and from the \<open>ordered_emitter\<close> contract, which
  is interpreted on these definitions.
\<close>

definition DEFAULT_MAX_REORDER_WINDOW :: u32 where "DEFAULT_MAX_REORDER_WINDOW = 64"
definition MAX_REORDER_WINDOW_LIMIT :: u32 where "MAX_REORDER_WINDOW_LIMIT = 4096"
definition DEFAULT_MAX_BUFFERED_DURATION_MS :: u64 where "DEFAULT_MAX_BUFFERED_DURATION_MS = 2000"
definition MAX_BUFFERED_DURATION_LIMIT_MS :: u64 where "MAX_BUFFERED_DURATION_LIMIT_MS = 60000"
definition FAR_FUTURE_RESYNC_PACKETS :: usize where "FAR_FUTURE_RESYNC_PACKETS = 3"

record jitter_buffer_config =
  jbc_session_id :: session_id
  jbc_stream_id :: stream_id
  jbc_first_sequence :: u64
  jbc_max_reorder_window :: u32
  jbc_max_buffered_duration_ms :: u64

definition jitter_buffer_config_new :: "session_id \<Rightarrow> stream_id \<Rightarrow> jitter_buffer_config" where
  "jitter_buffer_config_new session_id stream_id =
     \<lparr>jbc_session_id = session_id, jbc_stream_id = stream_id, jbc_first_sequence = 0,
      jbc_max_reorder_window = DEFAULT_MAX_REORDER_WINDOW,
      jbc_max_buffered_duration_ms = DEFAULT_MAX_BUFFERED_DURATION_MS\<rparr>"

datatype jitter_buffer_config_error_kind = ReorderWindowTooLarge | BufferedDurationOutOfRange

datatype jitter_buffer_rejection_kind =
    WrongSession
  | WrongStream
  | Duplicate
  | AlreadyEmitted
  | ReorderWindowExceeded
  | BufferedDurationExceeded

record jitter_buffer_statistics =
  jbs_accepted :: u64
  jbs_wrong_session_rejections :: u64
  jbs_wrong_stream_rejections :: u64
  jbs_duplicate_rejections :: u64
  jbs_late_rejections :: u64
  jbs_reorder_window_rejections :: u64
  jbs_buffered_duration_rejections :: u64
  jbs_emitted :: u64
  jbs_skipped :: u64
  jbs_resynchronisations :: u64

definition jitter_buffer_statistics_default :: jitter_buffer_statistics where
  "jitter_buffer_statistics_default =
     \<lparr>jbs_accepted = 0, jbs_wrong_session_rejections = 0, jbs_wrong_stream_rejections = 0,
      jbs_duplicate_rejections = 0, jbs_late_rejections = 0, jbs_reorder_window_rejections = 0,
      jbs_buffered_duration_rejections = 0, jbs_emitted = 0, jbs_skipped = 0,
      jbs_resynchronisations = 0\<rparr>"

record jitter_buffer =
  jb_config :: jitter_buffer_config
  jb_packets :: "(u64, audio_datagram) btree_map"
  jb_next_expected_sequence :: u64
  jb_statistics :: jitter_buffer_statistics
  jb_far_future_candidates :: "(u64, audio_datagram) btree_map"

definition jitter_buffer_new ::
    "jitter_buffer_config \<Rightarrow> jitter_buffer_config_error_kind + jitter_buffer" where
  "jitter_buffer_new config =
     (if jbc_max_reorder_window config > MAX_REORDER_WINDOW_LIMIT then Inl ReorderWindowTooLarge
      else if jbc_max_buffered_duration_ms config = 0 \<or>
              jbc_max_buffered_duration_ms config > MAX_BUFFERED_DURATION_LIMIT_MS
      then Inl BufferedDurationOutOfRange
      else Inr \<lparr>jb_config = config, jb_packets = bt_empty,
                jb_next_expected_sequence = jbc_first_sequence config,
                jb_statistics = jitter_buffer_statistics_default,
                jb_far_future_candidates = bt_empty\<rparr>)"

definition jb_count :: "(jitter_buffer_statistics \<Rightarrow> jitter_buffer_statistics) \<Rightarrow> jitter_buffer \<Rightarrow> jitter_buffer" where
  "jb_count f jb = jb\<lparr>jb_statistics := f (jb_statistics jb)\<rparr>"

text \<open>
  The branch of \<open>accept\<close> for a packet beyond the reorder window: it is held as a candidate, and
  the third of three consecutive candidates moves the buffer to their position.
\<close>

definition accept_far_future ::
    "jitter_buffer \<Rightarrow> audio_datagram \<Rightarrow> (jitter_buffer_rejection_kind + unit) \<times> jitter_buffer" where
  "accept_far_future self datagram =
     (let sequence = ad_sequence datagram;
          self = jb_count (\<lambda>s. s\<lparr>jbs_reorder_window_rejections := jbs_reorder_window_rejections s + 1\<rparr>) self in
      if bt_contains_key (jb_far_future_candidates self) sequence
      then (Inl ReorderWindowExceeded, self)
      else
        let first = bt_first_key (jb_far_future_candidates self);
            last = bt_last_key (jb_far_future_candidates self);
            stale = (case first of Some f \<Rightarrow> saturating_sub sequence f > 2 | None \<Rightarrow> False) \<or>
                    (case last of Some l \<Rightarrow> saturating_sub l sequence > 2 | None \<Rightarrow> False);
            candidates = (if stale then bt_empty else jb_far_future_candidates self);
            candidates = bt_insert sequence datagram candidates in
        if length candidates < FAR_FUTURE_RESYNC_PACKETS
        then (Inl ReorderWindowExceeded, self\<lparr>jb_far_future_candidates := candidates\<rparr>)
        else
          let self = jb_count (\<lambda>s. s\<lparr>jbs_resynchronisations := jbs_resynchronisations s + 1,
                        jbs_skipped := jbs_skipped s + u64_or_max (length (jb_packets self)),
                        jbs_accepted := jbs_accepted s + 3\<rparr>) self in
          (Inr (), self\<lparr>jb_far_future_candidates := bt_empty,
             jb_next_expected_sequence :=
               (case bt_first_key candidates of Some f \<Rightarrow> f | None \<Rightarrow> sequence),
             jb_packets := candidates\<rparr>))"

definition jb_accept ::
    "jitter_buffer \<Rightarrow> audio_datagram \<Rightarrow> (jitter_buffer_rejection_kind + unit) \<times> jitter_buffer" where
  "jb_accept self datagram =
     (let sequence = ad_sequence datagram in
      if ad_session_id datagram \<noteq> jbc_session_id (jb_config self)
      then (Inl WrongSession,
            jb_count (\<lambda>s. s\<lparr>jbs_wrong_session_rejections := jbs_wrong_session_rejections s + 1\<rparr>) self)
      else if ad_stream_id datagram \<noteq> jbc_stream_id (jb_config self)
      then (Inl WrongStream,
            jb_count (\<lambda>s. s\<lparr>jbs_wrong_stream_rejections := jbs_wrong_stream_rejections s + 1\<rparr>) self)
      else if sequence < jb_next_expected_sequence self
      then (Inl AlreadyEmitted,
            jb_count (\<lambda>s. s\<lparr>jbs_late_rejections := jbs_late_rejections s + 1\<rparr>) self)
      else if bt_contains_key (jb_packets self) sequence
      then (Inl Duplicate,
            jb_count (\<lambda>s. s\<lparr>jbs_duplicate_rejections := jbs_duplicate_rejections s + 1\<rparr>) self)
      else if sequence - jb_next_expected_sequence self > ucast (jbc_max_reorder_window (jb_config self))
      then accept_far_future self datagram
      else if (case bt_values (jb_packets self) of
                 earliest # _ \<Rightarrow>
                   abs_diff (ad_host_presentation_time_ms earliest) (ad_host_presentation_time_ms datagram)
                     > jbc_max_buffered_duration_ms (jb_config self)
               | [] \<Rightarrow> False)
      then (Inl BufferedDurationExceeded,
            jb_count (\<lambda>s. s\<lparr>jbs_buffered_duration_rejections := jbs_buffered_duration_rejections s + 1\<rparr>) self)
      else (Inr (), jb_count (\<lambda>s. s\<lparr>jbs_accepted := jbs_accepted s + 1\<rparr>)
             (self\<lparr>jb_far_future_candidates := bt_empty,
                   jb_packets := bt_insert sequence datagram (jb_packets self)\<rparr>)))"

definition pop_in_order :: "jitter_buffer \<Rightarrow> audio_datagram option \<times> jitter_buffer" where
  "pop_in_order self =
     (case bt_get (jb_packets self) (jb_next_expected_sequence self) of
        None \<Rightarrow> (None, self)
      | Some datagram \<Rightarrow>
          (Some datagram, jb_count (\<lambda>s. s\<lparr>jbs_emitted := jbs_emitted s + 1\<rparr>)
            (self\<lparr>jb_packets := bt_remove (jb_next_expected_sequence self) (jb_packets self),
                  jb_next_expected_sequence := jb_next_expected_sequence self + 1\<rparr>)))"

definition discard_in_order :: "jitter_buffer \<Rightarrow> bool \<times> jitter_buffer" where
  "discard_in_order self =
     (if \<not> bt_contains_key (jb_packets self) (jb_next_expected_sequence self) then (False, self)
      else (True, jb_count (\<lambda>s. s\<lparr>jbs_skipped := jbs_skipped s + 1\<rparr>)
            (self\<lparr>jb_packets := bt_remove (jb_next_expected_sequence self) (jb_packets self),
                  jb_next_expected_sequence := jb_next_expected_sequence self + 1\<rparr>)))"

definition skip_expected_sequence :: "jitter_buffer \<Rightarrow> jitter_buffer" where
  "skip_expected_sequence self =
     jb_count (\<lambda>s. s\<lparr>jbs_skipped := jbs_skipped s + 1\<rparr>)
       (self\<lparr>jb_next_expected_sequence := jb_next_expected_sequence self + 1\<rparr>)"

definition missing_sequence_count :: "jitter_buffer \<Rightarrow> u64" where
  "missing_sequence_count self =
     (case bt_first_key (jb_packets self) of
        Some lowest \<Rightarrow>
          if lowest > jb_next_expected_sequence self then lowest - jb_next_expected_sequence self else 0
      | None \<Rightarrow> 0)"

definition skip_to_earliest_buffered :: "jitter_buffer \<Rightarrow> u64 \<times> jitter_buffer" where
  "skip_to_earliest_buffered self =
     (let skipped = missing_sequence_count self in
      if skipped > 0
      then (skipped, jb_count (\<lambda>s. s\<lparr>jbs_skipped := jbs_skipped s + skipped\<rparr>)
              (self\<lparr>jb_next_expected_sequence := jb_next_expected_sequence self + skipped\<rparr>))
      else (skipped, self))"

text \<open>The loop of \<open>drain_all\<close>: the pair \<open>(expected, skipped)\<close> over the drained packets.\<close>

primrec drain_progress :: "audio_datagram list \<Rightarrow> u64 \<times> u64 \<Rightarrow> u64 \<times> u64" where
  "drain_progress [] acc = acc"
| "drain_progress (datagram # ds) acc =
     drain_progress ds
       (saturating_add (ad_sequence datagram) 1,
        saturating_add (snd acc) (saturating_sub (ad_sequence datagram) (fst acc)))"

definition drain_all :: "jitter_buffer \<Rightarrow> audio_datagram list \<times> jitter_buffer" where
  "drain_all self =
     (let drained = bt_values (jb_packets self);
          (expected, skipped) = drain_progress drained (jb_next_expected_sequence self, 0) in
      (drained, jb_count (\<lambda>s. s\<lparr>jbs_skipped := saturating_add (jbs_skipped s) skipped,
                   jbs_emitted := saturating_add (jbs_emitted s) (u64_or_max (length drained))\<rparr>)
         (self\<lparr>jb_packets := bt_empty,
               jb_next_expected_sequence :=
                 (if drained \<noteq> [] then expected else jb_next_expected_sequence self)\<rparr>)))"

definition buffered_span_ms :: "jitter_buffer \<Rightarrow> u64" where
  "buffered_span_ms self =
     (case map ad_host_presentation_time_ms (bt_values (jb_packets self)) of
        [] \<Rightarrow> 0
      | first # ts \<Rightarrow>
          let (mn, mx) = fold (\<lambda>t (mn, mx). (min mn t, max mx t)) ts (first, first) in mx - mn)"

definition peek_next_sequence :: "jitter_buffer \<Rightarrow> u64 option" where
  "peek_next_sequence self = bt_first_key (jb_packets self)"

definition jb_len :: "jitter_buffer \<Rightarrow> usize" where
  "jb_len self = length (jb_packets self)"

definition jb_is_empty :: "jitter_buffer \<Rightarrow> bool" where
  "jb_is_empty self \<longleftrightarrow> jb_packets self = []"

subsection \<open>The invariant\<close>

definition packet_ok :: "jitter_buffer_config \<Rightarrow> u64 \<times> audio_datagram \<Rightarrow> bool" where
  "packet_ok config e \<longleftrightarrow>
     ad_sequence (snd e) = fst e \<and> ad_session_id (snd e) = jbc_session_id config \<and>
     ad_stream_id (snd e) = jbc_stream_id config"

text \<open>
  Everything buffered belongs to the stream and is stored under its own sequence number, at or
  after the next expected one and at most the reorder window (two, if that is smaller) after it;
  at most two candidates wait, at most two sequence numbers apart.
\<close>

definition jb_reach :: "jitter_buffer \<Rightarrow> nat" where
  "jb_reach jb = max 2 (unat (jbc_max_reorder_window (jb_config jb)))"

definition jb_inv :: "jitter_buffer \<Rightarrow> bool" where
  "jb_inv jb \<longleftrightarrow>
     bt_wf (jb_packets jb) \<and> bt_wf (jb_far_future_candidates jb) \<and>
     (\<forall>e \<in> set (jb_packets jb). packet_ok (jb_config jb) e \<and>
        jb_next_expected_sequence jb \<le> fst e \<and>
        unat (fst e) \<le> unat (jb_next_expected_sequence jb) + jb_reach jb) \<and>
     (\<forall>e \<in> set (jb_far_future_candidates jb). packet_ok (jb_config jb) e) \<and>
     (\<forall>e \<in> set (jb_far_future_candidates jb). \<forall>e' \<in> set (jb_far_future_candidates jb).
        unat (fst e) \<le> unat (fst e') + 2) \<and>
     length (jb_far_future_candidates jb) \<le> 2"

lemma jb_count_simps [simp]:
  "jb_config (jb_count f jb) = jb_config jb"
  "jb_packets (jb_count f jb) = jb_packets jb"
  "jb_next_expected_sequence (jb_count f jb) = jb_next_expected_sequence jb"
  "jb_far_future_candidates (jb_count f jb) = jb_far_future_candidates jb"
  "jb_statistics (jb_count f jb) = f (jb_statistics jb)"
  by (simp_all add: jb_count_def)

lemma jb_inv_count [simp]: "jb_inv (jb_count f jb) = jb_inv jb"
  by (simp add: jb_inv_def jb_reach_def)

lemma jb_inv_wf: "jb_inv jb \<Longrightarrow> bt_wf (jb_packets jb)"
  by (simp add: jb_inv_def)

lemma jb_inv_new: "jitter_buffer_new config = Inr jb \<Longrightarrow> jb_inv jb"
  by (auto simp: jitter_buffer_new_def jb_inv_def bt_empty_def bt_wf_def split: if_splits)

lemma bt_get_Some_in: "jb_inv jb \<Longrightarrow> bt_get (jb_packets jb) k = Some d \<longleftrightarrow> (k, d) \<in> set (jb_packets jb)"
  by (simp add: jb_inv_def btree.entries_lookup)

text \<open>The candidates after one more far-future packet.\<close>

definition candidates_after :: "jitter_buffer \<Rightarrow> audio_datagram \<Rightarrow> (u64, audio_datagram) btree_map" where
  "candidates_after jb d =
     (let cs = jb_far_future_candidates jb;
          stale = (case bt_first_key cs of Some f \<Rightarrow> saturating_sub (ad_sequence d) f > 2 | None \<Rightarrow> False) \<or>
                  (case bt_last_key cs of Some l \<Rightarrow> saturating_sub l (ad_sequence d) > 2 | None \<Rightarrow> False) in
      bt_insert (ad_sequence d) d (if stale then bt_empty else cs))"

lemma saturating_sub_gt_2: "saturating_sub a b > (2 :: u64) \<longleftrightarrow> unat b + 2 < unat a"
  by (simp add: word_less_nat_alt unat_saturating_sub less_diff_conv)

lemma candidates_after_inv:
  assumes inv: "jb_inv jb" and d: "packet_ok (jb_config jb) (ad_sequence d, d)"
    and new: "\<not> bt_contains_key (jb_far_future_candidates jb) (ad_sequence d)"
  shows "bt_wf (candidates_after jb d)" (is ?wf)
    and "\<forall>e \<in> set (candidates_after jb d). packet_ok (jb_config jb) e" (is ?ok)
    and "\<forall>e \<in> set (candidates_after jb d). \<forall>e' \<in> set (candidates_after jb d).
        unat (fst e) \<le> unat (fst e') + 2" (is ?span)
    and "\<forall>e \<in> set (candidates_after jb d). unat (ad_sequence d) \<le> unat (fst e) + 2" (is ?near)
    and "length (candidates_after jb d) \<le> 3" (is ?len)
    and "set (candidates_after jb d) \<subseteq> insert (ad_sequence d, d) (set (jb_far_future_candidates jb))" (is ?sub)
proof -
  let ?cs = "jb_far_future_candidates jb"
  define cs where "cs = (if (case bt_first_key ?cs of Some f \<Rightarrow> saturating_sub (ad_sequence d) f > 2 | None \<Rightarrow> False) \<or>
                  (case bt_last_key ?cs of Some l \<Rightarrow> saturating_sub l (ad_sequence d) > 2 | None \<Rightarrow> False)
      then bt_empty else ?cs)"
  have after: "candidates_after jb d = bt_insert (ad_sequence d) d cs"
    by (simp add: candidates_after_def cs_def Let_def)
  have wf: "bt_wf ?cs" and "bt_wf cs"
    using inv by (auto simp: jb_inv_def cs_def btree.wf_empty)
  then show ?wf
    by (simp add: after bt_wf_insert)
  have sub: "set cs \<subseteq> set ?cs"
    by (auto simp: cs_def bt_empty_def)
  have entries: "set (candidates_after jb d) \<subseteq> insert (ad_sequence d, d) (set cs)"
    using \<open>bt_wf cs\<close> by (auto simp: after btree.set_entries_insert)
  with sub show ?sub
    by blast
  with inv d show ?ok
    by (auto simp: jb_inv_def)
  have near: "unat (ad_sequence d) \<le> unat (fst e) + 2 \<and> unat (fst e) \<le> unat (ad_sequence d) + 2"
    if e: "e \<in> set cs" for e
  proof -
    have "cs = ?cs" and fresh:
      "\<And>f. bt_first_key ?cs = Some f \<Longrightarrow> unat (ad_sequence d) \<le> unat f + 2"
      "\<And>l. bt_last_key ?cs = Some l \<Longrightarrow> unat l \<le> unat (ad_sequence d) + 2"
      using e by (auto simp: cs_def bt_empty_def saturating_sub_gt_2 not_less split: if_splits option.splits)
    moreover obtain f l where "bt_first_key ?cs = Some f" "bt_last_key ?cs = Some l"
      using e \<open>cs = ?cs\<close> by (cases ?cs) (auto simp: bt_first_key_def bt_last_key_def)
    moreover from this e \<open>cs = ?cs\<close> have "f \<le> fst e" "fst e \<le> l"
      using bt_first_key_least [OF wf, of f "fst e" "snd e"] bt_last_key_greatest [OF wf, of l "fst e" "snd e"]
      by simp_all
    ultimately show ?thesis
      by (fastforce simp: word_le_nat_alt)
  qed
  with entries show ?near
    by fastforce
  have "\<forall>e \<in> set ?cs. \<forall>e' \<in> set ?cs. unat (fst e) \<le> unat (fst e') + 2"
    using inv by (simp add: jb_inv_def)
  with sub have both: "unat (fst e) \<le> unat (fst e') + 2" if "e \<in> set cs" "e' \<in> set cs" for e e'
    using that by blast
  show ?span
  proof (intro ballI)
    fix e e'
    assume "e \<in> set (candidates_after jb d)" "e' \<in> set (candidates_after jb d)"
    then have "e = (ad_sequence d, d) \<or> e \<in> set cs" "e' = (ad_sequence d, d) \<or> e' \<in> set cs"
      using entries by blast+
    then show "unat (fst e) \<le> unat (fst e') + 2"
      using near [of e] near [of e'] both [of e e'] by auto
  qed
  have "length cs \<le> 2"
    using inv by (auto simp: jb_inv_def cs_def bt_empty_def)
  moreover have "bt_get cs (ad_sequence d) = None"
    using new by (auto simp: cs_def bt_contains_key_def btree.lookup_empty)
  ultimately show ?len
    using btree.length_entries_insert [OF \<open>bt_wf cs\<close>] by (simp add: after)
qed

lemma accept_far_future_alt:
  "accept_far_future jb d =
     (let jb = jb_count (\<lambda>s. s\<lparr>jbs_reorder_window_rejections := jbs_reorder_window_rejections s + 1\<rparr>) jb;
          cs = candidates_after jb d in
      if bt_contains_key (jb_far_future_candidates jb) (ad_sequence d) then (Inl ReorderWindowExceeded, jb)
      else if length cs < 3 then (Inl ReorderWindowExceeded, jb\<lparr>jb_far_future_candidates := cs\<rparr>)
      else (Inr (), jb_count (\<lambda>s. s\<lparr>jbs_resynchronisations := jbs_resynchronisations s + 1,
                        jbs_skipped := jbs_skipped s + u64_or_max (length (jb_packets jb)),
                        jbs_accepted := jbs_accepted s + 3\<rparr>) jb
             \<lparr>jb_far_future_candidates := bt_empty,
              jb_next_expected_sequence := the (bt_first_key cs),
              jb_packets := cs\<rparr>))"
proof -
  have "(case bt_first_key (bt_insert k d cs) of Some f \<Rightarrow> f | None \<Rightarrow> k) = the (bt_first_key (bt_insert k d cs))"
    for k :: u64 and cs
    by (cases cs) (auto simp: bt_first_key_def)
  then show ?thesis
    by (simp add: accept_far_future_def candidates_after_def Let_def FAR_FUTURE_RESYNC_PACKETS_def
        del: not_less)
qed

text \<open>Whether a call of \<open>accept\<close> is the one that moves the buffer to a new position.\<close>

definition promotes :: "jitter_buffer \<Rightarrow> audio_datagram \<Rightarrow> bool" where
  "promotes jb d \<longleftrightarrow>
     jb_next_expected_sequence jb \<le> ad_sequence d \<and>
     ad_sequence d - jb_next_expected_sequence jb > ucast (jbc_max_reorder_window (jb_config jb)) \<and>
     packet_ok (jb_config jb) (ad_sequence d, d) \<and>
     \<not> bt_contains_key (jb_far_future_candidates jb) (ad_sequence d) \<and>
     length (candidates_after jb d) \<ge> 3"

lemma unat_window: "unat (ucast (w :: u32) :: u64) = unat w"
  using unsigned_less [of w, where ?'a = nat] by (simp add: unsigned_ucast_eq take_bit_nat_eq_self)

lemma far_future_distance:
  assumes "n \<le> q" and "q - n > ucast (w :: u32)"
  shows "unat q > unat (n :: u64) + unat w"
proof -
  have "unat (q - n) = unat q - unat n"
    using assms(1) by (simp add: unat_sub)
  then show ?thesis
    using assms by (simp add: word_less_nat_alt unat_window word_le_nat_alt)
qed

text \<open>The cases of \<open>accept\<close>: nothing but a counter, a waiting candidate, a promotion, or one insertion.\<close>

lemma jb_accept_cases:
  assumes "jb_accept jb d = (r, jb')"
  obtains
    (rejected) f where "r \<noteq> Inr ()" "jb' = jb_count f jb"
      "\<And>s. jbs_emitted (f s) = jbs_emitted s \<and> jbs_skipped (f s) = jbs_skipped s \<and>
         jbs_resynchronisations (f s) = jbs_resynchronisations s"
  | (waiting) f where "r \<noteq> Inr ()" "packet_ok (jb_config jb) (ad_sequence d, d)"
      "jb' = (jb_count f jb)\<lparr>jb_far_future_candidates := candidates_after jb d\<rparr>"
      "\<not> bt_contains_key (jb_far_future_candidates jb) (ad_sequence d)" "length (candidates_after jb d) \<le> 2"
      "\<And>s. jbs_emitted (f s) = jbs_emitted s \<and> jbs_skipped (f s) = jbs_skipped s \<and>
         jbs_resynchronisations (f s) = jbs_resynchronisations s"
  | (promoted) f where "r = Inr ()" "promotes jb d"
      "jb' = (jb_count f jb)\<lparr>jb_far_future_candidates := bt_empty,
         jb_next_expected_sequence := the (bt_first_key (candidates_after jb d)),
         jb_packets := candidates_after jb d\<rparr>"
      "\<And>s. jbs_resynchronisations (f s) = jbs_resynchronisations s + 1"
  | (inserted) f where "r = Inr ()" "packet_ok (jb_config jb) (ad_sequence d, d)"
      "jb_next_expected_sequence jb \<le> ad_sequence d"
      "unat (ad_sequence d) \<le> unat (jb_next_expected_sequence jb) + unat (jbc_max_reorder_window (jb_config jb))"
      "\<not> bt_contains_key (jb_packets jb) (ad_sequence d)"
      "jb' = (jb_count f jb)\<lparr>jb_far_future_candidates := bt_empty,
         jb_packets := bt_insert (ad_sequence d) d (jb_packets jb)\<rparr>"
      "\<And>s. jbs_emitted (f s) = jbs_emitted s \<and> jbs_skipped (f s) = jbs_skipped s \<and>
         jbs_resynchronisations (f s) = jbs_resynchronisations s"
proof -
  let ?count = "\<lambda>f. (jb_count f jb :: jitter_buffer)"
  note def = assms [unfolded jb_accept_def Let_def]
  consider (session) "ad_session_id d \<noteq> jbc_session_id (jb_config jb)"
    | (stream) "ad_session_id d = jbc_session_id (jb_config jb)" "ad_stream_id d \<noteq> jbc_stream_id (jb_config jb)"
    | (late) "packet_ok (jb_config jb) (ad_sequence d, d)" "ad_sequence d < jb_next_expected_sequence jb"
    | (duplicate) "packet_ok (jb_config jb) (ad_sequence d, d)" "\<not> ad_sequence d < jb_next_expected_sequence jb"
        "bt_contains_key (jb_packets jb) (ad_sequence d)"
    | (far) "packet_ok (jb_config jb) (ad_sequence d, d)" "\<not> ad_sequence d < jb_next_expected_sequence jb"
        "\<not> bt_contains_key (jb_packets jb) (ad_sequence d)"
        "ad_sequence d - jb_next_expected_sequence jb > ucast (jbc_max_reorder_window (jb_config jb))"
    | (near) "packet_ok (jb_config jb) (ad_sequence d, d)" "\<not> ad_sequence d < jb_next_expected_sequence jb"
        "\<not> bt_contains_key (jb_packets jb) (ad_sequence d)"
        "\<not> ad_sequence d - jb_next_expected_sequence jb > ucast (jbc_max_reorder_window (jb_config jb))"
    by atomize_elim (auto simp: packet_ok_def)
  then show thesis
  proof cases
    case session
    then show thesis
      using def by (intro rejected [of "\<lambda>s. s\<lparr>jbs_wrong_session_rejections := jbs_wrong_session_rejections s + 1\<rparr>"]) auto
  next
    case stream
    then show thesis
      using def by (intro rejected [of "\<lambda>s. s\<lparr>jbs_wrong_stream_rejections := jbs_wrong_stream_rejections s + 1\<rparr>"]) auto
  next
    case late
    then show thesis
      using def by (intro rejected [of "\<lambda>s. s\<lparr>jbs_late_rejections := jbs_late_rejections s + 1\<rparr>"])
        (auto simp: packet_ok_def)
  next
    case duplicate
    then show thesis
      using def by (intro rejected [of "\<lambda>s. s\<lparr>jbs_duplicate_rejections := jbs_duplicate_rejections s + 1\<rparr>"])
        (auto simp: packet_ok_def)
  next
    case far
    then have far': "accept_far_future jb d = (r, jb')"
      using def by (simp add: packet_ok_def)
    let ?f = "\<lambda>s. s\<lparr>jbs_reorder_window_rejections := jbs_reorder_window_rejections s + 1\<rparr>"
    have after: "candidates_after (jb_count ?f jb) d = candidates_after jb d"
      by (simp add: candidates_after_def)
    consider "bt_contains_key (jb_far_future_candidates jb) (ad_sequence d)"
      | "\<not> bt_contains_key (jb_far_future_candidates jb) (ad_sequence d)" "length (candidates_after jb d) < 3"
      | "\<not> bt_contains_key (jb_far_future_candidates jb) (ad_sequence d)" "length (candidates_after jb d) \<ge> 3"
      by fastforce
    then show thesis
    proof cases
      case 1
      then show thesis
        using far' by (intro rejected [of ?f]) (auto simp: accept_far_future_alt Let_def)
    next
      case 2
      then show thesis
        using far' far(1) after by (intro waiting [of ?f]) (auto simp: accept_far_future_alt Let_def)
    next
      case 3
      then show thesis
        using far' far after
        by (intro promoted [of "\<lambda>s. ?f s\<lparr>jbs_resynchronisations := jbs_resynchronisations s + 1,
              jbs_skipped := jbs_skipped s + u64_or_max (length (jb_packets jb)),
              jbs_accepted := jbs_accepted s + 3\<rparr>"])
          (auto simp: accept_far_future_alt Let_def promotes_def jb_count_def not_less)
    qed
  next
    case near
    have bound: "unat (ad_sequence d) \<le> unat (jb_next_expected_sequence jb) + unat (jbc_max_reorder_window (jb_config jb))"
      using near(2,4) by (simp add: not_less word_le_nat_alt unat_sub unat_window)
    show thesis
    proof (cases "r = Inr ()")
      case True
      then show thesis
        using def near bound
        by (intro inserted [of "\<lambda>s. s\<lparr>jbs_accepted := jbs_accepted s + 1\<rparr>"])
          (auto simp: packet_ok_def jb_count_def split: if_splits)
    next
      case False
      then show thesis
        using def near
        by (intro rejected [of "\<lambda>s. s\<lparr>jbs_buffered_duration_rejections := jbs_buffered_duration_rejections s + 1\<rparr>"])
          (auto simp: packet_ok_def split: if_splits)
    qed
  qed
qed

lemma promoted_first:
  assumes inv: "jb_inv jb" and "promotes jb d"
  obtains f where "bt_first_key (candidates_after jb d) = Some f"
    "\<forall>e \<in> set (candidates_after jb d). f \<le> fst e \<and> unat (fst e) \<le> unat f + 2"
    "unat (jb_next_expected_sequence jb) + unat (jbc_max_reorder_window (jb_config jb)) < unat f + 2"
proof -
  have ok: "packet_ok (jb_config jb) (ad_sequence d, d)"
    and new: "\<not> bt_contains_key (jb_far_future_candidates jb) (ad_sequence d)"
    using assms(2) by (auto simp: promotes_def)
  note after = candidates_after_inv [OF inv ok new]
  obtain f where f: "bt_first_key (candidates_after jb d) = Some f"
    using assms(2) by (cases "candidates_after jb d") (auto simp: promotes_def bt_first_key_def)
  then have "f \<in> fst ` set (candidates_after jb d)"
    by (rule bt_first_key_in)
  with after(3,4) have "\<forall>e \<in> set (candidates_after jb d). unat (fst e) \<le> unat f + 2" "unat (ad_sequence d) \<le> unat f + 2"
    by auto
  moreover have "\<forall>e \<in> set (candidates_after jb d). f \<le> fst e"
    using bt_first_key_least [OF after(1) f] by (metis prod.collapse)
  moreover have "unat (ad_sequence d) > unat (jb_next_expected_sequence jb) + unat (jbc_max_reorder_window (jb_config jb))"
    using assms(2) by (intro far_future_distance) (auto simp: promotes_def)
  ultimately show thesis
    using f by (intro that) auto
qed

lemma jb_inv_accept:
  assumes inv: "jb_inv jb" and acc: "jb_accept jb d = (r, jb')"
  shows "jb_inv jb'"
  using acc
proof (cases rule: jb_accept_cases)
  case (rejected f)
  then show ?thesis
    using inv by simp
next
  case (waiting f)
  then show ?thesis
    using inv candidates_after_inv [OF inv waiting(2,4)]
    by (simp add: jb_inv_def jb_reach_def)
next
  case (promoted f)
  then obtain k where k: "bt_first_key (candidates_after jb d) = Some k"
    "\<forall>e \<in> set (candidates_after jb d). k \<le> fst e \<and> unat (fst e) \<le> unat k + 2"
    using promoted_first [OF inv] by blast
  have "packet_ok (jb_config jb) (ad_sequence d, d)"
    "\<not> bt_contains_key (jb_far_future_candidates jb) (ad_sequence d)"
    using promoted(2) by (auto simp: promotes_def)
  from candidates_after_inv [OF inv this] k show ?thesis
    by (auto simp: promoted(3) jb_inv_def jb_reach_def bt_empty_def bt_wf_def max_def)
next
  case (inserted f)
  then show ?thesis
    using inv by (auto simp: jb_inv_def jb_reach_def bt_wf_insert btree.set_entries_insert btree.wf_empty bt_empty_def)
qed

text \<open>Removing or giving up the next expected sequence: what is left lies strictly after it.\<close>

lemma jb_inv_advance:
  assumes inv: "jb_inv jb" and rest: "bt_wf ps" "\<And>e. e \<in> set ps \<Longrightarrow> e \<in> set (jb_packets jb)"
    "\<And>e. e \<in> set ps \<Longrightarrow> fst e \<noteq> jb_next_expected_sequence jb"
  shows "jb_inv (jb\<lparr>jb_packets := ps, jb_next_expected_sequence := jb_next_expected_sequence jb + 1\<rparr>)"
proof -
  let ?n = "jb_next_expected_sequence jb"
  have "?n + 1 \<le> fst e \<and> unat (fst e) \<le> unat (?n + 1) + jb_reach jb" if "e \<in> set ps" for e
  proof -
    have n: "?n \<le> fst e" "unat (fst e) \<le> unat ?n + jb_reach jb"
      using inv rest(2) [OF that] by (auto simp: jb_inv_def)
    with rest(3) [OF that] have less: "?n < fst e"
      by simp
    then have "unat (?n + 1) = Suc (unat ?n)"
      by (intro unat_succ) auto
    with less n show ?thesis
      by (simp add: word_le_nat_alt word_less_nat_alt)
  qed
  then show ?thesis
    using inv rest(1,2) by (auto simp: jb_inv_def jb_reach_def)
qed

lemma jb_inv_remove_next:
  assumes "jb_inv jb"
  shows "jb_inv (jb\<lparr>jb_packets := bt_remove (jb_next_expected_sequence jb) (jb_packets jb),
    jb_next_expected_sequence := jb_next_expected_sequence jb + 1\<rparr>)"
  using assms by (intro jb_inv_advance) (auto simp: jb_inv_def btree.set_entries_remove btree.wf_remove)

lemma jb_inv_pop: "jb_inv jb \<Longrightarrow> jb_inv (snd (pop_in_order jb))"
  by (auto simp: pop_in_order_def jb_inv_remove_next split: option.splits)

lemma jb_inv_discard: "jb_inv jb \<Longrightarrow> jb_inv (snd (discard_in_order jb))"
  by (simp add: discard_in_order_def jb_inv_remove_next)

lemma jb_inv_skip:
  assumes "jb_inv jb" and "\<not> bt_contains_key (jb_packets jb) (jb_next_expected_sequence jb)"
  shows "jb_inv (skip_expected_sequence jb)"
proof -
  have "fst e \<noteq> jb_next_expected_sequence jb" if "e \<in> set (jb_packets jb)" for e
    using that assms(2) unfolding bt_contains_key_iff by (metis imageI)
  then show ?thesis
    using jb_inv_advance [OF assms(1) jb_inv_wf [OF assms(1)]] by (simp add: skip_expected_sequence_def)
qed

lemma missing_positive_iff:
  "missing_sequence_count jb > 0 \<longleftrightarrow>
     (\<exists>l. bt_first_key (jb_packets jb) = Some l \<and> l > jb_next_expected_sequence jb)"
  by (auto simp: missing_sequence_count_def word_gt_0 split: option.splits)

lemma skip_to_earliest_next:
  assumes "missing_sequence_count jb > 0"
  shows "bt_first_key (jb_packets jb) = Some (jb_next_expected_sequence jb + missing_sequence_count jb)"
    and "jb_next_expected_sequence jb < jb_next_expected_sequence jb + missing_sequence_count jb"
  using assms unfolding missing_positive_iff by (auto simp: missing_sequence_count_def)

lemma jb_inv_skip_to: "jb_inv jb \<Longrightarrow> jb_inv (snd (skip_to_earliest_buffered jb))"
proof -
  assume inv: "jb_inv jb"
  then have wf: "bt_wf (jb_packets jb)"
    by (simp add: jb_inv_def)
  show ?thesis
  proof (cases "missing_sequence_count jb > 0")
    case True
    note l = skip_to_earliest_next [OF True]
    have "jb_next_expected_sequence jb + missing_sequence_count jb \<le> fst e"
      if "e \<in> set (jb_packets jb)" for e
      using bt_first_key_least [OF wf l(1), of "fst e" "snd e"] that by simp
    with inv l(2) show ?thesis
      by (fastforce simp: skip_to_earliest_buffered_def Let_def True jb_inv_def jb_reach_def word_less_nat_alt)
  qed (use inv in \<open>simp add: skip_to_earliest_buffered_def Let_def\<close>)
qed

lemma jb_inv_drain: "jb_inv jb \<Longrightarrow> jb_inv (snd (drain_all jb))"
  by (auto simp: drain_all_def Let_def jb_inv_def jb_reach_def bt_empty_def bt_wf_def case_prod_beta)

subsection \<open>Calls and runs\<close>

datatype jb_call =
    CallAccept audio_datagram
  | CallPop
  | CallDiscard
  | CallSkip
  | CallSkipToEarliest
  | CallDrain

text \<open>What a call emits, and the buffer after it.\<close>

primrec jb_perform :: "jitter_buffer \<Rightarrow> jb_call \<Rightarrow> audio_datagram list \<times> jitter_buffer" where
  "jb_perform jb (CallAccept d) = ([], snd (jb_accept jb d))"
| "jb_perform jb CallPop =
     ((case fst (pop_in_order jb) of None \<Rightarrow> [] | Some d \<Rightarrow> [d]), snd (pop_in_order jb))"
| "jb_perform jb CallDiscard = ([], snd (discard_in_order jb))"
| "jb_perform jb CallSkip = ([], skip_expected_sequence jb)"
| "jb_perform jb CallSkipToEarliest = ([], snd (skip_to_earliest_buffered jb))"
| "jb_perform jb CallDrain = drain_all jb"

text \<open>
  The one obligation of the caller, stated at \<open>skip_expected_sequence\<close>: it gives up on a sequence
  it has decided to stop waiting for, so that sequence is not in the buffer.
\<close>

definition jb_call_ok :: "jitter_buffer \<Rightarrow> jb_call \<Rightarrow> bool" where
  "jb_call_ok jb c \<longleftrightarrow>
     (c = CallSkip \<longrightarrow> \<not> bt_contains_key (jb_packets jb) (jb_next_expected_sequence jb))"

abbreviation jb_run :: "jitter_buffer \<Rightarrow> jb_call list \<Rightarrow> audio_datagram list \<Rightarrow> jitter_buffer \<Rightarrow> bool" where
  "jb_run \<equiv> call_run jb_call_ok jb_perform"

lemma jb_inv_perform:
  assumes "jb_inv jb" "jb_call_ok jb c" "jb_perform jb c = (emitted, jb')"
  shows "jb_inv jb'"
proof (cases c)
  case (CallAccept d)
  then show ?thesis
    using assms jb_inv_accept [OF assms(1) surjective_pairing] by auto
qed (use assms in \<open>auto simp: jb_call_ok_def jb_inv_pop jb_inv_discard jb_inv_skip jb_inv_skip_to
    dest: jb_inv_drain\<close>)

lemma jb_config_accept: "jb_config (snd (jb_accept jb d)) = jb_config jb"
proof -
  obtain r jb' where acc: "jb_accept jb d = (r, jb')"
    by fastforce
  then show ?thesis
    by (cases rule: jb_accept_cases) (simp_all add: acc)
qed

lemma jb_config_perform: "jb_perform jb c = (emitted, jb') \<Longrightarrow> jb_config jb' = jb_config jb"
  by (cases c) (auto simp: jb_config_accept pop_in_order_def discard_in_order_def skip_expected_sequence_def
      skip_to_earliest_buffered_def drain_all_def Let_def case_prod_beta split: option.splits if_splits)

text \<open>
  C21: the buffer never violates its bounds. Whatever packets arrive, in whatever order, from
  whatever sessions and streams, and however the owner interleaves its calls: everything held
  belongs to the configured stream, is filed under its own sequence number, is not older than the
  next expected sequence and at most the reorder window (at least two) ahead of it; so at most
  one more packet than that window is held, and never more than two unconfirmed candidates.
\<close>

theorem jitter_buffer_bounded:
  assumes "jitter_buffer_new config = Inr jb0" and "jb_run jb0 calls out jb"
  shows "jb_inv jb \<and> jb_config jb = config \<and>
    jb_len jb \<le> max 2 (unat (jbc_max_reorder_window config)) + 1 \<and> jb_len jb \<le> 4097"
proof -
  have "jb_inv jb \<and> jb_config jb = jb_config jb0"
    using assms(2,1)
  proof (induction rule: call_run.induct)
    case (run_call cs out jb c emitted jb')
    then show ?case
      using jb_inv_perform jb_config_perform by auto
  qed (simp add: jb_inv_new)
  moreover have config: "jb_config jb0 = config" "jbc_max_reorder_window config \<le> 4096"
    using assms(1) by (auto simp: jitter_buffer_new_def MAX_REORDER_WINDOW_LIMIT_def split: if_splits)
  moreover have "jb_len jb \<le> jb_reach jb + 1" if inv: "jb_inv jb"
  proof -
    let ?n = "unat (jb_next_expected_sequence jb)"
    have wf: "bt_wf (jb_packets jb)"
      using inv by (simp add: jb_inv_def)
    have "unat ` fst ` set (jb_packets jb) \<subseteq> {?n .. ?n + jb_reach jb}"
      using inv by (auto simp: jb_inv_def word_le_nat_alt)
    then have "card (unat ` fst ` set (jb_packets jb)) \<le> card {?n .. ?n + jb_reach jb}"
      by (intro card_mono) auto
    moreover have "card (unat ` fst ` set (jb_packets jb)) = card (fst ` set (jb_packets jb))"
      by (rule card_image) (auto intro: inj_onI simp: word_unat_eq_iff)
    moreover have "card (fst ` set (jb_packets jb)) = jb_len jb"
      using btree.length_entries [OF wf] btree.keys_lookup [OF wf] by (simp add: jb_len_def)
    ultimately show ?thesis
      by simp
  qed
  moreover have "unat (jbc_max_reorder_window config) \<le> 4096"
    using config(2) by (simp add: word_le_nat_alt)
  ultimately show ?thesis
    by (auto simp: jb_reach_def)
qed

subsection \<open>Emission in order\<close>

lemma drain_progress_last:
  "ds \<noteq> [] \<Longrightarrow> fst (drain_progress ds acc) = saturating_add (ad_sequence (last ds)) 1"
proof (induction ds arbitrary: acc)
  case (Cons d ds)
  then show ?case
    by (cases "ds = []") simp_all
qed simp

lemma bt_values_sequences:
  assumes "jb_inv jb"
  shows "map ad_sequence (bt_values (jb_packets jb)) = map fst (jb_packets jb)"
  using assms by (auto simp: jb_inv_def packet_ok_def bt_values_def)

lemma values_in_packets: "d \<in> set (bt_values m) \<longleftrightarrow> (\<exists>k. (k, d) \<in> set m)"
  by (force simp: bt_values_def)

text \<open>
  One call moves the next expected sequence forward, over exactly the emitted packets: they lie
  between the old and the new position, in increasing order.
\<close>

definition jb_below :: "nat \<Rightarrow> jitter_buffer \<Rightarrow> bool" where
  "jb_below B jb \<longleftrightarrow>
     (\<forall>e \<in> set (jb_packets jb) \<union> set (jb_far_future_candidates jb). unat (fst e) < B)"

lemma jb_belowD:
  assumes "jb_below B jb" and "k \<in> fst ` set (jb_packets jb)"
  shows "unat k < B"
proof -
  obtain v where "(k, v) \<in> set (jb_packets jb)"
    using assms(2) by auto
  then have "(k, v) \<in> set (jb_packets jb) \<union> set (jb_far_future_candidates jb)"
    by simp
  with assms(1) have "unat (fst (k, v)) < B"
    unfolding jb_below_def by (rule bspec)
  then show ?thesis
    by simp
qed

lemma drained_bounds:
  assumes inv: "jb_inv jb" and below: "jb_below B jb" and d: "d \<in> set (bt_values (jb_packets jb))"
  shows "jb_next_expected_sequence jb \<le> ad_sequence d \<and> unat (ad_sequence d) < B"
proof -
  obtain k where k: "(k, d) \<in> set (jb_packets jb)"
    using d by (auto simp: values_in_packets)
  then have "ad_sequence d = k" "jb_next_expected_sequence jb \<le> k"
    using inv by (auto simp: jb_inv_def packet_ok_def)
  moreover have "unat k < B"
    using k by (intro jb_belowD [OF below]) force
  ultimately show ?thesis
    by simp
qed

definition jb_advances :: "nat \<Rightarrow> jitter_buffer \<Rightarrow> audio_datagram list \<Rightarrow> jitter_buffer \<Rightarrow> bool" where
  "jb_advances B jb emitted jb' \<longleftrightarrow>
     jb_next_expected_sequence jb \<le> jb_next_expected_sequence jb' \<and>
     sorted_wrt (<) (map ad_sequence emitted) \<and>
     (\<forall>d \<in> set emitted. jb_next_expected_sequence jb \<le> ad_sequence d \<and>
        ad_sequence d < jb_next_expected_sequence jb') \<and>
     unat (jb_next_expected_sequence jb') \<le> max B (unat (jb_next_expected_sequence jb) + 1)"

lemma advances_accept:
  assumes inv: "jb_inv jb" and window: "jbc_max_reorder_window (jb_config jb) > 0"
    and below: "jb_below B jb" and d: "unat (ad_sequence d) < B"
  shows "jb_advances B jb [] (snd (jb_accept jb d)) \<and> jb_below B (snd (jb_accept jb d))"
proof -
  obtain r jb' where acc: "jb_accept jb d = (r, jb')"
    by fastforce
  then show ?thesis
  proof (cases rule: jb_accept_cases)
    case (rejected f)
    then show ?thesis
      using below by (simp add: acc jb_advances_def jb_below_def)
  next
    case (waiting f)
    then have "set (candidates_after jb d) \<subseteq> insert (ad_sequence d, d) (set (jb_far_future_candidates jb))"
      using candidates_after_inv(6) [OF inv] by blast
    with waiting below d show ?thesis
      by (auto simp: acc jb_advances_def jb_below_def)
  next
    case (promoted f)
    then obtain k where k: "bt_first_key (candidates_after jb d) = Some k"
      "unat (jb_next_expected_sequence jb) + unat (jbc_max_reorder_window (jb_config jb)) < unat k + 2"
      using promoted_first [OF inv] by blast
    have "set (candidates_after jb d) \<subseteq> insert (ad_sequence d, d) (set (jb_far_future_candidates jb))"
      using candidates_after_inv(6) [OF inv] promoted(2) unfolding promotes_def by blast
    then have B: "\<forall>e \<in> set (candidates_after jb d). unat (fst e) < B"
      using below d by (auto simp: jb_below_def)
    have "unat (jbc_max_reorder_window (jb_config jb)) > 0"
      using window by (simp add: word_less_nat_alt)
    moreover have "unat k < B"
      using B bt_first_key_in [OF k(1)] by auto
    ultimately show ?thesis
      using promoted k B by (auto simp: acc jb_advances_def jb_below_def bt_empty_def word_le_nat_alt)
  next
    case (inserted f)
    then show ?thesis
      using below d jb_inv_wf [OF inv]
      by (auto simp: acc jb_advances_def jb_below_def btree.set_entries_insert bt_empty_def)
  qed
qed

lemma advances_perform:
  assumes inv: "jb_inv jb" and window: "jbc_max_reorder_window (jb_config jb) > 0"
    and below: "jb_below B jb" and B: "B < 2 ^ 64" "unat (jb_next_expected_sequence jb) + 1 < 2 ^ 64"
    and call: "jb_call_ok jb c" "\<And>d. c = CallAccept d \<Longrightarrow> unat (ad_sequence d) < B"
    and perform: "jb_perform jb c = (emitted, jb')"
  shows "jb_advances B jb emitted jb' \<and> jb_below B jb'"
proof -
  let ?n = "jb_next_expected_sequence jb"
  have succ: "unat (?n + 1) = Suc (unat ?n)"
    using B(2) by (intro unat_succ) (auto simp: unsigned_minus_1_eq_mask mask_eq_exp_minus_1)
  then have next_step: "?n < ?n + 1"
    by (simp add: word_less_nat_alt)
  note n = succ next_step less_imp_le [OF next_step]
  note wf = jb_inv_wf [OF inv]
  show ?thesis
  proof (cases c)
    case (CallAccept d)
    then show ?thesis
      using perform advances_accept [OF inv window below call(2)] by auto
  next
    case CallPop
    then show ?thesis
      using perform below n wf inv
      by (auto simp: pop_in_order_def jb_advances_def jb_below_def bt_get_Some_in btree.set_entries_remove
          jb_inv_def packet_ok_def split: option.splits)
  next
    case CallDiscard
    then show ?thesis
      using perform below n wf
      by (auto simp: discard_in_order_def jb_advances_def jb_below_def btree.set_entries_remove split: if_splits)
  next
    case CallSkip
    then show ?thesis
      using perform below n by (auto simp: skip_expected_sequence_def jb_advances_def jb_below_def)
  next
    case CallSkipToEarliest
    have "unat (?n + missing_sequence_count jb) < B" if "missing_sequence_count jb > 0"
      by (rule jb_belowD [OF below bt_first_key_in [OF skip_to_earliest_next(1) [OF that]]])
    then show ?thesis
      using perform below CallSkipToEarliest skip_to_earliest_next(2)
      by (auto simp: skip_to_earliest_buffered_def Let_def jb_advances_def jb_below_def less_imp_le
          split: if_splits)
  next
    case CallDrain
    let ?ds = "bt_values (jb_packets jb)"
    have emitted: "emitted = ?ds" and below': "jb_below B jb'"
      using perform CallDrain below by (auto simp: drain_all_def Let_def case_prod_beta jb_below_def bt_empty_def)
    have seqs: "map ad_sequence ?ds = map fst (jb_packets jb)"
      by (rule bt_values_sequences [OF inv])
    then have sorted: "sorted_wrt (<) (map ad_sequence ?ds)"
      using wf by (simp add: bt_wf_def)
    note ge = drained_bounds [OF inv below]
    show ?thesis
    proof (cases "?ds = []")
      case True
      then show ?thesis
        using perform CallDrain below' emitted by (auto simp: drain_all_def Let_def case_prod_beta jb_advances_def)
    next
      case False
      let ?l = "ad_sequence (last ?ds)"
      have next': "jb_next_expected_sequence jb' = saturating_add ?l 1"
        using perform CallDrain False drain_progress_last [OF False] by (auto simp: drain_all_def Let_def case_prod_beta)
      have last: "?n \<le> ?l" "unat ?l < B"
        using ge [of "last ?ds"] False by simp_all
      then have l: "unat (saturating_add ?l 1) = Suc (unat ?l)"
        using last(2) B(1) by (simp add: unat_saturating_add_u64 U64_MAX_def)
      have "ad_sequence d \<le> ?l" if "d \<in> set ?ds" for d
        using that False sorted_wrt_less_le_last [OF sorted, of "ad_sequence d"] by (simp add: last_map)
      then show ?thesis
        using sorted ge l next' below' emitted last
        by (auto simp: jb_advances_def word_le_nat_alt word_less_nat_alt less_Suc_eq_le max_def)
    qed
  qed
qed

text \<open>Where the packets in the buffer and in the output come from.\<close>

definition jb_origin :: "jb_call list \<Rightarrow> jitter_buffer \<Rightarrow> bool" where
  "jb_origin calls jb \<longleftrightarrow>
     (\<forall>e \<in> set (jb_packets jb) \<union> set (jb_far_future_candidates jb). CallAccept (snd e) \<in> set calls)"

lemma packet_origin:
  assumes "jb_inv jb" and "jb_origin calls jb" and "(k, d) \<in> set (jb_packets jb)"
  shows "CallAccept d \<in> set calls \<and> packet_ok (jb_config jb) (ad_sequence d, d)"
  using assms by (auto simp: jb_origin_def ball_Un jb_inv_def packet_ok_def)

lemma jb_origin_perform:
  assumes inv: "jb_inv jb" and origin: "jb_origin calls jb" and perform: "jb_perform jb c = (emitted, jb')"
  shows "jb_origin (calls @ [c]) jb' \<and>
    (\<forall>d \<in> set emitted. CallAccept d \<in> set calls \<and> packet_ok (jb_config jb) (ad_sequence d, d))"
proof (cases c)
  case (CallAccept d)
  obtain r jb'' where acc: "jb_accept jb d = (r, jb'')"
    by fastforce
  with perform CallAccept have jb': "jb' = jb''" "emitted = []"
    by auto
  have after: "set (candidates_after jb d) \<subseteq> insert (ad_sequence d, d) (set (jb_far_future_candidates jb))"
    if "packet_ok (jb_config jb) (ad_sequence d, d)"
      "\<not> bt_contains_key (jb_far_future_candidates jb) (ad_sequence d)"
    using candidates_after_inv(6) [OF inv that] .
  from acc show ?thesis
    by (cases rule: jb_accept_cases)
      (use origin after jb' CallAccept jb_inv_wf [OF inv] in
        \<open>auto simp: jb_origin_def promotes_def bt_empty_def btree.set_entries_insert\<close>)
next
  case CallPop
  then show ?thesis
    using perform origin inv jb_inv_wf [OF inv] packet_origin [OF inv origin]
    by (auto simp: pop_in_order_def jb_origin_def btree.set_entries_remove bt_get_Some_in
        split: option.splits)
next
  case CallDrain
  then show ?thesis
    using perform origin inv packet_origin [OF inv origin]
    by (auto simp: drain_all_def Let_def case_prod_beta jb_origin_def bt_empty_def values_in_packets)
qed (use perform origin jb_inv_wf [OF inv] in \<open>auto simp: discard_in_order_def skip_expected_sequence_def
    skip_to_earliest_buffered_def Let_def jb_origin_def btree.set_entries_remove split: if_splits\<close>)

lemma jb_run_origin:
  assumes "jb_run jb0 calls out jb"
    and "jb_inv jb0" "jb_packets jb0 = []" "jb_far_future_candidates jb0 = []"
  shows "jb_inv jb \<and> jb_config jb = jb_config jb0 \<and> jb_origin calls jb \<and>
    (\<forall>d \<in> set out. CallAccept d \<in> set calls \<and> packet_ok (jb_config jb0) (ad_sequence d, d))"
  using assms
proof (induction rule: call_run.induct)
  case run_start
  then show ?case
    by (simp add: jb_origin_def)
next
  case (run_call cs out jb c emitted jb')
  then have IH: "jb_inv jb" "jb_config jb = jb_config jb0" "jb_origin cs jb"
    "\<forall>d \<in> set out. CallAccept d \<in> set cs \<and> packet_ok (jb_config jb0) (ad_sequence d, d)"
    by auto
  then show ?case
    using jb_origin_perform [OF IH(1,3) run_call(3)] jb_inv_perform [OF IH(1) run_call(2,3)]
      jb_config_perform [OF run_call(3)] by auto
qed

interpretation jb_emitter: ordered_emitter
  "\<lambda>B jb. jb_inv jb \<and> jb_below B jb \<and> jbc_max_reorder_window (jb_config jb) > 0"
  "\<lambda>jb. unat (jb_next_expected_sequence jb)" jb_call_ok
  "\<lambda>B c. \<forall>d. c = CallAccept d \<longrightarrow> unat (ad_sequence d) < B" jb_perform "\<lambda>d. unat (ad_sequence d)"
proof
  fix B s c es s'
  assume inv: "jb_inv s \<and> jb_below B s \<and> jbc_max_reorder_window (jb_config s) > 0"
    and B: "max B (unat (jb_next_expected_sequence s)) + 1 < 2 ^ 64"
    and call: "jb_call_ok s c" "\<forall>d. c = CallAccept d \<longrightarrow> unat (ad_sequence d) < B"
    and perform: "jb_perform s c = (es, s')"
  have "jb_advances B s es s' \<and> jb_below B s'"
    using inv B call perform by (intro advances_perform) auto
  then show "(jb_inv s' \<and> jb_below B s' \<and> jbc_max_reorder_window (jb_config s') > 0) \<and>
      unat (jb_next_expected_sequence s) \<le> unat (jb_next_expected_sequence s') \<and>
      unat (jb_next_expected_sequence s') \<le> max B (unat (jb_next_expected_sequence s)) + 1 \<and>
      sorted_wrt (<) (map (\<lambda>d. unat (ad_sequence d)) es) \<and>
      (\<forall>e \<in> set es. unat (jb_next_expected_sequence s) \<le> unat (ad_sequence e) \<and>
         unat (ad_sequence e) < unat (jb_next_expected_sequence s'))"
    using jb_inv_perform [OF _ call(1) perform] jb_config_perform [OF perform] inv
    by (auto simp: jb_advances_def word_le_nat_alt word_less_nat_alt sorted_wrt_map)
qed

lemma jb_run_order:
  assumes "jb_run jb0 calls out jb" and "jitter_buffer_new config = Inr jb0"
    and "jbc_max_reorder_window config > 0"
    and "unat (jbc_first_sequence config) \<le> B"
    and "\<forall>d. CallAccept d \<in> set calls \<longrightarrow> unat (ad_sequence d) < B"
    and "B + length calls < 2 ^ 64"
  shows "jb_inv jb \<and> jb_config jb = config \<and> jb_below B jb \<and>
    unat (jb_next_expected_sequence jb) \<le> B + length calls \<and> sorted_wrt (<) (map ad_sequence out) \<and>
    (\<forall>d \<in> set out. ad_sequence d < jb_next_expected_sequence jb \<and> CallAccept d \<in> set calls \<and>
       packet_ok config (ad_sequence d, d))"
proof -
  have new: "jb_config jb0 = config" "jb_packets jb0 = []" "jb_far_future_candidates jb0 = []"
    "jb_next_expected_sequence jb0 = jbc_first_sequence config" "jb_inv jb0"
    using assms(2) jb_inv_new by (auto simp: jitter_buffer_new_def bt_empty_def split: if_splits)
  have "jb_inv jb0 \<and> jb_below B jb0 \<and> jbc_max_reorder_window (jb_config jb0) > 0"
    using new assms(3) by (simp add: jb_below_def)
  from jb_emitter.run_in_order [OF assms(1) this] jb_run_origin [OF assms(1) new(5,2,3)]
  show ?thesis
    using assms(4-6) new by (auto simp: sorted_wrt_map word_less_nat_alt)
qed

text \<open>
  C8: packets are emitted in order, at most once, and only genuine ones. Over any run of a new
  buffer whose reorder window is at least one packet, however the packets were reordered,
  duplicated or lost on the way, the emitted sequence numbers are strictly increasing and every
  emitted packet is one that was handed in for this session and stream. (The sequence numbers
  stay clear of the end of the \<open>u64\<close> range, where \<open>next_expected_sequence + 1\<close> overflows.)
\<close>

theorem jitter_buffer_emits_in_order:
  assumes "jitter_buffer_new config = Inr jb0" and "jb_run jb0 calls out jb"
    and "jbc_max_reorder_window config > 0"
    and "unat (jbc_first_sequence config) \<le> B"
    and "\<forall>d. CallAccept d \<in> set calls \<longrightarrow> unat (ad_sequence d) < B"
    and "B + length calls < 2 ^ 64"
  shows "sorted_wrt (<) (map ad_sequence out) \<and>
    (\<forall>d \<in> set out. CallAccept d \<in> set calls \<and> ad_session_id d = jbc_session_id config \<and>
       ad_stream_id d = jbc_stream_id config \<and> ad_sequence d < jb_next_expected_sequence jb)"
  using jb_run_order [OF assms(2,1) assms(3-6)] by (auto simp: packet_ok_def)

subsection \<open>Accounting\<close>

lemma drain_progress_sum:
  assumes "sorted_wrt (<) (map ad_sequence ds)"
    and "\<forall>d \<in> set ds. fst acc \<le> ad_sequence d \<and> unat (ad_sequence d) < U64_MAX"
    and "unat (snd acc) \<le> unat (fst acc)"
  shows "unat (snd (drain_progress ds acc)) + length ds + unat (fst acc) =
    unat (snd acc) + unat (fst (drain_progress ds acc))"
  using assms
proof (induction ds arbitrary: acc)
  case (Cons d ds)
  let ?acc = "(saturating_add (ad_sequence d) 1,
      saturating_add (snd acc) (saturating_sub (ad_sequence d) (fst acc)))"
  have d: "unat (fst acc) \<le> unat (ad_sequence d)" "unat (ad_sequence d) < U64_MAX"
    using Cons.prems(2) by (auto simp: word_le_nat_alt)
  have e: "unat (fst ?acc) = Suc (unat (ad_sequence d))"
    using d(2) by (simp add: unat_saturating_add_u64)
  have k: "unat (snd ?acc) = unat (snd acc) + (unat (ad_sequence d) - unat (fst acc))"
    using d Cons.prems(3) by (simp add: unat_saturating_add_u64 unat_saturating_sub)
  have "\<forall>x \<in> set ds. fst ?acc \<le> ad_sequence x \<and> unat (ad_sequence x) < U64_MAX"
    using Cons.prems(1,2) e by (auto simp: word_le_nat_alt word_less_nat_alt)
  then have "unat (snd (drain_progress ds ?acc)) + length ds + unat (fst ?acc) =
      unat (snd ?acc) + unat (fst (drain_progress ds ?acc))"
    using Cons.prems(1,3) d k e by (intro Cons.IH) auto
  then show ?case
    using e k d Cons.prems(3) by simp
qed simp

definition jb_accounted :: "jitter_buffer \<Rightarrow> nat \<Rightarrow> nat \<Rightarrow> bool" where
  "jb_accounted jb first n \<longleftrightarrow>
     first + unat (jbs_emitted (jb_statistics jb)) + unat (jbs_skipped (jb_statistics jb)) =
       unat (jb_next_expected_sequence jb) \<and>
     unat (jbs_emitted (jb_statistics jb)) = n"

lemma unat_add_no_overflow: "unat a + unat b \<le> U64_MAX \<Longrightarrow> unat (a + b :: u64) = unat a + unat b"
  by (simp add: unat_word_ariths U64_MAX_def)

lemma resync_perform:
  assumes "jb_perform jb c = (emitted, jb')"
  shows "jbs_resynchronisations (jb_statistics jb') \<in>
    {jbs_resynchronisations (jb_statistics jb), jbs_resynchronisations (jb_statistics jb) + 1}"
proof (cases c)
  case (CallAccept d)
  obtain r jb'' where acc: "jb_accept jb d = (r, jb'')"
    by fastforce
  then show ?thesis
    by (cases rule: jb_accept_cases) (use assms CallAccept acc in auto)
qed (use assms in \<open>auto simp: pop_in_order_def discard_in_order_def skip_expected_sequence_def
    skip_to_earliest_buffered_def drain_all_def Let_def case_prod_beta split: option.splits if_splits\<close>)

lemma accounted_perform:
  assumes inv: "jb_inv jb" and below: "jb_below B jb" and B: "B < 2 ^ 64"
    and acct: "jb_accounted jb first n" and adv: "jb_advances B jb emitted jb'"
    and same: "jbs_resynchronisations (jb_statistics jb') = jbs_resynchronisations (jb_statistics jb)"
    and perform: "jb_perform jb c = (emitted, jb')"
    and room: "unat (jb_next_expected_sequence jb) < U64_MAX"
  shows "jb_accounted jb' first (n + length emitted)"
proof -
  let ?n = "jb_next_expected_sequence jb" and ?s = "jb_statistics jb"
  have succ: "unat (?n + 1) = Suc (unat ?n)"
    using room by (intro unat_succ) (auto simp: unsigned_minus_1_eq_mask mask_eq_exp_minus_1 U64_MAX_def)
  have em: "unat (jbs_emitted ?s + 1) = Suc (unat (jbs_emitted ?s))"
    and sk: "unat (jbs_skipped ?s + 1) = Suc (unat (jbs_skipped ?s))"
    using acct room by (auto simp: jb_accounted_def unat_add_no_overflow)
  show ?thesis
  proof (cases c)
    case (CallAccept d)
    obtain r jb'' where acc: "jb_accept jb d = (r, jb'')"
      by fastforce
    then show ?thesis
      by (cases rule: jb_accept_cases)
        (use perform CallAccept acc acct same in \<open>auto simp: jb_accounted_def\<close>)
  next
    case CallSkipToEarliest
    then show ?thesis
    proof (cases "missing_sequence_count jb > 0")
      case True
      let ?m = "missing_sequence_count jb"
      have "unat (?n + ?m) = unat ?n + unat ?m"
        using skip_to_earliest_next(2) [OF True]
        by (metis less_imp_le word_le_plus_either unat_plus_simple)
      moreover from this have "unat (jbs_skipped ?s + ?m) = unat (jbs_skipped ?s) + unat ?m"
        using acct unat_le_U64_MAX [of "?n + ?m"]
        by (intro unat_add_no_overflow) (simp add: jb_accounted_def)
      ultimately show ?thesis
        using perform CallSkipToEarliest True acct
        by (auto simp: skip_to_earliest_buffered_def Let_def jb_accounted_def)
    next
      case False
      then show ?thesis
        using perform CallSkipToEarliest acct by (auto simp: skip_to_earliest_buffered_def Let_def jb_accounted_def)
    qed
  next
    case CallDrain
    let ?ds = "bt_values (jb_packets jb)" and ?dp = "drain_progress (bt_values (jb_packets jb)) (?n, 0)"
    have emitted: "emitted = ?ds"
      using perform CallDrain by (auto simp: drain_all_def Let_def case_prod_beta)
    have "sorted_wrt (<) (map ad_sequence ?ds)"
      using jb_inv_wf [OF inv] by (simp add: bt_values_sequences [OF inv] bt_wf_def)
    moreover have "\<forall>d \<in> set ?ds. ?n \<le> ad_sequence d \<and> unat (ad_sequence d) < U64_MAX"
      using drained_bounds [OF inv below] B by (fastforce simp: U64_MAX_def)
    ultimately have sum: "unat (snd ?dp) + length ?ds + unat ?n = unat (fst ?dp)"
      using drain_progress_sum [of ?ds "(?n, 0)"] by simp
    then have "length ?ds \<le> U64_MAX"
      using unat_le_U64_MAX [of "fst ?dp"] by linarith
    then have len: "unat (u64_or_max (length ?ds)) = length ?ds"
      by (simp add: unat_u64_or_max U64_MAX_def)
    have next': "jb_next_expected_sequence jb' = fst ?dp"
      using perform CallDrain by (auto simp: drain_all_def Let_def case_prod_beta)
    have "unat (jbs_skipped (jb_statistics jb')) = unat (jbs_skipped ?s) + unat (snd ?dp)"
      "unat (jbs_emitted (jb_statistics jb')) = unat (jbs_emitted ?s) + length ?ds"
      using perform CallDrain acct sum len unat_le_U64_MAX [of "fst ?dp"]
      by (auto simp: drain_all_def Let_def case_prod_beta unat_saturating_add_u64 jb_accounted_def)
    then show ?thesis
      using acct sum next' emitted by (simp add: jb_accounted_def)
  qed (use perform acct succ em sk in \<open>auto simp: pop_in_order_def discard_in_order_def
      skip_expected_sequence_def jb_accounted_def split: option.splits if_splits\<close>)
qed

text \<open>
  C23: every sequence number is accounted for once. As long as the buffer has not jumped to a new
  stream position (no resynchronisation), the distance it has moved from its first sequence is
  exactly the packets it emitted plus the ones it counts as skipped, and the emitted counter is
  the number of packets handed out. No loss goes unreported and none is reported twice.
\<close>

theorem jitter_buffer_accounts:
  assumes "jitter_buffer_new config = Inr jb0" and "jb_run jb0 calls out jb"
    and "jbc_max_reorder_window config > 0"
    and "unat (jbc_first_sequence config) \<le> B"
    and "\<forall>d. CallAccept d \<in> set calls \<longrightarrow> unat (ad_sequence d) < B"
    and "B + length calls < 2 ^ 64"
    and "jbs_resynchronisations (jb_statistics jb) = 0"
  shows "unat (jbc_first_sequence config) + unat (jbs_emitted (jb_statistics jb)) +
      unat (jbs_skipped (jb_statistics jb)) = unat (jb_next_expected_sequence jb) \<and>
    unat (jbs_emitted (jb_statistics jb)) = length out"
proof -
  have new: "jb_config jb0 = config" "jb_packets jb0 = []" "jb_far_future_candidates jb0 = []"
    "jb_next_expected_sequence jb0 = jbc_first_sequence config"
    "jb_statistics jb0 = jitter_buffer_statistics_default"
    using assms(1) by (auto simp: jitter_buffer_new_def bt_empty_def split: if_splits)
  let ?first = "unat (jbc_first_sequence config)"
  have "unat (jbs_resynchronisations (jb_statistics jb)) \<le> length calls \<and>
    (jbs_resynchronisations (jb_statistics jb) = 0 \<longrightarrow> jb_accounted jb ?first (length out))"
    using assms(2,5,6)
  proof (induction rule: call_run.induct)
    case run_start
    then show ?case
      by (simp add: new jitter_buffer_statistics_default_def jb_accounted_def)
  next
    case (run_call cs out jb c emitted jb')
    let ?r = "jbs_resynchronisations (jb_statistics jb)" and ?r' = "jbs_resynchronisations (jb_statistics jb')"
    have IH: "unat ?r \<le> length cs" "?r = 0 \<longrightarrow> jb_accounted jb ?first (length out)"
      using run_call by auto
    have order: "jb_inv jb" "jb_config jb = config" "jb_below B jb"
        "unat (jb_next_expected_sequence jb) \<le> B + length cs"
      using jb_run_order [OF run_call(1) assms(1,3,4)] run_call(5,6) by auto
    have adv: "jb_advances B jb emitted jb'"
      using advances_perform [of jb B c emitted jb'] order run_call assms(3) by auto
    have "unat (?r + 1) = Suc (unat ?r)"
      using IH(1) run_call(6) by (intro unat_succ) (auto simp: unsigned_minus_1_eq_mask mask_eq_exp_minus_1)
    then have r': "unat ?r' \<le> Suc (unat ?r)" "?r' = 0 \<Longrightarrow> ?r = 0 \<and> ?r' = ?r"
      using resync_perform [OF run_call(3)] by auto
    have "jb_accounted jb' ?first (length out + length emitted)" if "?r' = 0"
      using accounted_perform [OF order(1,3) _ _ adv _ run_call(3), of ?first "length out"]
        r'(2) [OF that] IH(2) order(4) run_call(6) by (auto simp: U64_MAX_def)
    then show ?case
      using r'(1) IH(1) by auto
  qed
  with assms(7) show ?thesis
    by (simp add: jb_accounted_def)
qed

subsection \<open>Examples\<close>

abbreviation jb_exec :: "jitter_buffer \<Rightarrow> jb_call list \<Rightarrow> (audio_datagram list \<times> jitter_buffer) option" where
  "jb_exec \<equiv> call_exec jb_call_ok jb_perform"

definition example_config :: jitter_buffer_config where
  "example_config = jitter_buffer_config_new (SessionId (lit ''s'')) (StreamId (lit ''t''))"

definition example_packet :: "u64 \<Rightarrow> u64 \<Rightarrow> audio_datagram" where
  "example_packet sequence presentation_ms =
     \<lparr>ad_session_id = SessionId (lit ''s''), ad_stream_id = StreamId (lit ''t''), ad_sequence = sequence,
      ad_codec = PcmS16Le, ad_sample_rate = 48000, ad_channels = 1, ad_samples_per_packet = 1,
      ad_first_sample_index = sequence, ad_host_presentation_time_ms = presentation_ms, ad_payload = [0, 0]\<rparr>"

definition example_buffer :: jitter_buffer where
  "example_buffer =
     \<lparr>jb_config = example_config, jb_packets = [], jb_next_expected_sequence = 0,
      jb_statistics = jitter_buffer_statistics_default, jb_far_future_candidates = []\<rparr>"

lemma example_buffer_new: "jitter_buffer_new example_config = Inr example_buffer"
  by (simp add: jitter_buffer_new_def example_config_def jitter_buffer_config_new_def example_buffer_def
      DEFAULT_MAX_REORDER_WINDOW_def MAX_REORDER_WINDOW_LIMIT_def DEFAULT_MAX_BUFFERED_DURATION_MS_def
      MAX_BUFFERED_DURATION_LIMIT_MS_def bt_empty_def)

text \<open>Packets 2, 0 and a duplicate of 0 arrive, 0 is emitted, 1 is given up, 2 is emitted.\<close>

definition example_calls :: "jb_call list" where
  "example_calls =
     [CallAccept (example_packet 2 40), CallAccept (example_packet 0 0), CallAccept (example_packet 0 0),
      CallPop, CallPop, CallSkip, CallPop]"

definition example_end :: jitter_buffer where
  "example_end = snd (the (jb_exec example_buffer example_calls))"

lemma example_exec:
  "jb_exec example_buffer example_calls = Some ([example_packet 0 0, example_packet 2 40], example_end)"
  by code_simp

lemmas example_run = call_exec_run [OF example_exec]

theorem jitter_buffer_bounded_witness:
  "jitter_buffer_new example_config = Inr example_buffer \<and>
   jb_run example_buffer example_calls [example_packet 0 0, example_packet 2 40] example_end \<and>
   jb_inv example_end \<and> jb_len example_end \<le> 4097"
  using jitter_buffer_bounded [OF example_buffer_new example_run] example_buffer_new example_run by simp

lemma example_bounds:
  "jbc_max_reorder_window example_config > 0" "unat (jbc_first_sequence example_config) \<le> 3"
  "\<forall>d. CallAccept d \<in> set example_calls \<longrightarrow> unat (ad_sequence d) < 3"
  "3 + length example_calls < 2 ^ 64"
  by (auto simp: example_config_def jitter_buffer_config_new_def DEFAULT_MAX_REORDER_WINDOW_def
      example_calls_def example_packet_def)

theorem jitter_buffer_emits_in_order_witness:
  "jitter_buffer_new example_config = Inr example_buffer \<and>
   jb_run example_buffer example_calls [example_packet 0 0, example_packet 2 40] example_end \<and>
   sorted_wrt (<) (map ad_sequence [example_packet 0 0, example_packet 2 40])"
  using jitter_buffer_emits_in_order [OF example_buffer_new example_run example_bounds]
    example_buffer_new example_run by simp

lemma example_no_resync: "jbs_resynchronisations (jb_statistics example_end) = 0"
  by code_simp

theorem jitter_buffer_accounts_witness:
  "jitter_buffer_new example_config = Inr example_buffer \<and>
   jb_run example_buffer example_calls [example_packet 0 0, example_packet 2 40] example_end \<and>
   unat (jbs_emitted (jb_statistics example_end)) = 2 \<and>
   unat (jbs_emitted (jb_statistics example_end)) + unat (jbs_skipped (jb_statistics example_end)) =
     unat (jb_next_expected_sequence example_end)"
  using jitter_buffer_accounts [OF example_buffer_new example_run example_bounds example_no_resync]
    example_buffer_new example_run by (simp add: example_config_def jitter_buffer_config_new_def)

text \<open>
  What \<open>accept\<close> reports is what it did. After a rejection the buffered packets and the next
  expected sequence are as before; after an acceptance the packet is in the buffer under its
  sequence number, to be emitted when its turn comes.
\<close>

theorem jb_accept_reports:
  assumes "jb_inv jb" and "jb_accept jb d = (r, jb')"
  shows "case r of
      Inl _ \<Rightarrow> jb_packets jb' = jb_packets jb \<and> jb_next_expected_sequence jb' = jb_next_expected_sequence jb
    | Inr _ \<Rightarrow> bt_get (jb_packets jb') (ad_sequence d) = Some d \<and> ad_session_id d = jbc_session_id (jb_config jb) \<and>
        ad_stream_id d = jbc_stream_id (jb_config jb)"
  using assms(2)
proof (cases rule: jb_accept_cases)
  case (promoted f)
  then have "packet_ok (jb_config jb) (ad_sequence d, d)"
    by (simp add: promotes_def)
  moreover have "bt_wf (jb_far_future_candidates jb)"
    using assms(1) by (simp add: jb_inv_def)
  then have "bt_get (candidates_after jb d) (ad_sequence d) = Some d"
    by (simp add: candidates_after_def Let_def btree.lookup_insert btree.wf_empty)
  ultimately show ?thesis
    using promoted by (simp add: packet_ok_def)
next
  case (inserted f)
  then show ?thesis
    using jb_inv_wf [OF assms(1)] by (simp add: btree.lookup_insert packet_ok_def)
qed (auto split: sum.splits)

lemma example_reject:
  "jb_accept example_end (example_packet 1 20) =
     (Inl AlreadyEmitted, snd (jb_accept example_end (example_packet 1 20)))"
  by code_simp

theorem jb_accept_reports_witness:
  "jb_inv example_end \<and> fst (jb_accept example_end (example_packet 1 20)) = Inl AlreadyEmitted \<and>
   jb_packets (snd (jb_accept example_end (example_packet 1 20))) = jb_packets example_end"
proof -
  have inv: "jb_inv example_end"
    by code_simp
  show ?thesis
    using jb_accept_reports [OF inv example_reject] inv example_reject by (metis fst_conv sum.case(1))
qed

text \<open>
  The buffered-duration check compares a packet with the earliest sequence only. A reordered
  packet can stretch the buffer past the configured span: here 150 ms with a limit of 100 ms.
\<close>

lemma buffered_span_exceeds_limit:
  "let config = example_config\<lparr>jbc_max_buffered_duration_ms := 100\<rparr>;
       (out, jb) = the (jb_exec (example_buffer\<lparr>jb_config := config\<rparr>)
         [CallAccept (example_packet 1 50), CallAccept (example_packet 2 150), CallAccept (example_packet 0 0)])
   in jbs_accepted (jb_statistics jb) = 3 \<and> buffered_span_ms jb = 150 \<and>
      jbc_max_buffered_duration_ms (jb_config jb) = 100"
  by code_simp

end
