(* ===== verification/Pcm_Ramp.thy ===== *)
theory Pcm_Ramp
  imports Rust_Prelude "HOL-Library.Signed_Division"
begin

section \<open>Amplitude ramps on interleaved PCM\<close>

text \<open>
  \<open>audio/ramp.rs\<close>: scaling and blending of 16-bit samples, and the two ramps that join
  independently produced buffers. A sample is a \<open>16 word\<close> read by \<open>sint\<close>; the \<open>i64\<close> arithmetic
  wraps at 64 bits (\<open>wrap_i64\<close>), and the lemmas show that for the frame counts of real packets
  neither the wrap nor the final clamp ever changes a value.
\<close>

definition wrap_i64 :: "int \<Rightarrow> int" where
  "wrap_i64 v = signed_take_bit 63 v"

lemma wrap_i64_code [code]:
  "wrap_i64 v = (if - 9223372036854775808 \<le> v \<and> v < 9223372036854775808 then v else signed_take_bit 63 v)"
  by (simp add: wrap_i64_def signed_take_bit_int_eq_self)

definition to_i64 :: "usize \<Rightarrow> int" where
  "to_i64 value = wrap_i64 (int value)"

definition clamp_to_i16 :: "int \<Rightarrow> i16" where
  "clamp_to_i16 value =
     (if value > 32767 then 32767 else if value < - 32768 then - 32768 else word_of_int value)"

definition scale_sample :: "i16 \<Rightarrow> usize \<Rightarrow> usize \<Rightarrow> i16" where
  "scale_sample sample numerator denominator =
     (if denominator = 0 then 0
      else clamp_to_i16 (wrap_i64 (sint sample * to_i64 numerator) sdiv to_i64 denominator))"

definition blend_sample :: "i16 \<Rightarrow> i16 \<Rightarrow> usize \<Rightarrow> usize \<Rightarrow> i16" where
  "blend_sample toward from position ramp =
     (if ramp = 0 then toward
      else let weighted = wrap_i64 (wrap_i64 (sint toward * to_i64 position) +
                 wrap_i64 (sint from * to_i64 (ramp - min position ramp))) in
        clamp_to_i16 (weighted sdiv to_i64 ramp))"

definition last_frame :: "i16 list \<Rightarrow> usize \<Rightarrow> i16 list option" where
  "last_frame samples channels =
     (if channels = 0 then None
      else let frames = length samples div channels in
        if frames = 0 then None
        else Some (take channels (drop ((frames - 1) * channels) samples)))"

text \<open>
  The nested loop \<open>for frame in start..stop { for channel in 0..channels { .. } }\<close> that rewrites
  \<open>samples[frame * channels + channel]\<close> in place.
\<close>

definition update_frame ::
    "(nat \<Rightarrow> nat \<Rightarrow> i16 \<Rightarrow> i16) \<Rightarrow> usize \<Rightarrow> nat \<Rightarrow> usize \<Rightarrow> i16 list \<Rightarrow> i16 list" where
  "update_frame f channels frame n samples =
     fold (\<lambda>channel xs. let index = frame * channels + channel in xs[index := f frame channel (xs ! index)])
       [0..<n] samples"

definition update_frames ::
    "(nat \<Rightarrow> nat \<Rightarrow> i16 \<Rightarrow> i16) \<Rightarrow> usize \<Rightarrow> nat \<Rightarrow> nat \<Rightarrow> i16 list \<Rightarrow> i16 list" where
  "update_frames f channels start stop samples =
     fold (\<lambda>frame. update_frame f channels frame channels) [start..<stop] samples"

definition apply_blend_in :: "usize \<Rightarrow> usize \<Rightarrow> i16 list \<Rightarrow> i16 list \<Rightarrow> i16 list" where
  "apply_blend_in channels ramp_frames from samples =
     (if channels = 0 then samples
      else let total_frames = length samples div channels in
        if total_frames = 0 then samples
        else let ramp = min (max ramp_frames 1) total_frames;
                 continues_from = (if length from = channels then Some from else None) in
          update_frames (\<lambda>frame channel sample. case continues_from of
              Some tail \<Rightarrow> blend_sample sample (tail ! channel) frame ramp
            | None \<Rightarrow> scale_sample sample frame ramp) channels 0 ramp samples)"

definition apply_fade_out_tail :: "usize \<Rightarrow> usize \<Rightarrow> i16 list \<Rightarrow> i16 list" where
  "apply_fade_out_tail channels ramp_frames samples =
     (if channels = 0 then samples
      else let total_frames = length samples div channels in
        if total_frames = 0 then samples
        else let ramp = min (max ramp_frames 1) total_frames in
          update_frames (\<lambda>frame channel sample. let remaining = total_frames - 1 - frame in
              scale_sample sample remaining ramp) channels (total_frames - ramp) total_frames samples)"

subsection \<open>The loop over frames\<close>

lemma length_update_frame [simp]: "length (update_frame f channels frame n xs) = length xs"
  by (induction n) (simp_all add: update_frame_def Let_def)

lemma nth_update_frame:
  assumes "i < length xs" and "frame * channels + n \<le> length xs"
  shows "update_frame f channels frame n xs ! i =
    (if frame * channels \<le> i \<and> i < frame * channels + n then f frame (i - frame * channels) (xs ! i) else xs ! i)"
  using assms(2)
proof (induction n)
  case (Suc n)
  let ?xs = "update_frame f channels frame n xs" and ?k = "frame * channels + n"
  have "update_frame f channels frame (Suc n) xs = ?xs[?k := f frame n (?xs ! ?k)]"
    by (simp add: update_frame_def Let_def)
  moreover have "update_frame f channels frame n xs ! ?k = xs ! ?k"
  proof -
    have "update_frame f channels frame m xs ! (frame * channels + n) = xs ! (frame * channels + n)" if "m \<le> n" for m
      using that by (induction m) (simp_all add: update_frame_def Let_def)
    then show ?thesis by simp
  qed
  ultimately show ?case
    using Suc assms(1) by (auto simp: nth_list_update)
qed (auto simp: update_frame_def)

lemma length_update_frames [simp]: "length (update_frames f channels start stop xs) = length xs"
  by (induction stop) (simp_all add: update_frames_def)

lemma frame_of_index:
  assumes "0 < (channels::nat)"
  shows "frame * channels \<le> i \<and> i < frame * channels + channels \<longleftrightarrow> i div channels = frame"
proof
  assume "frame * channels \<le> i \<and> i < frame * channels + channels"
  then show "i div channels = frame"
    by (intro div_nat_eqI) (simp_all add: mult.commute)
next
  assume "i div channels = frame"
  then show "frame * channels \<le> i \<and> i < frame * channels + channels"
    using assms div_mult_mod_eq [of i channels] mod_less_divisor [OF assms, of i] by auto
qed

lemma nth_update_frames:
  assumes "0 < channels" and "i < length xs" and "stop * channels \<le> length xs"
  shows "update_frames f channels start stop xs ! i =
    (if start \<le> i div channels \<and> i div channels < stop
     then f (i div channels) (i mod channels) (xs ! i) else xs ! i)"
  using assms(3)
proof (induction stop)
  case (Suc stop)
  let ?xs = "update_frames f channels start stop xs"
  show ?case
  proof (cases "start \<le> stop")
    case True
    then have "update_frames f channels start (Suc stop) xs = update_frame f channels stop channels ?xs"
      by (simp add: update_frames_def)
    moreover have "i - stop * channels = i mod channels" if "i div channels = stop"
      using that by (simp add: modulo_nat_def)
    moreover have "stop * channels \<le> i \<and> i < stop * channels + channels \<longleftrightarrow> i div channels = stop"
      by (rule frame_of_index [OF assms(1)])
    ultimately show ?thesis
      using Suc assms(2) True by (auto simp: nth_update_frame)
  next
    case False
    then show ?thesis
      by (auto simp: update_frames_def)
  qed
qed (simp add: update_frames_def)

subsection \<open>Scaling and blending\<close>

text \<open>Frame counts below \<open>2 ^ 47\<close> keep every product within \<open>i64\<close>.\<close>

lemma wrap_i64_small: "- (2 ^ 63) \<le> v \<Longrightarrow> v < 2 ^ 63 \<Longrightarrow> wrap_i64 v = v"
  unfolding wrap_i64_def by (rule signed_take_bit_int_eq_self) simp_all

lemma to_i64_small: "n < 2 ^ 47 \<Longrightarrow> to_i64 n = int n"
  unfolding to_i64_def by (rule wrap_i64_small) (simp_all add: order.strict_trans [of "int n" "2 ^ 47"])

lemma sint_i16: "- 32768 \<le> sint (s::i16)" "sint (s::i16) \<le> 32767"
  using sint_ge [of s] sint_lt [of s] by simp_all

lemma sint_clamp_to_i16: "- 32768 \<le> v \<Longrightarrow> v \<le> 32767 \<Longrightarrow> sint (clamp_to_i16 v) = v"
  by (simp add: clamp_to_i16_def sint_sbintrunc' signed_take_bit_int_eq_self)

lemma div_between:
  assumes "0 < (d::int)" and "a * d \<le> w" and "w \<le> b * d"
  shows "a \<le> w div d \<and> w div d \<le> b"
  using assms zdiv_mono1 [of "a * d" w d] zdiv_mono1 [of w "b * d" d] by simp

lemma sdiv_between:
  assumes "0 < (d::int)" and "a * d \<le> w" and "w \<le> b * d"
  shows "a \<le> w sdiv d" and "w sdiv d \<le> b"
proof -
  have "a \<le> w div d \<and> w div d \<le> b" "- b \<le> (- w) div d \<and> (- w) div d \<le> - a"
    using assms by (intro div_between; simp)+
  then show "a \<le> w sdiv d" and "w sdiv d \<le> b"
    using assms(1) by (auto simp: signed_divide_int_def sgn_if abs_if)
qed

lemma product_small:
  assumes "n < 2 ^ 47"
  shows "\<bar>sint (s::i16) * int n\<bar> < 2 ^ 62"
proof -
  have "\<bar>sint s\<bar> * int n \<le> 2 ^ 15 * int n"
    using sint_i16 [of s] by (intro mult_right_mono) auto
  also have "\<dots> < 2 ^ 15 * 2 ^ 47"
    using assms by (intro mult_strict_left_mono) (simp_all add: nat_less_iff [symmetric])
  finally show ?thesis
    by (simp add: abs_mult)
qed

lemma sint_scale_sample:
  assumes "n \<le> d" and "0 < d" and "d < 2 ^ 47"
  shows "sint (scale_sample s n d) = (sint s * int n) sdiv int d"
proof -
  have small: "wrap_i64 (sint s * int n) = sint s * int n"
    using product_small [of n s] assms by (intro wrap_i64_small) auto
  have "sint s * int n \<le> 32767 * int d"
  proof (cases "0 \<le> sint s")
    case True
    then show ?thesis using assms(1) sint_i16 [of s] by (intro mult_mono) auto
  next
    case False
    then have "sint s * int n \<le> 0" by (simp add: mult_nonpos_nonneg)
    then show ?thesis by (rule order_trans) simp
  qed
  moreover have "- 32768 * int d \<le> sint s * int n"
  proof (cases "0 \<le> sint s")
    case True
    then have "0 \<le> sint s * int n" by simp
    then show ?thesis by (rule order_trans [rotated]) simp
  next
    case False
    then have "(- sint s) * int n \<le> 32768 * int d"
      using assms(1) sint_i16 [of s] by (intro mult_mono) auto
    then show ?thesis by simp
  qed
  ultimately have "- 32768 \<le> (sint s * int n) sdiv int d" "(sint s * int n) sdiv int d \<le> 32767"
    using assms(2) sdiv_between [of "int d" "- 32768" "sint s * int n" 32767] by simp_all
  then show ?thesis
    using assms by (simp add: scale_sample_def to_i64_small small sint_clamp_to_i16)
qed

lemma sint_blend_sample:
  assumes "p \<le> r" and "0 < r" and "r < 2 ^ 47"
  shows "sint (blend_sample t f p r) = (sint t * int p + sint f * int (r - p)) sdiv int r"
    and "min (sint t) (sint f) \<le> sint (blend_sample t f p r)"
    and "sint (blend_sample t f p r) \<le> max (sint t) (sint f)"
proof -
  let ?w = "sint t * int p + sint f * int (r - p)" and ?lo = "min (sint t) (sint f)"
    and ?hi = "max (sint t) (sint f)"
  have r: "int r = int p + int (r - p)"
    using assms(1) by simp
  have "?lo * int p \<le> sint t * int p" "?lo * int (r - p) \<le> sint f * int (r - p)"
    "sint t * int p \<le> ?hi * int p" "sint f * int (r - p) \<le> ?hi * int (r - p)"
    by (intro mult_right_mono; simp)+
  then have "?lo * int r \<le> ?w" "?w \<le> ?hi * int r"
    unfolding r distrib_left by linarith+
  then have between: "?lo \<le> ?w sdiv int r" "?w sdiv int r \<le> ?hi"
    using assms(2) sdiv_between [of "int r" ?lo ?w ?hi] by simp_all
  have "\<bar>sint t * int p\<bar> < 2 ^ 62" "\<bar>sint f * int (r - p)\<bar> < 2 ^ 62"
    by (rule product_small; use assms in simp)+
  then have "wrap_i64 (sint t * int p) = sint t * int p"
    "wrap_i64 (sint f * int (r - p)) = sint f * int (r - p)" "wrap_i64 ?w = ?w"
    by (auto intro!: wrap_i64_small)
  then have "blend_sample t f p r = clamp_to_i16 (?w sdiv int r)"
    using assms by (simp add: blend_sample_def Let_def to_i64_small min_absorb1)
  moreover have "- 32768 \<le> ?w sdiv int r" "?w sdiv int r \<le> 32767"
    using between sint_i16 [of t] sint_i16 [of f] by linarith+
  ultimately show "sint (blend_sample t f p r) = ?w sdiv int r"
    by (simp add: sint_clamp_to_i16)
  then show "?lo \<le> sint (blend_sample t f p r)" "sint (blend_sample t f p r) \<le> ?hi"
    using between by simp_all
qed

lemma sdiv_self_mult: "0 < (d::int) \<Longrightarrow> (a * d) sdiv d = a"
  using sdiv_between [of d a "a * d" a] by simp

lemma scale_sample_0: "0 < d \<Longrightarrow> d < 2 ^ 47 \<Longrightarrow> scale_sample s 0 d = 0"
  using sint_scale_sample [of 0 d s] by (intro signed_word_eqI) (simp add: signed_divide_int_def)

lemma blend_sample_start: "0 < r \<Longrightarrow> r < 2 ^ 47 \<Longrightarrow> blend_sample t f 0 r = f"
  using sint_blend_sample(1) [of 0 r t f] by (intro signed_word_eqI) (simp add: sdiv_self_mult)

lemma blend_sample_end: "0 < r \<Longrightarrow> r < 2 ^ 47 \<Longrightarrow> blend_sample t f r r = t"
  using sint_blend_sample(1) [of r r t f] by (intro signed_word_eqI) (simp add: sdiv_self_mult)

lemma abs_scale_sample:
  assumes "n \<le> d" and "0 < d" and "d < 2 ^ 47"
  shows "\<bar>sint (scale_sample s n d)\<bar> \<le> \<bar>sint s\<bar>"
proof -
  have "\<bar>sint s * int n\<bar> \<le> \<bar>sint s\<bar> * int d"
    using assms(1) by (simp add: abs_mult mult_left_mono)
  then show ?thesis
    using sdiv_between [of "int d" "- \<bar>sint s\<bar>" "sint s * int n" "\<bar>sint s\<bar>"] assms
    by (simp add: sint_scale_sample abs_le_iff)
qed

lemma abs_blend_sample:
  assumes "p \<le> r" and "0 < r" and "r < 2 ^ 47"
  shows "\<bar>sint (blend_sample t f p r)\<bar> \<le> max \<bar>sint t\<bar> \<bar>sint f\<bar>"
  using sint_blend_sample(2,3) [OF assms, of t f] by linarith

subsection \<open>Blending in and fading out a buffer\<close>

text \<open>The sample of one channel of one frame.\<close>

definition frame_sample :: "usize \<Rightarrow> i16 list \<Rightarrow> nat \<Rightarrow> nat \<Rightarrow> i16" where
  "frame_sample channels xs frame channel = xs ! (frame * channels + channel)"

lemma length_apply_blend_in [simp]: "length (apply_blend_in channels ramp from xs) = length xs"
  by (simp add: apply_blend_in_def Let_def)

lemma length_apply_fade_out_tail [simp]: "length (apply_fade_out_tail channels ramp xs) = length xs"
  by (simp add: apply_fade_out_tail_def Let_def)

lemma frame_index:
  assumes "channel < channels" and "frame < length xs div channels"
  shows "frame * channels + channel < length xs"
    and "(frame * channels + channel) div channels = frame"
    and "(frame * channels + channel) mod channels = channel"
proof -
  have "Suc frame * channels \<le> length xs div channels * channels"
    using assms(2) by (intro mult_right_mono) simp_all
  also have "\<dots> \<le> length xs"
    by simp
  finally show "frame * channels + channel < length xs"
    using assms(1) by simp
qed (use assms(1) in simp_all)

lemma frame_sample_update_frames:
  assumes "channel < channels" and "frame < length xs div channels" and "stop \<le> length xs div channels"
  shows "frame_sample channels (update_frames f channels start stop xs) frame channel =
    (if start \<le> frame \<and> frame < stop then f frame channel (frame_sample channels xs frame channel)
     else frame_sample channels xs frame channel)"
proof -
  have "stop * channels \<le> length xs"
    using assms(3) by (metis div_times_less_eq_dividend le_trans mult_le_mono1)
  then show ?thesis
    using assms(1) frame_index [OF assms(1,2)] by (simp add: frame_sample_def nth_update_frames)
qed

lemma frame_sample_blend_in:
  assumes "channel < channels" and "frame < length xs div channels"
    and "ramp = min (max ramp_frames 1) (length xs div channels)"
  shows "frame_sample channels (apply_blend_in channels ramp_frames from xs) frame channel =
    (if frame < ramp then
       if length from = channels then blend_sample (frame_sample channels xs frame channel) (from ! channel) frame ramp
       else scale_sample (frame_sample channels xs frame channel) frame ramp
     else frame_sample channels xs frame channel)"
  using assms by (auto simp: apply_blend_in_def Let_def frame_sample_update_frames)

lemma frame_sample_fade_out:
  assumes "channel < channels" and "frame < length xs div channels"
    and "ramp = min (max ramp_frames 1) (length xs div channels)"
  shows "frame_sample channels (apply_fade_out_tail channels ramp_frames xs) frame channel =
    (if length xs div channels - ramp \<le> frame
     then scale_sample (frame_sample channels xs frame channel) (length xs div channels - 1 - frame) ramp
     else frame_sample channels xs frame channel)"
  using assms by (auto simp: apply_fade_out_tail_def Let_def frame_sample_update_frames)

lemma last_frame_Some:
  assumes "0 < channels" and "0 < length xs div channels"
  shows "\<exists>tail. last_frame xs channels = Some tail \<and> length tail = channels \<and>
    (\<forall>channel < channels. tail ! channel = frame_sample channels xs (length xs div channels - 1) channel)"
proof -
  let ?f = "length xs div channels - 1"
  have "Suc ?f * channels \<le> length xs"
    using assms by simp
  then have "length (take channels (drop (?f * channels) xs)) = channels"
    by simp
  then show ?thesis
    using assms \<open>Suc ?f * channels \<le> length xs\<close> by (auto simp: last_frame_def Let_def frame_sample_def)
qed

lemma ramp_small:
  assumes "length xs div channels < 2 ^ 47" and "frame < length xs div channels"
    and "ramp = min (max ramp_frames 1) (length xs div channels)"
  shows "0 < ramp" and "ramp < 2 ^ 47" and "ramp \<le> length xs div channels"
  using assms by auto

lemma blend_in_frame:
  assumes "channel < channels" and "frame < length xs div channels" and "length from = channels"
    and "length xs div channels < 2 ^ 47"
  shows "frame_sample channels (apply_blend_in channels ramp from xs) 0 channel = from ! channel \<and>
    (let old = sint (frame_sample channels xs frame channel);
         new = sint (frame_sample channels (apply_blend_in channels ramp from xs) frame channel) in
     min old (sint (from ! channel)) \<le> new \<and> new \<le> max old (sint (from ! channel)) \<and>
     (max ramp 1 \<le> frame \<longrightarrow> new = old))"
proof -
  define r where "r = min (max ramp 1) (length xs div channels)"
  note r = ramp_small [OF assms(4,2) r_def]
  have "0 < length xs div channels"
    using assms(2) by simp
  then show ?thesis
    using assms r sint_blend_sample(2,3) [of frame r]
    by (auto simp: frame_sample_blend_in [OF _ _ r_def] Let_def blend_sample_start r_def)
qed

text \<open>
  C32: real audio resumes without a step. Blending a buffer in from the values \<open>from\<close> that were
  heard last makes its first frame exactly those values, keeps every sample between the value it
  joins and its own, and changes nothing after the ramp; the \<open>i64\<close> intermediate values never
  overflow and the final clamp never cuts anything off.
\<close>

theorem blend_in_continues:
  assumes "channel < channels" and "frame < length xs div channels" and "length from = channels"
    and "length xs div channels < 2 ^ 47"
  shows "frame_sample channels (apply_blend_in channels ramp from xs) 0 channel = from ! channel \<and>
    (let old = sint (frame_sample channels xs frame channel);
         new = sint (frame_sample channels (apply_blend_in channels ramp from xs) frame channel) in
     min old (sint (from ! channel)) \<le> new \<and> new \<le> max old (sint (from ! channel)) \<and>
     (max ramp 1 \<le> frame \<longrightarrow> new = old))"
  using blend_in_frame [OF assms] .

theorem blend_in_continues_witness:
  "frame_sample 2 (apply_blend_in 2 2 [700, - 700] [100, 100, 200, 200, 300, 300]) 0 1 = - 700"
  using blend_in_continues [of 1 2 1 "[100, 100, 200, 200, 300, 300]" "[700, - 700]" 2] by simp

lemma fade_out_frame:
  assumes "channel < channels" and "frame < length xs div channels"
    and "length xs div channels < 2 ^ 47"
  shows "frame_sample channels (apply_fade_out_tail channels ramp xs) (length xs div channels - 1) channel = 0 \<and>
    (let old = frame_sample channels xs frame channel;
         new = frame_sample channels (apply_fade_out_tail channels ramp xs) frame channel in
     \<bar>sint new\<bar> \<le> \<bar>sint old\<bar> \<and> (frame + max ramp 1 < length xs div channels \<longrightarrow> new = old))"
proof -
  define r where "r = min (max ramp 1) (length xs div channels)"
  note r = ramp_small [OF assms(3,2) r_def]
  have last: "length xs div channels - 1 < length xs div channels"
    using assms(2) by simp
  let ?new = "frame_sample channels (apply_fade_out_tail channels ramp xs)"
  have silent: "?new (length xs div channels - 1) channel = 0"
  proof -
    have "length xs div channels - r \<le> length xs div channels - 1"
      using r(1) by linarith
    then show ?thesis
      unfolding frame_sample_fade_out [OF assms(1) last r_def] using r by (simp add: scale_sample_0)
  qed
  have new: "?new frame channel = (if length xs div channels - r \<le> frame
      then scale_sample (frame_sample channels xs frame channel) (length xs div channels - 1 - frame) r
      else frame_sample channels xs frame channel)"
    by (rule frame_sample_fade_out [OF assms(1,2) r_def])
  have near: "length xs div channels - 1 - frame \<le> r" if "length xs div channels - r \<le> frame"
    using that by linarith
  have "length xs div channels - r \<le> frame \<Longrightarrow> \<not> frame + max ramp 1 < length xs div channels"
    using r(1,3) by (auto simp: r_def min_def split: if_splits)
  then show ?thesis
    using silent near r by (simp add: new Let_def abs_scale_sample)
qed

text \<open>
  A faded buffer ends in silence. After \<open>apply_fade_out_tail\<close> the last frame is zero on every
  channel, no sample is louder than before, and everything before the ramp is unchanged.
\<close>

theorem fade_out_silences:
  assumes "channel < channels" and "frame < length xs div channels"
    and "length xs div channels < 2 ^ 47"
  shows "frame_sample channels (apply_fade_out_tail channels ramp xs) (length xs div channels - 1) channel = 0 \<and>
    (let old = frame_sample channels xs frame channel;
         new = frame_sample channels (apply_fade_out_tail channels ramp xs) frame channel in
     \<bar>sint new\<bar> \<le> \<bar>sint old\<bar> \<and> (frame + max ramp 1 < length xs div channels \<longrightarrow> new = old))"
  using fade_out_frame [OF assms] .

theorem fade_out_silences_witness:
  "frame_sample 2 (apply_fade_out_tail 2 2 [100, 100, 200, - 200, 300, 300]) 2 0 = 0 \<and>
   \<bar>sint (frame_sample 2 (apply_fade_out_tail 2 2 [100, 100, 200, - 200, 300, 300]) 1 1)\<bar> \<le> 200"
  using fade_out_silences [of 1 2 1 "[100, 100, 200, - 200, 300, 300]" 2]
    fade_out_silences [of 0 2 1 "[100, 100, 200, - 200, 300, 300]" 2]
  by (simp add: Let_def frame_sample_def [of _ "[100, 100, 200, - 200, 300, 300]"] flip: numeral_2_eq_2)

end
