(* ===== verification/Concealment.thy ===== *)
theory Concealment
  imports Pcm_Ramp Call_Runs
begin

section \<open>Concealment of missing packets\<close>

text \<open>
  \<open>audio/concealment.rs\<close>: a missing packet is replaced by the last real one, halved once more for
  every further loss and joined to what was heard last. \<open>conceal\<close>, \<open>record_delivery\<close> and
  \<open>reset_consecutive_count\<close> return the updated policy.
\<close>

definition DEFAULT_MAX_CONSECUTIVE_CONCEALED_PACKETS :: u32 where
  "DEFAULT_MAX_CONSECUTIVE_CONCEALED_PACKETS = 25"
definition MAX_CONSECUTIVE_CONCEALED_PACKETS_LIMIT :: u32 where
  "MAX_CONSECUTIVE_CONCEALED_PACKETS_LIMIT = 200"
definition DEFAULT_CONCEALMENT_RAMP_MS :: u32 where "DEFAULT_CONCEALMENT_RAMP_MS = 1"
definition MAX_CONCEALMENT_RAMP_FRAMES :: u32 where "MAX_CONCEALMENT_RAMP_FRAMES = 4800"
definition MAX_ATTENUATION_SHIFT :: u32 where "MAX_ATTENUATION_SHIFT = 8"

datatype concealment_config_error_kind = ConsecutiveBoundOutOfRange | RampFramesOutOfRange

datatype concealment_outcome = Concealed | HardResyncRequired

record concealment_statistics =
  cs_total_concealed_packets :: u64
  cs_consecutive_concealed_packets :: u32
  cs_hard_resync_signals :: u64

definition concealment_statistics_default :: concealment_statistics where
  "concealment_statistics_default =
     \<lparr>cs_total_concealed_packets = 0, cs_consecutive_concealed_packets = 0, cs_hard_resync_signals = 0\<rparr>"

record concealment_policy =
  cp_max_consecutive_concealed_packets :: u32
  cp_ramp_frames :: usize
  cp_statistics :: concealment_statistics
  cp_last_real_samples :: "i16 list"
  cp_previous_tail :: "i16 list"

definition concealment_policy_new :: "u32 \<Rightarrow> u32 \<Rightarrow> concealment_config_error_kind + concealment_policy" where
  "concealment_policy_new max_consecutive_concealed_packets ramp_frames =
     (if max_consecutive_concealed_packets = 0 \<or>
         max_consecutive_concealed_packets > MAX_CONSECUTIVE_CONCEALED_PACKETS_LIMIT
      then Inl ConsecutiveBoundOutOfRange
      else if ramp_frames = 0 \<or> ramp_frames > MAX_CONCEALMENT_RAMP_FRAMES
      then Inl RampFramesOutOfRange
      else Inr \<lparr>cp_max_consecutive_concealed_packets = max_consecutive_concealed_packets,
                cp_ramp_frames = unat ramp_frames,
                cp_statistics = concealment_statistics_default,
                cp_last_real_samples = [], cp_previous_tail = []\<rparr>)"

definition build_payload :: "concealment_policy \<Rightarrow> usize \<Rightarrow> usize \<Rightarrow> u32 \<Rightarrow> i16 list" where
  "build_payload self frame_count channel_count attenuation_shift =
     (let samples = replicate (min (frame_count * channel_count) usize_max) 0 in
      if channel_count = 0 \<or> frame_count = 0 then samples
      else
        let ramp = min (max (cp_ramp_frames self) 1) frame_count;
            source_frames = length (cp_last_real_samples self) div channel_count;
            has_tail = (length (cp_previous_tail self) = channel_count) in
        update_frames (\<lambda>frame channel _.
            let index = frame * channel_count + channel;
                value = (if frame < source_frames
                         then signed_drop_bit (unat attenuation_shift) (cp_last_real_samples self ! index) else 0) in
            if frame < ramp \<and> has_tail
            then blend_sample value (cp_previous_tail self ! channel) frame ramp else value)
          channel_count 0 frame_count samples)"

definition tail_of :: "i16 list \<Rightarrow> usize \<Rightarrow> i16 list" where
  "tail_of samples channels = (case last_frame samples channels of None \<Rightarrow> [] | Some tail \<Rightarrow> tail)"

definition conceal ::
    "concealment_policy \<Rightarrow> u32 \<Rightarrow> u16 \<Rightarrow> (i16 list \<times> concealment_outcome) \<times> concealment_policy" where
  "conceal self samples_per_packet channels =
     (let channel_count = unat channels;
          frame_count = unat samples_per_packet;
          stats = cp_statistics self;
          attenuation_shift = min (cs_consecutive_concealed_packets stats) MAX_ATTENUATION_SHIFT;
          samples = build_payload self frame_count channel_count attenuation_shift;
          stats = stats\<lparr>cs_total_concealed_packets := cs_total_concealed_packets stats + 1,
                        cs_consecutive_concealed_packets := cs_consecutive_concealed_packets stats + 1\<rparr>;
          consecutive = cs_consecutive_concealed_packets stats;
          bound_reached = (consecutive \<ge> cp_max_consecutive_concealed_packets self);
          samples = (if consecutive + 1 \<ge> cp_max_consecutive_concealed_packets self
                     then apply_fade_out_tail channel_count (cp_ramp_frames self) samples else samples);
          self = self\<lparr>cp_statistics := stats, cp_previous_tail := tail_of samples channel_count\<rparr> in
      if bound_reached
      then ((samples, HardResyncRequired),
            self\<lparr>cp_statistics := stats\<lparr>cs_hard_resync_signals := cs_hard_resync_signals stats + 1\<rparr>\<rparr>)
      else ((samples, Concealed), self))"

definition record_delivery :: "concealment_policy \<Rightarrow> i16 list \<Rightarrow> u16 \<Rightarrow> concealment_policy" where
  "record_delivery self samples channels =
     self\<lparr>cp_statistics := (cp_statistics self)\<lparr>cs_consecutive_concealed_packets := 0\<rparr>,
          cp_last_real_samples := samples,
          cp_previous_tail := tail_of samples (unat channels)\<rparr>"

definition reset_consecutive_count :: "concealment_policy \<Rightarrow> concealment_policy" where
  "reset_consecutive_count self =
     self\<lparr>cp_statistics := (cp_statistics self)\<lparr>cs_consecutive_concealed_packets := 0\<rparr>\<rparr>"

subsection \<open>The shape of a concealed frame\<close>

text \<open>Packet geometry: \<open>u32\<close> frames of \<open>u16\<close> channels never saturate a 64-bit \<open>usize\<close>.\<close>

lemma geometry_small:
  fixes spp :: u32 and channels :: u16
  shows "unat spp * unat channels < 2 ^ 48" and "unat spp < 2 ^ 47"
    and "min (unat spp * unat channels) usize_max = unat spp * unat channels"
proof -
  have "unat spp < 2 ^ 32" "unat channels < 2 ^ 16"
    using unsigned_less [of spp] unsigned_less [of channels] by simp_all
  then show "unat spp * unat channels < 2 ^ 48"
    using mult_strict_mono [of "unat spp" "2 ^ 32" "unat channels" "2 ^ 16"] by simp
  then show "min (unat spp * unat channels) usize_max = unat spp * unat channels"
    by (simp add: usize_max_def)
  show "unat spp < 2 ^ 47"
    using \<open>unat spp < 2 ^ 32\<close> by simp
qed

lemma length_build_payload:
  "length (build_payload self (unat (spp::u32)) (unat (channels::u16)) shift) = unat spp * unat channels"
  by (simp add: build_payload_def Let_def geometry_small)

definition repeated_sample :: "concealment_policy \<Rightarrow> usize \<Rightarrow> u32 \<Rightarrow> nat \<Rightarrow> nat \<Rightarrow> i16" where
  "repeated_sample self channels shift frame channel =
     (if frame < length (cp_last_real_samples self) div channels
      then signed_drop_bit (unat shift) (frame_sample channels (cp_last_real_samples self) frame channel) else 0)"

lemma frame_sample_build_payload:
  fixes spp :: u32 and channels :: u16
  assumes "channel < unat channels" and "frame < unat spp"
    and "ramp = min (max (cp_ramp_frames self) 1) (unat spp)"
  shows "frame_sample (unat channels) (build_payload self (unat spp) (unat channels) shift) frame channel =
    (let value = repeated_sample self (unat channels) shift frame channel in
     if frame < ramp \<and> length (cp_previous_tail self) = unat channels
     then blend_sample value (cp_previous_tail self ! channel) frame ramp else value)"
proof -
  have "0 < unat channels"
    using assms(1) by simp
  then have frames: "unat spp * unat channels div unat channels = unat spp"
    by simp
  show ?thesis
    using assms by (simp add: build_payload_def Let_def geometry_small frames repeated_sample_def
        frame_sample_def [of _ "cp_last_real_samples self"] frame_sample_update_frames)
qed

lemma zdiv_le_dividend: "0 \<le> a \<Longrightarrow> a div 2 ^ n \<le> (a::int)"
  using div_between [of "2 ^ n" 0 a a] by (simp add: mult_le_cancel_left1)

lemma abs_signed_drop_bit: "\<bar>sint (signed_drop_bit n (s::i16))\<bar> \<le> \<bar>sint s\<bar>"
proof -
  have "0 \<le> sint s div 2 ^ n \<and> sint s div 2 ^ n \<le> sint s" if "0 \<le> sint s"
    using that by (simp add: pos_imp_zdiv_nonneg_iff zdiv_le_dividend)
  moreover have "sint s \<le> sint s div 2 ^ n \<and> sint s div 2 ^ n \<le> 0" if "sint s < 0"
    using that div_between [of "2 ^ n" "sint s" "sint s" 0] by simp
  ultimately show ?thesis
    by (cases "sint s < 0") (simp_all add: sint_signed_drop_bit_eq drop_bit_int_def)
qed

lemma frame_of_sample:
  assumes "x \<in> set xs" and "length xs = frames * channels"
  obtains frame channel where "frame < frames" "channel < channels" "x = frame_sample channels xs frame channel"
proof -
  obtain i where i: "i < frames * channels" "x = xs ! i"
    using assms by (auto simp: in_set_conv_nth)
  then have "0 < channels"
    by (cases channels) simp_all
  with i show ?thesis
    by (intro that [of "i div channels" "i mod channels"]) (simp_all add: frame_sample_def less_mult_imp_div_less)
qed

lemma abs_build_payload:
  fixes spp :: u32 and channels :: u16
  assumes "x \<in> set (build_payload self (unat spp) (unat channels) shift)"
    and "\<forall>y \<in> set (cp_last_real_samples self) \<union> set (cp_previous_tail self). \<bar>sint y\<bar> \<le> peak"
    and "0 \<le> peak"
  shows "\<bar>sint x\<bar> \<le> peak"
proof -
  obtain frame channel where fc: "frame < unat spp" "channel < unat channels"
    "x = frame_sample (unat channels) (build_payload self (unat spp) (unat channels) shift) frame channel"
    using assms(1) length_build_payload by (rule frame_of_sample)
  define ramp where "ramp = min (max (cp_ramp_frames self) 1) (unat spp)"
  let ?v = "repeated_sample self (unat channels) shift frame channel"
  have v: "\<bar>sint ?v\<bar> \<le> peak"
  proof (cases "frame < length (cp_last_real_samples self) div unat channels")
    case True
    then have "\<bar>sint (frame_sample (unat channels) (cp_last_real_samples self) frame channel)\<bar> \<le> peak"
      using assms(2) fc(2) frame_index(1) [of channel "unat channels" frame "cp_last_real_samples self"]
      by (simp add: frame_sample_def)
    with True show ?thesis
      using order_trans [OF abs_signed_drop_bit] by (simp add: repeated_sample_def)
  next
    case False
    then show ?thesis using assms(3) by (simp add: repeated_sample_def)
  qed
  have "\<bar>sint (blend_sample ?v (cp_previous_tail self ! channel) frame ramp)\<bar> \<le> peak"
    if "frame < ramp" "length (cp_previous_tail self) = unat channels"
  proof -
    have "\<bar>sint (cp_previous_tail self ! channel)\<bar> \<le> peak"
      using assms(2) fc(2) that(2) by simp
    moreover have "ramp < 2 ^ 47"
      using geometry_small(2) [of spp] by (simp add: ramp_def)
    ultimately show ?thesis
      using abs_blend_sample [of frame ramp ?v "cp_previous_tail self ! channel"] v that(1) by simp
  qed
  then show ?thesis
    using v by (simp add: fc frame_sample_build_payload [OF fc(2,1) ramp_def] Let_def)
qed

lemma abs_fade_out_tail:
  assumes "x \<in> set (apply_fade_out_tail channels ramp xs)" and "length xs = frames * channels"
    and "frames < 2 ^ 47" and "\<forall>y \<in> set xs. \<bar>sint y\<bar> \<le> peak"
  shows "\<bar>sint x\<bar> \<le> peak"
proof -
  obtain frame channel where fc: "frame < frames" "channel < channels"
    "x = frame_sample channels (apply_fade_out_tail channels ramp xs) frame channel"
    using assms(1,2) by (auto elim: frame_of_sample)
  have frames: "length xs div channels = frames"
    using fc(2) assms(2) by simp
  have "frame_sample channels xs frame channel \<in> set xs"
    using fc frame_index(1) [of channel channels frame xs] frames by (simp add: frame_sample_def)
  then have "\<bar>sint (frame_sample channels xs frame channel)\<bar> \<le> peak"
    using assms(4) by blast
  then show ?thesis
    using fade_out_frame [of channel channels frame xs ramp] fc assms(3) by (simp add: frames Let_def)
qed

subsection \<open>What \<open>conceal\<close> produces\<close>

lemma conceal_samples:
  "fst (fst (conceal self spp channels)) =
     (let n = cs_consecutive_concealed_packets (cp_statistics self);
          samples = build_payload self (unat spp) (unat channels) (min n MAX_ATTENUATION_SHIFT) in
      if n + 1 + 1 \<ge> cp_max_consecutive_concealed_packets self
      then apply_fade_out_tail (unat channels) (cp_ramp_frames self) samples else samples)"
  by (simp add: conceal_def Let_def)

lemma length_conceal: "length (fst (fst (conceal self spp channels))) = unat spp * unat channels"
  by (simp add: conceal_samples Let_def length_build_payload)

lemma conceal_previous_tail:
  "cp_previous_tail (snd (conceal self spp channels)) =
     tail_of (fst (fst (conceal self spp channels))) (unat channels)"
  by (simp add: conceal_def Let_def)

lemma nth_tail_of:
  assumes "channel < channels" and "0 < length xs div channels"
  shows "length (tail_of xs channels) = channels"
    and "tail_of xs channels ! channel = frame_sample channels xs (length xs div channels - 1) channel"
  using last_frame_Some [of channels xs] assms by (auto simp: tail_of_def)

lemma tail_of_empty: "channels = 0 \<or> length xs div channels = 0 \<Longrightarrow> tail_of xs channels = []"
  by (auto simp: tail_of_def last_frame_def Let_def)

lemma set_tail_of: "set (tail_of xs channels) \<subseteq> set xs"
  by (auto simp: tail_of_def last_frame_def Let_def dest: in_set_takeD in_set_dropD split: option.splits if_splits)

lemma conceal_first_frame:
  assumes "conceal self spp channels = ((samples, outcome), self')"
    and "channel < unat channels" and "0 < unat spp" and "length (cp_previous_tail self) = unat channels"
    and "cs_consecutive_concealed_packets (cp_statistics self) + 2 < cp_max_consecutive_concealed_packets self \<or>
       max (cp_ramp_frames self) 1 < unat spp"
  shows "frame_sample (unat channels) samples 0 channel = cp_previous_tail self ! channel"
proof -
  let ?c = "unat channels" and ?ramp = "cp_ramp_frames self"
  let ?n = "cs_consecutive_concealed_packets (cp_statistics self)"
  define p where "p = build_payload self (unat spp) ?c (min ?n MAX_ATTENUATION_SHIFT)"
  have samples: "samples = (if cp_max_consecutive_concealed_packets self \<le> ?n + 2 then apply_fade_out_tail ?c ?ramp p else p)"
    using conceal_samples [of self spp channels] assms(1) by (simp add: p_def Let_def add.commute)
  have frames: "length p div ?c = unat spp"
    using assms(2) by (simp add: p_def length_build_payload)
  define r where "r = min (max ?ramp 1) (unat spp)"
  have "0 < r" "r < 2 ^ 47"
    using assms(3) geometry_small(2) [of spp] by (auto simp: r_def)
  then have "frame_sample ?c p 0 channel = cp_previous_tail self ! channel"
    using frame_sample_build_payload [OF assms(2,3) r_def] assms(4) by (simp add: p_def Let_def blend_sample_start)
  then show ?thesis
    using fade_out_frame [of channel ?c 0 p ?ramp] assms(2,3,5) geometry_small(2) [of spp]
    by (auto simp: samples frames Let_def not_le)
qed


definition example_policy :: concealment_policy where
  "example_policy = record_delivery
     \<lparr>cp_max_consecutive_concealed_packets = 3, cp_ramp_frames = 1,
      cp_statistics = concealment_statistics_default, cp_last_real_samples = [], cp_previous_tail = []\<rparr>
     [100, - 100, 300, - 300] 2"


subsection \<open>Runs of the policy\<close>

datatype cp_call = CallConceal u32 u16 | CallDelivery "i16 list" u16 | CallReset

primrec cp_perform :: "concealment_policy \<Rightarrow> cp_call \<Rightarrow> concealment_outcome list \<times> concealment_policy" where
  "cp_perform self (CallConceal spp channels) =
     (let ((_, outcome), self') = conceal self spp channels in ([outcome], self'))"
| "cp_perform self (CallDelivery samples channels) = ([], record_delivery self samples channels)"
| "cp_perform self CallReset = ([], reset_consecutive_count self)"

abbreviation cp_run ::
    "concealment_policy \<Rightarrow> cp_call list \<Rightarrow> concealment_outcome list \<Rightarrow> concealment_policy \<Rightarrow> bool" where
  "cp_run \<equiv> call_run (\<lambda>_ _. True) cp_perform"

text \<open>The losses at the end of a history: concealments since the last delivery or reset.\<close>

fun is_conceal :: "cp_call \<Rightarrow> bool" where
  "is_conceal (CallConceal _ _) \<longleftrightarrow> True"
| "is_conceal _ \<longleftrightarrow> False"

definition losses :: "cp_call list \<Rightarrow> nat" where
  "losses calls = length (takeWhile is_conceal (rev calls))"

lemma losses_snoc: "losses (calls @ [c]) = (if is_conceal c then losses calls + 1 else 0)"
  by (simp add: losses_def)

lemma losses_le: "losses calls \<le> length calls"
  by (metis losses_def length_rev length_takeWhile_le)

lemma conceal_counts:
  assumes "conceal self spp channels = ((samples, outcome), self')"
  shows "cs_consecutive_concealed_packets (cp_statistics self') =
      cs_consecutive_concealed_packets (cp_statistics self) + 1"
    and "cp_max_consecutive_concealed_packets self' = cp_max_consecutive_concealed_packets self"
    and "outcome = (if cs_consecutive_concealed_packets (cp_statistics self') \<ge>
           cp_max_consecutive_concealed_packets self then HardResyncRequired else Concealed)"
  using assms by (auto simp: conceal_def Let_def split: if_splits)

lemma cp_run_losses:
  assumes "cp_run self0 calls out self" and "length calls < 2 ^ 32"
    and "cs_consecutive_concealed_packets (cp_statistics self0) = 0"
  shows "unat (cs_consecutive_concealed_packets (cp_statistics self)) = losses calls \<and>
    cp_max_consecutive_concealed_packets self = cp_max_consecutive_concealed_packets self0"
  using assms
proof (induction rule: call_run.induct)
  case (run_call cs out s c es s')
  then have IH: "unat (cs_consecutive_concealed_packets (cp_statistics s)) = losses cs"
    "cp_max_consecutive_concealed_packets s = cp_max_consecutive_concealed_packets self0"
    by auto
  show ?case
  proof (cases c)
    case (CallConceal spp channels)
    then obtain samples outcome where c: "conceal s spp channels = ((samples, outcome), s')"
      using run_call.hyps by (auto simp: case_prod_beta Let_def prod_eq_iff)
    have "losses cs < 2 ^ 32 - 1"
      using run_call.prems(1) losses_le [of cs] by simp
    then show ?thesis
      using IH conceal_counts(1,2) [OF c] CallConceal
      by (simp add: losses_snoc unat_word_ariths)
  qed (use run_call.hyps IH in \<open>auto simp: losses_snoc record_delivery_def reset_consecutive_count_def\<close>)
qed (simp add: losses_def)

text \<open>
  C27: the policy asks for a resync exactly at its bound. After any history of concealments,
  deliveries and resets, concealing one more packet reports \<open>HardResyncRequired\<close> if and only if
  this makes as many losses in a row as the configured bound; so a listener never bridges more
  than that many packets without being told.
\<close>

theorem conceal_signals_at_bound:
  assumes "concealment_policy_new bound ramp = Inr self0" and "cp_run self0 calls out self"
    and "length calls < 2 ^ 32 - 1"
  shows "snd (fst (conceal self spp channels)) =
    (if unat bound \<le> losses calls + 1 then HardResyncRequired else Concealed)"
proof -
  have new: "cs_consecutive_concealed_packets (cp_statistics self0) = 0"
    "cp_max_consecutive_concealed_packets self0 = bound"
    using assms(1) by (auto simp: concealment_policy_new_def concealment_statistics_default_def split: if_splits)
  have run: "unat (cs_consecutive_concealed_packets (cp_statistics self)) = losses calls"
    "cp_max_consecutive_concealed_packets self = bound"
    using cp_run_losses [OF assms(2) _ new(1)] assms(3) new(2) by auto
  obtain samples outcome self' where c: "conceal self spp channels = ((samples, outcome), self')"
    by (metis prod.exhaust)
  have "losses calls < 2 ^ 32 - 1"
    using assms(3) losses_le [of calls] by simp
  then have "unat (cs_consecutive_concealed_packets (cp_statistics self')) = losses calls + 1"
    using conceal_counts(1) [OF c] run(1) by (simp add: unat_word_ariths)
  then show ?thesis
    using conceal_counts(3) [OF c] c run(2) by (simp add: word_le_nat_alt)
qed

definition example_new :: concealment_policy where
  "example_new = \<lparr>cp_max_consecutive_concealed_packets = 2, cp_ramp_frames = 1,
     cp_statistics = concealment_statistics_default, cp_last_real_samples = [], cp_previous_tail = []\<rparr>"

theorem conceal_signals_at_bound_witness:
  "snd (fst (conceal (snd (cp_perform (snd (cp_perform example_new (CallDelivery [7] 1))) (CallConceal 1 1))) 1 1)) =
     HardResyncRequired"
proof -
  let ?s1 = "snd (cp_perform example_new (CallDelivery [7] 1))"
  let ?s2 = "snd (cp_perform ?s1 (CallConceal 1 1))"
  have new: "concealment_policy_new 2 1 = Inr example_new"
    by code_simp
  have "cp_run example_new [CallDelivery [7] 1, CallConceal 1 1] (fst (cp_perform ?s1 (CallConceal 1 1))) ?s2"
    by (rule call_exec_run) (simp add: call_exec_def call_append_eq case_prod_beta Let_def)
  from conceal_signals_at_bound [OF new this, of 1 1] show ?thesis
    by (simp add: losses_def)
qed

end
