(* ===== verification/Audio_Types.thy ===== *)
theory Audio_Types
  imports Protocol_Types
begin

section \<open>Audio formats, PCM chunks and decode bounds\<close>

text \<open>
  \<open>audio/types.rs\<close>: the PCM format and the decoded chunks that enter the packetizer, and the
  resource bounds of a streaming decode worker. The worker itself (threads, files and the decoding
  library) is not modelled. The byte order of PCM samples on the wire, \<open>i16::to_le_bytes\<close> and
  \<open>i16::from_le_bytes\<close>, is here too, since both ends of the stream use it.
\<close>

definition CANONICAL_SAMPLE_RATE_HZ :: u32 where "CANONICAL_SAMPLE_RATE_HZ = 48000"
definition CANONICAL_CHANNELS :: u16 where "CANONICAL_CHANNELS = 2"
definition DEFAULT_DECODE_CHUNK_FRAMES :: usize where "DEFAULT_DECODE_CHUNK_FRAMES = 960"
definition DEFAULT_DECODE_QUEUE_CHUNKS :: usize where "DEFAULT_DECODE_QUEUE_CHUNKS = 8"
definition MAX_DECODE_CHUNK_FRAMES :: usize where "MAX_DECODE_CHUNK_FRAMES = 48000"
definition MAX_DECODE_QUEUE_CHUNKS :: usize where "MAX_DECODE_QUEUE_CHUNKS = 64"
definition MAX_SOURCE_BYTES :: u64 where "MAX_SOURCE_BYTES = 8 * 1024 * 1024 * 1024"

datatype audio_sample_format = SamplePcmS16Le

record audio_format =
  af_sample_rate_hz :: u32
  af_channels :: u16
  af_sample_format :: audio_sample_format

definition audio_format_canonical :: audio_format where
  "audio_format_canonical =
     \<lparr>af_sample_rate_hz = CANONICAL_SAMPLE_RATE_HZ, af_channels = CANONICAL_CHANNELS,
      af_sample_format = SamplePcmS16Le\<rparr>"

definition samples_per_frame :: "audio_format \<Rightarrow> usize" where
  "samples_per_frame format = unat (af_channels format)"

record decoded_pcm_chunk =
  dc_format :: audio_format
  dc_first_sample_index :: sample_index
  dc_frames :: "i16 list"
  dc_end_of_stream :: bool

definition frame_count :: "decoded_pcm_chunk \<Rightarrow> usize" where
  "frame_count chunk = length (dc_frames chunk) div samples_per_frame (dc_format chunk)"

record streaming_decode_config =
  sdc_chunk_frames :: usize
  sdc_queue_chunks :: usize
  sdc_max_source_bytes :: u64

definition streaming_decode_config_default :: streaming_decode_config where
  "streaming_decode_config_default =
     \<lparr>sdc_chunk_frames = DEFAULT_DECODE_CHUNK_FRAMES, sdc_queue_chunks = DEFAULT_DECODE_QUEUE_CHUNKS,
      sdc_max_source_bytes = MAX_SOURCE_BYTES\<rparr>"

datatype decode_error_kind =
    DecodeInvalidConfiguration
  | DecodeIo
  | DecodeUnsupportedFormat
  | DecodeCorruptInput
  | DecodeInvalidMetadata
  | DecodeEmptySource
  | DecodeResourceLimit
  | DecodeFormatChanged
  | DecodeCancelled
  | DecodeWorkerPanicked

definition streaming_decode_config_validate ::
    "streaming_decode_config \<Rightarrow> decode_error_kind + streaming_decode_config" where
  "streaming_decode_config_validate self =
     (if sdc_chunk_frames self = 0 \<or> sdc_chunk_frames self > MAX_DECODE_CHUNK_FRAMES
      then Inl DecodeInvalidConfiguration
      else if sdc_queue_chunks self = 0 \<or> sdc_queue_chunks self > MAX_DECODE_QUEUE_CHUNKS
      then Inl DecodeInvalidConfiguration
      else if sdc_max_source_bytes self = 0 \<or> sdc_max_source_bytes self > MAX_SOURCE_BYTES
      then Inl DecodeInvalidConfiguration
      else Inr self)"

definition maximum_queued_duration_ms :: "streaming_decode_config \<Rightarrow> u64" where
  "maximum_queued_duration_ms self =
     (let chunk_frames = u64_or_max (sdc_chunk_frames self);
          queue_chunks = u64_or_max (sdc_queue_chunks self) in
      saturating_mul (saturating_mul chunk_frames queue_chunks) 1000 div ucast CANONICAL_SAMPLE_RATE_HZ)"

lemma unat_u64_small: "n < 2 ^ 64 \<Longrightarrow> unat (u64_or_max n) = n"
  by (simp add: u64_or_max_def unsigned_of_nat take_bit_nat_eq_self)

lemma unat_saturating_mul_small:
  "unat a * unat b < 2 ^ 64 \<Longrightarrow> unat (saturating_mul a (b::u64)) = unat a * unat b"
  by (simp add: saturating_mul_def unat_word_ariths)

text \<open>
  The decode queue is bounded in time. For every validated configuration the reported maximum
  is exactly the duration of a full queue (no arithmetic saturates on the way), and it is at most
  64 seconds.
\<close>

theorem queued_duration_bounded:
  assumes "streaming_decode_config_validate config = Inr config'"
  shows "config' = config \<and>
    unat (maximum_queued_duration_ms config) = sdc_chunk_frames config * sdc_queue_chunks config * 1000 div 48000 \<and>
    unat (maximum_queued_duration_ms config) \<le> 64000"
proof -
  let ?c = "sdc_chunk_frames config" and ?q = "sdc_queue_chunks config"
  have bounds: "?c \<le> 48000" "?q \<le> 64" and same: "config' = config"
    using assms by (auto simp: streaming_decode_config_validate_def MAX_DECODE_CHUNK_FRAMES_def
        MAX_DECODE_QUEUE_CHUNKS_def split: if_splits)
  have prod: "?c * ?q \<le> 48000 * 64"
    using bounds by (intro mult_mono) simp_all
  have cq: "unat (saturating_mul (u64_or_max ?c) (u64_or_max ?q)) = ?c * ?q"
    using bounds prod by (subst unat_saturating_mul_small) (simp_all add: unat_u64_small)
  have "unat (saturating_mul (saturating_mul (u64_or_max ?c) (u64_or_max ?q)) 1000) = ?c * ?q * 1000"
    using prod cq by (subst unat_saturating_mul_small) simp_all
  then have eq: "unat (maximum_queued_duration_ms config) = ?c * ?q * 1000 div 48000"
    by (simp add: maximum_queued_duration_ms_def Let_def unat_div CANONICAL_SAMPLE_RATE_HZ_def)
  have "?c * ?q * 1000 div 48000 \<le> 48000 * 64 * 1000 div 48000"
    using prod by (intro div_le_mono mult_le_mono1)
  then show ?thesis
    using eq same by simp
qed

theorem queued_duration_bounded_witness:
  "unat (maximum_queued_duration_ms streaming_decode_config_default) = 160"
proof -
  have "streaming_decode_config_validate streaming_decode_config_default = Inr streaming_decode_config_default"
    by code_simp
  from queued_duration_bounded [OF this] show ?thesis
    by (simp add: streaming_decode_config_default_def DEFAULT_DECODE_CHUNK_FRAMES_def
        DEFAULT_DECODE_QUEUE_CHUNKS_def)
qed

subsection \<open>PCM samples as bytes\<close>

definition i16_to_le_bytes :: "i16 \<Rightarrow> u8 list" where
  "i16_to_le_bytes sample = [ucast sample, ucast (drop_bit 8 sample)]"

definition i16_from_le_bytes :: "u8 \<Rightarrow> u8 \<Rightarrow> i16" where
  "i16_from_le_bytes lo hi = ucast lo OR push_bit 8 (ucast hi)"

definition pcm_bytes :: "i16 list \<Rightarrow> u8 list" where
  "pcm_bytes samples = concat (map i16_to_le_bytes samples)"

text \<open>\<open>chunks_exact(2)\<close> drops a trailing odd byte.\<close>

fun decode_payload_samples :: "u8 list \<Rightarrow> i16 list" where
  "decode_payload_samples (lo # hi # payload) = i16_from_le_bytes lo hi # decode_payload_samples payload"
| "decode_payload_samples _ = []"

lemma i16_le_bytes_inverse: "i16_from_le_bytes (ucast s) (ucast (drop_bit 8 s)) = s"
  by (rule bit_word_eqI) (auto simp: i16_from_le_bytes_def bit_simps)

lemma decode_pcm_bytes [simp]: "decode_payload_samples (pcm_bytes samples) = samples"
  by (induction samples) (simp_all add: pcm_bytes_def i16_to_le_bytes_def i16_le_bytes_inverse)

lemma length_pcm_bytes [simp]: "length (pcm_bytes samples) = 2 * length samples"
  by (induction samples) (simp_all add: pcm_bytes_def i16_to_le_bytes_def)

lemma length_decode_payload_samples: "length (decode_payload_samples payload) = length payload div 2"
  by (induction payload rule: decode_payload_samples.induct) simp_all

end
