(* ===== verification/Packetizer.thy ===== *)
theory Packetizer
  imports Audio_Types Protocol_Codec
begin

section \<open>The host packetizer\<close>

text \<open>
  \<open>audio/packetizer.rs\<close>: decoded PCM chunks of any size become datagrams of one fixed width. Every
  operation returns the packetizer as it leaves it. The loop of \<open>push_chunk\<close> that emits the full
  packets takes fuel, the length of the carry: every packet takes at least one sample from it, so
  the loop is over by then (\<open>emit_full_done\<close>).
\<close>

definition FIXED_AUDIO_DATAGRAM_FIELD_BYTES :: usize where
  "FIXED_AUDIO_DATAGRAM_FIELD_BYTES = 8 + 1 + 4 + 2 + 4 + 8 + 8 + 2 + 4"
definition IDENTIFIER_LENGTH_PREFIX_BYTES :: usize where "IDENTIFIER_LENGTH_PREFIX_BYTES = 2"
definition DEFAULT_PACKET_DURATION_MS :: u32 where "DEFAULT_PACKET_DURATION_MS = 5"
definition MIN_PACKET_DURATION_MS :: u32 where "MIN_PACKET_DURATION_MS = 1"
definition MAX_PACKET_DURATION_MS :: u32 where "MAX_PACKET_DURATION_MS = 1000"

datatype packetizer_error_kind = InvalidConfiguration | FormatMismatch | AlreadyFinished

record packetize_outcome =
  po_frames :: "protocol_frame list"
  po_end_of_stream :: bool

record packetizer =
  pk_session_id :: session_id
  pk_stream_id :: stream_id
  pk_format :: audio_format
  pk_samples_per_packet :: u32
  pk_host_start_time_ms :: monotonic_millis
  pk_next_sequence :: u64
  pk_carry :: "i16 list"
  pk_carry_first_sample_index :: "u64 option"
  pk_contiguous_sample_cursor :: u64
  pk_expected_chunk_sample_index :: "u64 option"
  pk_finished :: bool

definition packetizer_new ::
    "session_id \<Rightarrow> stream_id \<Rightarrow> audio_format \<Rightarrow> u32 \<Rightarrow> monotonic_millis \<Rightarrow>
     packetizer_error_kind + packetizer" where
  "packetizer_new session_id stream_id format packet_duration_ms host_start_time_ms =
     (if \<not> (MIN_PACKET_DURATION_MS \<le> packet_duration_ms \<and> packet_duration_ms \<le> MAX_PACKET_DURATION_MS)
      then Inl InvalidConfiguration
      else if samples_per_frame format = 0 then Inl InvalidConfiguration
      else
        let samples_per_packet = u32_or_max (unat (af_sample_rate_hz format) * unat packet_duration_ms div 1000) in
        if samples_per_packet = 0 then Inl InvalidConfiguration
        else
          try_bind (ok_or (Option.bind (checked_mul_usize (unat samples_per_packet) (samples_per_frame format))
              (\<lambda>samples. checked_mul_usize samples 2)) InvalidConfiguration) (\<lambda>payload_bytes.
          let identifier_overhead = 2 * IDENTIFIER_LENGTH_PREFIX_BYTES
                + str_len (session_id_str session_id) + str_len (stream_id_str stream_id) in
          try_bind (ok_or (Option.bind (checked_add_usize FIXED_AUDIO_DATAGRAM_FIELD_BYTES identifier_overhead)
              (\<lambda>overhead. checked_add_usize overhead payload_bytes)) InvalidConfiguration) (\<lambda>encoded_bytes.
          let maximum_encoded_bytes = MAX_AUDIO_DATAGRAM_BYTES - FRAME_HEADER_BYTES in
          if encoded_bytes > maximum_encoded_bytes then Inl InvalidConfiguration
          else Inr \<lparr>pk_session_id = session_id, pk_stream_id = stream_id, pk_format = format,
                pk_samples_per_packet = samples_per_packet, pk_host_start_time_ms = host_start_time_ms,
                pk_next_sequence = 0, pk_carry = [], pk_carry_first_sample_index = None,
                pk_contiguous_sample_cursor = 0, pk_expected_chunk_sample_index = None,
                pk_finished = False\<rparr>)))"

definition stream_start_message :: "packetizer \<Rightarrow> protocol_frame" where
  "stream_start_message self =
     PfControl (CmStreamStart \<lparr>ss_session_id = pk_session_id self, ss_stream_id = pk_stream_id self,
       ss_host_start_time_ms = pk_host_start_time_ms self, ss_sample_rate = af_sample_rate_hz (pk_format self),
       ss_channels = af_channels (pk_format self), ss_samples_per_packet = pk_samples_per_packet self,
       ss_current_entry_id = None, ss_current_display_name = None\<rparr>)"

definition validate_chunk :: "packetizer \<Rightarrow> decoded_pcm_chunk \<Rightarrow> packetizer_error_kind + unit" where
  "validate_chunk self chunk =
     (if pk_finished self then Inl AlreadyFinished
      else if dc_format chunk \<noteq> pk_format self then Inl FormatMismatch
      else if length (dc_frames chunk) mod samples_per_frame (pk_format self) \<noteq> 0 then Inl InvalidConfiguration
      else Inr ())"

definition advance_carry_start :: "packetizer \<Rightarrow> u32 \<Rightarrow> packetizer" where
  "advance_carry_start self samples_per_packet =
     (case pk_carry_first_sample_index self of
        Some start \<Rightarrow> self\<lparr>pk_carry_first_sample_index := Some (start + ucast samples_per_packet)\<rparr>
      | None \<Rightarrow> self)"

text \<open>\<open>sample_offset_ms\<close> and the presentation time of \<open>build_datagram\<close>, in \<open>u128\<close> arithmetic.\<close>

definition packet_presentation_time :: "packetizer \<Rightarrow> u64 \<Rightarrow> u64" where
  "packet_presentation_time self sequence =
     (let rate = unat (af_sample_rate_hz (pk_format self));
          sample_offset_ms = (unat sequence * unat (pk_samples_per_packet self) * 1000 + rate div 2) div rate in
      saturating_add (pk_host_start_time_ms self) (u64_or_max sample_offset_ms))"

definition datagram_at :: "packetizer \<Rightarrow> u64 \<Rightarrow> u64 \<Rightarrow> i16 list \<Rightarrow> protocol_frame" where
  "datagram_at self sequence first_sample_index payload_samples =
     PfAudio \<lparr>ad_session_id = pk_session_id self, ad_stream_id = pk_stream_id self,
       ad_sequence = sequence, ad_codec = PcmS16Le,
       ad_sample_rate = af_sample_rate_hz (pk_format self), ad_channels = af_channels (pk_format self),
       ad_samples_per_packet = pk_samples_per_packet self, ad_first_sample_index = first_sample_index,
       ad_host_presentation_time_ms = packet_presentation_time self sequence,
       ad_payload = pcm_bytes payload_samples\<rparr>"

definition build_datagram :: "packetizer \<Rightarrow> i16 list \<Rightarrow> protocol_frame \<times> packetizer" where
  "build_datagram self payload_samples =
     (let sequence = pk_next_sequence self;
          self = self\<lparr>pk_next_sequence := pk_next_sequence self + 1\<rparr>;
          first_sample_index = (case pk_carry_first_sample_index self of Some i \<Rightarrow> i | None \<Rightarrow> 0) in
      (datagram_at self sequence first_sample_index payload_samples, self))"

definition samples_per_full_packet :: "packetizer \<Rightarrow> usize" where
  "samples_per_full_packet self = unat (pk_samples_per_packet self) * samples_per_frame (pk_format self)"

primrec emit_full :: "nat \<Rightarrow> packetizer \<Rightarrow> protocol_frame list \<times> packetizer" where
  "emit_full 0 self = ([], self)"
| "emit_full (Suc fuel) self =
     (let full = samples_per_full_packet self in
      if full \<le> length (pk_carry self)
      then let payload_samples = take full (pk_carry self);
               self = self\<lparr>pk_carry := drop full (pk_carry self)\<rparr>;
               (frame, self) = build_datagram self payload_samples;
               self = advance_carry_start self (pk_samples_per_packet self);
               (frames, self) = emit_full fuel self in
             (frame # frames, self)
      else ([], self))"

definition resize :: "usize \<Rightarrow> 'a \<Rightarrow> 'a list \<Rightarrow> 'a list" where
  "resize n x xs = take n xs @ replicate (n - length xs) x"

definition push_chunk ::
    "packetizer \<Rightarrow> decoded_pcm_chunk \<Rightarrow> (packetizer_error_kind + packetize_outcome) \<times> packetizer" where
  "push_chunk self chunk =
     (case validate_chunk self chunk of
        Inl e \<Rightarrow> (Inl e, self)
      | Inr _ \<Rightarrow>
        let first = dc_first_sample_index chunk in
        if (case pk_expected_chunk_sample_index self of Some next \<Rightarrow> first \<noteq> next | None \<Rightarrow> False)
        then (Inl InvalidConfiguration, self)
        else if \<not> frame_count chunk < 2 ^ 64 then (Inl InvalidConfiguration, self)
        else (case checked_add first (word_of_nat (frame_count chunk)) of
            None \<Rightarrow> (Inl InvalidConfiguration, self)
          | Some next_sample_index \<Rightarrow>
            let self = (if pk_carry self = []
                        then self\<lparr>pk_carry_first_sample_index := Some (dc_first_sample_index chunk)\<rparr> else self);
                self = self\<lparr>pk_carry := pk_carry self @ dc_frames chunk\<rparr>;
                (frames, self) = emit_full (length (pk_carry self)) self;
                (frames, self) =
                  (if dc_end_of_stream chunk
                   then if pk_carry self \<noteq> []
                        then let payload_samples = resize (samples_per_full_packet self) 0 (pk_carry self);
                                 (frame, self) = build_datagram (self\<lparr>pk_carry := []\<rparr>) payload_samples in
                               (frames @ [frame], self\<lparr>pk_finished := True\<rparr>)
                        else (frames, self\<lparr>pk_finished := True\<rparr>)
                   else (frames, self)) in
            (Inr \<lparr>po_frames = frames, po_end_of_stream = dc_end_of_stream chunk\<rparr>,
             self\<lparr>pk_expected_chunk_sample_index := Some next_sample_index\<rparr>)))"

definition push_contiguous_chunk ::
    "packetizer \<Rightarrow> decoded_pcm_chunk \<Rightarrow> (packetizer_error_kind + packetize_outcome) \<times> packetizer" where
  "push_contiguous_chunk self chunk =
     (case validate_chunk self chunk of
        Inl e \<Rightarrow> (Inl e, self)
      | Inr _ \<Rightarrow>
        if \<not> frame_count chunk < 2 ^ 64 then (Inl InvalidConfiguration, self)
        else (case checked_add (pk_contiguous_sample_cursor self) (word_of_nat (frame_count chunk)) of
            None \<Rightarrow> (Inl InvalidConfiguration, self)
          | Some next_cursor \<Rightarrow>
            (case push_chunk self (chunk\<lparr>dc_first_sample_index := pk_contiguous_sample_cursor self\<rparr>) of
               (Inl e, self) \<Rightarrow> (Inl e, self)
             | (Inr outcome, self) \<Rightarrow> (Inr outcome, self\<lparr>pk_contiguous_sample_cursor := next_cursor\<rparr>))))"

subsection \<open>The loop over full packets\<close>

text \<open>The \<open>j\<close>-th packet of a PCM sequence, and the first \<open>n\<close> packets of a whole stream.\<close>

definition cut :: "nat \<Rightarrow> 'a list \<Rightarrow> nat \<Rightarrow> 'a list" where
  "cut full xs j = take full (drop (j * full) xs)"

definition datagrams :: "packetizer \<Rightarrow> u64 \<Rightarrow> u64 \<Rightarrow> i16 list \<Rightarrow> nat \<Rightarrow> protocol_frame list" where
  "datagrams self sequence start pcm n =
     map (\<lambda>j. datagram_at self (sequence + word_of_nat j) (start + word_of_nat j * ucast (pk_samples_per_packet self))
         (cut (samples_per_full_packet self) pcm j)) [0..<n]"

text \<open>A datagram depends only on the fixed part of the packetizer.\<close>

definition same_stream :: "packetizer \<Rightarrow> packetizer \<Rightarrow> bool" where
  "same_stream p q \<longleftrightarrow> pk_session_id p = pk_session_id q \<and> pk_stream_id p = pk_stream_id q \<and>
     pk_format p = pk_format q \<and> pk_samples_per_packet p = pk_samples_per_packet q \<and>
     pk_host_start_time_ms p = pk_host_start_time_ms q"

lemma same_stream_eqs:
  assumes "same_stream p q"
  shows "datagram_at p = datagram_at q" "samples_per_full_packet p = samples_per_full_packet q"
    "datagrams p = datagrams q"
  using assms by (auto simp: same_stream_def datagram_at_def datagrams_def samples_per_full_packet_def
      packet_presentation_time_def fun_eq_iff)

lemma same_stream_updates [simp]:
  "same_stream (p\<lparr>pk_carry := xs\<rparr>) q = same_stream p q"
  "same_stream (p\<lparr>pk_next_sequence := i\<rparr>) q = same_stream p q"
  "same_stream (p\<lparr>pk_carry_first_sample_index := j\<rparr>) q = same_stream p q"
  "same_stream (p\<lparr>pk_contiguous_sample_cursor := k\<rparr>) q = same_stream p q"
  "same_stream (p\<lparr>pk_expected_chunk_sample_index := l\<rparr>) q = same_stream p q"
  "same_stream (p\<lparr>pk_finished := b\<rparr>) q = same_stream p q"
  by (simp_all add: same_stream_def)

lemma same_stream_refl [simp]: "same_stream p p"
  by (simp add: same_stream_def)

lemma fixed_part_updates [simp]:
  "datagram_at (p\<lparr>pk_carry := xs\<rparr>) = datagram_at p" "datagrams (p\<lparr>pk_carry := xs\<rparr>) = datagrams p"
  "datagram_at (p\<lparr>pk_next_sequence := i\<rparr>) = datagram_at p" "datagrams (p\<lparr>pk_next_sequence := i\<rparr>) = datagrams p"
  "datagram_at (p\<lparr>pk_carry_first_sample_index := j\<rparr>) = datagram_at p"
  "datagrams (p\<lparr>pk_carry_first_sample_index := j\<rparr>) = datagrams p"
  "samples_per_full_packet (p\<lparr>pk_carry := xs\<rparr>) = samples_per_full_packet p"
  "samples_per_full_packet (p\<lparr>pk_next_sequence := i\<rparr>) = samples_per_full_packet p"
  "samples_per_full_packet (p\<lparr>pk_carry_first_sample_index := j\<rparr>) = samples_per_full_packet p"
  by (simp_all add: same_stream_eqs)

lemma datagrams_Suc:
  "datagrams self sequence start pcm (Suc n) =
     datagram_at self sequence start (cut (samples_per_full_packet self) pcm 0) #
     datagrams self (sequence + 1) (start + ucast (pk_samples_per_packet self))
       (drop (samples_per_full_packet self) pcm) n"
proof -
  have "map f [0..<Suc n] = f 0 # map (\<lambda>j. f (Suc j)) [0..<n]" for f :: "nat \<Rightarrow> protocol_frame"
    by (simp add: upt_conv_Cons map_Suc_upt [symmetric] comp_def del: upt_Suc)
  then show ?thesis
    unfolding datagrams_def by (simp add: cut_def algebra_simps del: upt_Suc)
qed

lemma emit_full_spec:
  assumes "0 < samples_per_full_packet self" and "length (pk_carry self) \<le> fuel"
    and "pk_carry_first_sample_index self = Some start"
    and "n = length (pk_carry self) div samples_per_full_packet self"
  shows "emit_full fuel self =
    (datagrams self (pk_next_sequence self) start (pk_carry self) n,
     self\<lparr>pk_carry := drop (n * samples_per_full_packet self) (pk_carry self),
          pk_next_sequence := pk_next_sequence self + word_of_nat n,
          pk_carry_first_sample_index := Some (start + word_of_nat n * ucast (pk_samples_per_packet self))\<rparr>)"
  using assms
proof (induction fuel arbitrary: self start n)
  case (Suc fuel)
  let ?full = "samples_per_full_packet self" and ?xs = "pk_carry self"
  show ?case
  proof (cases "?full \<le> length ?xs")
    case True
    let ?self = "self\<lparr>pk_carry := drop ?full ?xs, pk_next_sequence := pk_next_sequence self + 1,
        pk_carry_first_sample_index := Some (start + ucast (pk_samples_per_packet self))\<rparr>"
    define m where "m = (length ?xs - ?full) div ?full"
    have n: "n = Suc m"
      using True Suc.prems(1,4) by (simp add: m_def le_div_geq)
    have "emit_full fuel ?self =
        (datagrams self (pk_next_sequence self + 1) (start + ucast (pk_samples_per_packet self)) (drop ?full ?xs) m,
         ?self\<lparr>pk_carry := drop (m * ?full) (drop ?full ?xs),
               pk_next_sequence := pk_next_sequence self + 1 + word_of_nat m,
               pk_carry_first_sample_index := Some (start + ucast (pk_samples_per_packet self) +
                 word_of_nat m * ucast (pk_samples_per_packet self))\<rparr>)"
      using Suc.IH [of ?self "start + ucast (pk_samples_per_packet self)" m] Suc.prems True
      by (simp add: m_def)
    then show ?thesis
      using True Suc.prems(3)
      by (simp add: Let_def build_datagram_def advance_carry_start_def datagrams_Suc n cut_def
          algebra_simps)
  next
    case False
    then show ?thesis
      using Suc.prems by (simp add: datagrams_def Let_def)
  qed
qed (simp add: datagrams_def)

lemma emit_full_done:
  assumes "0 < samples_per_full_packet self" and "pk_carry_first_sample_index self = Some start"
  shows "length (pk_carry (snd (emit_full (length (pk_carry self)) self))) < samples_per_full_packet self"
  using assms emit_full_spec [OF assms(1) order_refl assms(2) refl]
  by (simp add: modulo_nat_def [symmetric] minus_div_mult_eq_mod)

subsection \<open>Streaming equals cutting the whole track\<close>

text \<open>
  The reference: the packets of a complete PCM sequence, and the silence that fills the last one.
\<close>

definition packets_of :: "packetizer \<Rightarrow> u64 \<Rightarrow> i16 list \<Rightarrow> protocol_frame list" where
  "packets_of self start pcm = datagrams self 0 start pcm (length pcm div samples_per_full_packet self)"

definition padding :: "nat \<Rightarrow> nat \<Rightarrow> nat" where
  "padding full n = (if n mod full = 0 then 0 else full - n mod full)"

definition padded :: "packetizer \<Rightarrow> bool \<Rightarrow> i16 list \<Rightarrow> i16 list" where
  "padded self ended pcm =
     (if ended then pcm @ replicate (padding (samples_per_full_packet self) (length pcm)) 0 else pcm)"

primrec push_all ::
    "packetizer \<Rightarrow> decoded_pcm_chunk list \<Rightarrow> (packetizer_error_kind + protocol_frame list) \<times> packetizer" where
  "push_all self [] = (Inr [], self)"
| "push_all self (chunk # chunks) =
     (case push_chunk self chunk of
        (Inl e, self) \<Rightarrow> (Inl e, self)
      | (Inr outcome, self) \<Rightarrow>
         (case push_all self chunks of
            (Inl e, self) \<Rightarrow> (Inl e, self)
          | (Inr frames, self) \<Rightarrow> (Inr (po_frames outcome @ frames), self)))"

lemma datagrams_add:
  "datagrams self sequence start pcm (n + m) =
     datagrams self sequence start pcm n @
     datagrams self (sequence + word_of_nat n) (start + word_of_nat n * ucast (pk_samples_per_packet self))
       (drop (n * samples_per_full_packet self) pcm) m"
  by (induction n arbitrary: sequence start pcm)
    (simp_all add: datagrams_Suc, simp_all add: datagrams_def algebra_simps)

lemma datagrams_append:
  assumes "n * samples_per_full_packet self \<le> length xs"
  shows "datagrams self sequence start (xs @ ys) n = datagrams self sequence start xs n"
proof -
  let ?full = "samples_per_full_packet self"
  have "cut ?full (xs @ ys) j = cut ?full xs j" if "j < n" for j
  proof -
    have "Suc j * ?full \<le> length xs"
      using that assms by (meson Suc_leI le_trans mult_le_mono1)
    then show ?thesis
      by (simp add: cut_def)
  qed
  then show ?thesis
    by (simp add: datagrams_def)
qed

lemma packets_of_append:
  assumes "0 < samples_per_full_packet self" and "n = length xs div samples_per_full_packet self"
    and "rest = drop (n * samples_per_full_packet self) xs @ ys"
  shows "packets_of self start (xs @ ys) = packets_of self start xs @
    datagrams self (word_of_nat n) (start + word_of_nat n * ucast (pk_samples_per_packet self)) rest
      (length rest div samples_per_full_packet self)"
proof -
  let ?full = "samples_per_full_packet self"
  have len: "n * ?full \<le> length xs"
    using assms(2) by simp
  then have "length (xs @ ys) = n * ?full + length rest"
    using assms(3) by simp
  then have "length (xs @ ys) div ?full = n + length rest div ?full"
    using assms(1) by simp
  then show ?thesis
    using assms len by (simp add: packets_of_def datagrams_add datagrams_append)
qed

text \<open>Where the packetizer stands after the samples \<open>pcm\<close>, the first of them numbered \<open>start\<close>.\<close>

definition streamed :: "packetizer \<Rightarrow> u64 \<Rightarrow> i16 list \<Rightarrow> packetizer \<Rightarrow> bool" where
  "streamed p0 start pcm p \<longleftrightarrow>
     (let full = samples_per_full_packet p0; n = length pcm div full in
      same_stream p p0 \<and> \<not> pk_finished p \<and> pk_carry p = drop (n * full) pcm \<and>
      pk_next_sequence p = word_of_nat n \<and>
      (pk_carry p \<noteq> [] \<longrightarrow> pk_carry_first_sample_index p =
         Some (start + word_of_nat n * ucast (pk_samples_per_packet p0))) \<and>
      samples_per_frame (pk_format p0) dvd length pcm \<and>
      (case pk_expected_chunk_sample_index p of
         None \<Rightarrow> pcm = []
       | Some i \<Rightarrow> i = start + word_of_nat (length pcm div samples_per_frame (pk_format p0))))"

lemma streamed_carry_start:
  assumes "streamed p0 start pcm p" and "0 < samples_per_full_packet p0" and "pk_carry p = []"
    and "pk_expected_chunk_sample_index p = None \<longrightarrow> first = start"
    and "case pk_expected_chunk_sample_index p of Some next \<Rightarrow> first = next | None \<Rightarrow> True"
  shows "first = start + word_of_nat (length pcm div samples_per_full_packet p0) * ucast (pk_samples_per_packet p0)"
proof (cases "pk_expected_chunk_sample_index p")
  case None
  then show ?thesis
    using assms by (simp add: streamed_def Let_def)
next
  case (Some i)
  let ?full = "samples_per_full_packet p0" and ?c = "samples_per_frame (pk_format p0)"
  define n where "n = length pcm div ?full"
  have "length pcm \<le> n * ?full"
    using assms(1,3) by (simp add: streamed_def Let_def n_def)
  moreover have "n * ?full \<le> length pcm"
    by (simp add: n_def)
  ultimately have "length pcm = n * unat (pk_samples_per_packet p0) * ?c"
    by (simp add: samples_per_full_packet_def)
  moreover have "0 < ?c"
    using assms(2) by (simp add: samples_per_full_packet_def)
  ultimately have "length pcm div ?c = n * unat (pk_samples_per_packet p0)"
    by simp
  then show ?thesis
    using Some assms(1,5) by (simp add: streamed_def Let_def n_def [symmetric])
qed

text \<open>One accepted chunk.\<close>

lemma push_chunk_accepted:
  assumes "push_chunk p c = (Inr o', p')"
  shows "\<not> pk_finished p" "dc_format c = pk_format p"
    "samples_per_frame (pk_format p) dvd length (dc_frames c)"
    "case pk_expected_chunk_sample_index p of Some next \<Rightarrow> dc_first_sample_index c = next | None \<Rightarrow> True"
    "checked_add (dc_first_sample_index c) (word_of_nat (frame_count c)) =
       Some (dc_first_sample_index c + word_of_nat (frame_count c))"
    "frame_count c < 2 ^ 64"
  using assms
  by (auto simp: push_chunk_def validate_chunk_def Let_def checked_add_def mod_eq_0_iff_dvd
      split: if_splits option.splits)

lemma push_chunk_result:
  assumes "streamed p0 start pcm p" and "0 < samples_per_full_packet p0"
    and "push_chunk p c = (Inr o', p')"
    and "pk_expected_chunk_sample_index p = None \<longrightarrow> dc_first_sample_index c = start"
    and "n = length pcm div samples_per_full_packet p0" and "xs = pcm @ dc_frames c"
    and "k = length xs div samples_per_full_packet p0" and "rest = drop (k * samples_per_full_packet p0) xs"
  shows "po_frames o' =
      drop n (packets_of p0 start xs) @
      (if dc_end_of_stream c \<and> rest \<noteq> []
       then [datagram_at p0 (word_of_nat k) (start + word_of_nat k * ucast (pk_samples_per_packet p0))
               (resize (samples_per_full_packet p0) 0 rest)] else [])"
    and "pk_finished p' = dc_end_of_stream c" and "po_end_of_stream o' = dc_end_of_stream c"
    and "\<not> dc_end_of_stream c \<Longrightarrow> streamed p0 start xs p'"
proof -
  let ?full = "samples_per_full_packet p0" and ?spp = "ucast (pk_samples_per_packet p0) :: u64"
    and ?c = "samples_per_frame (pk_format p0)"
  note acc = push_chunk_accepted [OF assms(3)]
  have p: "same_stream p p0" "\<not> pk_finished p" "pk_carry p = drop (n * ?full) pcm" "pk_next_sequence p = word_of_nat n"
    using assms(1) by (simp_all add: streamed_def Let_def assms(5))
  have fixed: "datagrams p = datagrams p0" "datagram_at p = datagram_at p0" "samples_per_full_packet p = ?full"
    "pk_samples_per_packet p = pk_samples_per_packet p0" "pk_format p = pk_format p0"
    using p(1) by (auto simp: same_stream_eqs) (simp_all add: same_stream_def)
  define st where "st = start + word_of_nat n * ?spp"
  define carry where "carry = drop (n * ?full) pcm @ dc_frames c"
  define m where "m = length carry div ?full"
  have first: "dc_first_sample_index c = st" if "pk_carry p = []"
    using streamed_carry_start [OF assms(1,2) that assms(4)] acc(4) by (simp add: st_def assms(5))
  have later: "pk_carry_first_sample_index p = Some st" if "pk_carry p \<noteq> []"
    using assms(1) that by (simp add: streamed_def Let_def st_def assms(5))
  have carry: "pk_carry p @ dc_frames c = carry"
    by (simp add: carry_def p(3))
  have nf: "n * ?full \<le> length pcm"
    by (simp add: assms(5))
  have "length xs = n * ?full + length carry"
    using nf by (simp add: assms(6) carry_def)
  then have k: "k = n + m"
    using assms(2) by (simp add: assms(7) m_def)
  have rest: "rest = drop (m * ?full) carry"
    using nf by (simp add: assms(6,8) k carry_def algebra_simps)
  have emit: "emit_full (length carry) q = (datagrams p0 (word_of_nat n) st carry m,
      q\<lparr>pk_carry := rest, pk_next_sequence := word_of_nat k,
        pk_carry_first_sample_index := Some (start + word_of_nat k * ?spp)\<rparr>)"
    if "pk_carry q = carry" "pk_carry_first_sample_index q = Some st" "pk_next_sequence q = word_of_nat n"
      "same_stream q p0" for q
    using emit_full_spec [of q "length carry" st m] assms(2) that same_stream_eqs [OF that(4)]
    by (simp add: m_def rest k st_def algebra_simps) (simp add: same_stream_def)
  have old: "drop n (packets_of p0 start xs) = datagrams p0 (word_of_nat n) st carry m"
    using packets_of_append [OF assms(2,5) carry_def, of start]
    by (simp add: assms(6) m_def st_def packets_of_def [of p0 start pcm] assms(5) [symmetric])
      (simp add: datagrams_def)
  have valid: "validate_chunk p c = Inr ()"
    using acc(1-3) by (simp add: validate_chunk_def mod_eq_0_iff_dvd)
  have next_ok: "(case pk_expected_chunk_sample_index p of Some next \<Rightarrow> dc_first_sample_index c \<noteq> next | None \<Rightarrow> False) = False"
    using acc(4) by (auto split: option.splits)
  define q where "q = (let s = (if pk_carry p = []
      then p\<lparr>pk_carry_first_sample_index := Some (dc_first_sample_index c)\<rparr> else p)
    in s\<lparr>pk_carry := pk_carry s @ dc_frames c\<rparr>)"
  have q: "pk_carry q = carry" "pk_carry_first_sample_index q = Some st" "pk_next_sequence q = word_of_nat n"
      "same_stream q p0" "\<not> pk_finished q"
    using p(1,2,4) carry first later by (auto simp: q_def Let_def)
  define q' where "q' = q\<lparr>pk_carry := rest, pk_next_sequence := word_of_nat k,
        pk_carry_first_sample_index := Some (start + word_of_nat k * ?spp)\<rparr>"
  have "push_chunk p c =
      (let (frames, self) = emit_full (length (pk_carry q)) q;
           (frames, self) =
             (if dc_end_of_stream c
              then if pk_carry self \<noteq> []
                   then let payload_samples = resize (samples_per_full_packet self) 0 (pk_carry self);
                            (frame, self) = build_datagram (self\<lparr>pk_carry := []\<rparr>) payload_samples in
                          (frames @ [frame], self\<lparr>pk_finished := True\<rparr>)
                   else (frames, self\<lparr>pk_finished := True\<rparr>)
              else (frames, self)) in
       (Inr \<lparr>po_frames = frames, po_end_of_stream = dc_end_of_stream c\<rparr>,
        self\<lparr>pk_expected_chunk_sample_index :=
          Some (dc_first_sample_index c + word_of_nat (frame_count c))\<rparr>))"
    using acc(5,6) by (simp add: push_chunk_def valid next_ok q_def Let_def)
  then have push_eq: "push_chunk p c =
      (Inr \<lparr>po_frames = datagrams p0 (word_of_nat n) st carry m @
         (if dc_end_of_stream c \<and> rest \<noteq> []
          then [datagram_at p0 (word_of_nat k) (start + word_of_nat k * ?spp) (resize ?full 0 rest)] else []),
         po_end_of_stream = dc_end_of_stream c\<rparr>,
       (if dc_end_of_stream c
        then (if rest \<noteq> [] then q'\<lparr>pk_carry := [], pk_next_sequence := word_of_nat k + 1\<rparr> else q')\<lparr>pk_finished := True\<rparr>
        else q')\<lparr>pk_expected_chunk_sample_index := Some (dc_first_sample_index c + word_of_nat (frame_count c))\<rparr>)"
    using emit [OF q(1-4)] same_stream_eqs [OF q(4)]
    by (simp add: q(1) q'_def build_datagram_def Let_def)
  have push: "po_frames o' = datagrams p0 (word_of_nat n) st carry m @
       (if dc_end_of_stream c \<and> rest \<noteq> []
        then [datagram_at p0 (word_of_nat k) (start + word_of_nat k * ?spp) (resize ?full 0 rest)] else [])"
    "po_end_of_stream o' = dc_end_of_stream c" "pk_finished p' = dc_end_of_stream c" "same_stream p' p0"
    "pk_expected_chunk_sample_index p' = Some (dc_first_sample_index c + word_of_nat (frame_count c))"
    "\<not> dc_end_of_stream c \<Longrightarrow> pk_carry p' = rest \<and> pk_next_sequence p' = word_of_nat k \<and>
       pk_carry_first_sample_index p' = Some (start + word_of_nat k * ?spp)"
    using assms(3) q by (auto simp: push_eq q'_def split: if_splits)
  show "po_frames o' =
      drop n (packets_of p0 start xs) @
      (if dc_end_of_stream c \<and> rest \<noteq> []
       then [datagram_at p0 (word_of_nat k) (start + word_of_nat k * ?spp) (resize ?full 0 rest)] else [])"
    by (simp add: push(1) old)
  show "pk_finished p' = dc_end_of_stream c" "po_end_of_stream o' = dc_end_of_stream c"
    by (rule push)+
  show "streamed p0 start xs p'" if "\<not> dc_end_of_stream c"
  proof -
    have "?c dvd length pcm" "?c dvd length (dc_frames c)" "frame_count c = length (dc_frames c) div ?c"
      using assms(1) acc(2,3) by (simp_all add: streamed_def Let_def fixed frame_count_def)
    moreover have "dc_first_sample_index c = start + word_of_nat (length pcm div ?c)"
      using assms(1,4) acc(4) by (auto simp: streamed_def Let_def split: option.splits)
    ultimately show ?thesis
      using push(3-6) that by (simp add: streamed_def Let_def assms(6-8) div_add add.assoc)
  qed
qed

lemma packets_of_padded:
  assumes "0 < samples_per_full_packet p0" and "k = length xs div samples_per_full_packet p0"
    and "rest = drop (k * samples_per_full_packet p0) xs"
  shows "packets_of p0 start (padded p0 True xs) = packets_of p0 start xs @
    (if rest \<noteq> [] then [datagram_at p0 (word_of_nat k) (start + word_of_nat k * ucast (pk_samples_per_packet p0))
        (resize (samples_per_full_packet p0) 0 rest)] else [])"
proof -
  let ?full = "samples_per_full_packet p0" and ?pad = "padding (samples_per_full_packet p0) (length xs)"
  have len: "length rest = length xs mod ?full"
    by (simp add: assms(2,3) minus_div_mult_eq_mod)
  then have short: "length rest < ?full"
    using assms(1) by simp
  have "packets_of p0 start (padded p0 True xs) = packets_of p0 start xs @
      datagrams p0 (word_of_nat k) (start + word_of_nat k * ucast (pk_samples_per_packet p0))
        (rest @ replicate ?pad 0) (length (rest @ replicate ?pad 0) div ?full)"
    unfolding padded_def using packets_of_append [OF assms(1,2) refl] by (simp add: assms(3))
  moreover have "length (rest @ replicate ?pad 0) div ?full = (if rest \<noteq> [] then 1 else 0)"
    using len short assms(1) by (auto simp: padding_def)
  moreover have "cut ?full (rest @ replicate ?pad 0) 0 = resize ?full 0 rest" if "rest \<noteq> []"
    using that len short length_greater_0_conv [of rest] by (auto simp: cut_def resize_def padding_def simp del: length_greater_0_conv)
  ultimately show ?thesis
    by (simp add: datagrams_def)
qed

lemma length_packets_of: "length (packets_of p0 start xs) = length xs div samples_per_full_packet p0"
  by (simp add: packets_of_def datagrams_def)

lemma push_chunk_streams:
  assumes "streamed p0 start pcm p" and "0 < samples_per_full_packet p0"
    and "push_chunk p c = (Inr o', p')"
    and "pk_expected_chunk_sample_index p = None \<longrightarrow> dc_first_sample_index c = start"
  shows "packets_of p0 start pcm @ po_frames o' =
      packets_of p0 start (padded p0 (dc_end_of_stream c) (pcm @ dc_frames c))"
    and "pk_finished p' = dc_end_of_stream c"
    and "\<not> dc_end_of_stream c \<Longrightarrow> streamed p0 start (pcm @ dc_frames c) p'"
proof -
  note res = push_chunk_result [OF assms refl refl refl refl]
  have "packets_of p0 start pcm @ drop (length pcm div samples_per_full_packet p0) (packets_of p0 start (pcm @ dc_frames c)) =
      packets_of p0 start (pcm @ dc_frames c)"
    using packets_of_append [OF assms(2) refl refl] by (simp add: length_packets_of)
  then show "packets_of p0 start pcm @ po_frames o' =
      packets_of p0 start (padded p0 (dc_end_of_stream c) (pcm @ dc_frames c))"
    by (cases "dc_end_of_stream c")
      (simp_all add: res(1) packets_of_padded [OF assms(2) refl refl] padded_def [of _ False] flip: append_assoc)
qed (use push_chunk_result [OF assms refl refl refl refl] in blast)+

lemma push_all_streams:
  assumes "streamed p0 start pcm p" and "0 < samples_per_full_packet p0"
    and "push_all p chunks = (Inr frames, p')"
    and "pk_expected_chunk_sample_index p = None \<longrightarrow> chunks \<noteq> [] \<longrightarrow> dc_first_sample_index (hd chunks) = start"
  shows "packets_of p0 start pcm @ frames =
    packets_of p0 start (padded p0 (\<exists>c \<in> set chunks. dc_end_of_stream c) (pcm @ concat (map dc_frames chunks)))"
  using assms
proof (induction chunks arbitrary: pcm p frames)
  case Nil
  then show ?case
    by (simp add: padded_def)
next
  case (Cons c chunks)
  then obtain o' p1 fs where step: "push_chunk p c = (Inr o', p1)" "push_all p1 chunks = (Inr fs, p')"
    "frames = po_frames o' @ fs"
    by (auto split: prod.splits sum.splits)
  have "pk_expected_chunk_sample_index p = None \<longrightarrow> dc_first_sample_index c = start"
    using Cons.prems(4) by simp
  note st = push_chunk_streams [OF Cons.prems(1,2) step(1) this]
  show ?case
  proof (cases "dc_end_of_stream c")
    case True
    then have "chunks = []"
      using step(2) st(2) Cons.prems(4)
      by (cases chunks) (auto simp: push_chunk_def validate_chunk_def)
    then show ?thesis
      using True step st(1) Cons.prems(4) by simp
  next
    case False
    have exp: "pk_expected_chunk_sample_index p1 \<noteq> None"
      using step(1) by (auto simp: push_chunk_def Let_def split: sum.splits if_splits option.splits prod.splits)
    have "packets_of p0 start (pcm @ dc_frames c) @ fs = packets_of p0 start
        (padded p0 (\<exists>c \<in> set chunks. dc_end_of_stream c) ((pcm @ dc_frames c) @ concat (map dc_frames chunks)))"
      using exp by (intro Cons.IH [OF st(3) [OF False] Cons.prems(2) step(2)]) auto
    then show ?thesis
      using False st(1) by (simp add: step(3) padded_def [of _ False])
        (simp flip: append_assoc)
  qed
qed

lemma packetizer_new_geometry:
  assumes "packetizer_new sid stid format duration time = Inr p0"
  shows "0 < samples_per_full_packet p0" and "streamed p0 start [] p0"
    and "samples_per_full_packet p0 * 2 + str_len (session_id_str sid) + str_len (stream_id_str stid) + 45 \<le> 4080"
    and "pk_session_id p0 = sid" "pk_stream_id p0 = stid" "pk_format p0 = format"
    and "0 < pk_samples_per_packet p0" and "pk_host_start_time_ms p0 = time"
  using assms
  by (auto simp: packetizer_new_def Let_def try_bind_Inr_iff ok_or_def checked_mul_usize_def checked_add_usize_def
      samples_per_full_packet_def streamed_def same_stream_def unat_gt_0 word_neq_0_conv
      FIXED_AUDIO_DATAGRAM_FIELD_BYTES_def IDENTIFIER_LENGTH_PREFIX_BYTES_def MAX_AUDIO_DATAGRAM_BYTES_def
      FRAME_HEADER_BYTES_def split: if_splits option.splits Option.bind_splits)

text \<open>
  C17: streaming equals cutting the whole track. However the decoder splits a track into chunks,
  the datagrams that leave the packetizer are those of the reference that has the complete PCM at
  once: packet \<open>j\<close> carries sequence number \<open>j\<close>, the \<open>j\<close>-th packet-sized piece of the samples, its
  sample index and its presentation time, and only the last packet of an ended stream is filled
  up with silence.
\<close>

theorem packetizer_streams_exactly:
  assumes "packetizer_new sid stid format duration time = Inr p0"
    and "push_all p0 chunks = (Inr frames, p)" and "chunks \<noteq> []"
  shows "frames = packets_of p0 (dc_first_sample_index (hd chunks))
    (padded p0 (\<exists>c \<in> set chunks. dc_end_of_stream c) (concat (map dc_frames chunks)))"
  using push_all_streams [OF packetizer_new_geometry(2,1) [OF assms(1)] assms(2),
      of "dc_first_sample_index (hd chunks)"]
  by (simp add: packets_of_def datagrams_def)

text \<open>Decoding the packets gives the samples back.\<close>

primrec frame_pcm :: "protocol_frame \<Rightarrow> i16 list" where
  "frame_pcm (PfAudio v) = decode_payload_samples (ad_payload v)"
| "frame_pcm (PfControl m) = []"
| "frame_pcm (PfSyncRequest r) = []"
| "frame_pcm (PfSyncResponse r) = []"

lemma concat_cut: "n * full \<le> length xs \<Longrightarrow> concat (map (cut full xs) [0..<n]) = take (n * full) xs"
proof (induction n)
  case (Suc n)
  then show ?case
    by (simp add: cut_def take_add [symmetric] add.commute)
qed simp

lemma frame_pcm_packets:
  "concat (map frame_pcm (packets_of p0 start xs)) =
     take (length xs div samples_per_full_packet p0 * samples_per_full_packet p0) xs"
  by (simp add: packets_of_def datagrams_def datagram_at_def comp_def concat_cut)

lemma length_padded:
  assumes "0 < samples_per_full_packet p0"
  shows "samples_per_full_packet p0 dvd length (padded p0 True xs)"
    and "padding (samples_per_full_packet p0) (length xs) < samples_per_full_packet p0"
proof -
  let ?f = "samples_per_full_packet p0"
  have "(length xs + (?f - length xs mod ?f)) mod ?f = (length xs mod ?f + (?f - length xs mod ?f)) mod ?f"
    by (simp add: mod_add_left_eq)
  then have "?f dvd length xs + (?f - length xs mod ?f)"
    using assms by (simp add: mod_eq_0_iff_dvd [symmetric] less_imp_le)
  then show "?f dvd length (padded p0 True xs)"
    by (auto simp: padded_def padding_def)
  show "padding ?f (length xs) < ?f"
    using assms by (simp add: padding_def)
qed

text \<open>
  C19: no sample is lost, repeated or reordered. When the final chunk has been pushed, decoding
  the payloads of all packets in order gives exactly the samples of all chunks, followed by less
  than one packet of silence.
\<close>

theorem packetizer_preserves_pcm:
  assumes "packetizer_new sid stid format duration time = Inr p0"
    and "push_all p0 chunks = (Inr frames, p)" and "c \<in> set chunks" and "dc_end_of_stream c"
  shows "\<exists>pad < samples_per_full_packet p0.
    concat (map frame_pcm frames) = concat (map dc_frames chunks) @ replicate pad 0"
proof -
  note g = packetizer_new_geometry [OF assms(1)]
  let ?pcm = "concat (map dc_frames chunks)" and ?start = "dc_first_sample_index (hd chunks)"
  have ended: "\<exists>c \<in> set chunks. dc_end_of_stream c" and "chunks \<noteq> []"
    using assms(3,4) by auto
  then have "frames = packets_of p0 ?start (padded p0 True ?pcm)"
    using push_all_streams [OF g(2,1) assms(2), of ?start] by (auto simp: packets_of_def datagrams_def)
  then have "concat (map frame_pcm frames) = padded p0 True ?pcm"
    using length_padded(1) [OF g(1), of ?pcm] by (simp add: frame_pcm_packets)
  then show ?thesis
    using length_padded(2) [OF g(1), of ?pcm] by (auto simp: padded_def)
qed

lemma datagram_encodes:
  assumes "valid_identifier (session_id_str (pk_session_id p0))" and "valid_identifier (stream_id_str (pk_stream_id p0))"
    and "samples_per_full_packet p0 * 2 + str_len (session_id_str (pk_session_id p0)) +
      str_len (stream_id_str (pk_stream_id p0)) + 45 \<le> 4080"
    and "0 < samples_per_full_packet p0"
    and "8000 \<le> af_sample_rate_hz (pk_format p0)" and "af_sample_rate_hz (pk_format p0) \<le> 384000"
    and "af_channels (pk_format p0) \<le> 8" and "length xs = samples_per_full_packet p0"
  shows "\<exists>bytes. encode_frame (datagram_at p0 i first xs) = Inr bytes \<and>
    length bytes = 61 + str_len (session_id_str (pk_session_id p0)) + str_len (stream_id_str (pk_stream_id p0)) +
      samples_per_full_packet p0 * 2"
proof -
  obtain v where v: "datagram_at p0 i first xs = PfAudio v"
    by (simp add: datagram_at_def)
  have fields: "ad_session_id v = pk_session_id p0" "ad_stream_id v = pk_stream_id p0" "ad_payload v = pcm_bytes xs"
    "ad_sample_rate v = af_sample_rate_hz (pk_format p0)" "ad_channels v = af_channels (pk_format p0)"
    "ad_samples_per_packet v = pk_samples_per_packet p0"
    using v by (auto simp: datagram_at_def)
  have pos: "pk_samples_per_packet p0 \<noteq> 0" "1 \<le> af_channels (pk_format p0)"
    using assms(4) by (auto simp: samples_per_full_packet_def samples_per_frame_def word_le_nat_alt)
  have valid: "validate_audio_parameters v = Inr ()"
    using pos assms(3,5-8)
    by (simp add: fields validate_audio_parameters_def checked_mul_usize_def usize_max_def
        samples_per_full_packet_def samples_per_frame_def)
  define bs1 where "bs1 = be_bytes 2 (str_len (session_id_str (pk_session_id p0))) @ as_bytes (session_id_str (pk_session_id p0))"
  define bs2 where "bs2 = be_bytes 2 (str_len (stream_id_str (pk_stream_id p0))) @ as_bytes (stream_id_str (pk_stream_id p0))"
  have ids: "text_bytes MAX_IDENTIFIER_BYTES False (session_id_str (ad_session_id v)) = Some bs1"
    "text_bytes MAX_IDENTIFIER_BYTES False (stream_id_str (ad_stream_id v)) = Some bs2"
    using assms(1-3) by (simp_all add: fields text_bytes_def bs1_def bs2_def valid_identifier_text)
  define p where "p = bs1 @ bs2 @ be_bytes 8 (unat (ad_sequence v)) @ [audio_codec_code (ad_codec v)] @
          be_bytes 4 (unat (ad_sample_rate v)) @ be_bytes 2 (unat (ad_channels v)) @
          be_bytes 4 (unat (ad_samples_per_packet v)) @ be_bytes 8 (unat (ad_first_sample_index v)) @
          be_bytes 8 (unat (ad_host_presentation_time_ms v)) @ audio_payload_bytes (ad_payload v)"
  have len: "length p = 45 + str_len (session_id_str (pk_session_id p0)) + str_len (stream_id_str (pk_stream_id p0)) +
      samples_per_full_packet p0 * 2"
    using assms(8) by (simp add: p_def bs1_def bs2_def audio_payload_bytes_def fields str_len_def)
  have "encode_audio v = Inr p"
    unfolding encode_audio_iff using valid ids len assms(3,8)
    by (auto simp: p_def fields MAX_AUDIO_DATAGRAM_BYTES_def FRAME_HEADER_BYTES_def)
  then have "encode_frame (PfAudio v) = Inr (header_bytes MkAudio (length p) @ p)"
    unfolding encode_frame_iff using len assms(3)
    by (auto simp: payload_ok_def maximum_payload_bytes_def is_control_kind_def MAX_AUDIO_DATAGRAM_BYTES_def FRAME_HEADER_BYTES_def)
  then show ?thesis
    using len by (simp add: v length_header_bytes FRAME_HEADER_BYTES_def)
qed

text \<open>
  C14: everything the packetizer emits can be sent. With identifiers that passed validation and a
  format the wire accepts, every datagram is encoded without error, in exactly the number of bytes
  that \<open>Packetizer::new\<close> computed in advance, so it always fits the datagram limit.
\<close>

theorem packetizer_frames_encode:
  assumes "session_id_new s = Inr sid" and "stream_id_new t = Inr stid"
    and "packetizer_new sid stid format duration time = Inr p0"
    and "push_all p0 chunks = (Inr frames, p)"
    and "8000 \<le> af_sample_rate_hz format" and "af_sample_rate_hz format \<le> 384000" and "af_channels format \<le> 8"
    and "frame \<in> set frames"
  shows "\<exists>bytes. encode_frame frame = Inr bytes \<and>
    length bytes = FRAME_HEADER_BYTES + FIXED_AUDIO_DATAGRAM_FIELD_BYTES + 2 * IDENTIFIER_LENGTH_PREFIX_BYTES +
      str_len s + str_len t + samples_per_full_packet p0 * 2 \<and>
    length bytes \<le> MAX_AUDIO_DATAGRAM_BYTES"
proof -
  note g = packetizer_new_geometry [OF assms(3)]
  let ?full = "samples_per_full_packet p0"
  have chunks: "chunks \<noteq> []"
    using assms(4,8) by (cases chunks) auto
  let ?xs = "padded p0 (\<exists>c \<in> set chunks. dc_end_of_stream c) (concat (map dc_frames chunks))"
    and ?start = "dc_first_sample_index (hd chunks)"
  have "frames = packets_of p0 ?start ?xs"
    using push_all_streams [OF g(2,1) assms(4), of ?start] chunks by (simp add: packets_of_def datagrams_def)
  then obtain j where j: "j < length ?xs div ?full"
    "frame = datagram_at p0 (word_of_nat j) (?start + word_of_nat j * ucast (pk_samples_per_packet p0)) (cut ?full ?xs j)"
    using assms(8) by (auto simp: packets_of_def datagrams_def)
  have "Suc j * ?full \<le> length ?xs div ?full * ?full"
    using j(1) by (intro mult_le_mono1) simp
  also have "\<dots> \<le> length ?xs"
    by simp
  finally have cut: "length (cut ?full ?xs j) = ?full"
    by (simp add: cut_def)
  have ids: "valid_identifier s" "sid = SessionId s" "valid_identifier t" "stid = StreamId t"
    using assms(1,2) by (auto simp: session_id_new_def stream_id_new_def id_new_ok_iff)
  show ?thesis
    using datagram_encodes [OF _ _ _ g(1) _ _ _ cut, of "word_of_nat j"
        "?start + word_of_nat j * ucast (pk_samples_per_packet p0)"] g(3) assms(5-7)
    by (auto simp: g(4-6) ids j(2) FRAME_HEADER_BYTES_def FIXED_AUDIO_DATAGRAM_FIELD_BYTES_def
        IDENTIFIER_LENGTH_PREFIX_BYTES_def MAX_AUDIO_DATAGRAM_BYTES_def)
qed

subsection \<open>An example stream\<close>

definition example_format :: audio_format where
  "example_format = \<lparr>af_sample_rate_hz = 8000, af_channels = 1, af_sample_format = SamplePcmS16Le\<rparr>"

definition example_packetizer :: packetizer where
  "example_packetizer = projr (packetizer_new (SessionId (lit ''s'')) (StreamId (lit ''t'')) example_format 1 1000)"

definition example_chunks :: "decoded_pcm_chunk list" where
  "example_chunks =
     [\<lparr>dc_format = example_format, dc_first_sample_index = 40, dc_frames = [1, 2, 3, 4, 5, 6, 7, 8, 9, 10],
       dc_end_of_stream = False\<rparr>,
      \<lparr>dc_format = example_format, dc_first_sample_index = 50, dc_frames = [11, 12], dc_end_of_stream = True\<rparr>]"

definition example_frames :: "protocol_frame list" where
  "example_frames = projr (fst (push_all example_packetizer example_chunks))"

lemma example_packetizer_new:
  "packetizer_new (SessionId (lit ''s'')) (StreamId (lit ''t'')) example_format 1 1000 = Inr example_packetizer"
proof -
  have "\<not> isl (packetizer_new (SessionId (lit ''s'')) (StreamId (lit ''t'')) example_format 1 1000)"
    by code_simp
  then show ?thesis
    by (simp add: example_packetizer_def)
qed

lemma example_pushed:
  "push_all example_packetizer example_chunks = (Inr example_frames, snd (push_all example_packetizer example_chunks))"
proof -
  have "\<not> isl (fst (push_all example_packetizer example_chunks))"
    by code_simp
  then show ?thesis
    by (metis example_frames_def prod.collapse sum.collapse(2))
qed

lemma example_ids: "session_id_new (lit ''s'') = Inr (SessionId (lit ''s''))" "stream_id_new (lit ''t'') = Inr (StreamId (lit ''t''))"
  by code_simp+

lemma example_full: "samples_per_full_packet example_packetizer = 8"
  by code_simp

theorem packetizer_streams_exactly_witness:
  "example_frames = packets_of example_packetizer 40 (padded example_packetizer True [1, 2, 3, 4, 5, 6, 7, 8, 9, 10, 11, 12])"
  using packetizer_streams_exactly [OF example_packetizer_new example_pushed] by (simp add: example_chunks_def)

theorem packetizer_preserves_pcm_witness:
  "\<exists>pad < 8. concat (map frame_pcm example_frames) = [1, 2, 3, 4, 5, 6, 7, 8, 9, 10, 11, 12] @ replicate pad 0"
  using packetizer_preserves_pcm [OF example_packetizer_new example_pushed, of "last example_chunks"]
  by (simp add: example_chunks_def example_full)

theorem packetizer_frames_encode_witness:
  "\<exists>bytes. encode_frame (hd example_frames) = Inr bytes \<and> length bytes = 79"
proof -
  have "example_frames \<noteq> []" and len: "str_len (lit ''s'') = 1" "str_len (lit ''t'') = 1"
    by code_simp+
  then show ?thesis
    using packetizer_frames_encode [OF example_ids example_packetizer_new example_pushed, of "hd example_frames"]
    by (auto simp: example_full example_format_def FRAME_HEADER_BYTES_def FIXED_AUDIO_DATAGRAM_FIELD_BYTES_def
        IDENTIFIER_LENGTH_PREFIX_BYTES_def)
qed

end
