(* ===== verification/F64_Order.thy ===== *)
theory F64_Order
  imports Rust_F64
begin

section \<open>Rounding keeps the order\<close>

text \<open>
  Rounding to the nearest \<open>f64\<close> is monotone, and so are the subtraction of a fixed \<open>f64\<close>, the
  conversion of a \<open>u64\<close> and the saturating conversion back. The playback timeline rests on it: a
  later presentation time never has an earlier local deadline.
\<close>

subsection \<open>Binary exponents\<close>

lemma pow2_pos: "0 < pow2 k"
  by (simp add: pow2_def)

lemma pow2_add: "pow2 (j + k) = pow2 j * pow2 k"
proof -
  have "pow2 i = 2 powi i" for i
    unfolding pow2_def power_int_def by (simp only: divide_inverse power_inverse mult_1_left)
  then show ?thesis
    by (simp add: power_int_add)
qed

lemma pow2_nat: "pow2 (int n) = 2 ^ n"
  by (simp add: pow2_def)

lemma pow2_1 [simp]: "pow2 1 = 2" and pow2_0 [simp]: "pow2 0 = 1"
  by (simp_all add: pow2_def)

lemma pow2_le: "j \<le> k \<Longrightarrow> pow2 j \<le> pow2 k"
proof -
  assume "j \<le> k"
  then have "pow2 k = pow2 j * 2 ^ nat (k - j)"
    using pow2_add [of j "k - j"] pow2_nat [of "nat (k - j)"] by simp
  then show ?thesis
    using pow2_pos [of j] by (simp add: mult_le_cancel_left1)
qed

lemma pow2_less_iff: "pow2 j < pow2 k \<longleftrightarrow> j < k"
proof
  assume "pow2 j < pow2 k"
  then show "j < k"
    using pow2_le [of k j] by (meson not_le)
next
  assume "j < k"
  then have "pow2 (j + 1) \<le> pow2 k"
    by (intro pow2_le) simp
  then show "pow2 j < pow2 k"
    using pow2_pos [of j] by (simp add: pow2_add)
qed

lemma pow2_minus: "pow2 k * pow2 (- k) = 1"
  by (simp flip: pow2_add)

lemma bit_length_bounds:
  assumes "0 < (n::int)"
  shows "pow2 (int (floorlog 2 (nat n)) - 1) \<le> of_int n" and "of_int n < pow2 (int (floorlog 2 (nat n)))"
proof -
  let ?l = "floorlog 2 (nat n)"
  have b: "2 ^ (?l - 1) \<le> nat n \<and> nat n < 2 ^ ?l"
    using assms by (intro floorlog_bounds) simp_all
  have l: "0 < ?l"
    using assms by (simp add: floorlog_def)
  have "(of_nat (2 ^ (?l - 1)) :: rat) \<le> of_nat (nat n)" "(of_nat (nat n) :: rat) < of_nat (2 ^ ?l)"
    using b by (simp_all only: of_nat_le_iff of_nat_less_iff)
  then show "pow2 (int ?l - 1) \<le> of_int n" "of_int n < pow2 (int ?l)"
    using assms l pow2_nat [of "?l - 1"] by (simp_all add: pow2_nat of_nat_diff)
qed

lemma floor_log2_bounds:
  assumes "0 < a"
  shows "pow2 (floor_log2 a) \<le> a" and "a < pow2 (floor_log2 a + 1)"
proof -
  obtain p q where pq: "quotient_of a = (p, q)"
    by fastforce
  have q: "0 < q" and a: "a = of_int p / of_int q"
    using quotient_of_denom_pos [OF pq] quotient_of_div [OF pq] by simp_all
  have p: "0 < p"
    using assms q by (simp add: a zero_less_divide_iff)
  let ?P = "int (floorlog 2 (nat p))" and ?Q = "int (floorlog 2 (nat q))"
  note bp = bit_length_bounds [OF p] and bq = bit_length_bounds [OF q]
  have qpos: "(0::rat) < of_int q"
    using q by simp
  have "pow2 (?P - ?Q - 1) * of_int q \<le> pow2 (?P - ?Q - 1) * pow2 ?Q"
    using bq(2) pow2_pos by (intro mult_left_mono) (auto intro: less_imp_le)
  also have "\<dots> \<le> of_int p"
    using bp(1) by (simp flip: pow2_add)
  finally have low: "pow2 (?P - ?Q - 1) \<le> a"
    using qpos by (simp add: a pos_le_divide_eq)
  have "of_int p < pow2 (?P - ?Q + 1) * pow2 (?Q - 1)"
    using bp(2) by (simp flip: pow2_add)
  also have "\<dots> \<le> pow2 (?P - ?Q + 1) * of_int q"
    using bq(1) pow2_pos by (intro mult_left_mono) (auto intro: less_imp_le)
  finally have high: "a < pow2 (?P - ?Q + 1)"
    using qpos by (simp add: a pos_divide_less_eq)
  show "pow2 (floor_log2 a) \<le> a" "a < pow2 (floor_log2 a + 1)"
    using low high by (auto simp: floor_log2_def pq Let_def not_le)
qed

lemma floor_log2_mono:
  assumes "0 < a" and "a \<le> b"
  shows "floor_log2 a \<le> floor_log2 b"
proof -
  have "pow2 (floor_log2 a) < pow2 (floor_log2 b + 1)"
    using floor_log2_bounds [of a] floor_log2_bounds [of b] assms by linarith
  then show ?thesis
    by (simp add: pow2_less_iff)
qed

subsection \<open>Rounding of a positive number\<close>

lemma round_half_even_mono: "x \<le> y \<Longrightarrow> round_half_even x \<le> round_half_even y"
proof -
  assume "x \<le> y"
  have up: "\<lfloor>z\<rfloor> \<le> round_half_even z \<and> round_half_even z \<le> \<lfloor>z\<rfloor> + 1" for z
    unfolding round_half_even_def Let_def by (simp only: split: if_split) simp
  show ?thesis
  proof (cases "\<lfloor>x\<rfloor> = \<lfloor>y\<rfloor>")
    case True
    then show ?thesis
      using \<open>x \<le> y\<close> by (auto simp: round_half_even_def Let_def)
  next
    case False
    then have "\<lfloor>x\<rfloor> + 1 \<le> \<lfloor>y\<rfloor>"
      using floor_mono [OF \<open>x \<le> y\<close>] by simp
    then show ?thesis
      using up [of x] up [of y] by linarith
  qed
qed

lemma round_half_even_int [simp]: "round_half_even (of_int k) = k"
  by (simp add: round_half_even_def)

text \<open>The unit of the last place and the bits of the nearest pattern, before overflow to infinity.\<close>

definition ulp_exponent :: "rat \<Rightarrow> int" where
  "ulp_exponent a = max (floor_log2 a - 52) (- 1074)"

definition nearest_bits :: "rat \<Rightarrow> nat" where
  "nearest_bits a =
     nat (ulp_exponent a + 1074) * 2 ^ 52 + nat (round_half_even (a * pow2 (- ulp_exponent a)))"

lemma f64_of_rat_bits:
  assumes "r \<noteq> 0"
  shows "f64_of_rat r =
     F64 (word_of_nat (if r < 0 then 2 ^ 63 + min (nearest_bits \<bar>r\<bar>) f64_infinity_bits
                       else min (nearest_bits \<bar>r\<bar>) f64_infinity_bits))"
  unfolding f64_of_rat_def nearest_bits_def ulp_exponent_def Let_def if_not_P [OF assms] by (rule refl)

lemma scaled_bounds:
  assumes "0 < a"
  shows "0 \<le> round_half_even (a * pow2 (- ulp_exponent a))"
    and "round_half_even (a * pow2 (- ulp_exponent a)) \<le> 2 ^ 53"
    and "- 1074 < ulp_exponent a \<Longrightarrow> 2 ^ 52 \<le> round_half_even (a * pow2 (- ulp_exponent a))"
proof -
  let ?e = "ulp_exponent a"
  have "a < pow2 (floor_log2 a + 1)"
    using floor_log2_bounds [OF assms] by simp
  also have "\<dots> \<le> pow2 (?e + 53)"
    by (intro pow2_le) (simp add: ulp_exponent_def)
  finally have "a * pow2 (- ?e) \<le> pow2 (?e + 53) * pow2 (- ?e)"
    using pow2_pos by (intro mult_right_mono) (auto intro: less_imp_le)
  also have "\<dots> = of_int (2 ^ 53)"
    using pow2_nat [of 53] by (simp flip: pow2_add)
  finally show "round_half_even (a * pow2 (- ?e)) \<le> 2 ^ 53"
    using round_half_even_mono round_half_even_int by metis
  have "0 \<le> a * pow2 (- ?e)"
    using assms pow2_pos [of "- ?e"] by simp
  then show "0 \<le> round_half_even (a * pow2 (- ?e))"
    using round_half_even_mono [of 0] round_half_even_int [of 0] by simp
  assume "- 1074 < ?e"
  then have "pow2 (?e + 52) \<le> a"
    using floor_log2_bounds(1) [OF assms] by (simp add: ulp_exponent_def split: if_splits)
  then have "pow2 (?e + 52) * pow2 (- ?e) \<le> a * pow2 (- ?e)"
    using pow2_pos by (intro mult_right_mono) (auto intro: less_imp_le)
  moreover have "pow2 (?e + 52) * pow2 (- ?e) = of_int (2 ^ 52)"
    using pow2_nat [of 52] by (simp flip: pow2_add)
  ultimately show "2 ^ 52 \<le> round_half_even (a * pow2 (- ?e))"
    using round_half_even_mono [of "of_int (2 ^ 52)" "a * pow2 (- ?e)"] by (simp only: round_half_even_int)
qed

lemma nearest_bits_mono:
  assumes "0 < a" and "a \<le> b"
  shows "nearest_bits a \<le> nearest_bits b"
proof -
  let ?m = "\<lambda>x. round_half_even (x * pow2 (- ulp_exponent x))"
  have b: "0 < b"
    using assms by simp
  have e: "- 1074 \<le> ulp_exponent a" "ulp_exponent a \<le> ulp_exponent b"
    using floor_log2_mono [OF assms] by (simp_all add: ulp_exponent_def)
  consider "ulp_exponent a = ulp_exponent b" | "ulp_exponent a + 1 \<le> ulp_exponent b"
    using e(2) by linarith
  then have "(ulp_exponent a + 1074) * 2 ^ 52 + ?m a \<le> (ulp_exponent b + 1074) * 2 ^ 52 + ?m b"
  proof cases
    case 1
    have "?m a \<le> round_half_even (b * pow2 (- ulp_exponent a))"
      using assms pow2_pos by (intro round_half_even_mono mult_right_mono) (auto intro: less_imp_le)
    then show ?thesis
      using 1 by simp
  next
    case 2
    then have "2 ^ 52 \<le> ?m b"
      using e by (intro scaled_bounds(3) [OF b]) linarith
    then show ?thesis
      using scaled_bounds(2) [OF assms(1)] 2 by simp
  qed
  moreover have bits: "int (nearest_bits x) = (ulp_exponent x + 1074) * 2 ^ 52 + ?m x"
    if "0 < x" "- 1074 \<le> ulp_exponent x" for x
    using that scaled_bounds(1) [OF that(1)] by (simp add: nearest_bits_def)
  ultimately have "int (nearest_bits a) \<le> int (nearest_bits b)"
    unfolding bits [OF assms(1) e(1)] bits [OF b order_trans [OF e]] by blast
  then show ?thesis
    by (rule iffD1 [OF zle_int])
qed

subsection \<open>Patterns in order\<close>

definition bits_value :: "nat \<Rightarrow> rat" where
  "bits_value n = f64_magnitude (n div 2 ^ 52) (n mod 2 ^ 52)"

lemma f64_magnitude_bounds:
  assumes "m < 2 ^ 52"
  shows "f64_magnitude e m < of_nat (2 ^ 52) * pow2 (int (Suc e) - 1075)"
    and "0 < e \<Longrightarrow> of_nat (2 ^ 52) * pow2 (int e - 1075) \<le> f64_magnitude e m"
    and "0 \<le> f64_magnitude e m"
proof -
  have step: "pow2 (int (Suc e) - 1075) = 2 * pow2 (int e - 1075)"
    using pow2_add [of 1 "int e - 1075"] by (simp add: algebra_simps)
  have lt: "(of_nat m :: rat) < of_nat (2 ^ 52)"
    using assms by (simp only: of_nat_less_iff)
  have "of_nat (2 ^ 52 + m) * pow2 (int e - 1075) < of_nat (2 ^ 52) * (2 * pow2 (int e - 1075))"
    using mult_strict_right_mono [OF lt pow2_pos [of "int e - 1075"]] by (simp add: algebra_simps)
  moreover have "e = 0 \<Longrightarrow> of_nat m * pow2 (- 1074) < of_nat (2 ^ 52) * pow2 (int (Suc e) - 1075)"
    using mult_strict_right_mono [OF lt pow2_pos [of "- 1074"]] by simp
  ultimately show "f64_magnitude e m < of_nat (2 ^ 52) * pow2 (int (Suc e) - 1075)"
    unfolding f64_magnitude_def step by (cases "e = 0") (simp_all only: if_True if_False simp_thms)
  show "0 < e \<Longrightarrow> of_nat (2 ^ 52) * pow2 (int e - 1075) \<le> f64_magnitude e m"
    using pow2_pos [of "int e - 1075"] by (simp add: f64_magnitude_def mult_right_mono)
  show "0 \<le> f64_magnitude e m"
    using pow2_pos by (simp add: f64_magnitude_def less_imp_le)
qed

lemma bits_value_mono:
  assumes "n \<le> n'"
  shows "bits_value n \<le> bits_value n'"
proof -
  let ?e = "n div 2 ^ 52" and ?e' = "n' div 2 ^ 52" and ?m = "n mod 2 ^ 52" and ?m' = "n' mod 2 ^ 52"
  have m: "?m < 2 ^ 52" "?m' < 2 ^ 52"
    by simp_all
  have "?e \<le> ?e'"
    using assms by (rule div_le_mono)
  then consider "?e = ?e'" | "Suc ?e \<le> ?e'"
    by linarith
  then show ?thesis
  proof cases
    case 1
    then have "?m \<le> ?m'"
      using assms div_mult_mod_eq [of n "2 ^ 52"] div_mult_mod_eq [of n' "2 ^ 52"] by (metis nat_add_left_cancel_le)
    then show ?thesis
      using 1 assms pow2_pos by (simp add: bits_value_def f64_magnitude_def mult_right_mono less_imp_le)
  next
    case 2
    have "bits_value n < of_nat (2 ^ 52) * pow2 (int (Suc ?e) - 1075)"
      unfolding bits_value_def by (rule f64_magnitude_bounds(1) [OF m(1)])
    also have "\<dots> \<le> of_nat (2 ^ 52) * pow2 (int ?e' - 1075)"
      using 2 by (intro mult_left_mono pow2_le) simp_all
    also have "\<dots> \<le> bits_value n'"
      unfolding bits_value_def using 2 by (intro f64_magnitude_bounds(2) [OF m(2)]) linarith
    finally show ?thesis
      by simp
  qed
qed

lemma bits_value_nonneg: "0 \<le> bits_value n"
  by (simp add: bits_value_def f64_magnitude_bounds(3))

lemma f64_value_bits:
  assumes "n \<le> f64_infinity_bits"
  shows "f64_value (F64 (word_of_nat (if s then 2 ^ 63 + n else n))) =
    (if n = f64_infinity_bits then Infinite s else Finite (if s then - bits_value n else bits_value n))"
proof -
  let ?x = "F64 (word_of_nat (if s then 2 ^ 63 + n else n))"
  have n: "n < 2 ^ 63"
    using assms by (simp add: f64_infinity_bits_def)
  then have "(if s then 2 ^ 63 + n else n) < 2 ^ LENGTH(64)"
    by simp
  then have unat: "unat (to_bits ?x) = (if s then 2 ^ 63 + n else n)"
    by (simp only: f64.sel unsigned_of_nat take_bit_nat_eq_self of_nat_id)
  have "unat (to_bits ?x) mod 2 ^ 63 = n"
    using n unfolding unat by simp
  then have e: "f64_exponent ?x = n div 2 ^ 52"
    by (simp only: f64_exponent_def)
  have f: "f64_fraction ?x = n mod 2 ^ 52"
    unfolding f64_fraction_def unat by (cases s) (simp_all add: mod_add_eq [symmetric] mod_add_left_eq)
  have sign: "f64_sign ?x = s"
    using n unfolding f64_sign_def unat by simp
  have inf: "n div 2 ^ 52 = 2047 \<longleftrightarrow> n = f64_infinity_bits"
    using assms unfolding f64_infinity_bits_def by auto
  have "f64_infinity_bits mod 2 ^ 52 = 0"
    by (simp add: f64_infinity_bits_def)
  then show ?thesis
    unfolding f64_value_def e f sign inf Let_def by (simp add: bits_value_def)
qed

subsection \<open>Order of rounded numbers\<close>

lemma f64_value_0 [simp]: "f64_value (f64_of_rat 0) = Finite 0"
  by (simp add: f64_of_rat_def f64_value_def f64_exponent_def f64_fraction_def f64_sign_def f64_magnitude_def)

lemma f64_value_of_rat:
  assumes "r \<noteq> 0"
  defines "n \<equiv> min (nearest_bits \<bar>r\<bar>) f64_infinity_bits"
  shows "f64_value (f64_of_rat r) =
    (if n = f64_infinity_bits then Infinite (r < 0) else Finite (if r < 0 then - bits_value n else bits_value n))"
  unfolding f64_of_rat_bits [OF assms(1)] n_def by (rule f64_value_bits) simp

lemma f64_of_rat_not_NaN: "f64_value (f64_of_rat r) \<noteq> NaN"
  by (cases "r = 0") (auto simp: f64_value_of_rat)

lemma f64_of_rat_mono:
  assumes "r \<le> s"
  shows "f64_le (f64_of_rat r) (f64_of_rat s)"
proof -
  let ?n = "\<lambda>r. min (nearest_bits \<bar>r\<bar>) f64_infinity_bits"
  have mono: "?n a \<le> ?n b" if "a \<noteq> 0" "\<bar>a\<bar> \<le> \<bar>b\<bar>" for a b
    using nearest_bits_mono [of "\<bar>a\<bar>" "\<bar>b\<bar>"] that by (simp add: min_le_iff_disj)
  have top: "?n a \<le> f64_infinity_bits" for a
    by simp
  consider "r = 0" "s = 0" | "r = 0" "0 < s" | "r < 0" "s = 0" | "r < 0" "0 < s" | "0 < r" "r \<le> s" | "r \<le> s" "s < 0"
    using assms by linarith
  then show ?thesis
  proof cases
    case 5
    then show ?thesis
      using mono [of r s] top [of r] top [of s] bits_value_mono [of "?n r" "?n s"]
      by (auto simp: f64_le_def f64_value_of_rat simp del: min.bounded_iff)
  next
    case 6
    then show ?thesis
      using mono [of s r] top [of r] top [of s] bits_value_mono [of "?n s" "?n r"]
      by (auto simp: f64_le_def f64_value_of_rat simp del: min.bounded_iff)
  qed (auto simp: f64_le_def f64_value_of_rat bits_value_nonneg
      intro: order_trans [OF _ bits_value_nonneg])
qed

text \<open>A \<open>u64\<close> is in range: the conversion never gives an infinity.\<close>

lemma u64_to_f64_finite: "\<exists>r. f64_value (u64_to_f64 n) = Finite r"
proof (cases "n = 0")
  case False
  let ?a = "of_nat (unat n) :: rat"
  have a: "0 < ?a"
    using False by (simp only: of_nat_0_less_iff unat_gt_0 not_False_eq_True)
  have "unat n < 2 ^ 64"
    by (rule order_less_le_trans [OF unsigned_less]) simp
  then have "?a < of_nat (2 ^ 64)"
    by (simp only: of_nat_less_iff)
  then have "pow2 (floor_log2 ?a) < pow2 64"
    using floor_log2_bounds(1) [OF a] pow2_nat [of 64] by simp
  then have "ulp_exponent ?a \<le> 11"
    by (simp add: pow2_less_iff ulp_exponent_def)
  then have "nearest_bits ?a \<le> nat (11 + 1074) * 2 ^ 52 + nat (2 ^ 53)"
    unfolding nearest_bits_def using scaled_bounds(2) [OF a]
    by (intro add_mono mult_right_mono nat_mono) simp_all
  then have "nearest_bits ?a < f64_infinity_bits"
    by (simp add: f64_infinity_bits_def)
  then show ?thesis
    using a by (simp add: u64_to_f64_def f64_value_of_rat min_def)
qed (simp add: u64_to_f64_def)

lemma u64_to_f64_mono: "m \<le> n \<Longrightarrow> f64_le (u64_to_f64 m) (u64_to_f64 n)"
  unfolding u64_to_f64_def by (rule f64_of_rat_mono) (simp only: of_nat_le_iff word_le_nat_alt)

subsection \<open>A fixed offset and the saturating conversion\<close>

lemma f64_round_as_u64_mono:
  assumes "f64_le x y" and "\<not> f64_le x (f64_of_rat 0)"
  shows "f64_round_as_u64 x \<le> f64_round_as_u64 y"
proof -
  have "u64_or_max (nat (round_half_away r)) \<le> u64_or_max (nat (round_half_away s))" if "0 < r" "r \<le> s" for r s
  proof -
    have "round_half_away r \<le> round_half_away s"
      using that by (simp add: round_half_away_def floor_mono)
    then have "nat (round_half_away r) \<le> nat (round_half_away s)"
      by (rule nat_mono)
    then show ?thesis
      by (auto simp: u64_or_max_def word_le_nat_alt unat_minus_1 unat_of_nat)
  qed
  then show ?thesis
    using assms by (auto simp: f64_le_def f64_round_as_u64_def split: f64_number.splits)
qed

text \<open>The composition the scheduler uses: subtract an offset, clamp at zero, round.\<close>

lemma offset_round_mono:
  fixes m n :: u64 and offset :: f64
  assumes "m \<le> n"
  defines "x \<equiv> f64_sub (u64_to_f64 m) offset" and "y \<equiv> f64_sub (u64_to_f64 n) offset"
  shows "(if f64_le x (f64_of_rat 0) then 0 else f64_round_as_u64 x) \<le>
    (if f64_le y (f64_of_rat 0) then 0 else f64_round_as_u64 y)"
proof -
  obtain a b where ab: "f64_value (u64_to_f64 m) = Finite a" "f64_value (u64_to_f64 n) = Finite b"
    using u64_to_f64_finite by metis
  have "a \<le> b"
    using u64_to_f64_mono [OF assms(1)] by (simp add: f64_le_def ab)
  show ?thesis
  proof (cases "f64_value offset")
    case (Finite r)
    have le: "f64_le x y"
      using \<open>a \<le> b\<close> unfolding x_def y_def by (simp add: f64_sub_def ab Finite f64_of_rat_mono)
    then have "f64_le y (f64_of_rat 0) \<Longrightarrow> f64_le x (f64_of_rat 0)"
      by (auto simp: f64_le_def split: f64_number.splits)
    then show ?thesis
      using f64_round_as_u64_mono [OF le] by auto
  qed (simp_all add: x_def y_def f64_sub_def ab)
qed

subsection \<open>Integers are exact\<close>

lemma nearest_bits_dyadic:
  assumes "0 < n" and "n < 2 ^ 53" and "j \<le> 900"
  defines "a \<equiv> of_nat n * pow2 (- int j)"
  shows "nearest_bits a < f64_infinity_bits" and "bits_value (nearest_bits a) = a"
proof -
  let ?k = "floor_log2 a"
  have a: "0 < a"
    using assms(1) pow2_pos by (simp add: a_def)
  note log = floor_log2_bounds [OF a]
  have "(of_nat n :: rat) < of_nat (2 ^ 53)"
    using assms(2) by (simp only: of_nat_less_iff)
  then have "a < pow2 53 * pow2 (- int j)"
    unfolding a_def using pow2_nat [of 53] pow2_pos by (intro mult_strict_right_mono) simp_all
  then have "pow2 ?k < pow2 (53 - int j)"
    using log(1) by (simp flip: pow2_add)
  then have k53: "?k < 53 - int j"
    by (simp only: pow2_less_iff)
  have "pow2 0 \<le> (of_nat n :: rat)"
    using assms(1) by simp
  then have "pow2 (- int j) \<le> a"
    unfolding a_def using pow2_pos [of "- int j"] by (simp add: pow2_0)
  then have "pow2 (- int j) < pow2 (?k + 1)"
    using log(2) by simp
  then have k0: "- int j \<le> ?k"
    by (simp only: pow2_less_iff)
  define m where "m = n * 2 ^ nat (52 - int j - ?k)"
  have e: "ulp_exponent a = ?k - 52"
    using k0 assms(3) by (simp add: ulp_exponent_def)
  have "pow2 (- int j) * pow2 (52 - ?k) = pow2 (int (nat (52 - int j - ?k)))"
    using k53 by (simp add: diff_right_commute flip: pow2_add)
  then have p: "pow2 (- int j) * pow2 (52 - ?k) = 2 ^ nat (52 - int j - ?k)"
    by (simp only: pow2_nat)
  have "a * pow2 (52 - ?k) = of_nat n * (pow2 (- int j) * pow2 (52 - ?k))"
    by (simp only: a_def mult.assoc)
  also have "\<dots> = of_nat m"
    unfolding p by (simp add: m_def)
  finally have scaled: "a * pow2 (52 - ?k) = of_nat m" .
  have "pow2 ?k * pow2 (52 - ?k) \<le> a * pow2 (52 - ?k)" "a * pow2 (52 - ?k) < pow2 (?k + 1) * pow2 (52 - ?k)"
    using log pow2_pos by (simp_all add: mult_strict_right_mono)
  then have "of_nat (2 ^ 52) \<le> (of_nat m :: rat)" "(of_nat m :: rat) < of_nat (2 ^ 53)"
    using pow2_nat [of 52] pow2_nat [of 53] unfolding scaled pow2_add [symmetric] by simp_all
  then have m: "2 ^ 52 \<le> m" "m < 2 ^ 53"
    by (simp_all only: of_nat_le_iff of_nat_less_iff)
  have "round_half_even (of_nat m) = int m"
    using round_half_even_int [of "int m"] by simp
  then have bits: "nearest_bits a = nat (?k + 1022) * 2 ^ 52 + m"
    using scaled by (simp add: nearest_bits_def e algebra_simps)
  have "nat (?k + 1022) \<le> 1074"
    using k53 by simp
  then have "nearest_bits a < 1074 * 2 ^ 52 + 2 ^ 53"
    unfolding bits using m by (intro add_le_less_mono mult_right_mono) simp_all
  then show "nearest_bits a < f64_infinity_bits"
    by (simp add: f64_infinity_bits_def)
  have bits': "nearest_bits a = nat (?k + 1023) * 2 ^ 52 + (m - 2 ^ 52)"
    using m(1) k0 assms(3) unfolding bits by (simp add: nat_add_distrib algebra_simps)
  have "m - 2 ^ 52 < 2 ^ 52"
    using m by simp
  then have "nearest_bits a div 2 ^ 52 = nat (?k + 1023)" "nearest_bits a mod 2 ^ 52 = m - 2 ^ 52"
    unfolding bits' by simp_all
  then have "bits_value (nearest_bits a) = of_nat m * pow2 (?k - 52)"
    using k0 m(1) assms(3) unfolding bits_value_def f64_magnitude_def by (simp add: of_nat_diff)
  also have "\<dots> = a * (pow2 (52 - ?k) * pow2 (?k - 52))"
    unfolding scaled [symmetric] by (simp only: mult.assoc)
  also have "\<dots> = a"
    by (simp flip: pow2_add)
  finally show "bits_value (nearest_bits a) = a" .
qed

lemma f64_of_dyadic_exact:
  assumes "\<bar>k\<bar> < 2 ^ 53" and "j \<le> 900"
  defines "r \<equiv> of_int k * pow2 (- int j)"
  shows "f64_value (f64_of_rat r) = Finite r"
proof (cases "k = 0")
  case False
  let ?n = "nat \<bar>k\<bar>"
  have n: "0 < ?n" "?n < 2 ^ 53"
    using False assms(1) by (simp_all add: nat_less_iff)
  have r: "r \<noteq> 0" "r < 0 \<longleftrightarrow> k < 0"
    using False pow2_pos [of "- int j"] by (simp_all add: r_def mult_less_0_iff)
  have abs: "of_nat ?n * pow2 (- int j) = \<bar>r\<bar>"
    using pow2_pos [of "- int j"] by (simp add: r_def abs_mult)
  define b where "b = nearest_bits \<bar>r\<bar>"
  have b: "b < f64_infinity_bits" "bits_value b = \<bar>r\<bar>"
    using nearest_bits_dyadic [OF n assms(2)] unfolding abs b_def by simp_all
  have "f64_value (f64_of_rat r) = Finite (if r < 0 then - bits_value b else bits_value b)"
    using f64_value_of_rat [OF r(1)] b(1) unfolding b_def [symmetric] by simp
  then show ?thesis
    using b(2) by simp
qed (simp add: r_def)

lemma f64_of_int_exact: "\<bar>k\<bar> < 2 ^ 53 \<Longrightarrow> f64_value (f64_of_rat (of_int k)) = Finite (of_int k)"
  using f64_of_dyadic_exact [of k 0] by simp

lemma f64_of_half_exact: "\<bar>k\<bar> < 2 ^ 53 \<Longrightarrow> f64_value (f64_of_rat (of_int k / 2)) = Finite (of_int k / 2)"
  using f64_of_dyadic_exact [of k 1] by (simp add: pow2_def)

lemma f64_of_nat_exact: "n < 2 ^ 53 \<Longrightarrow> f64_value (f64_of_rat (of_nat n)) = Finite (of_nat n)"
  using f64_of_int_exact [of "int n"] by simp

lemma offset_round_exact:
  fixes n :: u64
  assumes "unat n < 2 ^ 52" and "\<bar>k\<bar> < 2 ^ 52"
  defines "x \<equiv> f64_sub (u64_to_f64 n) (f64_of_rat (of_int k))"
  shows "(if f64_le x (f64_of_rat 0) then 0 else f64_round_as_u64 x) = u64_or_max (nat (int (unat n) - k))"
proof -
  define N where "N = unat n"
  define d where "d = int N - k"
  have N: "N < 2 ^ 52"
    using assms(1) by (simp add: N_def)
  then have d: "\<bar>d\<bar> < 2 ^ 53"
    using assms(2) by (simp add: d_def)
  have "x = f64_of_rat (of_nat N - of_int k)"
    using N assms(2) unfolding x_def f64_sub_def u64_to_f64_def N_def [symmetric]
    by (simp add: f64_of_nat_exact f64_of_int_exact)
  then have x: "f64_value x = Finite (of_int d)"
    using f64_of_int_exact [OF d] by (simp add: d_def)
  have "round_half_away (of_int d) = d"
    by (simp add: round_half_away_def) linarith
  then show ?thesis
    by (auto simp: f64_le_def f64_round_as_u64_def x u64_or_max_def N_def [symmetric] d_def [symmetric])
qed

end
