(* ===== verification/Playback_Scheduler.thy ===== *)
theory Playback_Scheduler
  imports Jitter_Buffer Concealment Packetizer F64_Order
begin

section \<open>The playback scheduler\<close>

text \<open>
  \<open>audio/scheduler\<close>: the jitter buffer and the concealment policy on the host's presentation
  timeline. \<open>poll_with_release_horizon\<close> is one tick; the other operations are the controls of a
  listener. The loop of \<open>discard_already_late_head\<close> is a \<open>function\<close> whose termination holds for
  every state: a discarded packet leaves the buffer, and a skipped slot brings the next expected
  sequence one step (modulo \<open>2 ^ 64\<close>) closer to the earliest buffered one.
\<close>

subsection \<open>Configuration\<close>

definition DEFAULT_STARTUP_BUFFER_TARGET_MS :: u64 where "DEFAULT_STARTUP_BUFFER_TARGET_MS = 400"
definition DEFAULT_REBUFFER_TARGET_MS :: u64 where "DEFAULT_REBUFFER_TARGET_MS = 400"
definition DEFAULT_LOW_WATER_MS :: u64 where "DEFAULT_LOW_WATER_MS = 200"
definition DEFAULT_HIGH_WATER_MS :: u64 where "DEFAULT_HIGH_WATER_MS = 700"
definition DEFAULT_HARD_RESYNC_THRESHOLD_MS :: f64 where
  "DEFAULT_HARD_RESYNC_THRESHOLD_MS = f64_of_rat 120"
definition DEFAULT_CONCEALMENT_BRIDGE_MS :: u32 where "DEFAULT_CONCEALMENT_BRIDGE_MS = 500"
definition DEFAULT_CONCEALMENT_SKIP_THRESHOLD_MS :: u32 where "DEFAULT_CONCEALMENT_SKIP_THRESHOLD_MS = 200"
definition DEFAULT_REORDER_WINDOW_MS :: u32 where "DEFAULT_REORDER_WINDOW_MS = 1280"

text \<open>The two products fit a \<open>u64\<close>, so they are taken as numbers.\<close>

definition packets_spanning :: "u32 \<Rightarrow> u32 \<Rightarrow> u32 \<Rightarrow> u32" where
  "packets_spanning duration_ms sample_rate samples_per_packet =
     (if sample_rate = 0 \<or> samples_per_packet = 0 then 1
      else
        let numerator = unat duration_ms * unat sample_rate;
            denominator = unat samples_per_packet * 1000;
            packets = numerator div denominator in
        if packets = 0 then 1
        else if packets > 2 ^ 32 - 1 then - 1
        else word_of_nat packets)"

record scheduler_config =
  sc_session_id :: session_id
  sc_stream_id :: stream_id
  sc_sample_rate :: u32
  sc_host_start_time_ms :: u64
  sc_first_sequence :: u64
  sc_samples_per_packet :: u32
  sc_channels :: u16
  sc_startup_buffer_target_ms :: u64
  sc_rebuffer_target_ms :: u64
  sc_low_water_ms :: u64
  sc_high_water_ms :: u64
  sc_hard_resync_threshold_ms :: f64
  sc_max_consecutive_concealed_packets :: u32
  sc_concealment_ramp_ms :: u32
  sc_concealment_skip_threshold_packets :: u32
  sc_max_reorder_window :: u32
  sc_max_buffered_duration_ms :: u64

definition scheduler_config_new ::
    "session_id \<Rightarrow> stream_id \<Rightarrow> u32 \<Rightarrow> u64 \<Rightarrow> u32 \<Rightarrow> u16 \<Rightarrow> scheduler_config" where
  "scheduler_config_new session_id stream_id sample_rate host_start_time_ms samples_per_packet channels =
     \<lparr>sc_session_id = session_id, sc_stream_id = stream_id, sc_sample_rate = sample_rate,
      sc_host_start_time_ms = host_start_time_ms, sc_first_sequence = 0,
      sc_samples_per_packet = samples_per_packet, sc_channels = channels,
      sc_startup_buffer_target_ms = DEFAULT_STARTUP_BUFFER_TARGET_MS,
      sc_rebuffer_target_ms = DEFAULT_REBUFFER_TARGET_MS,
      sc_low_water_ms = DEFAULT_LOW_WATER_MS, sc_high_water_ms = DEFAULT_HIGH_WATER_MS,
      sc_hard_resync_threshold_ms = DEFAULT_HARD_RESYNC_THRESHOLD_MS,
      sc_max_consecutive_concealed_packets =
        packets_spanning DEFAULT_CONCEALMENT_BRIDGE_MS sample_rate samples_per_packet,
      sc_concealment_ramp_ms = DEFAULT_CONCEALMENT_RAMP_MS,
      sc_concealment_skip_threshold_packets =
        packets_spanning DEFAULT_CONCEALMENT_SKIP_THRESHOLD_MS sample_rate samples_per_packet,
      sc_max_reorder_window = packets_spanning DEFAULT_REORDER_WINDOW_MS sample_rate samples_per_packet,
      sc_max_buffered_duration_ms = DEFAULT_MAX_BUFFERED_DURATION_MS\<rparr>"

datatype scheduler_config_error_kind =
    InvalidPacketDuration
  | InvalidSamplesPerPacket
  | InvalidWaterMarks
  | InvalidHardResyncThreshold
  | InvalidJitterBufferBounds
  | InvalidConcealmentBound
  | InvalidConcealmentSkipThreshold
  | InvalidConcealmentRamp

definition validate_scheduler_config :: "scheduler_config \<Rightarrow> scheduler_config_error_kind + unit" where
  "validate_scheduler_config config =
     (if sc_sample_rate config = 0 then Inl InvalidPacketDuration
      else if sc_samples_per_packet config = 0 then Inl InvalidSamplesPerPacket
      else
        let packet_time_numerator = unat (sc_samples_per_packet config) * 1000;
            minimum_time_numerator = unat MIN_PACKET_DURATION_MS * unat (sc_sample_rate config);
            maximum_time_numerator = unat MAX_PACKET_DURATION_MS * unat (sc_sample_rate config) in
        if packet_time_numerator < minimum_time_numerator \<or> packet_time_numerator > maximum_time_numerator
        then Inl InvalidPacketDuration
        else if sc_low_water_ms config \<ge> sc_high_water_ms config then Inl InvalidWaterMarks
        else if f64_le (sc_hard_resync_threshold_ms config) (f64_of_rat 0) then Inl InvalidHardResyncThreshold
        else if sc_concealment_skip_threshold_packets config \<ge> sc_max_reorder_window config
        then Inl InvalidConcealmentSkipThreshold
        else Inr ())"

subsection \<open>State\<close>

datatype playback_phase = PhaseBuffering | PhasePlaying | PhaseAwaitingRebuffer | PhaseStopped

datatype buffer_health_level = Low | Normal | High

record scheduled_frame =
  sf_sequence :: u64
  sf_first_sample_index :: u64
  sf_host_presentation_time_ms :: u64
  sf_samples :: "i16 list"
  sf_concealed :: bool

datatype scheduler_poll =
    Buffering (buffered_ms: u64)
  | Frame (poll_frame: scheduled_frame) (poll_health: buffer_health_level)
  | Waiting (poll_health: buffer_health_level)
  | AwaitingRebuffer
  | Stopped

datatype offset_update_outcome = SoftCorrected | OffsetHardResyncRequired

datatype scheduler_state = StBuffering | StPlaying | StAwaitingRebuffer | StStopped

datatype buffer_target_progress = Accumulating | Satisfied

record playback_scheduler =
  ps_config :: scheduler_config
  ps_jitter_buffer :: jitter_buffer
  ps_concealment :: concealment_policy
  ps_state :: scheduler_state
  ps_offset_ms :: f64
  ps_ramp_frames :: usize
  ps_fade_in_next_real_frame :: bool
  ps_last_emitted_tail :: "i16 list"
  ps_resume_from_silence :: bool
  ps_has_played :: bool
  ps_buffer_target_progress :: buffer_target_progress

definition playback_scheduler_new ::
    "scheduler_config \<Rightarrow> f64 \<Rightarrow> scheduler_config_error_kind + playback_scheduler" where
  "playback_scheduler_new config initial_offset_ms =
     try_bind (validate_scheduler_config config) (\<lambda>_.
     try_bind (map_err (\<lambda>_. InvalidJitterBufferBounds) (jitter_buffer_new
         \<lparr>jbc_session_id = sc_session_id config, jbc_stream_id = sc_stream_id config,
          jbc_first_sequence = sc_first_sequence config,
          jbc_max_reorder_window = sc_max_reorder_window config,
          jbc_max_buffered_duration_ms = sc_max_buffered_duration_ms config\<rparr>)) (\<lambda>jitter_buffer.
     let ramp_frames = max (u32_or_max (unat (sc_sample_rate config) * unat (sc_concealment_ramp_ms config) div 1000)) 1 in
     if ramp_frames \<ge> sc_samples_per_packet config then Inl InvalidConcealmentRamp
     else
       try_bind (map_err (\<lambda>_. InvalidConcealmentBound)
           (concealment_policy_new (sc_max_consecutive_concealed_packets config) ramp_frames)) (\<lambda>concealment.
       Inr \<lparr>ps_config = config, ps_jitter_buffer = jitter_buffer, ps_concealment = concealment,
            ps_state = StBuffering, ps_offset_ms = initial_offset_ms, ps_ramp_frames = unat ramp_frames,
            ps_fade_in_next_real_frame = True, ps_last_emitted_tail = [], ps_resume_from_silence = True,
            ps_has_played = False, ps_buffer_target_progress = Accumulating\<rparr>)))"

subsection \<open>The timeline\<close>

definition host_to_local_ms :: "u64 \<Rightarrow> f64 \<Rightarrow> u64" where
  "host_to_local_ms host_time_ms offset_ms =
     (let local_ms = f64_sub (u64_to_f64 host_time_ms) offset_ms in
      if f64_le local_ms (f64_of_rat 0) then 0 else f64_round_as_u64 local_ms)"

text \<open>With a whole-millisecond offset the conversion is exact; a zero offset is the identity.\<close>

lemma host_to_local_ms_exact:
  assumes "unat host_time_ms < 2 ^ 52" and "\<bar>k\<bar> < 2 ^ 52"
  shows "host_to_local_ms host_time_ms (f64_of_rat (of_int k)) = u64_or_max (nat (int (unat host_time_ms) - k))"
  unfolding host_to_local_ms_def Let_def by (rule offset_round_exact [OF assms])

lemma host_to_local_ms_zero:
  assumes "unat host_time_ms < 2 ^ 52"
  shows "host_to_local_ms host_time_ms (F64 0) = host_time_ms"
proof -
  have "F64 0 = f64_of_rat (of_int 0)"
    by (simp add: f64_of_rat_def)
  then show ?thesis
    using host_to_local_ms_exact [OF assms, of 0] by (simp add: u64_or_max_def assms order_less_trans [OF assms])
qed

lemma host_to_local_ms_code [code]:
  "host_to_local_ms host_time_ms offset_ms =
     (if offset_ms = F64 0 \<and> unat host_time_ms < 4503599627370496 then host_time_ms
      else let local_ms = f64_sub (u64_to_f64 host_time_ms) offset_ms in
        if f64_le local_ms (f64_of_rat 0) then 0 else f64_round_as_u64 local_ms)"
proof (cases "offset_ms = F64 0 \<and> unat host_time_ms < 4503599627370496")
  case True
  then show ?thesis
    by (simp add: host_to_local_ms_zero)
next
  case False
  then show ?thesis
    unfolding host_to_local_ms_def by (simp only: if_False)
qed

definition submit_packet ::
    "playback_scheduler \<Rightarrow> audio_datagram \<Rightarrow> (jitter_buffer_rejection_kind + unit) \<times> playback_scheduler" where
  "submit_packet self datagram =
     (let (r, jb) = jb_accept (ps_jitter_buffer self) datagram in (r, self\<lparr>ps_jitter_buffer := jb\<rparr>))"

definition buffer_health :: "playback_scheduler \<Rightarrow> buffer_health_level" where
  "buffer_health self =
     (let span = buffered_span_ms (ps_jitter_buffer self) in
      if span < sc_low_water_ms (ps_config self) then Low
      else if span > sc_high_water_ms (ps_config self) then High
      else Normal)"

definition expected_host_presentation_time_ms :: "playback_scheduler \<Rightarrow> u64 \<Rightarrow> u64" where
  "expected_host_presentation_time_ms self sequence =
     (let sample_index = unat sequence * unat (sc_samples_per_packet (ps_config self));
          elapsed_ms = sample_index * 1000 div unat (sc_sample_rate (ps_config self)) in
      saturating_add (sc_host_start_time_ms (ps_config self)) (u64_or_max elapsed_ms))"

definition expected_first_sample_index :: "playback_scheduler \<Rightarrow> u64 \<Rightarrow> u64" where
  "expected_first_sample_index self sequence =
     saturating_mul sequence (ucast (sc_samples_per_packet (ps_config self)))"

text \<open>The deadline of a sequence on the listener's clock, as every caller composes it.\<close>

definition local_deadline_ms :: "playback_scheduler \<Rightarrow> u64 \<Rightarrow> u64" where
  "local_deadline_ms self sequence =
     host_to_local_ms (expected_host_presentation_time_ms self sequence) (ps_offset_ms self)"

definition local_time_for_host_ms :: "playback_scheduler \<Rightarrow> u64 \<Rightarrow> u64" where
  "local_time_for_host_ms self host_time_ms = host_to_local_ms host_time_ms (ps_offset_ms self)"

definition remember_emitted_tail :: "playback_scheduler \<Rightarrow> i16 list \<Rightarrow> usize \<Rightarrow> playback_scheduler" where
  "remember_emitted_tail self samples channels =
     self\<lparr>ps_last_emitted_tail := (case last_frame samples channels of Some tail \<Rightarrow> tail | None \<Rightarrow> [])\<rparr>"

subsection \<open>Discarding slots that are already late\<close>

definition drop_late_slot :: "playback_scheduler \<Rightarrow> playback_scheduler" where
  "drop_late_slot self =
     (let jb = ps_jitter_buffer self in
      self\<lparr>ps_jitter_buffer :=
             (if peek_next_sequence jb = Some (jb_next_expected_sequence jb)
              then snd (discard_in_order jb) else skip_expected_sequence jb),
           ps_fade_in_next_real_frame := True\<rparr>)"

lemma distance_decreases: "(a::u64) \<noteq> b \<Longrightarrow> unat (a - (b + 1)) < unat (a - b)"
proof -
  assume "a \<noteq> b"
  then have "a - b \<noteq> 0"
    by simp
  then have "unat (a - b - 1) < unat (a - b)"
    by (simp add: unat_minus_one unat_gt_0)
  then show ?thesis
    by (simp add: diff_diff_eq)
qed

function discard_already_late_head :: "playback_scheduler \<Rightarrow> u64 \<Rightarrow> playback_scheduler" where
  "discard_already_late_head self local_now_ms =
     (if jb_is_empty (ps_jitter_buffer self) then self
      else
        let sequence = jb_next_expected_sequence (ps_jitter_buffer self);
            deadline_ms = local_deadline_ms self sequence in
        if deadline_ms \<ge> local_now_ms then self
        else discard_already_late_head (drop_late_slot self) local_now_ms)"
  by pat_completeness auto

termination
proof (relation "measures [\<lambda>(self, now). length (jb_packets (ps_jitter_buffer self)),
    \<lambda>(self, now). unat (fst (hd (jb_packets (ps_jitter_buffer self))) - jb_next_expected_sequence (ps_jitter_buffer self))]")
  fix self :: playback_scheduler and local_now_ms sequence deadline_ms :: u64
  let ?jb = "ps_jitter_buffer self"
  assume "\<not> jb_is_empty ?jb"
  then obtain e es where e: "jb_packets ?jb = e # es"
    by (auto simp: jb_is_empty_def neq_Nil_conv)
  show "((drop_late_slot self, local_now_ms), (self, local_now_ms)) \<in> measures
      [\<lambda>(self, now). length (jb_packets (ps_jitter_buffer self)),
       \<lambda>(self, now). unat (fst (hd (jb_packets (ps_jitter_buffer self))) - jb_next_expected_sequence (ps_jitter_buffer self))]"
  proof (cases "fst e = jb_next_expected_sequence ?jb")
    case True
    have "length (bt_remove (fst e) (e # es)) < length (e # es)"
      by (auto simp: bt_remove_def le_imp_less_Suc)
    then show ?thesis
      using True e by (auto simp: drop_late_slot_def Let_def peek_next_sequence_def bt_first_key_def discard_in_order_def
          bt_contains_key_def bt_get_def split: prod.splits)
  next
    case False
    then show ?thesis
      using distance_decreases [OF False] e
      by (auto simp: drop_late_slot_def Let_def peek_next_sequence_def bt_first_key_def skip_expected_sequence_def
          split: prod.splits)
  qed
qed simp

declare discard_already_late_head.simps [simp del]

subsection \<open>One tick\<close>

definition advance_buffering :: "playback_scheduler \<Rightarrow> u64 \<Rightarrow> scheduler_poll option \<times> playback_scheduler" where
  "advance_buffering self local_now_ms =
     (let buffered_ms = buffered_span_ms (ps_jitter_buffer self);
          target = (if ps_has_played self
                    then min (sc_rebuffer_target_ms (ps_config self)) (sc_startup_buffer_target_ms (ps_config self))
                    else sc_startup_buffer_target_ms (ps_config self)) in
      if ps_buffer_target_progress self = Accumulating \<and> buffered_ms < target
      then (Some (Buffering buffered_ms), self)
      else
        let self = self\<lparr>ps_buffer_target_progress := Satisfied\<rparr>;
            self = discard_already_late_head self local_now_ms in
        if target > 0 \<and> jb_is_empty (ps_jitter_buffer self) then (Some (Buffering 0), self)
        else (None, self\<lparr>ps_state := StPlaying, ps_has_played := True,
                         ps_buffer_target_progress := Accumulating\<rparr>))"

text \<open>The two ways to fill the slot that is due: the packet that arrived, or a concealed frame.\<close>

definition emit_real :: "playback_scheduler \<Rightarrow> audio_datagram \<Rightarrow> scheduler_poll \<times> playback_scheduler" where
  "emit_real self datagram =
     (let samples = decode_payload_samples (ad_payload datagram);
          self = self\<lparr>ps_concealment := record_delivery (ps_concealment self) samples (sc_channels (ps_config self))\<rparr>;
          channels = unat (sc_channels (ps_config self));
          (samples, self) =
            (if ps_fade_in_next_real_frame self
             then let continues_from = (if ps_resume_from_silence self then [] else ps_last_emitted_tail self) in
               (apply_blend_in channels (ps_ramp_frames self) continues_from samples,
                self\<lparr>ps_fade_in_next_real_frame := False, ps_resume_from_silence := False\<rparr>)
             else (samples, self));
          self = remember_emitted_tail self samples channels;
          frame = \<lparr>sf_sequence = ad_sequence datagram, sf_first_sample_index = ad_first_sample_index datagram,
                   sf_host_presentation_time_ms = ad_host_presentation_time_ms datagram,
                   sf_samples = samples, sf_concealed = False\<rparr> in
      (Frame frame (buffer_health self), self))"

definition emit_concealed :: "playback_scheduler \<Rightarrow> scheduler_poll \<times> playback_scheduler" where
  "emit_concealed self =
     (let next_sequence = jb_next_expected_sequence (ps_jitter_buffer self);
          host_deadline_ms = expected_host_presentation_time_ms self next_sequence;
          ((samples, outcome), concealment) =
            conceal (ps_concealment self) (sc_samples_per_packet (ps_config self)) (sc_channels (ps_config self));
          self = self\<lparr>ps_concealment := concealment,
                      ps_jitter_buffer := skip_expected_sequence (ps_jitter_buffer self),
                      ps_fade_in_next_real_frame := True\<rparr>;
          self = remember_emitted_tail self samples (unat (sc_channels (ps_config self))) in
      case outcome of
        Concealed \<Rightarrow>
          (Frame \<lparr>sf_sequence = next_sequence,
                  sf_first_sample_index = expected_first_sample_index self next_sequence,
                  sf_host_presentation_time_ms = host_deadline_ms, sf_samples = samples,
                  sf_concealed = True\<rparr> (buffer_health self), self)
      | HardResyncRequired \<Rightarrow>
          (AwaitingRebuffer, self\<lparr>ps_state := StAwaitingRebuffer, ps_resume_from_silence := True\<rparr>))"

definition emit_slot :: "playback_scheduler \<Rightarrow> scheduler_poll \<times> playback_scheduler" where
  "emit_slot self =
     (case pop_in_order (ps_jitter_buffer self) of
        (Some datagram, jb) \<Rightarrow> emit_real (self\<lparr>ps_jitter_buffer := jb\<rparr>) datagram
      | (None, _) \<Rightarrow> emit_concealed self)"

definition skip_wide_gap :: "playback_scheduler \<Rightarrow> playback_scheduler" where
  "skip_wide_gap self =
     self\<lparr>ps_jitter_buffer := snd (skip_to_earliest_buffered (ps_jitter_buffer self)),
          ps_concealment := reset_consecutive_count (ps_concealment self),
          ps_fade_in_next_real_frame := True\<rparr>"

definition poll_playing :: "playback_scheduler \<Rightarrow> u64 \<Rightarrow> scheduler_poll \<times> playback_scheduler" where
  "poll_playing self local_release_horizon_ms =
     (if local_release_horizon_ms < local_deadline_ms self (jb_next_expected_sequence (ps_jitter_buffer self))
      then (Waiting (buffer_health self), self)
      else if missing_sequence_count (ps_jitter_buffer self) > ucast (sc_concealment_skip_threshold_packets (ps_config self))
      then
        let self = skip_wide_gap self in
        if local_release_horizon_ms < local_deadline_ms self (jb_next_expected_sequence (ps_jitter_buffer self))
        then (Waiting (buffer_health self), self)
        else emit_slot self
      else emit_slot self)"

definition poll_with_release_horizon ::
    "playback_scheduler \<Rightarrow> u64 \<Rightarrow> u64 \<Rightarrow> scheduler_poll \<times> playback_scheduler" where
  "poll_with_release_horizon self local_now_ms local_release_horizon_ms =
     (let local_release_horizon_ms = max local_release_horizon_ms local_now_ms in
      case ps_state self of
        StStopped \<Rightarrow> (Stopped, self)
      | StAwaitingRebuffer \<Rightarrow> (AwaitingRebuffer, self)
      | StBuffering \<Rightarrow>
          (case advance_buffering self local_now_ms of
             (Some p, self) \<Rightarrow> (p, self)
           | (None, self) \<Rightarrow> poll_playing self local_release_horizon_ms)
      | StPlaying \<Rightarrow> poll_playing self local_release_horizon_ms)"

definition poll :: "playback_scheduler \<Rightarrow> u64 \<Rightarrow> scheduler_poll \<times> playback_scheduler" where
  "poll self local_now_ms = poll_with_release_horizon self local_now_ms local_now_ms"

subsection \<open>Draining and controls\<close>

text \<open>One round of the loop in \<open>drain_remaining\<close>, on \<open>(expected_next, fade_in_next, blend_from, frames)\<close>.\<close>

definition fade_last :: "usize \<Rightarrow> usize \<Rightarrow> scheduled_frame list \<Rightarrow> scheduled_frame list" where
  "fade_last channels ramp frames =
     (if frames = [] then []
      else butlast frames @ [last frames\<lparr>sf_samples := apply_fade_out_tail channels ramp (sf_samples (last frames))\<rparr>])"

type_synonym drain_state = "u64 \<times> bool \<times> i16 list \<times> scheduled_frame list"

definition drain_frame :: "usize \<Rightarrow> usize \<Rightarrow> audio_datagram \<Rightarrow> drain_state \<Rightarrow> drain_state" where
  "drain_frame channels ramp datagram st =
     (let (expected_next, fade_in_next, blend_from, frames) = st;
          sequence = ad_sequence datagram;
          (fade_in_next, blend_from, frames) =
            (if sequence > expected_next then (True, [], fade_last channels ramp frames)
             else (fade_in_next, blend_from, frames));
          samples = decode_payload_samples (ad_payload datagram);
          (samples, fade_in_next, blend_from) =
            (if fade_in_next then (apply_blend_in channels ramp blend_from samples, False, [])
             else (samples, fade_in_next, blend_from)) in
      (sequence + 1, fade_in_next, blend_from,
       frames @ [\<lparr>sf_sequence = sequence, sf_first_sample_index = ad_first_sample_index datagram,
                  sf_host_presentation_time_ms = ad_host_presentation_time_ms datagram,
                  sf_samples = samples, sf_concealed = False\<rparr>]))"

definition drain_remaining :: "playback_scheduler \<Rightarrow> scheduled_frame list \<times> playback_scheduler" where
  "drain_remaining self =
     (let channels = unat (sc_channels (ps_config self));
          ramp = ps_ramp_frames self;
          blend_from = (if ps_resume_from_silence self then [] else ps_last_emitted_tail self);
          (drained, jb) = drain_all (ps_jitter_buffer self);
          (_, _, _, frames) = fold (drain_frame channels ramp) drained
            (jb_next_expected_sequence (ps_jitter_buffer self), ps_fade_in_next_real_frame self, blend_from, []) in
      (fade_last channels ramp frames,
       self\<lparr>ps_jitter_buffer := jb, ps_fade_in_next_real_frame := True, ps_resume_from_silence := True,
            ps_last_emitted_tail := []\<rparr>))"

definition realign_to_now :: "playback_scheduler \<Rightarrow> u64 \<Rightarrow> playback_scheduler" where
  "realign_to_now self local_now_ms =
     (let self = discard_already_late_head self local_now_ms in
      self\<lparr>ps_concealment := reset_consecutive_count (ps_concealment self),
           ps_fade_in_next_real_frame := True, ps_resume_from_silence := True, ps_last_emitted_tail := []\<rparr>)"

definition apply_offset_update :: "playback_scheduler \<Rightarrow> f64 \<Rightarrow> offset_update_outcome \<times> playback_scheduler" where
  "apply_offset_update self new_offset_ms =
     (let delta_ms = f64_abs (f64_sub new_offset_ms (ps_offset_ms self));
          self = self\<lparr>ps_offset_ms := new_offset_ms\<rparr> in
      if f64_less (sc_hard_resync_threshold_ms (ps_config self)) delta_ms
      then (OffsetHardResyncRequired, self\<lparr>ps_state := StAwaitingRebuffer\<rparr>)
      else (SoftCorrected, self))"

definition rebuffer :: "playback_scheduler \<Rightarrow> f64 \<Rightarrow> playback_scheduler" where
  "rebuffer self new_offset_ms =
     self\<lparr>ps_offset_ms := new_offset_ms, ps_concealment := reset_consecutive_count (ps_concealment self),
          ps_state := StBuffering, ps_buffer_target_progress := Accumulating,
          ps_fade_in_next_real_frame := True, ps_resume_from_silence := True\<rparr>"

definition set_host_start_time_ms :: "playback_scheduler \<Rightarrow> u64 \<Rightarrow> playback_scheduler" where
  "set_host_start_time_ms self host_start_time_ms =
     self\<lparr>ps_config := (ps_config self)\<lparr>sc_host_start_time_ms := host_start_time_ms\<rparr>\<rparr>"

definition scheduler_stop :: "playback_scheduler \<Rightarrow> playback_scheduler" where
  "scheduler_stop self = self\<lparr>ps_state := StStopped\<rparr>"

definition is_stopped :: "playback_scheduler \<Rightarrow> bool" where
  "is_stopped self \<longleftrightarrow> ps_state self = StStopped"

definition is_awaiting_rebuffer :: "playback_scheduler \<Rightarrow> bool" where
  "is_awaiting_rebuffer self \<longleftrightarrow> ps_state self = StAwaitingRebuffer"

definition phase :: "playback_scheduler \<Rightarrow> playback_phase" where
  "phase self =
     (case ps_state self of
        StBuffering \<Rightarrow> PhaseBuffering
      | StPlaying \<Rightarrow> PhasePlaying
      | StAwaitingRebuffer \<Rightarrow> PhaseAwaitingRebuffer
      | StStopped \<Rightarrow> PhaseStopped)"

subsection \<open>The scheduler drives its buffer through admissible calls\<close>

text \<open>The buffer's part of the scheduler's invariant; \<open>B\<close> bounds the sequence numbers submitted.\<close>

definition jb_ok :: "nat \<Rightarrow> jitter_buffer \<Rightarrow> bool" where
  "jb_ok B jb \<longleftrightarrow> jb_inv jb \<and> jb_below B jb \<and> jbc_max_reorder_window (jb_config jb) > 0"

definition jb_moved :: "nat \<Rightarrow> jitter_buffer \<Rightarrow> jitter_buffer \<Rightarrow> bool" where
  "jb_moved B jb jb' \<longleftrightarrow> jb_ok B jb' \<and> jb_config jb' = jb_config jb \<and>
     jb_next_expected_sequence jb \<le> jb_next_expected_sequence jb' \<and>
     unat (jb_next_expected_sequence jb') \<le> max B (unat (jb_next_expected_sequence jb))"

lemma jb_moved_refl: "jb_ok B jb \<Longrightarrow> jb_moved B jb jb"
  by (simp add: jb_moved_def)

lemma jb_moved_trans: "jb_moved B jb jb' \<Longrightarrow> jb_moved B jb' jb'' \<Longrightarrow> jb_moved B jb jb''"
  by (auto simp: jb_moved_def)

lemma jb_ok_call:
  assumes "jb_ok B jb" and "max B (unat (jb_next_expected_sequence jb)) + 1 < 2 ^ 64"
    and "jb_call_ok jb c" and "\<forall>d. c = CallAccept d \<longrightarrow> unat (ad_sequence d) < B"
    and "jb_perform jb c = (emitted, jb')"
  shows "jb_ok B jb'" and "jb_config jb' = jb_config jb" and "jb_advances B jb emitted jb'"
proof -
  have "jb_advances B jb emitted jb' \<and> jb_below B jb'"
    using assms by (intro advances_perform) (auto simp: jb_ok_def)
  then show "jb_ok B jb'" "jb_config jb' = jb_config jb" "jb_advances B jb emitted jb'"
    using assms jb_inv_perform [OF _ assms(3,5)] jb_config_perform [OF assms(5)] by (auto simp: jb_ok_def)
qed

text \<open>The earliest packet of a buffer in order.\<close>

lemma first_key_facts:
  assumes "jb_ok B jb" and "bt_first_key (jb_packets jb) = Some k"
  shows "jb_next_expected_sequence jb \<le> k" and "unat k < B"
    and "bt_contains_key (jb_packets jb) (jb_next_expected_sequence jb) \<longleftrightarrow> k = jb_next_expected_sequence jb"
proof -
  have inv: "jb_inv jb" and below: "jb_below B jb" and wf: "bt_wf (jb_packets jb)"
    using assms(1) by (auto simp: jb_ok_def jb_inv_def)
  have k: "k \<in> fst ` set (jb_packets jb)"
    using bt_first_key_in [OF assms(2)] .
  then show ge: "jb_next_expected_sequence jb \<le> k" and "unat k < B"
    using inv jb_belowD [OF below k] by (auto simp: jb_inv_def)
  have "k \<le> jb_next_expected_sequence jb" if "jb_next_expected_sequence jb \<in> fst ` set (jb_packets jb)"
    using that bt_first_key_least [OF wf assms(2)] by auto
  then show "bt_contains_key (jb_packets jb) (jb_next_expected_sequence jb) \<longleftrightarrow> k = jb_next_expected_sequence jb"
    using k ge btree.keys_lookup [OF wf] by (auto simp: bt_contains_key_def)
qed

lemma drop_late_slot_moved:
  assumes "jb_ok B (ps_jitter_buffer self)" and "B + 1 < 2 ^ 64" and "\<not> jb_is_empty (ps_jitter_buffer self)"
  shows "jb_moved B (ps_jitter_buffer self) (ps_jitter_buffer (drop_late_slot self))"
proof -
  let ?jb = "ps_jitter_buffer self"
  let ?n = "jb_next_expected_sequence ?jb"
  obtain k where k: "bt_first_key (jb_packets ?jb) = Some k"
    using assms(3) by (cases "jb_packets ?jb") (auto simp: jb_is_empty_def bt_first_key_def)
  note facts = first_key_facts [OF assms(1) k]
  have n: "unat ?n < B"
    using facts(1,2) by (auto simp: word_le_nat_alt)
  define c where "c = (if k = ?n then CallDiscard else CallSkip)"
  have perform: "jb_perform ?jb c = ([], ps_jitter_buffer (drop_late_slot self))"
    using k by (simp add: c_def drop_late_slot_def Let_def peek_next_sequence_def)
  have "jb_call_ok ?jb c"
    using facts(3) by (simp add: jb_call_ok_def c_def)
  then have step: "jb_ok B (ps_jitter_buffer (drop_late_slot self))"
    "jb_config (ps_jitter_buffer (drop_late_slot self)) = jb_config ?jb"
    "jb_advances B ?jb [] (ps_jitter_buffer (drop_late_slot self))"
    using jb_ok_call [OF assms(1) _ _ _ perform] assms(2) n by (auto simp: c_def)
  then show ?thesis
    using n by (auto simp: jb_moved_def jb_advances_def)
qed

lemma discard_already_late_head_spec:
  assumes "jb_ok B (ps_jitter_buffer self)" and "B + 1 < 2 ^ 64"
  shows "jb_moved B (ps_jitter_buffer self) (ps_jitter_buffer (discard_already_late_head self now)) \<and>
    (\<exists>jb fade. discard_already_late_head self now = self\<lparr>ps_jitter_buffer := jb, ps_fade_in_next_real_frame := fade\<rparr>) \<and>
    (let self' = discard_already_late_head self now in
     jb_is_empty (ps_jitter_buffer self') \<or>
     now \<le> local_deadline_ms self' (jb_next_expected_sequence (ps_jitter_buffer self')))"
  using assms
proof (induction self now rule: discard_already_late_head.induct)
  case (1 self now)
  let ?jb = "ps_jitter_buffer self"
  consider (stop) "jb_is_empty ?jb \<or> now \<le> local_deadline_ms self (jb_next_expected_sequence ?jb)"
    | (go) "\<not> jb_is_empty ?jb" "\<not> now \<le> local_deadline_ms self (jb_next_expected_sequence ?jb)"
    by blast
  then show ?case
  proof cases
    case stop
    then have "discard_already_late_head self now = self"
      by (auto simp: discard_already_late_head.simps [of self now] Let_def)
    then show ?thesis
      using stop jb_moved_refl [OF 1(2)] by (cases self) (auto simp: Let_def)
  next
    case go
    have eq: "discard_already_late_head self now = discard_already_late_head (drop_late_slot self) now"
      using go by (simp add: discard_already_late_head.simps [of self now] Let_def)
    have moved: "jb_moved B ?jb (ps_jitter_buffer (drop_late_slot self))"
      by (rule drop_late_slot_moved [OF 1(2,3) go(1)])
    then have "jb_ok B (ps_jitter_buffer (drop_late_slot self))"
      by (simp add: jb_moved_def)
    from "1.IH" [OF go(1) refl refl go(2) this 1(3)] moved show ?thesis
      unfolding eq by (auto simp: drop_late_slot_def Let_def intro: jb_moved_trans)
  qed
qed

subsection \<open>Steps of the scheduler\<close>

primrec frames_of_poll :: "scheduler_poll \<Rightarrow> scheduled_frame list" where
  "frames_of_poll (Buffering ms) = []"
| "frames_of_poll (Frame frame health) = [frame]"
| "frames_of_poll (Waiting health) = []"
| "frames_of_poll AwaitingRebuffer = []"
| "frames_of_poll Stopped = []"

text \<open>What no tick changes: the timeline of the stream.\<close>

definition same_timeline :: "playback_scheduler \<Rightarrow> playback_scheduler \<Rightarrow> bool" where
  "same_timeline self self' \<longleftrightarrow> ps_config self' = ps_config self \<and> ps_offset_ms self' = ps_offset_ms self"

lemma same_timeline_simps [simp]:
  "same_timeline self self"
  "same_timeline self (self'\<lparr>ps_jitter_buffer := jb\<rparr>) = same_timeline self self'"
  by (simp_all add: same_timeline_def)

lemma same_timeline_deadline:
  "same_timeline self self' \<Longrightarrow> local_deadline_ms self' = local_deadline_ms self"
  by (simp add: same_timeline_def local_deadline_ms_def expected_host_presentation_time_ms_def fun_eq_iff)

lemma emit_real_simps [simp]:
  "ps_jitter_buffer (snd (emit_real self d)) = ps_jitter_buffer self"
  "map sf_sequence (frames_of_poll (fst (emit_real self d))) = [ad_sequence d]"
  "same_timeline self0 (snd (emit_real self d)) = same_timeline self0 self"
  by (simp_all add: emit_real_def Let_def remember_emitted_tail_def same_timeline_def case_prod_beta)

lemma emit_concealed_simps [simp]:
  "ps_jitter_buffer (snd (emit_concealed self)) = skip_expected_sequence (ps_jitter_buffer self)"
  "same_timeline self0 (snd (emit_concealed self)) = same_timeline self0 self"
  by (simp_all add: emit_concealed_def Let_def remember_emitted_tail_def same_timeline_def case_prod_beta
      split: concealment_outcome.splits)

lemma emit_concealed_frames:
  "f \<in> set (frames_of_poll (fst (emit_concealed self))) \<Longrightarrow>
     sf_sequence f = jb_next_expected_sequence (ps_jitter_buffer self) \<and> sf_concealed f"
  by (auto simp: emit_concealed_def Let_def case_prod_beta split: concealment_outcome.splits)

text \<open>
  A step of the scheduler: its buffer stays in order, moves forward over the emitted frames, which
  lie on the old timeline, and moves at most one slot past what it knows.
\<close>

definition sched_step ::
    "nat \<Rightarrow> playback_scheduler \<Rightarrow> scheduled_frame list \<Rightarrow> playback_scheduler \<Rightarrow> bool" where
  "sched_step B self frames self' \<longleftrightarrow>
     (let n = jb_next_expected_sequence (ps_jitter_buffer self);
          n' = jb_next_expected_sequence (ps_jitter_buffer self') in
      jb_ok B (ps_jitter_buffer self') \<and> jb_config (ps_jitter_buffer self') = jb_config (ps_jitter_buffer self) \<and>
      n \<le> n' \<and> unat n' \<le> max B (unat n) + 1 \<and> sorted_wrt (<) (map sf_sequence frames) \<and>
      (\<forall>f \<in> set frames. n \<le> sf_sequence f \<and> sf_sequence f < n'))"

lemma sched_step_moved:
  "jb_moved B (ps_jitter_buffer self) (ps_jitter_buffer self') \<Longrightarrow> sched_step B self [] self'"
  by (auto simp: sched_step_def jb_moved_def)

lemma sched_step_after_moved:
  assumes "jb_moved B (ps_jitter_buffer self) (ps_jitter_buffer self1)" and "sched_step B self1 frames self'"
  shows "sched_step B self frames self'"
  using assms by (auto simp: sched_step_def jb_moved_def Let_def)

lemma sched_step_jb_call:
  assumes "jb_ok B (ps_jitter_buffer self)"
    and "max B (unat (jb_next_expected_sequence (ps_jitter_buffer self))) + 1 < 2 ^ 64"
    and "jb_call_ok (ps_jitter_buffer self) c" and "\<forall>d. c = CallAccept d \<longrightarrow> unat (ad_sequence d) < B"
    and "jb_perform (ps_jitter_buffer self) c = (emitted, ps_jitter_buffer self')"
    and "map sf_sequence frames = map ad_sequence emitted"
  shows "sched_step B self frames self'"
proof -
  note call = jb_ok_call [OF assms(1-5)]
  have sorted: "sorted_wrt (<) (map sf_sequence frames)"
    using call(3) by (simp add: assms(6) jb_advances_def)
  have "sf_sequence ` set frames = ad_sequence ` set emitted"
    using arg_cong [OF assms(6), of set] by simp
  then have "\<forall>f \<in> set frames. jb_next_expected_sequence (ps_jitter_buffer self) \<le> sf_sequence f \<and>
      sf_sequence f < jb_next_expected_sequence (ps_jitter_buffer self')"
    using call(3) unfolding jb_advances_def by (metis (no_types, lifting) imageE imageI)
  moreover have "unat (jb_next_expected_sequence (ps_jitter_buffer self')) \<le>
      max B (unat (jb_next_expected_sequence (ps_jitter_buffer self))) + 1"
    using call(3) by (auto simp: jb_advances_def)
  ultimately show ?thesis
    using call sorted by (simp add: sched_step_def jb_advances_def)
qed

lemma emit_slot_step:
  assumes "jb_ok B (ps_jitter_buffer self)"
    and "max B (unat (jb_next_expected_sequence (ps_jitter_buffer self))) + 1 < 2 ^ 64"
    and "emit_slot self = (p, self')"
  shows "sched_step B self (frames_of_poll p) self'" and "same_timeline self self'"
    and "\<forall>f \<in> set (frames_of_poll p). sf_sequence f = jb_next_expected_sequence (ps_jitter_buffer self)"
proof -
  let ?jb = "ps_jitter_buffer self"
  let ?n = "jb_next_expected_sequence ?jb"
  have "sched_step B self (frames_of_poll p) self' \<and> same_timeline self self' \<and>
    (\<forall>f \<in> set (frames_of_poll p). sf_sequence f = ?n)"
  proof (cases "fst (pop_in_order ?jb)")
    case None
    then have res: "p = fst (emit_concealed self)" "self' = snd (emit_concealed self)"
      using assms(3) by (auto simp: emit_slot_def split: prod.splits)
    have "jb_call_ok ?jb CallSkip"
      using None by (auto simp: jb_call_ok_def pop_in_order_def bt_contains_key_def split: option.splits)
    then have step: "sched_step B self [] self'"
      using assms(1,2) res by (intro sched_step_jb_call [where c = CallSkip and emitted = "[]"]) auto
    have "unat (?n + 1) = Suc (unat ?n)"
      using assms(2) by (intro unat_succ) (auto simp: unsigned_minus_1_eq_mask mask_eq_exp_minus_1)
    then have "?n < jb_next_expected_sequence (ps_jitter_buffer self')"
      by (simp add: res skip_expected_sequence_def word_less_nat_alt)
    moreover have at: "\<forall>f \<in> set (frames_of_poll p). sf_sequence f = ?n"
      using emit_concealed_frames res by blast
    moreover have "sorted_wrt (<) (map sf_sequence (frames_of_poll p))"
      by (cases p) simp_all
    ultimately show ?thesis
      using step res by (simp add: sched_step_def Let_def)
  next
    case (Some d)
    then obtain jb' where pop: "pop_in_order ?jb = (Some d, jb')"
      by (metis prod.collapse)
    then have res: "p = fst (emit_real (self\<lparr>ps_jitter_buffer := jb'\<rparr>) d)" "self' = snd (emit_real (self\<lparr>ps_jitter_buffer := jb'\<rparr>) d)"
      using assms(3) by (auto simp: emit_slot_def)
    have seq: "ad_sequence d = ?n"
      using pop assms(1) by (auto simp: pop_in_order_def jb_ok_def bt_get_Some_in jb_inv_def packet_ok_def
          split: option.splits)
    have "map sf_sequence (frames_of_poll p) = [?n]"
      using res seq by simp
    moreover have "sched_step B self (frames_of_poll p) self'"
      using assms(1,2) res pop
      by (intro sched_step_jb_call [where c = CallPop and emitted = "[d]"]) (auto simp: jb_call_ok_def)
    moreover have "same_timeline self self'"
      using res by simp
    ultimately show ?thesis
      by (cases "frames_of_poll p") auto
  qed
  then show "sched_step B self (frames_of_poll p) self'" and "same_timeline self self'"
    and "\<forall>f \<in> set (frames_of_poll p). sf_sequence f = jb_next_expected_sequence (ps_jitter_buffer self)"
    by auto
qed

lemma skip_wide_gap_moved:
  assumes "jb_ok B (ps_jitter_buffer self)" and "B + 1 < 2 ^ 64" and "missing_sequence_count (ps_jitter_buffer self) > 0"
  shows "jb_moved B (ps_jitter_buffer self) (ps_jitter_buffer (skip_wide_gap self))" and "same_timeline self (skip_wide_gap self)"
proof -
  let ?jb = "ps_jitter_buffer self"
  have inv: "jb_inv ?jb" and below: "jb_below B ?jb"
    using assms(1) by (auto simp: jb_ok_def)
  have next': "unat (jb_next_expected_sequence (ps_jitter_buffer (skip_wide_gap self))) < B"
    using jb_belowD [OF below bt_first_key_in [OF skip_to_earliest_next(1) [OF assms(3)]]] assms(3)
    by (simp add: skip_wide_gap_def skip_to_earliest_buffered_def Let_def)
  have "unat (jb_next_expected_sequence ?jb) < B"
  proof -
    obtain k where "bt_first_key (jb_packets ?jb) = Some k"
      using assms(3) by (auto simp: missing_sequence_count_def split: option.splits)
    from first_key_facts(1,2) [OF assms(1) this] show ?thesis
      by (auto simp: word_le_nat_alt)
  qed
  then have bound: "max B (unat (jb_next_expected_sequence ?jb)) + 1 < 2 ^ 64"
    using assms(2) by simp
  have perform: "jb_perform ?jb CallSkipToEarliest = ([], ps_jitter_buffer (skip_wide_gap self))"
    by (simp add: skip_wide_gap_def)
  have "jb_ok B (ps_jitter_buffer (skip_wide_gap self))"
    "jb_config (ps_jitter_buffer (skip_wide_gap self)) = jb_config ?jb"
    "jb_advances B ?jb [] (ps_jitter_buffer (skip_wide_gap self))"
    by (rule jb_ok_call [OF assms(1) bound _ _ perform]; simp add: jb_call_ok_def)+
  then show "jb_moved B ?jb (ps_jitter_buffer (skip_wide_gap self))"
    using next' by (auto simp: jb_moved_def jb_advances_def)
  show "same_timeline self (skip_wide_gap self)"
    by (simp add: same_timeline_def skip_wide_gap_def)
qed

lemma poll_playing_step:
  assumes "jb_ok B (ps_jitter_buffer self)"
    and "max B (unat (jb_next_expected_sequence (ps_jitter_buffer self))) + 1 < 2 ^ 64"
    and "poll_playing self horizon = (p, self')"
  shows "sched_step B self (frames_of_poll p) self' \<and> same_timeline self self' \<and>
    (\<forall>f \<in> set (frames_of_poll p). local_deadline_ms self (sf_sequence f) \<le> horizon)"
proof -
  let ?n = "\<lambda>s. jb_next_expected_sequence (ps_jitter_buffer s)" and ?gap = "skip_wide_gap self"
  have B: "B + 1 < 2 ^ 64"
    using assms(2) by simp
  have here: "sched_step B s (frames_of_poll p) self' \<and> same_timeline s self' \<and>
      (\<forall>f \<in> set (frames_of_poll p). local_deadline_ms s (sf_sequence f) \<le> horizon)"
    if "jb_ok B (ps_jitter_buffer s)" "max B (unat (?n s)) + 1 < 2 ^ 64"
      "(p, self') = (if horizon < local_deadline_ms s (?n s) then (Waiting (buffer_health s), s) else emit_slot s)" for s
  proof (cases "horizon < local_deadline_ms s (?n s)")
    case True
    then show ?thesis
      using that jb_moved_refl [OF that(1)] by (auto simp: same_timeline_def intro: sched_step_moved)
  next
    case False
    then have "emit_slot s = (p, self')"
      using that(3) by simp
    from emit_slot_step [OF that(1,2) this] False show ?thesis
      by (simp add: not_less)
  qed
  show ?thesis
  proof (cases "\<not> horizon < local_deadline_ms self (?n self) \<and>
      missing_sequence_count (ps_jitter_buffer self) > ucast (sc_concealment_skip_threshold_packets (ps_config self))")
    case True
    have pos: "missing_sequence_count (ps_jitter_buffer self) > 0"
      using True by (auto simp: word_less_nat_alt)
    note moved = skip_wide_gap_moved [OF assms(1) B pos]
    have "sched_step B ?gap (frames_of_poll p) self' \<and> same_timeline ?gap self' \<and>
        (\<forall>f \<in> set (frames_of_poll p). local_deadline_ms ?gap (sf_sequence f) \<le> horizon)"
      using True assms(2,3) moved(1) by (intro here) (auto simp: poll_playing_def Let_def jb_moved_def)
    then show ?thesis
      using sched_step_after_moved [OF moved(1)] moved(2) same_timeline_deadline [OF moved(2)]
      by (auto simp: same_timeline_def)
  next
    case False
    then show ?thesis
      using assms by (intro here) (auto simp: poll_playing_def)
  qed
qed

lemma advance_buffering_step:
  assumes "jb_ok B (ps_jitter_buffer self)" and "B + 1 < 2 ^ 64" and "advance_buffering self now = (r, self')"
  shows "jb_moved B (ps_jitter_buffer self) (ps_jitter_buffer self') \<and> same_timeline self self' \<and>
    (\<forall>p. r = Some p \<longrightarrow> frames_of_poll p = []) \<and>
    (r = None \<longrightarrow> jb_is_empty (ps_jitter_buffer self') \<or>
       now \<le> local_deadline_ms self (jb_next_expected_sequence (ps_jitter_buffer self')))"
proof -
  let ?s0 = "self\<lparr>ps_buffer_target_progress := Satisfied\<rparr>"
  have "jb_ok B (ps_jitter_buffer ?s0)"
    using assms(1) by simp
  from discard_already_late_head_spec [OF this assms(2), of now] obtain jb fade where
    late: "discard_already_late_head ?s0 now = ?s0\<lparr>ps_jitter_buffer := jb, ps_fade_in_next_real_frame := fade\<rparr>"
      "jb_moved B (ps_jitter_buffer self) jb"
      "jb_is_empty jb \<or> now \<le> local_deadline_ms (?s0\<lparr>ps_jitter_buffer := jb, ps_fade_in_next_real_frame := fade\<rparr>)
         (jb_next_expected_sequence jb)"
    by (auto simp: Let_def)
  have "local_deadline_ms (?s0\<lparr>ps_jitter_buffer := jb, ps_fade_in_next_real_frame := fade\<rparr>) = local_deadline_ms self"
    by (rule same_timeline_deadline) (simp add: same_timeline_def)
  then show ?thesis
    using assms(3) late(2,3) jb_moved_refl [OF assms(1)]
    by (auto simp: advance_buffering_def Let_def same_timeline_def late(1) split: if_splits)
qed

lemma poll_step:
  assumes "jb_ok B (ps_jitter_buffer self)"
    and "max B (unat (jb_next_expected_sequence (ps_jitter_buffer self))) + 1 < 2 ^ 64"
    and "poll_with_release_horizon self now horizon = (p, self')"
  shows "sched_step B self (frames_of_poll p) self' \<and> same_timeline self self' \<and>
    (\<forall>f \<in> set (frames_of_poll p). local_deadline_ms self (sf_sequence f) \<le> max horizon now)"
proof (cases "ps_state self")
  case StBuffering
  obtain r self1 where adv: "advance_buffering self now = (r, self1)"
    by fastforce
  have B: "B + 1 < 2 ^ 64"
    using assms(2) by simp
  note step = advance_buffering_step [OF assms(1) B adv]
  show ?thesis
  proof (cases r)
    case None
    then have play: "poll_playing self1 (max horizon now) = (p, self')"
      using assms(3) StBuffering adv by (simp add: poll_with_release_horizon_def)
    have ok: "jb_ok B (ps_jitter_buffer self1)"
      "max B (unat (jb_next_expected_sequence (ps_jitter_buffer self1))) + 1 < 2 ^ 64"
      using step assms(2) by (auto simp: jb_moved_def)
    have tl: "same_timeline self self1"
      using step by simp
    show ?thesis
      using poll_playing_step [OF ok play] sched_step_after_moved step same_timeline_deadline [OF tl]
      by (auto simp: same_timeline_def)
  next
    case (Some q)
    then have "p = q" "self' = self1"
      using assms(3) StBuffering adv by (auto simp: poll_with_release_horizon_def)
    then show ?thesis
      using step Some sched_step_moved by auto
  qed
next
  case StPlaying
  then show ?thesis
    using assms poll_playing_step by (simp add: poll_with_release_horizon_def)
qed (use assms jb_moved_refl in \<open>auto simp: poll_with_release_horizon_def intro: sched_step_moved\<close>)

lemma map_sf_sequence_fade_last [simp]: "map sf_sequence (fade_last channels ramp frames) = map sf_sequence frames"
proof (cases "frames = []")
  case False
  then have "map sf_sequence frames = map sf_sequence (butlast frames) @ [sf_sequence (last frames)]"
    by (metis append_butlast_last_id list.simps(8,9) map_append)
  then show ?thesis
    using False by (simp add: fade_last_def)
qed (simp add: fade_last_def)

lemma drain_frame_sequences:
  "map sf_sequence (snd (snd (snd (drain_frame channels ramp d st)))) =
     map sf_sequence (snd (snd (snd st))) @ [ad_sequence d]"
  by (cases st) (auto simp: drain_frame_def Let_def split: if_splits)

lemma fold_drain_frame_sequences:
  "map sf_sequence (snd (snd (snd (fold (drain_frame channels ramp) ds st)))) =
     map sf_sequence (snd (snd (snd st))) @ map ad_sequence ds"
  by (induction ds arbitrary: st) (simp_all add: drain_frame_sequences)

lemma drain_remaining_sequences:
  "map sf_sequence (fst (drain_remaining self)) = map ad_sequence (fst (drain_all (ps_jitter_buffer self)))"
  "ps_jitter_buffer (snd (drain_remaining self)) = snd (drain_all (ps_jitter_buffer self))"
  by (simp_all add: drain_remaining_def Let_def case_prod_beta fold_drain_frame_sequences)

subsection \<open>Runs of the scheduler\<close>

datatype sched_call =
    SubmitPacket audio_datagram
  | PollAt u64 u64
  | DrainRemaining
  | RealignToNow u64
  | OffsetUpdate f64
  | Rebuffer f64
  | SetHostStart u64
  | StopScheduler

primrec sched_perform :: "playback_scheduler \<Rightarrow> sched_call \<Rightarrow> scheduled_frame list \<times> playback_scheduler" where
  "sched_perform self (SubmitPacket d) = ([], snd (submit_packet self d))"
| "sched_perform self (PollAt now horizon) =
     (let (p, self') = poll_with_release_horizon self now horizon in (frames_of_poll p, self'))"
| "sched_perform self DrainRemaining = drain_remaining self"
| "sched_perform self (RealignToNow now) = ([], realign_to_now self now)"
| "sched_perform self (OffsetUpdate offset) = ([], snd (apply_offset_update self offset))"
| "sched_perform self (Rebuffer offset) = ([], rebuffer self offset)"
| "sched_perform self (SetHostStart start) = ([], set_host_start_time_ms self start)"
| "sched_perform self StopScheduler = ([], scheduler_stop self)"

abbreviation sched_run ::
    "playback_scheduler \<Rightarrow> sched_call list \<Rightarrow> scheduled_frame list \<Rightarrow> playback_scheduler \<Rightarrow> bool" where
  "sched_run \<equiv> call_run (\<lambda>_ _. True) sched_perform"

lemma sched_perform_step:
  assumes "jb_ok B (ps_jitter_buffer self)"
    and "max B (unat (jb_next_expected_sequence (ps_jitter_buffer self))) + 1 < 2 ^ 64"
    and "\<forall>d. c = SubmitPacket d \<longrightarrow> unat (ad_sequence d) < B"
    and "sched_perform self c = (frames, self')"
  shows "sched_step B self frames self'"
proof -
  have still: "sched_step B self [] s" if "ps_jitter_buffer s = ps_jitter_buffer self" for s
    using jb_moved_refl [OF assms(1)] that by (intro sched_step_moved) simp
  show ?thesis
  proof (cases c)
    case (SubmitPacket d)
    then show ?thesis
      using assms by (intro sched_step_jb_call [where c = "CallAccept d" and emitted = "[]"])
        (auto simp: jb_call_ok_def submit_packet_def case_prod_beta Let_def)
  next
    case (PollAt now horizon)
    then show ?thesis
      using assms poll_step [OF assms(1,2)] by (auto simp: case_prod_beta Let_def prod_eq_iff)
  next
    case DrainRemaining
    then show ?thesis
      using assms drain_remaining_sequences [of self]
      by (intro sched_step_jb_call [where c = CallDrain and emitted = "fst (drain_all (ps_jitter_buffer self))"])
        (auto simp: jb_call_ok_def)
  next
    case (RealignToNow now)
    then show ?thesis
      using assms discard_already_late_head_spec [OF assms(1), of now]
      by (auto simp: realign_to_now_def Let_def intro!: sched_step_moved)
  qed (use assms(4) still in \<open>auto simp: apply_offset_update_def rebuffer_def set_host_start_time_ms_def
      scheduler_stop_def Let_def split: if_splits\<close>)
qed

interpretation sched_emitter: ordered_emitter
  "\<lambda>B self. jb_ok B (ps_jitter_buffer self)"
  "\<lambda>self. unat (jb_next_expected_sequence (ps_jitter_buffer self))" "\<lambda>_ _. True"
  "\<lambda>B c. \<forall>d. c = SubmitPacket d \<longrightarrow> unat (ad_sequence d) < B" sched_perform "\<lambda>f. unat (sf_sequence f)"
proof
  fix B self c frames self'
  assume "jb_ok B (ps_jitter_buffer self)"
    and "max B (unat (jb_next_expected_sequence (ps_jitter_buffer self))) + 1 < 2 ^ 64"
    and "\<forall>d. c = SubmitPacket d \<longrightarrow> unat (ad_sequence d) < B"
    and "sched_perform self c = (frames, self')"
  then have "sched_step B self frames self'"
    by (rule sched_perform_step)
  then show "jb_ok B (ps_jitter_buffer self') \<and>
      unat (jb_next_expected_sequence (ps_jitter_buffer self)) \<le> unat (jb_next_expected_sequence (ps_jitter_buffer self')) \<and>
      unat (jb_next_expected_sequence (ps_jitter_buffer self')) \<le>
        max B (unat (jb_next_expected_sequence (ps_jitter_buffer self))) + 1 \<and>
      sorted_wrt (<) (map (\<lambda>f. unat (sf_sequence f)) frames) \<and>
      (\<forall>f \<in> set frames. unat (jb_next_expected_sequence (ps_jitter_buffer self)) \<le> unat (sf_sequence f) \<and>
         unat (sf_sequence f) < unat (jb_next_expected_sequence (ps_jitter_buffer self')))"
    by (simp add: sched_step_def Let_def word_le_nat_alt word_less_nat_alt sorted_wrt_map)
qed

subsection \<open>Where real frames come from\<close>

definition jb_held :: "jitter_buffer \<Rightarrow> audio_datagram set" where
  "jb_held jb = snd ` (set (jb_packets jb) \<union> set (jb_far_future_candidates jb))"

lemma jb_held_perform:
  assumes "jb_inv jb" and "jb_perform jb c = (emitted, jb')"
  shows "jb_held jb' \<subseteq> jb_held jb \<union> {d. c = CallAccept d}" and "set emitted \<subseteq> jb_held jb"
proof -
  define calls where "calls = map (CallAccept \<circ> snd) (jb_packets jb @ jb_far_future_candidates jb)"
  have calls: "CallAccept d \<in> set calls \<longleftrightarrow> d \<in> jb_held jb" for d
    by (auto simp: calls_def jb_held_def)
  have "jb_origin calls jb"
    by (auto simp: jb_origin_def calls jb_held_def)
  from jb_origin_perform [OF assms(1) this assms(2)]
  have "jb_origin (calls @ [c]) jb'" and out: "\<forall>d \<in> set emitted. CallAccept d \<in> set calls"
    by auto
  then show "jb_held jb' \<subseteq> jb_held jb \<union> {d. c = CallAccept d}"
    by (auto simp: jb_origin_def jb_held_def ball_Un calls)
  show "set emitted \<subseteq> jb_held jb"
    using out by (auto simp: calls)
qed

lemma held_ok:
  assumes "jb_inv jb" and "d \<in> jb_held jb"
  shows "ad_session_id d = jbc_session_id (jb_config jb) \<and> ad_stream_id d = jbc_stream_id (jb_config jb)"
  using assms by (auto simp: jb_held_def jb_inv_def packet_ok_def)

lemma jb_held_pop: "jb_inv jb \<Longrightarrow> pop_in_order jb = (Some d, jb') \<Longrightarrow> d \<in> jb_held jb \<and> jb_held jb' \<subseteq> jb_held jb"
  using jb_held_perform [of jb CallPop "[d]" jb'] by auto

lemma jb_held_quiet:
  assumes "jb_inv jb"
  shows "jb_held (snd (discard_in_order jb)) \<subseteq> jb_held jb" and "jb_held (skip_expected_sequence jb) \<subseteq> jb_held jb"
    and "jb_held (snd (skip_to_earliest_buffered jb)) \<subseteq> jb_held jb"
    and "jb_held (snd (drain_all jb)) \<subseteq> jb_held jb" and "set (fst (drain_all jb)) \<subseteq> jb_held jb"
  using jb_held_perform [OF assms, of CallDiscard] jb_held_perform [OF assms, of CallSkip]
    jb_held_perform [OF assms, of CallSkipToEarliest] jb_held_perform [OF assms, of CallDrain "fst (drain_all jb)" "snd (drain_all jb)"]
  by auto

text \<open>A real frame carries the numbers of its packet and as many samples.\<close>

definition frame_of_packet :: "scheduled_frame \<Rightarrow> audio_datagram \<Rightarrow> bool" where
  "frame_of_packet f d \<longleftrightarrow> sf_sequence f = ad_sequence d \<and> sf_first_sample_index f = ad_first_sample_index d \<and>
     sf_host_presentation_time_ms f = ad_host_presentation_time_ms d \<and>
     length (sf_samples f) = length (decode_payload_samples (ad_payload d))"

definition frames_from :: "audio_datagram set \<Rightarrow> scheduled_frame list \<Rightarrow> bool" where
  "frames_from D frames \<longleftrightarrow> (\<forall>f \<in> set frames. \<not> sf_concealed f \<longrightarrow> (\<exists>d \<in> D. frame_of_packet f d))"

lemma discard_late_held:
  assumes "jb_ok B (ps_jitter_buffer self)" and "B + 1 < 2 ^ 64"
  shows "jb_held (ps_jitter_buffer (discard_already_late_head self now)) \<subseteq> jb_held (ps_jitter_buffer self)"
  using assms
proof (induction self now rule: discard_already_late_head.induct)
  case (1 self now)
  show ?case
  proof (cases "jb_is_empty (ps_jitter_buffer self) \<or>
      now \<le> local_deadline_ms self (jb_next_expected_sequence (ps_jitter_buffer self))")
    case True
    then show ?thesis
      by (auto simp: discard_already_late_head.simps [of self now] Let_def)
  next
    case False
    have "jb_held (ps_jitter_buffer (drop_late_slot self)) \<subseteq> jb_held (ps_jitter_buffer self)"
      using jb_held_quiet(1,2) 1(2) by (auto simp: drop_late_slot_def Let_def jb_ok_def)
    moreover have "jb_ok B (ps_jitter_buffer (drop_late_slot self))"
      using drop_late_slot_moved [OF 1(2,3)] False by (simp add: jb_moved_def)
    ultimately show ?thesis
      using "1.IH" 1(3) False by (auto simp: discard_already_late_head.simps [of self now] Let_def)
  qed
qed

lemma emit_slot_held:
  assumes "jb_inv (ps_jitter_buffer self)" and "emit_slot self = (p, self')"
  shows "jb_held (ps_jitter_buffer self') \<subseteq> jb_held (ps_jitter_buffer self) \<and>
    frames_from (jb_held (ps_jitter_buffer self)) (frames_of_poll p)"
proof (cases "fst (pop_in_order (ps_jitter_buffer self))")
  case None
  then have res: "p = fst (emit_concealed self)" "self' = snd (emit_concealed self)"
    using assms(2) by (auto simp: emit_slot_def split: prod.splits)
  then show ?thesis
    using jb_held_quiet(2) [OF assms(1)] emit_concealed_frames by (auto simp: frames_from_def)
next
  case (Some d)
  then obtain jb' where pop: "pop_in_order (ps_jitter_buffer self) = (Some d, jb')"
    by (metis prod.collapse)
  then have res: "p = fst (emit_real (self\<lparr>ps_jitter_buffer := jb'\<rparr>) d)" "self' = snd (emit_real (self\<lparr>ps_jitter_buffer := jb'\<rparr>) d)"
    using assms(2) by (auto simp: emit_slot_def)
  have "\<forall>f \<in> set (frames_of_poll p). frame_of_packet f d"
    by (auto simp: res emit_real_def Let_def frame_of_packet_def split: if_splits)
  then show ?thesis
    using jb_held_pop [OF assms(1) pop] res by (auto simp: frames_from_def)
qed

lemma poll_playing_held:
  assumes "jb_ok B (ps_jitter_buffer self)" and "B + 1 < 2 ^ 64" and "poll_playing self horizon = (p, self')"
  shows "jb_held (ps_jitter_buffer self') \<subseteq> jb_held (ps_jitter_buffer self) \<and>
    frames_from (jb_held (ps_jitter_buffer self)) (frames_of_poll p)"
proof -
  have inv: "jb_inv (ps_jitter_buffer self)"
    using assms(1) by (simp add: jb_ok_def)
  have gap: "jb_held (ps_jitter_buffer (skip_wide_gap self)) \<subseteq> jb_held (ps_jitter_buffer self)"
    "jb_inv (ps_jitter_buffer (skip_wide_gap self))"
    using jb_held_quiet(3) [OF inv] jb_inv_skip_to [OF inv] by (auto simp: skip_wide_gap_def)
  show ?thesis
    using assms(3) emit_slot_held [OF inv, of p self'] emit_slot_held [OF gap(2), of p self'] gap(1)
    by (auto simp: poll_playing_def Let_def frames_from_def split: if_splits) blast+
qed

lemma poll_held:
  assumes "jb_ok B (ps_jitter_buffer self)" and "B + 1 < 2 ^ 64"
    and "poll_with_release_horizon self now horizon = (p, self')"
  shows "jb_held (ps_jitter_buffer self') \<subseteq> jb_held (ps_jitter_buffer self) \<and>
    frames_from (jb_held (ps_jitter_buffer self)) (frames_of_poll p)"
proof (cases "ps_state self")
  case StBuffering
  obtain r self1 where adv: "advance_buffering self now = (r, self1)"
    by fastforce
  note step = advance_buffering_step [OF assms(1,2) adv]
  have "jb_ok B (ps_jitter_buffer (self\<lparr>ps_buffer_target_progress := Satisfied\<rparr>))"
    using assms(1) by simp
  from discard_late_held [OF this assms(2), of now]
  have held: "jb_held (ps_jitter_buffer self1) \<subseteq> jb_held (ps_jitter_buffer self)"
    using adv by (auto simp: advance_buffering_def Let_def split: if_splits)
  show ?thesis
  proof (cases r)
    case None
    then have play: "poll_playing self1 (max horizon now) = (p, self')"
      using assms(3) StBuffering adv by (simp add: poll_with_release_horizon_def)
    have "jb_ok B (ps_jitter_buffer self1)"
      using step by (simp add: jb_moved_def)
    from poll_playing_held [OF this assms(2) play] held show ?thesis
      by (force simp: frames_from_def)
  next
    case (Some q)
    then show ?thesis
      using assms(3) StBuffering adv step held by (auto simp: poll_with_release_horizon_def frames_from_def)
  qed
next
  case StPlaying
  then show ?thesis
    using assms poll_playing_held by (simp add: poll_with_release_horizon_def)
qed (use assms(3) in \<open>auto simp: poll_with_release_horizon_def frames_from_def\<close>)

lemma frames_from_fade_last: "frames_from D frames \<Longrightarrow> frames_from D (fade_last channels ramp frames)"
proof (cases "frames = []")
  case False
  assume from_D: "frames_from D frames"
  have "set frames = insert (last frames) (set (butlast frames))"
    using False by (metis append_butlast_last_id list.set(2) list.simps(15) rotate1.simps(2) set_rotate1)
  then show ?thesis
    using from_D False by (auto simp: frames_from_def fade_last_def frame_of_packet_def)
qed (simp add: fade_last_def)

lemma drain_frame_from:
  assumes "d \<in> D" and "frames_from D (snd (snd (snd st)))"
  shows "frames_from D (snd (snd (snd (drain_frame channels ramp d st))))"
proof -
  obtain e i b frames where st: "st = (e, i, b, frames)"
    by (cases st)
  have "frame_of_packet \<lparr>sf_sequence = ad_sequence d, sf_first_sample_index = ad_first_sample_index d,
      sf_host_presentation_time_ms = ad_host_presentation_time_ms d, sf_samples = samples, sf_concealed = False\<rparr> d"
    if "length samples = length (decode_payload_samples (ad_payload d))" for samples
    using that by (simp add: frame_of_packet_def)
  then show ?thesis
    using assms frames_from_fade_last [of D frames channels ramp]
    by (auto simp: st drain_frame_def Let_def frames_from_def intro!: bexI [of _ d])
qed

lemma drain_remaining_from:
  assumes "jb_inv (ps_jitter_buffer self)"
  shows "frames_from (jb_held (ps_jitter_buffer self)) (fst (drain_remaining self))"
proof -
  let ?D = "jb_held (ps_jitter_buffer self)"
  have "frames_from ?D (snd (snd (snd (fold (drain_frame channels ramp) ds st))))"
    if "set ds \<subseteq> ?D" "frames_from ?D (snd (snd (snd st)))" for ds channels ramp st
    using that by (induction ds arbitrary: st) (simp_all add: drain_frame_from)
  then show ?thesis
    using jb_held_quiet(5) [OF assms]
    by (simp add: drain_remaining_def Let_def case_prod_beta frames_from_fade_last frames_from_def [of _ "[]"])
qed

lemma sched_perform_held:
  assumes "jb_ok B (ps_jitter_buffer self)" and "B + 1 < 2 ^ 64" and "sched_perform self c = (frames, self')"
  shows "jb_held (ps_jitter_buffer self') \<subseteq> jb_held (ps_jitter_buffer self) \<union> {d. c = SubmitPacket d}"
    and "frames_from (jb_held (ps_jitter_buffer self)) frames"
proof -
  have inv: "jb_inv (ps_jitter_buffer self)"
    using assms(1) by (simp add: jb_ok_def)
  have "jb_held (ps_jitter_buffer self') \<subseteq> jb_held (ps_jitter_buffer self) \<union> {d. c = SubmitPacket d} \<and>
    frames_from (jb_held (ps_jitter_buffer self)) frames"
  proof (cases c)
    case (SubmitPacket d)
    then show ?thesis
      using assms(3) jb_held_perform(1) [OF inv, of "CallAccept d" "[]" "snd (jb_accept (ps_jitter_buffer self) d)"]
      by (auto simp: submit_packet_def case_prod_beta Let_def frames_from_def)
  next
    case (PollAt now horizon)
    then show ?thesis
      using assms(3) poll_held [OF assms(1,2) surjective_pairing, of now horizon]
      by (auto simp: case_prod_beta Let_def)
  next
    case DrainRemaining
    then show ?thesis
      using assms(3) drain_remaining_from [OF inv] drain_remaining_sequences(2) [of self] jb_held_quiet(4) [OF inv]
      by auto
  next
    case (RealignToNow now)
    then show ?thesis
      using assms(3) discard_late_held [OF assms(1,2), of now]
      by (auto simp: realign_to_now_def Let_def frames_from_def)
  qed (use assms(3) in \<open>auto simp: apply_offset_update_def rebuffer_def set_host_start_time_ms_def
      scheduler_stop_def Let_def frames_from_def split: if_splits\<close>)
  then show "jb_held (ps_jitter_buffer self') \<subseteq> jb_held (ps_jitter_buffer self) \<union> {d. c = SubmitPacket d}"
    and "frames_from (jb_held (ps_jitter_buffer self)) frames"
    by auto
qed

subsection \<open>A new scheduler\<close>

lemma playback_scheduler_new_ok:
  assumes "playback_scheduler_new config offset = Inr self"
  shows "ps_config self = config" "ps_offset_ms self = offset" "ps_state self = StBuffering"
    and "jb_packets (ps_jitter_buffer self) = []" "jb_far_future_candidates (ps_jitter_buffer self) = []"
    and "jb_next_expected_sequence (ps_jitter_buffer self) = sc_first_sequence config"
    and "jbc_session_id (jb_config (ps_jitter_buffer self)) = sc_session_id config"
    and "jbc_stream_id (jb_config (ps_jitter_buffer self)) = sc_stream_id config"
    and "jb_ok B (ps_jitter_buffer self)"
    and "0 < ps_ramp_frames self" "ps_ramp_frames self < unat (sc_samples_per_packet config)"
    and "cp_ramp_frames (ps_concealment self) = ps_ramp_frames self"
    and "0 < sc_sample_rate config"
proof -
  define ramp where "ramp =
    max (u32_or_max (unat (sc_sample_rate config) * unat (sc_concealment_ramp_ms config) div 1000)) 1"
  obtain jb cp where new: "validate_scheduler_config config = Inr ()"
    "jitter_buffer_new \<lparr>jbc_session_id = sc_session_id config, jbc_stream_id = sc_stream_id config,
        jbc_first_sequence = sc_first_sequence config, jbc_max_reorder_window = sc_max_reorder_window config,
        jbc_max_buffered_duration_ms = sc_max_buffered_duration_ms config\<rparr> = Inr jb"
    "\<not> sc_samples_per_packet config \<le> ramp"
    "concealment_policy_new (sc_max_consecutive_concealed_packets config) ramp = Inr cp"
    "self = \<lparr>ps_config = config, ps_jitter_buffer = jb, ps_concealment = cp,
            ps_state = StBuffering, ps_offset_ms = offset, ps_ramp_frames = unat ramp,
            ps_fade_in_next_real_frame = True, ps_last_emitted_tail = [], ps_resume_from_silence = True,
            ps_has_played = False, ps_buffer_target_progress = Accumulating\<rparr>"
    using assms
    by (auto simp: playback_scheduler_new_def try_bind_Inr_iff map_err_def Let_def ramp_def [symmetric]
        simp del: max.bounded_iff split: if_splits sum.splits)
  show "ps_config self = config" "ps_offset_ms self = offset" "ps_state self = StBuffering"
    by (simp_all add: new(5))
  have window: "0 < sc_max_reorder_window config"
    using new(1) by (auto simp: validate_scheduler_config_def Let_def word_le_nat_alt word_less_nat_alt split: if_splits)
  have jb: "jb_packets jb = []" "jb_far_future_candidates jb = []" "jb_next_expected_sequence jb = sc_first_sequence config"
    "jbc_session_id (jb_config jb) = sc_session_id config" "jbc_stream_id (jb_config jb) = sc_stream_id config"
    "jbc_max_reorder_window (jb_config jb) = sc_max_reorder_window config"
    using new(2) by (auto simp: jitter_buffer_new_def bt_empty_def split: if_splits)
  then show "jb_packets (ps_jitter_buffer self) = []" "jb_far_future_candidates (ps_jitter_buffer self) = []"
    "jb_next_expected_sequence (ps_jitter_buffer self) = sc_first_sequence config"
    "jbc_session_id (jb_config (ps_jitter_buffer self)) = sc_session_id config"
    "jbc_stream_id (jb_config (ps_jitter_buffer self)) = sc_stream_id config"
    by (simp_all add: new(5))
  show "jb_ok B (ps_jitter_buffer self)"
    using jb_inv_new [OF new(2)] jb window by (simp add: new(5) jb_ok_def jb_below_def)
  have "1 \<le> ramp"
    by (simp add: ramp_def)
  then show "0 < ps_ramp_frames self" "ps_ramp_frames self < unat (sc_samples_per_packet config)"
    using new(3) by (simp_all add: new(5) word_le_nat_alt word_less_nat_alt)
  show "cp_ramp_frames (ps_concealment self) = ps_ramp_frames self"
    using new(4) by (auto simp: new(5) concealment_policy_new_def split: if_splits)
  show "0 < sc_sample_rate config"
    using new(1) by (auto simp: validate_scheduler_config_def word_gt_0 split: if_splits)
qed

lemma sched_run_ok:
  assumes "playback_scheduler_new config offset = Inr self0" and "sched_run self0 calls frames self"
    and "unat (sc_first_sequence config) \<le> B"
    and "\<forall>d. SubmitPacket d \<in> set calls \<longrightarrow> unat (ad_sequence d) < B"
    and "B + length calls < 2 ^ 64"
  shows "jb_ok B (ps_jitter_buffer self)"
    and "unat (jb_next_expected_sequence (ps_jitter_buffer self)) \<le> B + length calls"
proof -
  have "\<forall>c \<in> set calls. \<forall>d. c = SubmitPacket d \<longrightarrow> unat (ad_sequence d) < B"
    using assms(4) by auto
  from sched_emitter.run_in_order [OF assms(2) playback_scheduler_new_ok(9) [OF assms(1)] _ this]
  show "jb_ok B (ps_jitter_buffer self)" "unat (jb_next_expected_sequence (ps_jitter_buffer self)) \<le> B + length calls"
    using playback_scheduler_new_ok(6) [OF assms(1)] assms(3,5) by auto
qed

lemma sched_run_held:
  assumes "playback_scheduler_new config offset = Inr self0" and "sched_run self0 calls frames self"
    and "unat (sc_first_sequence config) \<le> B"
    and "\<forall>d. SubmitPacket d \<in> set calls \<longrightarrow> unat (ad_sequence d) < B"
    and "B + length calls < 2 ^ 64"
  defines "D \<equiv> \<lambda>calls. {d. SubmitPacket d \<in> set calls \<and> ad_session_id d = sc_session_id config \<and>
      ad_stream_id d = sc_stream_id config}"
  shows "jb_held (ps_jitter_buffer self) \<subseteq> D calls" and "frames_from (D calls) frames"
proof -
  note new = playback_scheduler_new_ok [OF assms(1)]
  have "jb_held (ps_jitter_buffer self) \<subseteq> D calls \<and> frames_from (D calls) frames \<and>
      jb_config (ps_jitter_buffer self) = jb_config (ps_jitter_buffer self0)"
    using assms(2,4,5)
  proof (induction rule: call_run.induct)
    case run_start
    then show ?case
      by (simp add: jb_held_def new(4,5) frames_from_def)
  next
    case (run_call cs out s c es s')
    have run: "jb_ok B (ps_jitter_buffer s)" "max B (unat (jb_next_expected_sequence (ps_jitter_buffer s))) + 1 < 2 ^ 64"
      using sched_run_ok [OF assms(1) run_call.hyps(1) assms(3)] run_call.prems by auto
    have IH: "jb_held (ps_jitter_buffer s) \<subseteq> D cs" "frames_from (D cs) out"
      "jb_config (ps_jitter_buffer s) = jb_config (ps_jitter_buffer self0)"
      using run_call by auto
    have "sched_step B s es s'"
      using run_call by (intro sched_perform_step [OF run]) auto
    then have s': "jb_inv (ps_jitter_buffer s')" "jb_config (ps_jitter_buffer s') = jb_config (ps_jitter_buffer self0)"
      using IH(3) by (auto simp: sched_step_def Let_def jb_ok_def)
    have "B + 1 < 2 ^ 64"
      using run(2) by simp
    note held = sched_perform_held [OF run(1) this run_call.hyps(3)]
    have "jb_held (ps_jitter_buffer s') \<subseteq> D (cs @ [c])"
      using held(1) IH(1) held_ok [OF s'(1)] by (auto simp: s'(2) new(7,8) D_def)
    moreover have "frames_from (D (cs @ [c])) (out @ es)"
      using held(2) IH(1,2) unfolding frames_from_def D_def by fastforce
    ultimately show ?case
      using s'(2) by simp
  qed
  then show "jb_held (ps_jitter_buffer self) \<subseteq> D calls" and "frames_from (D calls) frames"
    by simp_all
qed

lemma sched_run_in_order:
  assumes "playback_scheduler_new config offset = Inr self0" and "sched_run self0 calls frames self"
    and "unat (sc_first_sequence config) \<le> B"
    and "\<forall>d. SubmitPacket d \<in> set calls \<longrightarrow> unat (ad_sequence d) < B"
    and "B + length calls < 2 ^ 64"
  shows "sorted_wrt (<) (map sf_sequence frames) \<and>
    (\<forall>f \<in> set frames. sc_first_sequence config \<le> sf_sequence f \<and>
       (\<not> sf_concealed f \<longrightarrow> (\<exists>d. SubmitPacket d \<in> set calls \<and> frame_of_packet f d \<and>
          ad_session_id d = sc_session_id config \<and> ad_stream_id d = sc_stream_id config)))"
proof -
  note new = playback_scheduler_new_ok [OF assms(1)]
  have order: "jb_ok B (ps_jitter_buffer self) \<and>
      unat (jb_next_expected_sequence (ps_jitter_buffer self0)) \<le> unat (jb_next_expected_sequence (ps_jitter_buffer self)) \<and>
      unat (jb_next_expected_sequence (ps_jitter_buffer self)) \<le> B + length calls \<and>
      sorted_wrt (<) (map (\<lambda>f. unat (sf_sequence f)) frames) \<and>
      (\<forall>f \<in> set frames. unat (jb_next_expected_sequence (ps_jitter_buffer self0)) \<le> unat (sf_sequence f) \<and>
         unat (sf_sequence f) < unat (jb_next_expected_sequence (ps_jitter_buffer self)))"
    using assms(3-5) new(6,9) by (intro sched_emitter.run_in_order [OF assms(2)]) auto
  have "frames_from {d. SubmitPacket d \<in> set calls \<and> ad_session_id d = sc_session_id config \<and>
      ad_stream_id d = sc_stream_id config} frames"
    by (rule sched_run_held(2) [OF assms])
  then show ?thesis
    using order new(6) by (auto simp: sorted_wrt_map word_less_nat_alt word_le_nat_alt frames_from_def)
qed

end
