(* ===== verification/Scheduler_Seams.thy ===== *)
theory Scheduler_Seams
  imports Scheduler_Timeline
begin

section \<open>Joining what is heard\<close>

text \<open>
  The scheduler remembers the frame it emitted last and joins the next one to it wherever the
  stream is broken: around concealed frames and over an abandoned gap. \<open>seam_inv\<close> ties the
  remembered values to the frames emitted so far; every call keeps it.
\<close>

lemma tail_of_blend_in:
  assumes "length xs = frames * channels" and "max ramp 1 < frames" and "0 < channels"
  shows "tail_of (apply_blend_in channels ramp from xs) channels = tail_of xs channels"
proof (rule nth_equalityI)
  have frames: "length xs div channels = frames"
    using assms(1,3) by simp
  have last_out: "\<not> frames - 1 < min (max ramp 1) frames"
    using assms(2) by linarith
  have len: "length (tail_of ys channels) = channels" if "length ys = length xs" for ys
    using nth_tail_of(1) [of 0 channels ys] frames assms(2,3) that by simp
  then show "length (tail_of (apply_blend_in channels ramp from xs) channels) = length (tail_of xs channels)"
    by simp
  fix i
  assume "i < length (tail_of (apply_blend_in channels ramp from xs) channels)"
  then have i: "i < channels"
    by (simp add: len)
  have "frame_sample channels (apply_blend_in channels ramp from xs) (frames - 1) i = frame_sample channels xs (frames - 1) i"
    using i assms(2) last_out by (simp add: frame_sample_blend_in [OF _ _ refl] frames del: min_less_iff_conj)
  then show "tail_of (apply_blend_in channels ramp from xs) channels ! i = tail_of xs channels ! i"
    using nth_tail_of(2) [OF i, of xs] nth_tail_of(2) [OF i, of "apply_blend_in channels ramp from xs"] assms(2)
    by (simp add: frames)
qed

subsection \<open>The remembered values\<close>

abbreviation sched_channels :: "playback_scheduler \<Rightarrow> nat" where
  "sched_channels self \<equiv> unat (sc_channels (ps_config self))"

abbreviation sched_spp :: "playback_scheduler \<Rightarrow> nat" where
  "sched_spp self \<equiv> unat (sc_samples_per_packet (ps_config self))"

definition seam_inv :: "scheduled_frame list \<Rightarrow> playback_scheduler \<Rightarrow> bool" where
  "seam_inv frames self \<longleftrightarrow>
     0 < sched_channels self \<and> max (ps_ramp_frames self) 1 < sched_spp self \<and>
     cp_ramp_frames (ps_concealment self) = ps_ramp_frames self \<and>
     (ps_state self = StBuffering \<longrightarrow> ps_resume_from_silence self) \<and>
     (ps_resume_from_silence self \<longrightarrow> ps_fade_in_next_real_frame self) \<and>
     (\<not> ps_resume_from_silence self \<longrightarrow> frames \<noteq> [] \<and>
        length (sf_samples (last frames)) = sched_spp self * sched_channels self \<and>
        ps_last_emitted_tail self = tail_of (sf_samples (last frames)) (sched_channels self) \<and>
        cp_previous_tail (ps_concealment self) = ps_last_emitted_tail self) \<and>
     (\<not> ps_fade_in_next_real_frame self \<longrightarrow> \<not> sf_concealed (last frames))"

text \<open>The first frame of \<open>f\<close> repeats the values the scheduler remembers.\<close>

definition joins :: "playback_scheduler \<Rightarrow> scheduled_frame \<Rightarrow> bool" where
  "joins self f \<longleftrightarrow> (\<forall>channel < sched_channels self.
     frame_sample (sched_channels self) (sf_samples f) 0 channel = ps_last_emitted_tail self ! channel)"

lemma length_tail_of:
  assumes "length xs = frames * channels" and "0 < frames" and "0 < channels"
  shows "length (tail_of xs channels) = channels"
  using nth_tail_of(1) [of 0 channels xs] assms by simp

lemma seam_inv_tail:
  assumes "seam_inv frames self" and "\<not> ps_resume_from_silence self"
  shows "length (ps_last_emitted_tail self) = sched_channels self"
    and "cp_previous_tail (ps_concealment self) = ps_last_emitted_tail self"
  using assms length_tail_of [of "sf_samples (last frames)" "sched_spp self" "sched_channels self"]
  by (auto simp: seam_inv_def)

definition real_samples :: "playback_scheduler \<Rightarrow> audio_datagram \<Rightarrow> i16 list" where
  "real_samples self d =
     (if ps_fade_in_next_real_frame self
      then apply_blend_in (sched_channels self) (ps_ramp_frames self)
        (if ps_resume_from_silence self then [] else ps_last_emitted_tail self) (decode_payload_samples (ad_payload d))
      else decode_payload_samples (ad_payload d))"

lemma remember_emitted_tail_eq: "remember_emitted_tail self xs c = self\<lparr>ps_last_emitted_tail := tail_of xs c\<rparr>"
  by (simp add: remember_emitted_tail_def tail_of_def option.case_eq_if)

lemma emit_real_state:
  "ps_config (snd (emit_real self d)) = ps_config self"
  "ps_concealment (snd (emit_real self d)) =
     record_delivery (ps_concealment self) (decode_payload_samples (ad_payload d)) (sc_channels (ps_config self))"
  "ps_state (snd (emit_real self d)) = ps_state self"
  "ps_ramp_frames (snd (emit_real self d)) = ps_ramp_frames self"
  "ps_fade_in_next_real_frame (snd (emit_real self d)) \<longleftrightarrow> False"
  "ps_resume_from_silence (snd (emit_real self d)) \<longleftrightarrow> ps_resume_from_silence self \<and> \<not> ps_fade_in_next_real_frame self"
  "ps_last_emitted_tail (snd (emit_real self d)) = tail_of (real_samples self d) (sched_channels self)"
  "map sf_samples (frames_of_poll (fst (emit_real self d))) = [real_samples self d]"
  "map sf_concealed (frames_of_poll (fst (emit_real self d))) = [False]"
  by (simp_all add: emit_real_def Let_def remember_emitted_tail_eq real_samples_def)

lemma emit_real_seam:
  assumes "seam_inv frames self" and "length (decode_payload_samples (ad_payload d)) = sched_spp self * sched_channels self"
    and "ps_state self = StPlaying"
  shows "seam_inv (frames @ frames_of_poll (fst (emit_real self d))) (snd (emit_real self d))"
    and "\<not> ps_resume_from_silence self \<Longrightarrow> ps_fade_in_next_real_frame self \<Longrightarrow>
      f \<in> set (frames_of_poll (fst (emit_real self d))) \<Longrightarrow> joins self f"
proof -
  let ?xs = "decode_payload_samples (ad_payload d)" and ?c = "sched_channels self"
  have inv: "0 < ?c" "max (ps_ramp_frames self) 1 < sched_spp self"
    using assms(1) by (simp_all add: seam_inv_def)
  have tail: "tail_of (real_samples self d) ?c = tail_of ?xs ?c"
    using tail_of_blend_in [OF assms(2) inv(2,1)] by (simp add: real_samples_def)
  obtain g where g: "frames_of_poll (fst (emit_real self d)) = [g]" "sf_samples g = real_samples self d" "\<not> sf_concealed g"
    using emit_real_state(8,9) [of self d] by auto
  have "length (real_samples self d) = sched_spp self * ?c"
    using assms(2) by (simp add: real_samples_def)
  then show "seam_inv (frames @ frames_of_poll (fst (emit_real self d))) (snd (emit_real self d))"
    using assms(1,3) g tail unfolding seam_inv_def emit_real_state by (simp add: record_delivery_def)
  show "joins self f" if "\<not> ps_resume_from_silence self" "ps_fade_in_next_real_frame self"
    "f \<in> set (frames_of_poll (fst (emit_real self d)))"
  proof -
    have "sf_samples f = apply_blend_in ?c (ps_ramp_frames self) (ps_last_emitted_tail self) ?xs"
      using that g by (simp add: real_samples_def)
    moreover have "length ?xs div ?c = sched_spp self"
      using assms(2) inv(1) by simp
    ultimately show ?thesis
      using blend_in_frame [of _ ?c 0 ?xs "ps_last_emitted_tail self" "ps_ramp_frames self"]
        seam_inv_tail(1) [OF assms(1) that(1)] inv geometry_small(2) by (auto simp: joins_def)
  qed
qed

abbreviation concealed_samples :: "playback_scheduler \<Rightarrow> i16 list" where
  "concealed_samples self \<equiv>
     fst (fst (conceal (ps_concealment self) (sc_samples_per_packet (ps_config self)) (sc_channels (ps_config self))))"

abbreviation resync_required :: "playback_scheduler \<Rightarrow> bool" where
  "resync_required self \<equiv>
     snd (fst (conceal (ps_concealment self) (sc_samples_per_packet (ps_config self)) (sc_channels (ps_config self)))) =
       HardResyncRequired"

lemma emit_concealed_state:
  "ps_config (snd (emit_concealed self)) = ps_config self"
  "ps_concealment (snd (emit_concealed self)) =
     snd (conceal (ps_concealment self) (sc_samples_per_packet (ps_config self)) (sc_channels (ps_config self)))"
  "ps_state (snd (emit_concealed self)) = (if resync_required self then StAwaitingRebuffer else ps_state self)"
  "ps_ramp_frames (snd (emit_concealed self)) = ps_ramp_frames self"
  "ps_fade_in_next_real_frame (snd (emit_concealed self)) \<longleftrightarrow> True"
  "ps_resume_from_silence (snd (emit_concealed self)) \<longleftrightarrow> ps_resume_from_silence self \<or> resync_required self"
  "ps_last_emitted_tail (snd (emit_concealed self)) = tail_of (concealed_samples self) (sched_channels self)"
  "map sf_samples (frames_of_poll (fst (emit_concealed self))) =
     (if resync_required self then [] else [concealed_samples self])"
  by (simp_all add: emit_concealed_def Let_def remember_emitted_tail_eq case_prod_beta split: concealment_outcome.splits)

lemma conceal_ramp_frames: "cp_ramp_frames (snd (conceal self spp channels)) = cp_ramp_frames self"
  by (simp add: conceal_def Let_def)

lemma emit_concealed_seam:
  assumes "seam_inv frames self" and "ps_state self = StPlaying"
  shows "seam_inv (frames @ frames_of_poll (fst (emit_concealed self))) (snd (emit_concealed self))"
    and "\<not> ps_resume_from_silence self \<Longrightarrow> f \<in> set (frames_of_poll (fst (emit_concealed self))) \<Longrightarrow> joins self f"
proof -
  let ?c = "sched_channels self"
  have inv: "0 < ?c" "max (ps_ramp_frames self) 1 < sched_spp self"
    "cp_ramp_frames (ps_concealment self) = ps_ramp_frames self"
    using assms(1) by (simp_all add: seam_inv_def)
  have "frames_of_poll (fst (emit_concealed self)) = [] \<and> resync_required self \<or>
      (\<exists>g. frames_of_poll (fst (emit_concealed self)) = [g] \<and> sf_samples g = concealed_samples self \<and> \<not> resync_required self)"
    using emit_concealed_state(8) [of self] by (auto split: if_splits)
  then show "seam_inv (frames @ frames_of_poll (fst (emit_concealed self))) (snd (emit_concealed self))"
    using assms inv unfolding seam_inv_def emit_concealed_state
    by (auto simp: conceal_ramp_frames conceal_previous_tail length_conceal)
  show "joins self f" if "\<not> ps_resume_from_silence self" "f \<in> set (frames_of_poll (fst (emit_concealed self)))"
  proof -
    have "sf_samples f = concealed_samples self"
      using that(2) emit_concealed_state(8) [of self] by (cases "fst (emit_concealed self)") (auto split: if_splits)
    moreover have "frame_sample ?c (concealed_samples self) 0 channel = ps_last_emitted_tail self ! channel"
      if "channel < ?c" for channel
      using conceal_first_frame [OF _ that, of "ps_concealment self" "sc_samples_per_packet (ps_config self)"]
        seam_inv_tail [OF assms(1) \<open>\<not> ps_resume_from_silence self\<close>] inv
      by (metis less_nat_zero_code not_gr_zero surjective_pairing)
    ultimately show ?thesis
      by (simp add: joins_def)
  qed
qed

lemma emit_slot_seam:
  assumes "seam_inv frames self" and "ps_state self = StPlaying" and "jb_inv (ps_jitter_buffer self)"
    and "\<forall>d \<in> jb_held (ps_jitter_buffer self).
      length (decode_payload_samples (ad_payload d)) = sched_spp self * sched_channels self"
    and "emit_slot self = (p, self')"
  shows "seam_inv (frames @ frames_of_poll p) self'"
    and "\<not> ps_resume_from_silence self \<Longrightarrow> f \<in> set (frames_of_poll p) \<Longrightarrow>
      ps_fade_in_next_real_frame self \<or> sf_concealed f \<Longrightarrow> joins self f"
proof -
  have "seam_inv (frames @ frames_of_poll p) self' \<and>
    (\<not> ps_resume_from_silence self \<and> f \<in> set (frames_of_poll p) \<and>
      (ps_fade_in_next_real_frame self \<or> sf_concealed f) \<longrightarrow> joins self f)"
  proof (cases "fst (pop_in_order (ps_jitter_buffer self))")
    case None
    then have "p = fst (emit_concealed self)" "self' = snd (emit_concealed self)"
      using assms(5) by (auto simp: emit_slot_def split: prod.splits)
    then show ?thesis
      using emit_concealed_seam [OF assms(1,2)] by blast
  next
    case (Some d)
    then obtain jb' where pop: "pop_in_order (ps_jitter_buffer self) = (Some d, jb')"
      by (metis prod.collapse)
    let ?s = "self\<lparr>ps_jitter_buffer := jb'\<rparr>"
    have res: "p = fst (emit_real ?s d)" "self' = snd (emit_real ?s d)"
      using assms(5) pop by (auto simp: emit_slot_def)
    have "seam_inv frames ?s"
      using assms(1) by (simp add: seam_inv_def)
    moreover have "length (decode_payload_samples (ad_payload d)) = sched_spp ?s * sched_channels ?s"
      using assms(4) jb_held_pop [OF assms(3) pop] by simp
    ultimately have "seam_inv (frames @ frames_of_poll p) self'"
      "\<not> ps_resume_from_silence self \<Longrightarrow> ps_fade_in_next_real_frame self \<Longrightarrow> f \<in> set (frames_of_poll p) \<Longrightarrow> joins self f"
      using emit_real_seam [of frames ?s d] assms(2) by (auto simp: res joins_def)
    moreover have "\<not> sf_concealed f" if "f \<in> set (frames_of_poll p)"
      using emit_real_state(9) [of ?s d] that by (auto simp: res)
    ultimately show ?thesis
      by blast
  qed
  then show "seam_inv (frames @ frames_of_poll p) self'"
    and "\<not> ps_resume_from_silence self \<Longrightarrow> f \<in> set (frames_of_poll p) \<Longrightarrow>
      ps_fade_in_next_real_frame self \<or> sf_concealed f \<Longrightarrow> joins self f"
    by auto
qed

subsection \<open>Ticks and calls\<close>

text \<open>Every packet the buffer holds has the geometry of the stream.\<close>

definition held_geometry :: "playback_scheduler \<Rightarrow> bool" where
  "held_geometry self \<longleftrightarrow> (\<forall>d \<in> jb_held (ps_jitter_buffer self).
     length (decode_payload_samples (ad_payload d)) = sched_spp self * sched_channels self)"

text \<open>
  Where the stream was marked as broken before the tick, the tick itself breaks it, or the last frame
  or the new one is concealed.
\<close>

definition at_seam :: "scheduled_frame list \<Rightarrow> playback_scheduler \<Rightarrow> scheduled_frame \<Rightarrow> bool" where
  "at_seam frames self f \<longleftrightarrow> ps_fade_in_next_real_frame self \<or> sf_concealed (last frames) \<or> sf_concealed f \<or>
     sf_sequence f \<noteq> jb_next_expected_sequence (ps_jitter_buffer self)"

lemma seam_inv_skip_wide_gap: "seam_inv frames self \<Longrightarrow> seam_inv frames (skip_wide_gap self)"
  by (auto simp: seam_inv_def skip_wide_gap_def reset_consecutive_count_def)

lemma poll_playing_seam:
  assumes "seam_inv frames self" and "ps_state self = StPlaying" and "jb_ok B (ps_jitter_buffer self)"
    and "max B (unat (jb_next_expected_sequence (ps_jitter_buffer self))) + 1 < 2 ^ 64"
    and "held_geometry self" and "poll_playing self horizon = (p, self')"
  shows "seam_inv (frames @ frames_of_poll p) self'"
    and "\<not> ps_resume_from_silence self \<Longrightarrow> f \<in> set (frames_of_poll p) \<Longrightarrow> at_seam frames self f \<Longrightarrow> joins self f"
proof -
  have inv: "jb_inv (ps_jitter_buffer self)"
    using assms(3) by (simp add: jb_ok_def)
  let ?gap = "skip_wide_gap self"
  have gap: "ps_state ?gap = StPlaying" "ps_resume_from_silence ?gap = ps_resume_from_silence self"
    "ps_fade_in_next_real_frame ?gap" "joins ?gap f = joins self f" "jb_inv (ps_jitter_buffer ?gap)"
    using assms(2) jb_inv_skip_to [OF inv] by (auto simp: skip_wide_gap_def joins_def)
  have held: "held_geometry ?gap"
    using assms(5) jb_held_quiet(3) [OF inv] by (auto simp: held_geometry_def skip_wide_gap_def)
  note slot = emit_slot_seam [OF assms(1,2) inv assms(5) [unfolded held_geometry_def]]
  note slot_gap = emit_slot_seam [OF seam_inv_skip_wide_gap [OF assms(1)] gap(1,5) held [unfolded held_geometry_def]]
  show "seam_inv (frames @ frames_of_poll p) self'"
    using assms(1,6) slot(1) slot_gap(1) seam_inv_skip_wide_gap [OF assms(1)]
    by (auto simp: poll_playing_def Let_def split: if_splits)
  assume f: "\<not> ps_resume_from_silence self" "f \<in> set (frames_of_poll p)" "at_seam frames self f"
  consider (here) "emit_slot self = (p, self')" | (gap) "emit_slot ?gap = (p, self')"
    using assms(6) f(2) by (auto simp: poll_playing_def Let_def split: if_splits)
  then show "joins self f"
  proof cases
    case here
    have "sf_sequence f = jb_next_expected_sequence (ps_jitter_buffer self)"
      using emit_slot_step(3) [OF assms(3,4) here] f(2) by blast
    then have "ps_fade_in_next_real_frame self \<or> sf_concealed f"
      using f(1,3) assms(1) by (auto simp: at_seam_def seam_inv_def)
    then show ?thesis
      using slot(2) [OF here f(1,2)] by blast
  next
    case gap
    then show ?thesis
      using slot_gap(2) [OF gap] f \<open>joins ?gap f = joins self f\<close> by (simp add: skip_wide_gap_def)
  qed
qed

lemma discard_late_state:
  "ps_config (discard_already_late_head self now) = ps_config self \<and>
   ps_concealment (discard_already_late_head self now) = ps_concealment self \<and>
   ps_state (discard_already_late_head self now) = ps_state self \<and>
   ps_ramp_frames (discard_already_late_head self now) = ps_ramp_frames self \<and>
   ps_resume_from_silence (discard_already_late_head self now) = ps_resume_from_silence self \<and>
   (ps_fade_in_next_real_frame self \<longrightarrow> ps_fade_in_next_real_frame (discard_already_late_head self now))"
proof (induction self now rule: discard_already_late_head.induct)
  case (1 self now)
  show ?case
  proof (cases "jb_is_empty (ps_jitter_buffer self) \<or>
      now \<le> local_deadline_ms self (jb_next_expected_sequence (ps_jitter_buffer self))")
    case True
    then have "discard_already_late_head self now = self"
      by (auto simp: discard_already_late_head.simps [of self now] Let_def)
    then show ?thesis
      by simp
  next
    case False
    have "discard_already_late_head self now = discard_already_late_head (drop_late_slot self) now"
      using False by (simp add: discard_already_late_head.simps [of self now] Let_def)
    moreover have "ps_config (drop_late_slot self) = ps_config self \<and>
        ps_concealment (drop_late_slot self) = ps_concealment self \<and> ps_state (drop_late_slot self) = ps_state self \<and>
        ps_ramp_frames (drop_late_slot self) = ps_ramp_frames self \<and>
        ps_resume_from_silence (drop_late_slot self) = ps_resume_from_silence self \<and>
        ps_fade_in_next_real_frame (drop_late_slot self)"
      by (simp add: drop_late_slot_def Let_def)
    ultimately show ?thesis
      using "1.IH" False by simp
  qed
qed

lemma seam_inv_discard_late:
  "seam_inv frames self \<Longrightarrow> ps_resume_from_silence self \<Longrightarrow> seam_inv frames (discard_already_late_head self now)"
  using discard_late_state [of self now] by (simp add: seam_inv_def)

lemma held_geometry_mono:
  "held_geometry self \<Longrightarrow> jb_held (ps_jitter_buffer self') \<subseteq> jb_held (ps_jitter_buffer self) \<Longrightarrow>
     ps_config self' = ps_config self \<Longrightarrow> held_geometry self'"
  by (auto simp: held_geometry_def)

lemma advance_buffering_seam:
  assumes "seam_inv frames self" and "ps_state self = StBuffering" and "jb_ok B (ps_jitter_buffer self)" and "B + 1 < 2 ^ 64"
    and "held_geometry self" and "advance_buffering self now = (r, self')"
  shows "seam_inv frames self'" and "held_geometry self'" and "r = None \<Longrightarrow> ps_state self' = StPlaying"
proof -
  let ?s0 = "self\<lparr>ps_buffer_target_progress := Satisfied\<rparr>"
  let ?s1 = "discard_already_late_head ?s0 now"
  have resume: "ps_resume_from_silence self"
    using assms(1,2) by (simp add: seam_inv_def)
  have s0: "seam_inv frames ?s0" "jb_ok B (ps_jitter_buffer ?s0)"
    using assms(1,3) by (simp_all add: seam_inv_def)
  then have s1: "seam_inv frames ?s1"
    using seam_inv_discard_late [OF s0(1), of now] resume by simp
  have held: "held_geometry ?s1"
    using discard_late_held [OF s0(2) assms(4), of now] discard_late_state [of ?s0 now]
    by (intro held_geometry_mono [OF assms(5)]) simp_all
  have resume1: "ps_resume_from_silence ?s1"
    using discard_late_state [of ?s0 now] resume by simp
  consider "self' = self" | "self' = ?s1"
    | "self' = ?s1\<lparr>ps_state := StPlaying, ps_has_played := True, ps_buffer_target_progress := Accumulating\<rparr>"
    using assms(6) by (auto simp: advance_buffering_def Let_def split: if_splits)
  then have "seam_inv frames self' \<and> held_geometry self'"
    using assms(1,5) s1 held resume1 by cases (simp_all add: seam_inv_def held_geometry_def)
  then show "seam_inv frames self'" "held_geometry self'"
    by simp_all
  show "r = None \<Longrightarrow> ps_state self' = StPlaying"
    using assms(6) by (auto simp: advance_buffering_def Let_def split: if_splits)
qed

lemma poll_seam:
  assumes "seam_inv frames self" and "jb_ok B (ps_jitter_buffer self)"
    and "max B (unat (jb_next_expected_sequence (ps_jitter_buffer self))) + 1 < 2 ^ 64"
    and "held_geometry self" and "poll_with_release_horizon self now horizon = (p, self')"
  shows "seam_inv (frames @ frames_of_poll p) self'"
    and "\<not> ps_resume_from_silence self \<Longrightarrow> f \<in> set (frames_of_poll p) \<Longrightarrow> at_seam frames self f \<Longrightarrow> joins self f"
proof -
  have "seam_inv (frames @ frames_of_poll p) self' \<and> (\<not> ps_resume_from_silence self \<longrightarrow>
      f \<in> set (frames_of_poll p) \<longrightarrow> at_seam frames self f \<longrightarrow> joins self f)"
  proof (cases "ps_state self")
    case StBuffering
    obtain r self1 where adv: "advance_buffering self now = (r, self1)"
      by fastforce
    have B: "B + 1 < 2 ^ 64"
      using assms(3) by simp
    note step = advance_buffering_step [OF assms(2) B adv]
    note seam = advance_buffering_seam [OF assms(1) StBuffering assms(2) B assms(4) adv]
    have ok: "jb_ok B (ps_jitter_buffer self1)"
      "max B (unat (jb_next_expected_sequence (ps_jitter_buffer self1))) + 1 < 2 ^ 64"
      using step assms(3) by (auto simp: jb_moved_def)
    have "seam_inv (frames @ frames_of_poll p) self'"
      using assms(5) StBuffering adv seam step poll_playing_seam(1) [OF seam(1,3) ok seam(2)]
      by (cases r) (auto simp: poll_with_release_horizon_def)
    then show ?thesis
      using assms(1) StBuffering by (simp add: seam_inv_def)
  next
    case StPlaying
    then show ?thesis
      using assms(5) poll_playing_seam [OF assms(1) StPlaying assms(2-4)] by (simp add: poll_with_release_horizon_def)
  qed (use assms(1,5) in \<open>auto simp: poll_with_release_horizon_def\<close>)
  then show "seam_inv (frames @ frames_of_poll p) self'"
    and "\<not> ps_resume_from_silence self \<Longrightarrow> f \<in> set (frames_of_poll p) \<Longrightarrow> at_seam frames self f \<Longrightarrow> joins self f"
    by auto
qed

lemma drain_remaining_state:
  "ps_config (snd (drain_remaining self)) = ps_config self"
  "ps_concealment (snd (drain_remaining self)) = ps_concealment self"
  "ps_state (snd (drain_remaining self)) = ps_state self"
  "ps_ramp_frames (snd (drain_remaining self)) = ps_ramp_frames self"
  "ps_fade_in_next_real_frame (snd (drain_remaining self)) \<longleftrightarrow> True"
  "ps_resume_from_silence (snd (drain_remaining self)) \<longleftrightarrow> True"
  by (simp_all add: drain_remaining_def Let_def case_prod_beta)

lemma sched_perform_seam:
  assumes "seam_inv frames self" and "jb_ok B (ps_jitter_buffer self)"
    and "max B (unat (jb_next_expected_sequence (ps_jitter_buffer self))) + 1 < 2 ^ 64"
    and "held_geometry self" and "sched_perform self c = (es, self')"
  shows "seam_inv (frames @ es) self'"
proof (cases c)
  case (SubmitPacket d)
  then have "self' = snd (submit_packet self d)" "es = []"
    using assms(5) by auto
  then show ?thesis
    using assms(1) by (simp add: submit_packet_def Let_def case_prod_beta seam_inv_def)
next
  case (PollAt now horizon)
  then show ?thesis
    using assms(5) poll_seam(1) [OF assms(1-4) surjective_pairing] by (auto simp: case_prod_beta Let_def)
next
  case DrainRemaining
  then show ?thesis
    using assms(1,5) drain_remaining_state [of self] unfolding seam_inv_def by auto
next
  case (RealignToNow now)
  then have "self' = realign_to_now self now" "es = []"
    using assms(5) by auto
  then show ?thesis
    using assms(1) discard_late_state [of self now]
    by (simp add: realign_to_now_def Let_def seam_inv_def reset_consecutive_count_def)
next
  case (OffsetUpdate offset)
  then have "self' = snd (apply_offset_update self offset)" "es = []"
    using assms(5) by auto
  then show ?thesis
    using assms(1) by (simp add: apply_offset_update_def Let_def seam_inv_def split: if_split)
next
  case (Rebuffer offset)
  then have "self' = rebuffer self offset" "es = []"
    using assms(5) by auto
  then show ?thesis
    using assms(1) by (simp add: rebuffer_def seam_inv_def reset_consecutive_count_def)
next
  case (SetHostStart start)
  then have "self' = set_host_start_time_ms self start" "es = []"
    using assms(5) by auto
  then show ?thesis
    using assms(1) by (simp add: set_host_start_time_ms_def seam_inv_def)
next
  case StopScheduler
  then have "self' = scheduler_stop self" "es = []"
    using assms(5) by auto
  then show ?thesis
    using assms(1) by (simp add: scheduler_stop_def seam_inv_def)
qed

text \<open>The packet geometry is fixed when the scheduler is built.\<close>

definition same_geometry :: "playback_scheduler \<Rightarrow> playback_scheduler \<Rightarrow> bool" where
  "same_geometry self self' \<longleftrightarrow> sc_channels (ps_config self') = sc_channels (ps_config self) \<and>
     sc_samples_per_packet (ps_config self') = sc_samples_per_packet (ps_config self)"

lemma sched_perform_geometry:
  assumes "jb_ok B (ps_jitter_buffer self)"
    and "max B (unat (jb_next_expected_sequence (ps_jitter_buffer self))) + 1 < 2 ^ 64"
    and "sched_perform self c = (es, self')"
  shows "same_geometry self self'"
proof (cases c)
  case (PollAt now horizon)
  then show ?thesis
    using assms(3) poll_step [OF assms(1,2) surjective_pairing]
    by (auto simp: case_prod_beta Let_def same_geometry_def same_timeline_def)
next
  case DrainRemaining
  then show ?thesis
    using assms(3) drain_remaining_state(1) [of self] by (simp add: same_geometry_def)
next
  case (RealignToNow now)
  then show ?thesis
    using assms(3) discard_late_state [of self now] by (auto simp: realign_to_now_def Let_def same_geometry_def)
qed (use assms(3) in \<open>auto simp: submit_packet_def apply_offset_update_def rebuffer_def set_host_start_time_ms_def
      scheduler_stop_def Let_def case_prod_beta same_geometry_def split: if_splits\<close>)

lemma sched_run_seam:
  assumes "playback_scheduler_new config offset = Inr self0" and "sched_run self0 calls frames self"
    and "unat (sc_first_sequence config) \<le> B"
    and "\<forall>d. SubmitPacket d \<in> set calls \<longrightarrow> unat (ad_sequence d) < B"
    and "B + length calls < 2 ^ 64" and "0 < unat (sc_channels config)"
    and "\<forall>d. SubmitPacket d \<in> set calls \<longrightarrow>
      length (decode_payload_samples (ad_payload d)) = unat (sc_samples_per_packet config) * unat (sc_channels config)"
  shows "seam_inv frames self \<and> same_geometry self0 self \<and> held_geometry self"
  using assms(2,4,5,7)
proof (induction rule: call_run.induct)
  case run_start
  note new = playback_scheduler_new_ok [OF assms(1)]
  have "ps_fade_in_next_real_frame self0 \<and> ps_resume_from_silence self0"
    using assms(1) by (auto simp: playback_scheduler_new_def try_bind_Inr_iff map_err_def Let_def split: if_splits sum.splits)
  then show ?case
    using new assms(6) by (auto simp: seam_inv_def same_geometry_def held_geometry_def jb_held_def)
next
  case (run_call cs out s c es s')
  have run: "jb_ok B (ps_jitter_buffer s)" "max B (unat (jb_next_expected_sequence (ps_jitter_buffer s))) + 1 < 2 ^ 64"
    using sched_run_ok [OF assms(1) run_call.hyps(1) assms(3)] run_call.prems by auto
  have IH: "seam_inv out s" "same_geometry self0 s" "held_geometry s"
    using run_call by auto
  have "seam_inv (out @ es) s'" "same_geometry self0 s'"
    using sched_perform_seam [OF IH(1) run IH(3) run_call.hyps(3)] sched_perform_geometry [OF run run_call.hyps(3)] IH(2)
    by (simp_all add: same_geometry_def)
  moreover have "jb_held (ps_jitter_buffer s') \<subseteq> {d. SubmitPacket d \<in> set (cs @ [c])}"
    using sched_run_held(1) [OF assms(1) call_run.run_call [OF run_call.hyps] assms(3) run_call.prems(1,2)] by blast
  ultimately show ?case
    using run_call.prems(3) playback_scheduler_new_ok(1) [OF assms(1)]
    by (auto simp: held_geometry_def same_geometry_def)
qed

end
