(* ===== verification/Scheduler_Gaps.thy ===== *)
theory Scheduler_Gaps
  imports Scheduler_Seams
begin

section \<open>Gaps in the sequence\<close>

text \<open>
  Where the frames heard are not consecutive: a gap that a tick abandons, possibly long before the
  tick that emits the frame behind it, and a jump of the buffer to far-future packets. The flag that
  blends the next real frame is kept over the first and not set by the second.
\<close>

abbreviation resynchronisations :: "playback_scheduler \<Rightarrow> u64" where
  "resynchronisations self \<equiv> jbs_resynchronisations (jb_statistics (ps_jitter_buffer self))"

text \<open>Whether the buffer jumped after the last frame that a sequence of calls emitted.\<close>

definition track_resync :: "playback_scheduler \<times> bool \<Rightarrow> sched_call \<Rightarrow> playback_scheduler \<times> bool" where
  "track_resync st c =
     (let (self, resynced) = st; (frames, self') = sched_perform self c in
      (self', frames = [] \<and> (resynced \<or> resynchronisations self' \<noteq> resynchronisations self)))"

definition resynced_since_frame :: "playback_scheduler \<Rightarrow> sched_call list \<Rightarrow> bool" where
  "resynced_since_frame self calls = snd (foldl track_resync (self, False) calls)"

lemma track_resync_run:
  "sched_run self0 calls frames self \<Longrightarrow> fst (foldl track_resync (self0, b) calls) = self"
  by (induction rule: call_run.induct) (auto simp: track_resync_def Let_def case_prod_beta)

lemma resynced_since_frame_snoc:
  assumes "sched_run self0 calls frames self" and "sched_perform self c = (es, self')"
  shows "resynced_since_frame self0 (calls @ [c]) \<longleftrightarrow>
    es = [] \<and> (resynced_since_frame self0 calls \<or> resynchronisations self' \<noteq> resynchronisations self)"
  using track_resync_run [OF assms(1), of False] assms(2)
  by (simp add: resynced_since_frame_def track_resync_def Let_def case_prod_beta)

subsection \<open>Calls that emit nothing\<close>

text \<open>Either the next real frame will be blended, or the stream goes on where it stood.\<close>

definition goes_on :: "playback_scheduler \<Rightarrow> playback_scheduler \<Rightarrow> bool" where
  "goes_on self self' \<longleftrightarrow> ps_fade_in_next_real_frame self' \<or>
     \<not> ps_fade_in_next_real_frame self \<and>
     jb_next_expected_sequence (ps_jitter_buffer self') = jb_next_expected_sequence (ps_jitter_buffer self)"

lemma goes_on_refl [simp]: "goes_on self self"
  by (simp add: goes_on_def)

lemma goes_on_discard_late: "goes_on self (discard_already_late_head self now)"
proof (cases "jb_is_empty (ps_jitter_buffer self) \<or>
    now \<le> local_deadline_ms self (jb_next_expected_sequence (ps_jitter_buffer self))")
  case True
  then have "discard_already_late_head self now = self"
    by (auto simp: discard_already_late_head.simps [of self now] Let_def)
  then show ?thesis
    by simp
next
  case False
  then have "discard_already_late_head self now = discard_already_late_head (drop_late_slot self) now"
    by (simp add: discard_already_late_head.simps [of self now] Let_def)
  moreover have "ps_fade_in_next_real_frame (drop_late_slot self)"
    by (simp add: drop_late_slot_def Let_def)
  ultimately show ?thesis
    using discard_late_state [of "drop_late_slot self" now] by (simp add: goes_on_def)
qed

lemma emit_real_frame:
  "map sf_sequence (frames_of_poll (fst (emit_real self d))) = [ad_sequence d]"
  "ps_jitter_buffer (snd (emit_real self d)) = ps_jitter_buffer self"
  by (simp_all add: emit_real_def Let_def remember_emitted_tail_eq)

lemma emit_slot_frame:
  assumes "jb_inv (ps_jitter_buffer self)" and "emit_slot self = (p, self')"
  shows "frames_of_poll p = [] \<Longrightarrow> ps_fade_in_next_real_frame self'"
    and "f \<in> set (frames_of_poll p) \<Longrightarrow> \<not> ps_fade_in_next_real_frame self' \<Longrightarrow>
      jb_next_expected_sequence (ps_jitter_buffer self') = sf_sequence f + 1"
proof -
  have "(frames_of_poll p = [] \<longrightarrow> ps_fade_in_next_real_frame self') \<and>
    (f \<in> set (frames_of_poll p) \<longrightarrow> \<not> ps_fade_in_next_real_frame self' \<longrightarrow>
      jb_next_expected_sequence (ps_jitter_buffer self') = sf_sequence f + 1)"
  proof (cases "bt_get (jb_packets (ps_jitter_buffer self)) (jb_next_expected_sequence (ps_jitter_buffer self))")
    case None
    then have "emit_slot self = emit_concealed self"
      by (simp add: emit_slot_def pop_in_order_def)
    then show ?thesis
      using assms(2) emit_concealed_state(5) [of self] by (metis snd_conv)
  next
    case (Some d)
    have "ad_sequence d = jb_next_expected_sequence (ps_jitter_buffer self)"
      using Some assms(1) by (auto simp: jb_inv_def packet_ok_def bt_get_Some_in)
    moreover obtain jb where "pop_in_order (ps_jitter_buffer self) = (Some d, jb)"
      "jb_next_expected_sequence jb = jb_next_expected_sequence (ps_jitter_buffer self) + 1"
      using Some by (simp add: pop_in_order_def jb_count_def)
    ultimately show ?thesis
      using assms(2) emit_real_frame [of "self\<lparr>ps_jitter_buffer := jb\<rparr>" d] by (auto simp: emit_slot_def)
  qed
  then show "frames_of_poll p = [] \<Longrightarrow> ps_fade_in_next_real_frame self'"
    and "f \<in> set (frames_of_poll p) \<Longrightarrow> \<not> ps_fade_in_next_real_frame self' \<Longrightarrow>
      jb_next_expected_sequence (ps_jitter_buffer self') = sf_sequence f + 1"
    by auto
qed

lemma poll_playing_goes_on:
  assumes "jb_inv (ps_jitter_buffer self)" and "poll_playing self horizon = (p, self')"
  shows "frames_of_poll p = [] \<Longrightarrow> goes_on self self'"
    and "f \<in> set (frames_of_poll p) \<Longrightarrow> \<not> ps_fade_in_next_real_frame self' \<Longrightarrow>
      jb_next_expected_sequence (ps_jitter_buffer self') = sf_sequence f + 1"
proof -
  have gap: "jb_inv (ps_jitter_buffer (skip_wide_gap self))" "ps_fade_in_next_real_frame (skip_wide_gap self)"
    using jb_inv_skip_to [OF assms(1)] by (simp_all add: skip_wide_gap_def)
  show "frames_of_poll p = [] \<Longrightarrow> goes_on self self'"
    using assms(2) emit_slot_frame(1) [OF assms(1)] emit_slot_frame(1) [OF gap(1)] gap(2)
    by (auto simp: poll_playing_def Let_def goes_on_def split: if_splits)
  show "f \<in> set (frames_of_poll p) \<Longrightarrow> \<not> ps_fade_in_next_real_frame self' \<Longrightarrow>
      jb_next_expected_sequence (ps_jitter_buffer self') = sf_sequence f + 1"
    using assms(2) emit_slot_frame(2) [OF assms(1)] emit_slot_frame(2) [OF gap(1)]
    by (auto simp: poll_playing_def Let_def split: if_splits)
qed

lemma poll_goes_on:
  assumes "jb_ok B (ps_jitter_buffer self)" and "B + 1 < 2 ^ 64" and "poll_with_release_horizon self now horizon = (p, self')"
  shows "frames_of_poll p = [] \<Longrightarrow> goes_on self self'"
    and "f \<in> set (frames_of_poll p) \<Longrightarrow> \<not> ps_fade_in_next_real_frame self' \<Longrightarrow>
      jb_next_expected_sequence (ps_jitter_buffer self') = sf_sequence f + 1"
proof -
  have inv: "jb_inv (ps_jitter_buffer self)"
    using assms(1) by (simp add: jb_ok_def)
  have "(frames_of_poll p = [] \<longrightarrow> goes_on self self') \<and>
    (f \<in> set (frames_of_poll p) \<longrightarrow> \<not> ps_fade_in_next_real_frame self' \<longrightarrow>
      jb_next_expected_sequence (ps_jitter_buffer self') = sf_sequence f + 1)"
  proof (cases "ps_state self")
    case StBuffering
    obtain r self1 where adv: "advance_buffering self now = (r, self1)"
      by fastforce
    have "goes_on self self1"
      using adv goes_on_discard_late [of "self\<lparr>ps_buffer_target_progress := Satisfied\<rparr>" now]
      by (auto simp: advance_buffering_def Let_def goes_on_def split: if_splits)
    moreover have "jb_inv (ps_jitter_buffer self1)"
      using advance_buffering_step [OF assms(1,2) adv] by (auto simp: jb_moved_def jb_ok_def)
    moreover have "frames_of_poll q = []" if "r = Some q" for q
      using adv that by (auto simp: advance_buffering_def Let_def split: if_splits)
    ultimately show ?thesis
      using assms(3) StBuffering adv poll_playing_goes_on(1) [of self1 "max horizon now" p self']
        poll_playing_goes_on(2) [of self1 "max horizon now" p self' f]
      by (cases r) (auto simp: poll_with_release_horizon_def goes_on_def)
  next
    case StPlaying
    then show ?thesis
      using assms(3) poll_playing_goes_on [OF inv] by (auto simp: poll_with_release_horizon_def)
  qed (use assms(3) in \<open>auto simp: poll_with_release_horizon_def\<close>)
  then show "frames_of_poll p = [] \<Longrightarrow> goes_on self self'"
    and "f \<in> set (frames_of_poll p) \<Longrightarrow> \<not> ps_fade_in_next_real_frame self' \<Longrightarrow>
      jb_next_expected_sequence (ps_jitter_buffer self') = sf_sequence f + 1"
    by auto
qed

lemma jb_accept_resync:
  assumes "jb_accept jb d = (r, jb')"
    and "jbs_resynchronisations (jb_statistics jb') = jbs_resynchronisations (jb_statistics jb)"
  shows "jb_next_expected_sequence jb' = jb_next_expected_sequence jb"
  using assms by (auto simp: jb_accept_def accept_far_future_def jb_count_def Let_def split: if_splits list.splits)

lemma sched_perform_goes_on:
  assumes "jb_ok B (ps_jitter_buffer self)" and "B + 1 < 2 ^ 64" and "sched_perform self c = (es, self')"
  shows "es = [] \<Longrightarrow> resynchronisations self' = resynchronisations self \<Longrightarrow> goes_on self self'"
    and "es \<noteq> [] \<Longrightarrow> \<not> ps_fade_in_next_real_frame self' \<Longrightarrow>
      jb_next_expected_sequence (ps_jitter_buffer self') = sf_sequence (last es) + 1"
proof -
  have "(es = [] \<longrightarrow> resynchronisations self' = resynchronisations self \<longrightarrow> goes_on self self') \<and>
    (es \<noteq> [] \<longrightarrow> \<not> ps_fade_in_next_real_frame self' \<longrightarrow>
      jb_next_expected_sequence (ps_jitter_buffer self') = sf_sequence (last es) + 1)"
  proof (cases c)
    case (SubmitPacket d)
    then show ?thesis
      using assms(3) jb_accept_resync [OF surjective_pairing, of "ps_jitter_buffer self" d]
      by (auto simp: submit_packet_def Let_def case_prod_beta goes_on_def)
  next
    case (PollAt now horizon)
    then obtain p where p: "poll_with_release_horizon self now horizon = (p, self')" "es = frames_of_poll p"
      using assms(3) by (auto simp: Let_def split: prod.splits)
    show ?thesis
      using poll_goes_on(1) [OF assms(1,2) p(1)] poll_goes_on(2) [OF assms(1,2) p(1), of "last es"] p(2) by auto
  next
    case DrainRemaining
    then show ?thesis
      using assms(3) drain_remaining_state(5) [of self] by (auto simp: goes_on_def)
  next
    case (RealignToNow now)
    then show ?thesis
      using assms(3) by (auto simp: realign_to_now_def Let_def goes_on_def)
  qed (use assms(3) in \<open>auto simp: apply_offset_update_def rebuffer_def set_host_start_time_ms_def
      scheduler_stop_def Let_def goes_on_def split: if_splits\<close>)
  then show "es = [] \<Longrightarrow> resynchronisations self' = resynchronisations self \<Longrightarrow> goes_on self self'"
    and "es \<noteq> [] \<Longrightarrow> \<not> ps_fade_in_next_real_frame self' \<Longrightarrow>
      jb_next_expected_sequence (ps_jitter_buffer self') = sf_sequence (last es) + 1"
    by auto
qed

lemma sched_run_consecutive:
  assumes "playback_scheduler_new config offset = Inr self0" and "sched_run self0 calls frames self"
    and "unat (sc_first_sequence config) \<le> B"
    and "\<forall>d. SubmitPacket d \<in> set calls \<longrightarrow> unat (ad_sequence d) < B"
    and "B + length calls < 2 ^ 64"
    and "\<not> ps_fade_in_next_real_frame self" and "\<not> resynced_since_frame self0 calls"
  shows "jb_next_expected_sequence (ps_jitter_buffer self) = sf_sequence (last frames) + 1"
  using assms(2,4-7)
proof (induction rule: call_run.induct)
  case run_start
  then show ?case
    using assms(1) by (auto simp: playback_scheduler_new_def try_bind_Inr_iff map_err_def Let_def split: if_splits sum.splits)
next
  case (run_call cs out s c es s')
  have run: "jb_ok B (ps_jitter_buffer s)" "B + 1 < 2 ^ 64"
    using sched_run_ok(1) [OF assms(1) run_call.hyps(1) assms(3)] run_call.prems by auto
  note step = sched_perform_goes_on [OF run run_call.hyps(3)]
  note since = resynced_since_frame_snoc [OF run_call.hyps(1,3)]
  show ?case
  proof (cases "es = []")
    case True
    then have "\<not> resynced_since_frame self0 cs" "goes_on s s'"
      using run_call.prems(4) since step(1) by auto
    then show ?thesis
      using run_call True by (auto simp: goes_on_def)
  next
    case False
    then show ?thesis
      using step(2) run_call.prems(3) by simp
  qed
qed

subsection \<open>Joining over every gap\<close>

lemma poll_joins:
  assumes "playback_scheduler_new config offset = Inr self0" and "sched_run self0 calls frames self"
    and "unat (sc_first_sequence config) \<le> B"
    and "\<forall>d. SubmitPacket d \<in> set calls \<longrightarrow> unat (ad_sequence d) < B"
    and "B + length calls + 1 < 2 ^ 64"
    and "seam_inv frames self" and "held_geometry self"
    and "poll_with_release_horizon self now horizon = (p, self')" and "f \<in> set (frames_of_poll p)"
    and "\<not> ps_resume_from_silence self"
    and "at_seam frames self f \<or> \<not> resynced_since_frame self0 calls \<and> sf_sequence f \<noteq> sf_sequence (last frames) + 1"
  shows "joins self f"
proof -
  have "at_seam frames self f"
    using sched_run_consecutive [OF assms(1-4)] assms(5,11) by (auto simp: at_seam_def)
  moreover have "jb_ok B (ps_jitter_buffer self)" "max B (unat (jb_next_expected_sequence (ps_jitter_buffer self))) + 1 < 2 ^ 64"
    using sched_run_ok [OF assms(1-4)] assms(5) by auto
  ultimately show ?thesis
    by (intro poll_seam(2) [OF assms(6) _ _ assms(7,8,10,9)])
qed

subsection \<open>Jumps of the buffer\<close>

lemma first_packet:
  assumes "jb_inv jb" and "bt_first_key (jb_packets jb) = Some k"
  shows "\<exists>d. bt_get (jb_packets jb) k = Some d \<and> ad_sequence d = k"
proof -
  obtain d where d: "(k, d) \<in> set (jb_packets jb)"
    using bt_first_key_in [OF assms(2)] by auto
  then have "ad_sequence d = k"
    using assms(1) by (fastforce simp: jb_inv_def packet_ok_def)
  then show ?thesis
    using d bt_get_Some_in [OF assms(1)] by blast
qed

lemma jb_accept_jump:
  assumes "jb_inv jb" and "jb_accept jb d = (r, jb')" and "jb_next_expected_sequence jb' \<noteq> jb_next_expected_sequence jb"
  shows "bt_first_key (jb_packets jb') = Some (jb_next_expected_sequence jb')"
    and "\<exists>d'. bt_get (jb_packets jb') (jb_next_expected_sequence jb') = Some d' \<and> ad_sequence d' = jb_next_expected_sequence jb'"
proof -
  have inv: "jb_inv jb'"
    using jb_inv_accept [OF assms(1,2)] .
  obtain candidates where jb': "jb_packets jb' = candidates" "length candidates \<ge> FAR_FUTURE_RESYNC_PACKETS"
    "jb_next_expected_sequence jb' = (case bt_first_key candidates of Some f \<Rightarrow> f | None \<Rightarrow> ad_sequence d)"
    using assms(2,3) by (auto simp: jb_accept_def accept_far_future_def jb_count_def Let_def split: if_splits list.splits)
  then obtain e es where e: "candidates = e # es"
    by (cases candidates) (auto simp: FAR_FUTURE_RESYNC_PACKETS_def)
  then show first: "bt_first_key (jb_packets jb') = Some (jb_next_expected_sequence jb')"
    using jb' by (simp add: bt_first_key_def)
  show "\<exists>d'. bt_get (jb_packets jb') (jb_next_expected_sequence jb') = Some d' \<and> ad_sequence d' = jb_next_expected_sequence jb'"
    by (rule first_packet [OF inv first])
qed

text \<open>The frame that a tick emits from a packet in its place, with the flag not set, is not changed.\<close>

lemma poll_raw:
  assumes "ps_state self = StPlaying" and "\<not> ps_fade_in_next_real_frame self"
    and "bt_first_key (jb_packets (ps_jitter_buffer self)) = Some (jb_next_expected_sequence (ps_jitter_buffer self))"
    and "bt_get (jb_packets (ps_jitter_buffer self)) (jb_next_expected_sequence (ps_jitter_buffer self)) = Some d"
    and "poll_with_release_horizon self now horizon = (Frame f health, self')"
  shows "sf_sequence f = ad_sequence d" and "sf_samples f = decode_payload_samples (ad_payload d)" and "\<not> sf_concealed f"
proof -
  obtain jb where pop: "pop_in_order (ps_jitter_buffer self) = (Some d, jb)"
    using assms(4) by (simp add: pop_in_order_def)
  have "missing_sequence_count (ps_jitter_buffer self) = 0"
    using assms(3) by (simp add: missing_sequence_count_def)
  then have "emit_real (self\<lparr>ps_jitter_buffer := jb\<rparr>) d = (Frame f health, self')"
    using assms(1,5) pop by (auto simp: poll_with_release_horizon_def poll_playing_def emit_slot_def Let_def split: if_splits)
  then show "sf_sequence f = ad_sequence d" "sf_samples f = decode_payload_samples (ad_payload d)" "\<not> sf_concealed f"
    using emit_real_frame(1) [of "self\<lparr>ps_jitter_buffer := jb\<rparr>" d]
      emit_real_state(8,9) [of "self\<lparr>ps_jitter_buffer := jb\<rparr>" d] assms(2) by (simp_all add: real_samples_def)
qed

text \<open>A tick that abandons a gap.\<close>

lemma poll_wide_gap:
  assumes "jb_inv (ps_jitter_buffer self)" and "ps_state self = StPlaying"
    and "n = jb_next_expected_sequence (ps_jitter_buffer self)" and "local_deadline_ms self n \<le> max horizon now"
    and "ucast (sc_concealment_skip_threshold_packets (ps_config self)) < missing_sequence_count (ps_jitter_buffer self)"
    and "e = n + missing_sequence_count (ps_jitter_buffer self)"
  shows "n < e \<and> peek_next_sequence (ps_jitter_buffer self) = Some e"
    and "case poll_with_release_horizon self now horizon of
        (Frame f health, self') \<Rightarrow> sf_sequence f = e \<and> \<not> sf_concealed f \<and> ps_state self' = StPlaying
      | (Waiting health, self') \<Rightarrow> max horizon now < local_deadline_ms self e \<and> ps_state self' = StPlaying \<and>
          jb_next_expected_sequence (ps_jitter_buffer self') = e
      | _ \<Rightarrow> False"
proof -
  let ?gap = "skip_wide_gap self"
  have missing: "0 < missing_sequence_count (ps_jitter_buffer self)"
    using assms(5) by (metis word_gt_0 word_not_simps(1) linorder_neqE_nat not_less_iff_gr_or_eq)
  note first = skip_to_earliest_next [OF missing]
  then show e: "n < e \<and> peek_next_sequence (ps_jitter_buffer self) = Some e"
    using assms(3,6) by (simp add: peek_next_sequence_def)
  have gap: "jb_next_expected_sequence (ps_jitter_buffer ?gap) = e" "jb_packets (ps_jitter_buffer ?gap) = jb_packets (ps_jitter_buffer self)"
    "local_deadline_ms ?gap = local_deadline_ms self" "ps_state ?gap = StPlaying" "jb_inv (ps_jitter_buffer ?gap)"
    using missing assms(2,3,6) jb_inv_skip_to [OF assms(1)]
    by (auto simp: skip_wide_gap_def skip_to_earliest_buffered_def jb_count_def Let_def local_deadline_ms_def
        expected_host_presentation_time_ms_def fun_eq_iff)
  obtain d where d: "bt_get (jb_packets (ps_jitter_buffer ?gap)) e = Some d" "ad_sequence d = e"
    using first_packet [OF assms(1)] first(1) assms(3,6) gap(2) by auto
  have slot: "emit_slot ?gap = emit_real (?gap\<lparr>ps_jitter_buffer := snd (pop_in_order (ps_jitter_buffer ?gap))\<rparr>) d"
    using d(1) gap(1) by (simp add: emit_slot_def pop_in_order_def)
  show "case poll_with_release_horizon self now horizon of
        (Frame f health, self') \<Rightarrow> sf_sequence f = e \<and> \<not> sf_concealed f \<and> ps_state self' = StPlaying
      | (Waiting health, self') \<Rightarrow> max horizon now < local_deadline_ms self e \<and> ps_state self' = StPlaying \<and>
          jb_next_expected_sequence (ps_jitter_buffer self') = e
      | _ \<Rightarrow> False"
  proof (cases "max horizon now < local_deadline_ms self e")
    case True
    then have "poll_with_release_horizon self now horizon = (Waiting (buffer_health ?gap), ?gap)"
      using assms(2-5) gap(1,3)
      by (auto simp: poll_with_release_horizon_def poll_playing_def Let_def simp del: max_less_iff_conj split: if_splits)
    then show ?thesis
      using True gap by simp
  next
    case False
    then have "poll_with_release_horizon self now horizon = emit_slot ?gap"
      using assms(2-5) gap(1,3)
      by (auto simp: poll_with_release_horizon_def poll_playing_def Let_def simp del: max_less_iff_conj split: if_splits)
    then show ?thesis
      unfolding slot using d(2) gap(4) by (simp add: emit_real_def Let_def remember_emitted_tail_eq)
  qed
qed

end
