(* ===== verification/Scheduler_Example.thy ===== *)
theory Scheduler_Example
  imports Scheduler_Gaps
begin

section \<open>A concrete stream\<close>

text \<open>
  Packets of two mono samples at 100 Hz (20 ms each). Packets 1, 0 and 3 arrive and 2 is lost: the
  ticks emit 0 and 1, conceal 2, and emit 3. The runs are evaluated once; the witnesses of the scheduler's properties
  take their facts from the two evaluations.
\<close>

definition example_sched_config :: scheduler_config where
  "example_sched_config =
     \<lparr>sc_session_id = SessionId (lit ''s''), sc_stream_id = StreamId (lit ''t''), sc_sample_rate = 100,
      sc_host_start_time_ms = 0, sc_first_sequence = 0, sc_samples_per_packet = 2, sc_channels = 1,
      sc_startup_buffer_target_ms = 20, sc_rebuffer_target_ms = 20, sc_low_water_ms = 200, sc_high_water_ms = 700,
      sc_hard_resync_threshold_ms = F64 0x405E000000000000, sc_max_consecutive_concealed_packets = 25,
      sc_concealment_ramp_ms = 1, sc_concealment_skip_threshold_packets = 10, sc_max_reorder_window = 64,
      sc_max_buffered_duration_ms = 2000\<rparr>"

definition example_datagram :: "u64 \<Rightarrow> i16 list \<Rightarrow> audio_datagram" where
  "example_datagram sequence samples =
     \<lparr>ad_session_id = SessionId (lit ''s''), ad_stream_id = StreamId (lit ''t''), ad_sequence = sequence,
      ad_codec = PcmS16Le, ad_sample_rate = 100, ad_channels = 1, ad_samples_per_packet = 2,
      ad_first_sample_index = 2 * sequence, ad_host_presentation_time_ms = 20 * sequence,
      ad_payload = pcm_bytes samples\<rparr>"

definition example_scheduler :: playback_scheduler where
  "example_scheduler =
     \<lparr>ps_config = example_sched_config,
      ps_jitter_buffer =
        \<lparr>jb_config = \<lparr>jbc_session_id = SessionId (lit ''s''), jbc_stream_id = StreamId (lit ''t''), jbc_first_sequence = 0,
                      jbc_max_reorder_window = 64, jbc_max_buffered_duration_ms = 2000\<rparr>,
         jb_packets = [], jb_next_expected_sequence = 0, jb_statistics = jitter_buffer_statistics_default,
         jb_far_future_candidates = []\<rparr>,
      ps_concealment =
        \<lparr>cp_max_consecutive_concealed_packets = 25, cp_ramp_frames = 1, cp_statistics = concealment_statistics_default,
         cp_last_real_samples = [], cp_previous_tail = []\<rparr>,
      ps_state = StBuffering, ps_offset_ms = F64 0, ps_ramp_frames = 1, ps_fade_in_next_real_frame = True,
      ps_last_emitted_tail = [], ps_resume_from_silence = True, ps_has_played = False,
      ps_buffer_target_progress = Accumulating\<rparr>"

definition example_startup_calls :: "sched_call list" where
  "example_startup_calls =
     [SubmitPacket (example_datagram 1 [300, 400]), SubmitPacket (example_datagram 0 [100, 200])]"

definition example_playing_calls :: "sched_call list" where
  "example_playing_calls = example_startup_calls @
     [PollAt 0 0, PollAt 20 20, SubmitPacket (example_datagram 3 [900, 1000]), PollAt 40 40]"

definition example_exec :: "sched_call list \<Rightarrow> (scheduled_frame list \<times> playback_scheduler) option" where
  "example_exec calls = call_exec (\<lambda>_ _. True) sched_perform example_scheduler calls"

definition frame_view :: "scheduled_frame \<Rightarrow> u64 \<times> i16 list \<times> bool" where
  "frame_view f = (sf_sequence f, sf_samples f, sf_concealed f)"

fun reached_view :: "u64 \<Rightarrow> scheduled_frame list \<times> playback_scheduler \<Rightarrow>
    (u64 \<times> i16 list \<times> bool) list \<times> scheduler_state \<times> bool \<times> u64 list \<times> (u64 \<times> i16 list \<times> bool) list" where
  "reached_view now (frames, self) =
     (map frame_view frames, ps_state self, ps_resume_from_silence self,
      jb_next_expected_sequence (ps_jitter_buffer self) # missing_sequence_count (ps_jitter_buffer self) #
        ucast (sc_concealment_skip_threshold_packets (ps_config self)) # local_deadline_ms self (jb_next_expected_sequence (ps_jitter_buffer self)) # map fst (jb_packets (ps_jitter_buffer self)),
      map frame_view (frames_of_poll (fst (poll_with_release_horizon self now now))))"

lemma example_scheduler_new: "playback_scheduler_new example_sched_config (F64 0) = Inr example_scheduler"
  by code_simp

lemma example_startup_view:
  "map_option (reached_view 0) (example_exec example_startup_calls) =
     Some ([], StBuffering, True, [0, 0, 10, 0, 0, 1], [(0, [0, 200], False)])"
  by code_simp

lemma example_playing_view:
  "map_option (reached_view 60) (example_exec example_playing_calls) =
     Some ([(0, [0, 200], False), (1, [300, 400], False), (2, [400, 400], True)], StPlaying, False,
           [3, 0, 10, 60, 3], [(3, [400, 1000], False)])"
  by code_simp

text \<open>
  Only packet 20 arrives after 0 and 1 were heard: the tick at 40 abandons the gap and emits nothing,
  and the tick at 400 emits packet 20.
\<close>

definition example_gap_calls :: "sched_call list" where
  "example_gap_calls = example_startup_calls @
     [PollAt 0 0, PollAt 20 20, SubmitPacket (example_datagram 20 [5000, 6000]), PollAt 40 40]"

lemma example_gap_view:
  "map_option (reached_view 400) (example_exec example_gap_calls) =
     Some ([(0, [0, 200], False), (1, [300, 400], False)], StPlaying, False,
           [20, 0, 10, 400, 20], [(20, [400, 6000], False)])"
  by code_simp

lemma example_gap_no_resync: "\<not> resynced_since_frame example_scheduler example_gap_calls"
  by code_simp

text \<open>
  After packet 0 was heard, packets 200 and 201 arrive, and then 202: the buffer moves the stream to
  200.
\<close>

definition example_jump_calls :: "sched_call list" where
  "example_jump_calls = example_startup_calls @
     [PollAt 0 0, SubmitPacket (example_datagram 200 [9000, 9000]), SubmitPacket (example_datagram 201 [9000, 9000])]"

definition example_jump_packet :: audio_datagram where
  "example_jump_packet = example_datagram 202 [9000, 9000]"

fun jump_view :: "scheduled_frame list \<times> playback_scheduler \<Rightarrow>
    (u64 \<times> i16 list \<times> bool) list \<times> scheduler_state \<times> bool \<times> bool \<times> u64 \<times> u64 \<times> (u64 \<times> i16 list \<times> bool) list" where
  "jump_view (frames, self) =
     (let self1 = snd (submit_packet self example_jump_packet) in
      (map frame_view frames, ps_state self, ps_fade_in_next_real_frame self, ps_resume_from_silence self,
       jb_next_expected_sequence (ps_jitter_buffer self), jb_next_expected_sequence (ps_jitter_buffer self1),
       map frame_view (frames_of_poll (fst (poll_with_release_horizon self1 4000 4000)))))"

lemma example_jump_view:
  "map_option jump_view (example_exec example_jump_calls) =
     Some ([(0, [0, 200], False)], StPlaying, False, False, 1, 200, [(200, [9000, 9000], False)])"
  by code_simp

lemma frames_of_poll_view:
  assumes "map frame_view (frames_of_poll (fst (poll_with_release_horizon self now now))) = [v]"
  shows "\<exists>f health self'. poll_with_release_horizon self now now = (Frame f health, self') \<and> frame_view f = v"
  using assms by (cases "poll_with_release_horizon self now now"; cases "fst (poll_with_release_horizon self now now)") auto

lemma example_exec_run: "example_exec calls = Some (frames, self) \<Longrightarrow> sched_run example_scheduler calls frames self"
  unfolding example_exec_def by (rule call_exec_run)

definition example_starting :: playback_scheduler where
  "example_starting = snd (the (example_exec example_startup_calls))"

definition example_playing :: playback_scheduler where
  "example_playing = snd (the (example_exec example_playing_calls))"

definition example_heard :: "scheduled_frame list" where
  "example_heard = fst (the (example_exec example_playing_calls))"

lemma example_startup:
  "sched_run example_scheduler example_startup_calls [] example_starting" "ps_state example_starting = StBuffering"
  "\<exists>f health self'. poll_with_release_horizon example_starting 0 0 = (Frame f health, self') \<and>
     frame_view f = (0, [0, 200], False)"
proof -
  obtain frames self where exec: "example_exec example_startup_calls = Some (frames, self)"
    using example_startup_view by (cases "example_exec example_startup_calls") auto
  then have self: "example_starting = self"
    by (simp add: example_starting_def)
  note view = example_startup_view [unfolded exec, simplified]
  show "sched_run example_scheduler example_startup_calls [] example_starting"
    using example_exec_run [OF exec] view self by simp
  show "ps_state example_starting = StBuffering"
    using view self by simp
  show "\<exists>f health self'. poll_with_release_horizon example_starting 0 0 = (Frame f health, self') \<and>
      frame_view f = (0, [0, 200], False)"
    using view self by (intro frames_of_poll_view) simp
qed

lemma example_playback:
  "sched_run example_scheduler example_playing_calls example_heard example_playing" "ps_state example_playing = StPlaying"
  "\<not> ps_resume_from_silence example_playing"
  "jb_next_expected_sequence (ps_jitter_buffer example_playing) = 3"
  "missing_sequence_count (ps_jitter_buffer example_playing) = 0"
  "(ucast (sc_concealment_skip_threshold_packets (ps_config example_playing)) :: u64) = 10"
  "local_deadline_ms example_playing 3 = 60"
  "map fst (jb_packets (ps_jitter_buffer example_playing)) = [3]"
  "map frame_view example_heard = [(0, [0, 200], False), (1, [300, 400], False), (2, [400, 400], True)]"
  "\<exists>f health self'. poll_with_release_horizon example_playing 60 60 = (Frame f health, self') \<and>
     frame_view f = (3, [400, 1000], False)"
proof -
  obtain frames self where exec: "example_exec example_playing_calls = Some (frames, self)"
    using example_playing_view by (cases "example_exec example_playing_calls") auto
  then have self: "example_playing = self" "example_heard = frames"
    by (simp_all add: example_playing_def example_heard_def)
  note view = example_playing_view [unfolded exec, simplified]
  show "sched_run example_scheduler example_playing_calls example_heard example_playing"
    using example_exec_run [OF exec] self by simp
  show "ps_state example_playing = StPlaying" "\<not> ps_resume_from_silence example_playing"
    "jb_next_expected_sequence (ps_jitter_buffer example_playing) = 3"
    "missing_sequence_count (ps_jitter_buffer example_playing) = 0"
  "(ucast (sc_concealment_skip_threshold_packets (ps_config example_playing)) :: u64) = 10"
  "local_deadline_ms example_playing 3 = 60"
    "map fst (jb_packets (ps_jitter_buffer example_playing)) = [3]"
    "map frame_view example_heard = [(0, [0, 200], False), (1, [300, 400], False), (2, [400, 400], True)]"
    using view self by auto
  show "\<exists>f health self'. poll_with_release_horizon example_playing 60 60 = (Frame f health, self') \<and>
      frame_view f = (3, [400, 1000], False)"
    using view self by (intro frames_of_poll_view) simp
qed

definition example_gap :: playback_scheduler where
  "example_gap = snd (the (example_exec example_gap_calls))"

definition example_gap_heard :: "scheduled_frame list" where
  "example_gap_heard = fst (the (example_exec example_gap_calls))"

lemma example_gap:
  "sched_run example_scheduler example_gap_calls example_gap_heard example_gap"
  "\<not> ps_resume_from_silence example_gap"
  "map frame_view example_gap_heard = [(0, [0, 200], False), (1, [300, 400], False)]"
  "\<exists>f health self'. poll_with_release_horizon example_gap 400 400 = (Frame f health, self') \<and>
     frame_view f = (20, [400, 6000], False)"
  "jb_next_expected_sequence (ps_jitter_buffer example_gap) = 20"
proof -
  obtain frames self where exec: "example_exec example_gap_calls = Some (frames, self)"
    using example_gap_view by (cases "example_exec example_gap_calls") auto
  then have self: "example_gap = self" "example_gap_heard = frames"
    by (simp_all add: example_gap_def example_gap_heard_def)
  note view = example_gap_view [unfolded exec, simplified]
  show "sched_run example_scheduler example_gap_calls example_gap_heard example_gap"
    using example_exec_run [OF exec] self by simp
  show "\<not> ps_resume_from_silence example_gap"
    "map frame_view example_gap_heard = [(0, [0, 200], False), (1, [300, 400], False)]"
    "jb_next_expected_sequence (ps_jitter_buffer example_gap) = 20"
    using view self by auto
  show "\<exists>f health self'. poll_with_release_horizon example_gap 400 400 = (Frame f health, self') \<and>
      frame_view f = (20, [400, 6000], False)"
    using view self by (intro frames_of_poll_view) simp
qed

definition example_before_jump :: playback_scheduler where
  "example_before_jump = snd (the (example_exec example_jump_calls))"

definition example_jump_heard :: "scheduled_frame list" where
  "example_jump_heard = fst (the (example_exec example_jump_calls))"

lemma example_jump:
  "sched_run example_scheduler example_jump_calls example_jump_heard example_before_jump"
  "ps_state example_before_jump = StPlaying" "\<not> ps_fade_in_next_real_frame example_before_jump"
  "\<not> ps_resume_from_silence example_before_jump"
  "jb_next_expected_sequence (ps_jitter_buffer example_before_jump) = 1"
  "jb_next_expected_sequence (ps_jitter_buffer (snd (submit_packet example_before_jump example_jump_packet))) = 200"
  "map frame_view example_jump_heard = [(0, [0, 200], False)]"
  "\<exists>f health self'. poll_with_release_horizon (snd (submit_packet example_before_jump example_jump_packet)) 4000 4000 =
     (Frame f health, self') \<and> frame_view f = (200, [9000, 9000], False)"
proof -
  obtain frames self where exec: "example_exec example_jump_calls = Some (frames, self)"
    using example_jump_view by (cases "example_exec example_jump_calls") auto
  then have self: "example_before_jump = self" "example_jump_heard = frames"
    by (simp_all add: example_before_jump_def example_jump_heard_def)
  note view = example_jump_view [unfolded exec, simplified, unfolded Let_def, simplified]
  show "sched_run example_scheduler example_jump_calls example_jump_heard example_before_jump"
    using example_exec_run [OF exec] self by simp
  show "ps_state example_before_jump = StPlaying" "\<not> ps_fade_in_next_real_frame example_before_jump"
    "\<not> ps_resume_from_silence example_before_jump"
    "jb_next_expected_sequence (ps_jitter_buffer example_before_jump) = 1"
    "jb_next_expected_sequence (ps_jitter_buffer (snd (submit_packet example_before_jump example_jump_packet))) = 200"
    "map frame_view example_jump_heard = [(0, [0, 200], False)]"
    using view self by auto
  show "\<exists>f health self'. poll_with_release_horizon (snd (submit_packet example_before_jump example_jump_packet)) 4000 4000 =
      (Frame f health, self') \<and> frame_view f = (200, [9000, 9000], False)"
    using view self by (intro frames_of_poll_view) simp
qed

lemma example_heard:
  "example_heard \<noteq> []" "map sf_sequence example_heard = [0, 1, 2]" "\<not> sf_concealed (hd example_heard)"
  "sf_concealed (last example_heard)"
proof -
  have "length example_heard = 3"
    using arg_cong [OF example_playback(9), of length] by simp
  then obtain a b c where heard: "example_heard = [a, b, c]"
    by (auto simp: numeral_3_eq_3 length_Suc_conv)
  show "example_heard \<noteq> []" "map sf_sequence example_heard = [0, 1, 2]" "\<not> sf_concealed (hd example_heard)"
    "sf_concealed (last example_heard)"
    using example_playback(9) unfolding heard by (simp_all add: frame_view_def)
qed

lemma last_frame_view:
  assumes "map frame_view frames = vs @ [v]"
  shows "frame_view (last frames) = v"
proof -
  have "frames \<noteq> []"
    using assms by auto
  then show ?thesis
    using arg_cong [OF assms, of last] by (simp add: last_map)
qed

lemmas example_gap_last = last_frame_view [of example_gap_heard "[(0, [0, 200], False)]" "(1, [300, 400], False)",
    unfolded append.simps, OF example_gap(3), unfolded frame_view_def]

lemmas example_jump_last = last_frame_view [of example_jump_heard "[]" "(0, [0, 200], False)",
    unfolded append.simps, OF example_jump(7), unfolded frame_view_def]

lemma example_sequences:
  "\<forall>d. SubmitPacket d \<in> set example_startup_calls \<longrightarrow> unat (ad_sequence d) < 4"
  "\<forall>d. SubmitPacket d \<in> set example_playing_calls \<longrightarrow> unat (ad_sequence d) < 4"
  "unat (sc_first_sequence example_sched_config) \<le> B"
  "\<forall>d. SubmitPacket d \<in> set example_gap_calls \<longrightarrow> unat (ad_sequence d) < 21"
  "\<forall>d. SubmitPacket d \<in> set example_jump_calls \<longrightarrow> unat (ad_sequence d) < 203"
  by (auto simp: example_startup_calls_def example_playing_calls_def example_gap_calls_def example_jump_calls_def
      example_datagram_def example_sched_config_def)

lemma example_reaches:
  "sched_reaches 4 example_sched_config example_startup_calls [] example_starting"
  "sched_reaches 4 example_sched_config example_playing_calls example_heard example_playing"
  "sched_reaches 203 example_sched_config example_jump_calls example_jump_heard example_before_jump"
  unfolding sched_reaches_def
  using example_scheduler_new example_startup(1) example_playback(1) example_jump(1) example_sequences
  by (auto simp: example_startup_calls_def example_playing_calls_def example_jump_calls_def)

end
