(* ===== verification/Scheduler_Properties.thy ===== *)
theory Scheduler_Properties
  imports Scheduler_Example
begin

section \<open>What the playback scheduler guarantees\<close>

text \<open>
  The properties of the scheduler over its runs, each with a concrete instance on one small stream.
\<close>

text \<open>
  C10: what a listener hears is in order and genuine. Over any run of a scheduler, whatever
  packets arrive in whatever order and however ticks, drains, clock corrections, rebuffers,
  realignments, re-anchoring and stops are interleaved: the emitted frames, real and concealed,
  have strictly increasing sequence numbers starting at the first expected one, and every real
  frame carries the numbers and the sample count of a packet that was submitted for this session
  and stream.
\<close>

theorem scheduler_emits_in_order:
  assumes "playback_scheduler_new config offset = Inr self0" and "sched_run self0 calls frames self"
    and "unat (sc_first_sequence config) \<le> B"
    and "\<forall>d. SubmitPacket d \<in> set calls \<longrightarrow> unat (ad_sequence d) < B"
    and "B + length calls < 2 ^ 64"
  shows "sorted_wrt (<) (map sf_sequence frames) \<and>
    (\<forall>f \<in> set frames. sc_first_sequence config \<le> sf_sequence f \<and>
       (\<not> sf_concealed f \<longrightarrow> (\<exists>d. SubmitPacket d \<in> set calls \<and> frame_of_packet f d \<and>
          ad_session_id d = sc_session_id config \<and> ad_stream_id d = sc_stream_id config)))"
  by (rule sched_run_in_order [OF assms])

theorem scheduler_emits_in_order_witness:
  "sched_run example_scheduler example_playing_calls example_heard example_playing \<and>
   map sf_sequence example_heard = [0, 1, 2] \<and> sorted_wrt (<) (map sf_sequence example_heard) \<and>
   (\<exists>d. SubmitPacket d \<in> set example_playing_calls \<and> frame_of_packet (hd example_heard) d)"
proof -
  have frames: "map sf_sequence example_heard = [0, 1, 2]" "hd example_heard \<in> set example_heard"
    "\<not> sf_concealed (hd example_heard)"
    using example_heard by simp_all
  have "4 + length example_playing_calls < 2 ^ 64"
    by (simp add: example_playing_calls_def example_startup_calls_def)
  from scheduler_emits_in_order [OF example_scheduler_new example_playback(1) example_sequences(3,2) this]
  show ?thesis
    using frames example_playback(1) by blast
qed



subsection \<open>No clicks\<close>

definition stream_geometry :: "scheduler_config \<Rightarrow> sched_call list \<Rightarrow> bool" where
  "stream_geometry config calls \<longleftrightarrow> 0 < unat (sc_channels config) \<and>
     (\<forall>d. SubmitPacket d \<in> set calls \<longrightarrow>
        length (decode_payload_samples (ad_payload d)) = unat (sc_samples_per_packet config) * unat (sc_channels config))"

lemma example_geometry:
  "stream_geometry example_sched_config example_playing_calls"
  "stream_geometry example_sched_config example_gap_calls"
  by (auto simp: stream_geometry_def example_playing_calls_def example_gap_calls_def example_startup_calls_def
      example_datagram_def example_sched_config_def)

lemma sched_reaches_seam:
  assumes "sched_reaches B config calls frames self" and "stream_geometry config calls"
  shows "seam_inv frames self" and "held_geometry self"
    and "sched_channels self = unat (sc_channels config)" and "sched_spp self = unat (sc_samples_per_packet config)"
proof -
  obtain offset self0 where new: "playback_scheduler_new config offset = Inr self0" and run: "sched_run self0 calls frames self"
    using assms(1) by (auto simp: sched_reaches_def)
  have "seam_inv frames self \<and> same_geometry self0 self \<and> held_geometry self"
    using sched_run_seam [OF new run] assms by (auto simp: sched_reaches_def stream_geometry_def)
  then show "seam_inv frames self" "held_geometry self"
    "sched_channels self = unat (sc_channels config)" "sched_spp self = unat (sc_samples_per_packet config)"
    using playback_scheduler_new_ok(1) [OF new] by (simp_all add: same_geometry_def)
qed

text \<open>
  C18: what is heard has no steps where the stream is broken, while playback has not fallen silent
  and every packet submitted holds exactly the configured number of samples. Whenever a tick emits a
  frame next to a concealed one, or a frame that the tick reached by abandoning a gap, or any frame
  whose number does not follow the last one heard, in whichever earlier tick the slots between were
  given up, its first sample of every channel is exactly the last sample heard on that channel. The
  one break left out is a jump of the buffer to far-future packets after the last frame heard.
\<close>

theorem scheduler_joins_seams:
  assumes "playback_scheduler_new config offset = Inr self0" and "sched_run self0 calls frames self"
    and "unat (sc_first_sequence config) \<le> B"
    and "\<forall>d. SubmitPacket d \<in> set calls \<longrightarrow> unat (ad_sequence d) < B"
    and "B + length calls + 1 < 2 ^ 64"
    and "stream_geometry config calls" and "\<not> ps_resume_from_silence self"
    and "poll_with_release_horizon self now horizon = (Frame f health, self')"
    and "sf_concealed (last frames) \<or> sf_concealed f \<or>
      sf_sequence f \<noteq> jb_next_expected_sequence (ps_jitter_buffer self) \<or>
      (\<not> resynced_since_frame self0 calls \<and> sf_sequence f \<noteq> sf_sequence (last frames) + 1)"
    and "channels = unat (sc_channels config)" and "channel < channels"
  shows "frames \<noteq> [] \<and>
    frame_sample channels (sf_samples f) 0 channel =
      frame_sample channels (sf_samples (last frames)) (unat (sc_samples_per_packet config) - 1) channel"
proof -
  have "sched_reaches B config calls frames self"
    using assms(1-5) by (auto simp: sched_reaches_def)
  note seam = sched_reaches_seam [OF this assms(6)]
  have inv: "frames \<noteq> []" "length (sf_samples (last frames)) = unat (sc_samples_per_packet config) * channels"
    "ps_last_emitted_tail self = tail_of (sf_samples (last frames)) channels"
    "0 < unat (sc_samples_per_packet config)"
    using seam assms(7,10) by (auto simp: seam_inv_def)
  have "joins self f"
    using assms(9) by (intro poll_joins [OF assms(1-5) seam(1,2) assms(8) _ assms(7)]) (auto simp: at_seam_def)
  then have "frame_sample channels (sf_samples f) 0 channel = tail_of (sf_samples (last frames)) channels ! channel"
    using seam(3) assms(10,11) inv(3) by (simp add: joins_def)
  then show ?thesis
    using nth_tail_of(2) [OF assms(11), of "sf_samples (last frames)"] inv assms(11) by simp
qed

theorem scheduler_joins_seams_witness:
  "\<exists>f health self'. poll_with_release_horizon example_gap 400 400 = (Frame f health, self') \<and>
     sf_sequence f = 20 \<and> sf_sequence (last example_gap_heard) = 1 \<and>
     jb_next_expected_sequence (ps_jitter_buffer example_gap) = 20 \<and>
     frame_sample 1 (sf_samples f) 0 0 = frame_sample 1 (sf_samples (last example_gap_heard)) 1 0"
proof -
  obtain f health self' where poll: "poll_with_release_horizon example_gap 400 400 = (Frame f health, self')"
    and f: "frame_view f = (20, [400, 6000], False)"
    using example_gap(4) by blast
  have len: "(21 :: nat) + length example_gap_calls + 1 < 2 ^ 64"
    by (simp add: example_gap_calls_def example_startup_calls_def)
  have step: "sf_sequence f \<noteq> sf_sequence (last example_gap_heard) + 1"
    using f example_gap_last by (simp add: frame_view_def)
  show ?thesis
    using scheduler_joins_seams [OF example_scheduler_new example_gap(1) example_sequences(3,4) len example_geometry(2)
        example_gap(2) poll _ refl, of 0] step example_gap_no_resync poll f example_gap_last example_gap(5)
    by (simp add: frame_view_def example_sched_config_def)
qed

subsection \<open>A slot that is due is filled\<close>

lemma emit_slot_fills:
  assumes "jb_inv (ps_jitter_buffer self)" and "ps_state self = StPlaying"
  defines "n \<equiv> jb_next_expected_sequence (ps_jitter_buffer self)"
  shows "case emit_slot self of
      (Frame f health, self') \<Rightarrow> sf_sequence f = n \<and> ps_state self' = StPlaying \<and>
        (sf_concealed f \<longleftrightarrow> bt_get (jb_packets (ps_jitter_buffer self)) n = None)
    | (p, self') \<Rightarrow> p = AwaitingRebuffer \<and> ps_state self' = StAwaitingRebuffer \<and>
        bt_get (jb_packets (ps_jitter_buffer self)) n = None \<and>
        cp_max_consecutive_concealed_packets (ps_concealment self) \<le>
          cs_consecutive_concealed_packets (cp_statistics (ps_concealment self)) + 1"
proof (cases "bt_get (jb_packets (ps_jitter_buffer self)) n")
  case None
  then have "emit_slot self = emit_concealed self"
    by (simp add: emit_slot_def pop_in_order_def n_def)
  then show ?thesis
    using None assms(2) by (auto simp: emit_concealed_def conceal_def Let_def remember_emitted_tail_eq n_def)
next
  case (Some d)
  have "ad_sequence d = n"
    using Some assms(1) by (auto simp: jb_inv_def packet_ok_def bt_get_Some_in)
  then show ?thesis
    using Some assms(2) by (auto simp: emit_slot_def pop_in_order_def n_def emit_real_def Let_def remember_emitted_tail_eq)
qed

text \<open>
  C20: playback never stalls on missing packets. In any reached state that is playing, once the
  deadline of the next expected slot n is within the horizon, the tick does one of two things. When
  the gap before the earliest buffered packet is within the concealment threshold, it fills exactly
  slot n: with the packet when it arrived, with a concealed frame when it did not; or, only when the
  bound on consecutive concealed packets is reached, it asks for a rebuffer. When the gap is wider,
  it moves on to the earliest buffered packet, whose slot it emits with the packet itself, or waits
  for only while that packet's deadline is beyond the horizon.
\<close>

theorem due_slot_is_filled:
  assumes "sched_reaches B config calls frames self" and "ps_state self = StPlaying"
    and "n = jb_next_expected_sequence (ps_jitter_buffer self)"
    and "local_deadline_ms self n \<le> max horizon now"
    and "missing = missing_sequence_count (ps_jitter_buffer self)"
  shows "if missing \<le> ucast (sc_concealment_skip_threshold_packets (ps_config self)) then
      (case poll_with_release_horizon self now horizon of
        (Frame f health, self') \<Rightarrow> sf_sequence f = n \<and> ps_state self' = StPlaying \<and>
          (sf_concealed f \<longleftrightarrow> bt_get (jb_packets (ps_jitter_buffer self)) n = None)
      | (p, self') \<Rightarrow> p = AwaitingRebuffer \<and> is_awaiting_rebuffer self' \<and>
          bt_get (jb_packets (ps_jitter_buffer self)) n = None \<and>
          cp_max_consecutive_concealed_packets (ps_concealment self) \<le>
            cs_consecutive_concealed_packets (cp_statistics (ps_concealment self)) + 1)
    else n < n + missing \<and> peek_next_sequence (ps_jitter_buffer self) = Some (n + missing) \<and>
      (case poll_with_release_horizon self now horizon of
        (Frame f health, self') \<Rightarrow> sf_sequence f = n + missing \<and> \<not> sf_concealed f \<and> ps_state self' = StPlaying
      | (Waiting health, self') \<Rightarrow> max horizon now < local_deadline_ms self (n + missing) \<and>
          ps_state self' = StPlaying \<and> jb_next_expected_sequence (ps_jitter_buffer self') = n + missing
      | _ \<Rightarrow> False)"
proof -
  have inv: "jb_inv (ps_jitter_buffer self)"
    using sched_reaches_ok(1) [OF assms(1)] by (simp add: jb_ok_def)
  show ?thesis
  proof (cases "missing \<le> ucast (sc_concealment_skip_threshold_packets (ps_config self))")
    case True
    have "\<not> max horizon now < local_deadline_ms self n"
      "\<not> ucast (sc_concealment_skip_threshold_packets (ps_config self)) < missing_sequence_count (ps_jitter_buffer self)"
      using assms(4,5) True by (simp_all only: not_less)
    then have "poll_with_release_horizon self now horizon = emit_slot self"
      using assms(2,3) unfolding poll_with_release_horizon_def poll_playing_def Let_def
      by (simp del: max_less_iff_conj not_less)
    then show ?thesis
      using True emit_slot_fills [of self] inv assms(2,3)
      by (auto simp: is_awaiting_rebuffer_def split: prod.splits scheduler_poll.splits)
  next
    case False
    then have "ucast (sc_concealment_skip_threshold_packets (ps_config self)) < missing_sequence_count (ps_jitter_buffer self)"
      using assms(5) by (simp only: not_le)
    note wide = poll_wide_gap [OF inv assms(2-4) this refl]
    show ?thesis
      using False wide(1) wide(2) unfolding assms(5) [symmetric] by (simp only: if_False conj_assoc simp_thms)
  qed
qed

theorem due_slot_is_filled_witness:
  "\<exists>f health self'. poll_with_release_horizon example_playing 60 60 = (Frame f health, self') \<and> sf_sequence f = 3 \<and>
     (sf_concealed f \<longleftrightarrow> bt_get (jb_packets (ps_jitter_buffer example_playing)) 3 = None)"
proof -
  obtain f health self' where poll: "poll_with_release_horizon example_playing 60 60 = (Frame f health, self')"
    using example_playback(10) by blast
  then show ?thesis
    using due_slot_is_filled [OF example_reaches(2) example_playback(2) example_playback(4) [symmetric] _ refl, of 60 60]
      example_playback(5-7) by simp
qed

subsection \<open>Realignment\<close>

text \<open>
  C22: realigning ends and catches up. The loop that drops late slots terminates in every state, and
  afterwards the buffer is empty or its next expected slot is not late; the timeline itself is
  unchanged, and no slot before the old position comes back.
\<close>

theorem realign_catches_up:
  assumes "sched_reaches B config calls frames self" and "self' = realign_to_now self now"
  shows "(jb_is_empty (ps_jitter_buffer self') \<or>
      now \<le> local_deadline_ms self' (jb_next_expected_sequence (ps_jitter_buffer self'))) \<and>
    local_deadline_ms self' = local_deadline_ms self \<and>
    jb_next_expected_sequence (ps_jitter_buffer self) \<le> jb_next_expected_sequence (ps_jitter_buffer self')"
proof -
  let ?d = "discard_already_late_head self now"
  note spec = discard_already_late_head_spec [OF sched_reaches_ok(1,3) [OF assms(1)], of now]
  have "same_timeline self ?d" "same_timeline ?d self'" "same_timeline self self'"
    using spec assms(2) by (auto simp: same_timeline_def realign_to_now_def Let_def)
  then have deadline: "local_deadline_ms ?d = local_deadline_ms self" "local_deadline_ms self' = local_deadline_ms self"
    by (simp_all add: same_timeline_deadline)
  have "ps_jitter_buffer self' = ps_jitter_buffer ?d"
    by (simp add: assms(2) realign_to_now_def Let_def)
  then show ?thesis
    using spec by (auto simp: deadline Let_def jb_moved_def)
qed

theorem realign_catches_up_witness:
  "let self' = realign_to_now example_playing 80 in
     (jb_is_empty (ps_jitter_buffer self') \<or>
        80 \<le> local_deadline_ms self' (jb_next_expected_sequence (ps_jitter_buffer self'))) \<and>
     3 \<le> jb_next_expected_sequence (ps_jitter_buffer self')"
  using realign_catches_up [OF example_reaches(2) refl, of 80] example_playback(4) by (auto simp: Let_def)

subsection \<open>Playing out the rest\<close>

lemma drain_frame_real:
  assumes "\<forall>f \<in> set (snd (snd (snd st))). \<not> sf_concealed f \<and> length (sf_samples f) = n"
    and "length (decode_payload_samples (ad_payload d)) = n"
  shows "\<forall>f \<in> set (snd (snd (snd (drain_frame channels ramp d st)))). \<not> sf_concealed f \<and> length (sf_samples f) = n"
proof -
  obtain e i b frames where st: "st = (e, i, b, frames)"
    by (cases st)
  have "\<forall>f \<in> set (fade_last channels ramp frames). \<not> sf_concealed f \<and> length (sf_samples f) = n"
    using assms(1) by (auto simp: st fade_last_def dest: in_set_butlastD)
  then show ?thesis
    using assms by (auto simp: st drain_frame_def Let_def)
qed

lemma fold_drain_frame_real:
  assumes "\<forall>d \<in> set ds. length (decode_payload_samples (ad_payload d)) = n"
    and "\<forall>f \<in> set (snd (snd (snd st))). \<not> sf_concealed f \<and> length (sf_samples f) = n"
  shows "\<forall>f \<in> set (snd (snd (snd (fold (drain_frame channels ramp) ds st)))). \<not> sf_concealed f \<and> length (sf_samples f) = n"
  using assms
proof (induction ds arbitrary: st)
  case (Cons d ds)
  have d: "length (decode_payload_samples (ad_payload d)) = n"
    and ds: "\<forall>d \<in> set ds. length (decode_payload_samples (ad_payload d)) = n"
    using Cons.prems(1) by auto
  show ?case
    using Cons.IH [OF ds drain_frame_real [OF Cons.prems(2) d]] by simp
qed simp

lemma drain_remaining_real:
  assumes "held_geometry self" and "jb_inv (ps_jitter_buffer self)"
  shows "\<exists>frames. fst (drain_remaining self) = fade_last (sched_channels self) (ps_ramp_frames self) frames \<and>
    (\<forall>f \<in> set frames. \<not> sf_concealed f \<and> length (sf_samples f) = sched_spp self * sched_channels self)"
proof -
  let ?st = "\<lambda>b. (jb_next_expected_sequence (ps_jitter_buffer self), ps_fade_in_next_real_frame self, b, [])"
  have "\<forall>d \<in> set (fst (drain_all (ps_jitter_buffer self))).
      length (decode_payload_samples (ad_payload d)) = sched_spp self * sched_channels self"
    using assms(1) jb_held_quiet(5) [OF assms(2)] unfolding held_geometry_def by blast
  from fold_drain_frame_real [OF this, of "?st _"] show ?thesis
    by (intro exI conjI) (simp_all add: drain_remaining_def Let_def case_prod_beta)
qed



subsection \<open>The default tuning is consistent\<close>

lemma unat_packets_spanning:
  assumes "r \<noteq> 0" and "s \<noteq> 0" and "unat d * unat r div (unat s * 1000) < 2 ^ 32"
  shows "unat (packets_spanning d r s) = max 1 (unat d * unat r div (unat s * 1000))"
  using assms by (auto simp: packets_spanning_def Let_def unsigned_of_nat take_bit_nat_eq_self)

lemma spanning_bounds:
  fixes q r :: nat
  assumes "3 * r \<le> q" and "q \<le> 640 * r" and "0 < r"
  shows "max 1 (200 * r div q) < max 1 (1280 * r div q)" and "max 1 (1280 * r div q) \<le> 426"
    and "max 1 (500 * r div q) \<le> 200"
proof -
  have q: "0 < q"
    using assms by simp
  have two: "2 \<le> 1280 * r div q"
    using assms q by (simp add: less_eq_div_iff_mult_less_eq)
  have more: "200 * r div q + 1 \<le> 1280 * r div q" if "1 \<le> 200 * r div q"
  proof -
    have "q \<le> 200 * r" "200 * r div q * q \<le> 200 * r"
      using that q by (simp_all add: less_eq_div_iff_mult_less_eq)
    then have "(200 * r div q + 1) * q \<le> 1280 * r"
      unfolding distrib_right by linarith
    then show ?thesis
      using q by (simp add: less_eq_div_iff_mult_less_eq)
  qed
  show "max 1 (200 * r div q) < max 1 (1280 * r div q)"
    using two more by (cases "1 \<le> 200 * r div q") auto
  have "1280 * r div q \<le> 1280 * r div (3 * r)" "500 * r div q \<le> 500 * r div (3 * r)"
    using assms by (intro div_le_mono2; simp)+
  then show "max 1 (1280 * r div q) \<le> 426" "max 1 (500 * r div q) \<le> 200"
    using assms(3) by simp_all
qed

text \<open>
  The default tuning is consistent. For every sample rate the protocol admits and every packet
  duration between 3 ms and 640 ms, \<open>PlaybackScheduler::new\<close> accepts the configuration that
  \<open>SchedulerConfig::new\<close> builds: the packet counts derived from the durations stay in range and
  in the required order.
\<close>

theorem default_tuning_accepted:
  assumes "8000 \<le> unat rate" and "unat rate \<le> 384000"
    and "3 * unat rate \<le> unat spp * 1000" and "unat spp * 1000 \<le> 640 * unat rate"
  shows "\<exists>self. playback_scheduler_new (scheduler_config_new session stream rate start spp channels) offset = Inr self \<and>
    phase self = PhaseBuffering \<and> sc_samples_per_packet (ps_config self) = spp"
proof -
  let ?q = "unat spp * 1000"
  let ?span = "\<lambda>d. packets_spanning d rate spp"
  have nz: "rate \<noteq> 0" "spp \<noteq> 0"
    using assms by auto
  note b = spanning_bounds [OF assms(3,4)]
  have span: "unat (?span d) = max 1 (unat d * unat rate div ?q)" if "unat d \<le> 1280" for d
  proof -
    have "unat d * unat rate div ?q \<le> unat d * unat rate"
      by (rule div_le_dividend)
    also have "\<dots> \<le> 1280 * 384000"
      using that assms(2) by (intro mult_mono) simp_all
    finally show ?thesis
      by (intro unat_packets_spanning [OF nz]) simp
  qed
  have counts: "?span 200 < ?span 1280" "?span 1280 \<le> 426" "?span 500 \<le> 200" "0 < ?span 500"
    using b assms(1) by (simp_all add: word_less_nat_alt word_le_nat_alt span)
  have threshold: "\<not> f64_le (f64_of_rat 120) (f64_of_rat 0)"
    using f64_of_int_exact [of 120] by (simp add: f64_le_def)
  define ramp where "ramp = max (u32_or_max (unat rate div 1000)) 1"
  have "unat (u32_or_max (unat rate div 1000)) = unat rate div 1000"
    using assms(2) by (simp add: unat_u32_or_max)
  then have ramp: "unat ramp = unat rate div 1000"
    using assms(1) by (auto simp: ramp_def max_def word_le_nat_alt)
  then have ramps: "ramp < spp" "0 < ramp" "ramp \<le> 4800"
    using assms by (auto simp: word_less_nat_alt word_le_nat_alt)
  let ?config = "scheduler_config_new session stream rate start spp channels"
  have "validate_scheduler_config ?config = Inr ()"
    using nz counts(1) threshold assms
    by (simp add: validate_scheduler_config_def scheduler_config_new_def Let_def MIN_PACKET_DURATION_MS_def
        MAX_PACKET_DURATION_MS_def DEFAULT_LOW_WATER_MS_def DEFAULT_HIGH_WATER_MS_def not_le
        DEFAULT_HARD_RESYNC_THRESHOLD_MS_def DEFAULT_CONCEALMENT_SKIP_THRESHOLD_MS_def DEFAULT_REORDER_WINDOW_MS_def)
  moreover have "\<exists>jb. jitter_buffer_new \<lparr>jbc_session_id = session, jbc_stream_id = stream, jbc_first_sequence = 0,
      jbc_max_reorder_window = ?span 1280, jbc_max_buffered_duration_ms = DEFAULT_MAX_BUFFERED_DURATION_MS\<rparr> = Inr jb"
    using counts(2) by (simp add: jitter_buffer_new_def MAX_REORDER_WINDOW_LIMIT_def DEFAULT_MAX_BUFFERED_DURATION_MS_def
        MAX_BUFFERED_DURATION_LIMIT_MS_def word_le_nat_alt word_less_nat_alt)
  moreover have "\<exists>cp. concealment_policy_new (?span 500) ramp = Inr cp"
    using counts(3,4) ramps by (auto simp: concealment_policy_new_def MAX_CONSECUTIVE_CONCEALED_PACKETS_LIMIT_def
        MAX_CONCEALMENT_RAMP_FRAMES_def word_le_nat_alt word_less_nat_alt)
  ultimately show ?thesis
    using ramps(1) by (auto simp: playback_scheduler_new_def scheduler_config_new_def Let_def map_err_def phase_def
        DEFAULT_REORDER_WINDOW_MS_def DEFAULT_CONCEALMENT_BRIDGE_MS_def DEFAULT_CONCEALMENT_RAMP_MS_def
        ramp_def [symmetric] simp del: max.bounded_iff)
qed

theorem default_tuning_accepted_witness:
  "\<exists>self. playback_scheduler_new (scheduler_config_new (SessionId (lit ''s'')) (StreamId (lit ''t'')) 48000 0 960 2) (F64 0) =
       Inr self \<and> phase self = PhaseBuffering"
  using default_tuning_accepted [of 48000 960 "SessionId (lit ''s'')" "StreamId (lit ''t'')" 0 2 "F64 0"] by auto

text \<open>
  C38: with packets longer than 640 ms the default tuning contradicts itself. Such a packet duration
  is valid (up to 1000 ms), but both the gap threshold and the reorder window come out as one
  packet, which the constructor refuses.
\<close>

theorem long_packets_rejected:
  assumes "0 < unat rate" and "640 * unat rate < unat spp * 1000" and "unat spp * 1000 \<le> 1000 * unat rate"
  shows "playback_scheduler_new (scheduler_config_new session stream rate start spp channels) offset =
    Inl InvalidConcealmentSkipThreshold"
proof -
  let ?q = "unat spp * 1000"
  have nz: "rate \<noteq> 0" "spp \<noteq> 0" "0 < ?q"
    using assms by auto
  have "1280 * unat rate div ?q < 2" "200 * unat rate div ?q < 1"
    using assms nz(3) by (simp_all add: div_less_iff_less_mult)
  then have "unat (packets_spanning 1280 rate spp) = 1" "unat (packets_spanning 200 rate spp) = 1"
    using nz(1,2) by (simp_all add: unat_packets_spanning)
  then have counts: "packets_spanning 1280 rate spp = packets_spanning 200 rate spp"
    by (simp add: word_unat_eq_iff)
  have "\<not> f64_le (f64_of_rat 120) (f64_of_rat 0)"
    using f64_of_int_exact [of 120] by (simp add: f64_le_def)
  then have "validate_scheduler_config (scheduler_config_new session stream rate start spp channels) =
      Inl InvalidConcealmentSkipThreshold"
    using nz assms counts
    by (simp add: validate_scheduler_config_def scheduler_config_new_def Let_def MIN_PACKET_DURATION_MS_def
        MAX_PACKET_DURATION_MS_def DEFAULT_LOW_WATER_MS_def DEFAULT_HIGH_WATER_MS_def not_le
        DEFAULT_HARD_RESYNC_THRESHOLD_MS_def DEFAULT_CONCEALMENT_SKIP_THRESHOLD_MS_def DEFAULT_REORDER_WINDOW_MS_def)
  then show ?thesis
    by (simp add: playback_scheduler_new_def)
qed

theorem long_packets_rejected_witness:
  "playback_scheduler_new (scheduler_config_new (SessionId (lit ''s'')) (StreamId (lit ''t'')) 48000 0 48000 2) (F64 0) =
     Inl InvalidConcealmentSkipThreshold"
  using long_packets_rejected [of 48000 48000 "SessionId (lit ''s'')" "StreamId (lit ''t'')" 0 2 "F64 0"] by simp

subsection \<open>A step the joining misses\<close>

lemma submit_held:
  assumes "sched_reaches B config calls frames self" and "unat (ad_sequence d) < B"
    and "submit_packet self d = (r, self1)" and "d' \<in> jb_held (ps_jitter_buffer self1)"
  shows "SubmitPacket d' \<in> set (calls @ [SubmitPacket d])"
proof -
  obtain offset self0 where new: "playback_scheduler_new config offset = Inr self0" and run: "sched_run self0 calls frames self"
    using assms(1) by (auto simp: sched_reaches_def)
  have "sched_run self0 (calls @ [SubmitPacket d]) (frames @ []) self1"
    using assms(3) by (intro run_call [OF run]) simp_all
  then show ?thesis
    using sched_run_held(1) [OF new, of "calls @ [SubmitPacket d]" _ self1 B] assms(1,2,4)
    by (fastforce simp: sched_reaches_def)
qed

text \<open>
  C39: a buffer resync splices audio without joining it. In any reached state that is playing, has
  not fallen silent and has no break marked, when submitting a packet moves the buffer's next
  expected slot (a jump to far-future packets), the frame that the next tick emits is the packet of
  the new slot with its samples exactly as they were submitted: nothing joins them to what was heard
  last, although the stream does not go on where it stood.
\<close>

theorem resync_splices_without_blend:
  assumes "sched_reaches B config calls frames self" and "ps_state self = StPlaying"
    and "\<not> ps_fade_in_next_real_frame self" and "\<not> ps_resume_from_silence self"
    and "unat (ad_sequence d) < B" and "submit_packet self d = (r, self1)"
    and "jb_next_expected_sequence (ps_jitter_buffer self1) \<noteq> jb_next_expected_sequence (ps_jitter_buffer self)"
    and "poll_with_release_horizon self1 now horizon = (Frame f health, self')"
  shows "\<not> ps_fade_in_next_real_frame self1 \<and> \<not> ps_resume_from_silence self1 \<and> \<not> sf_concealed f \<and>
    sf_sequence f = jb_next_expected_sequence (ps_jitter_buffer self1) \<and>
    sf_sequence f \<noteq> jb_next_expected_sequence (ps_jitter_buffer self) \<and>
    (\<exists>d'. SubmitPacket d' \<in> set (calls @ [SubmitPacket d]) \<and> ad_sequence d' = sf_sequence f \<and>
       sf_samples f = decode_payload_samples (ad_payload d'))"
proof -
  have inv: "jb_inv (ps_jitter_buffer self)"
    using sched_reaches_ok(1) [OF assms(1)] by (simp add: jb_ok_def)
  have accept: "jb_accept (ps_jitter_buffer self) d = (r, ps_jitter_buffer self1)"
    and self1: "ps_state self1 = StPlaying" "\<not> ps_fade_in_next_real_frame self1" "\<not> ps_resume_from_silence self1"
    using assms(2-4,6) by (auto simp: submit_packet_def split: prod.splits)
  note jump = jb_accept_jump [OF inv accept assms(7)]
  obtain d' where d': "bt_get (jb_packets (ps_jitter_buffer self1)) (jb_next_expected_sequence (ps_jitter_buffer self1)) = Some d'"
    and number: "ad_sequence d' = jb_next_expected_sequence (ps_jitter_buffer self1)"
    using jump(2) by blast
  note frame = poll_raw [OF self1(1,2) jump(1) d' assms(8)]
  have "d' \<in> jb_held (ps_jitter_buffer self1)"
    using d' bt_get_Some_in [OF jb_inv_accept [OF inv accept]] by (force simp: jb_held_def)
  then have "SubmitPacket d' \<in> set (calls @ [SubmitPacket d])"
    by (rule submit_held [OF assms(1,5,6)])
  then show ?thesis
    using frame number self1 assms(7) by auto
qed

theorem resync_splices_without_blend_witness:
  "\<exists>f health self'. poll_with_release_horizon (snd (submit_packet example_before_jump example_jump_packet)) 4000 4000 =
       (Frame f health, self') \<and> sf_sequence f = 200 \<and>
     (\<exists>d'. SubmitPacket d' \<in> set (example_jump_calls @ [SubmitPacket example_jump_packet]) \<and>
        ad_sequence d' = 200 \<and> sf_samples f = decode_payload_samples (ad_payload d')) \<and>
     sf_sequence (last example_jump_heard) = 0 \<and>
     frame_sample 1 (sf_samples (last example_jump_heard)) 1 0 = 200 \<and> frame_sample 1 (sf_samples f) 0 0 = 9000"
proof -
  obtain f health self' where poll: "poll_with_release_horizon (snd (submit_packet example_before_jump example_jump_packet)) 4000 4000 =
      (Frame f health, self')" and f: "frame_view f = (200, [9000, 9000], False)"
    using example_jump(8) by blast
  have "unat (ad_sequence example_jump_packet) < 203"
    by (simp add: example_jump_packet_def example_datagram_def)
  from resync_splices_without_blend [OF example_reaches(3) example_jump(2-4) this surjective_pairing _ poll]
  have raw: "\<exists>d'. SubmitPacket d' \<in> set (example_jump_calls @ [SubmitPacket example_jump_packet]) \<and>
      ad_sequence d' = 200 \<and> sf_samples f = decode_payload_samples (ad_payload d')"
    using example_jump(5,6) by auto
  show ?thesis
    by (rule exI [of _ f], rule exI [of _ health], rule exI [of _ self'], intro conjI poll raw)
      (use f example_jump_last in \<open>simp_all add: frame_view_def frame_sample_def\<close>)
qed

end
