(* ===== verification/Rust_F32.thy ===== *)
theory Rust_F32
  imports F64_Order
begin

section \<open>IEEE-754 binary32\<close>

text \<open>
  A Rust \<open>f32\<close> is its 32-bit pattern, as the render ring stores it. The arithmetic of the playback
  pump and of the resampler is defined on sign and magnitude: the exact rational result, rounded to
  the nearest pattern, ties to even, with the signed zeros and infinities of the standard. Every operation that
  yields a NaN yields the canonical one: the program never looks at the payload of a NaN.
\<close>

type_synonym f32 = u32

definition f32_negative :: "f32 \<Rightarrow> bool" where
  "f32_negative x \<longleftrightarrow> 2 ^ 31 \<le> unat x"

definition f32_exponent :: "f32 \<Rightarrow> nat" where
  "f32_exponent x = unat x mod 2 ^ 31 div 2 ^ 23"

definition f32_fraction :: "f32 \<Rightarrow> nat" where
  "f32_fraction x = unat x mod 2 ^ 23"

definition f32_magnitude :: "f32 \<Rightarrow> rat" where
  "f32_magnitude x =
     (if f32_exponent x = 0 then of_nat (f32_fraction x) * pow2 (- 149)
      else of_nat (2 ^ 23 + f32_fraction x) * pow2 (int (f32_exponent x) - 150))"

lemma f32_magnitude_code [code]:
  "f32_magnitude x =
     (if f32_exponent x = 0
      then if f32_fraction x = 0 then 0 else of_nat (f32_fraction x) * pow2 (- 149)
      else of_nat (2 ^ 23 + f32_fraction x) * pow2 (int (f32_exponent x) - 150))"
  by (simp add: f32_magnitude_def)

definition f32_is_nan :: "f32 \<Rightarrow> bool" where
  "f32_is_nan x \<longleftrightarrow> f32_exponent x = 255 \<and> f32_fraction x \<noteq> 0"

definition f32_is_infinite :: "f32 \<Rightarrow> bool" where
  "f32_is_infinite x \<longleftrightarrow> f32_exponent x = 255 \<and> f32_fraction x = 0"

definition f32_is_finite :: "f32 \<Rightarrow> bool" where
  "f32_is_finite x \<longleftrightarrow> f32_exponent x \<noteq> 255"

definition f32_signed :: "f32 \<Rightarrow> rat" where
  "f32_signed x = (if f32_negative x then - f32_magnitude x else f32_magnitude x)"

definition f32_nan :: f32 where "f32_nan = 0x7FC00000"

definition f32_infinity_bits :: nat where "f32_infinity_bits = 255 * 2 ^ 23"

text \<open>The pattern nearest to a magnitude, with a sign.\<close>

definition f32_bits_of :: "rat \<Rightarrow> nat" where
  "f32_bits_of a =
     (if a = 0 then 0
      else let e = max (floor_log2 a - 23) (- 149);
               m = round_half_even (a * pow2 (- e))
           in min (nat (e + 149) * 2 ^ 23 + nat m) f32_infinity_bits)"

definition f32_pack :: "bool \<Rightarrow> rat \<Rightarrow> f32" where
  "f32_pack negative a = word_of_nat ((if negative then 2 ^ 31 else 0) + f32_bits_of a)"

definition f32_infinity :: "bool \<Rightarrow> f32" where
  "f32_infinity negative = word_of_nat ((if negative then 2 ^ 31 else 0) + f32_infinity_bits)"

text \<open>The result of a sum: an exact zero is positive unless both terms are negative.\<close>

definition f32_pack_sum :: "bool \<Rightarrow> bool \<Rightarrow> rat \<Rightarrow> f32" where
  "f32_pack_sum negative_x negative_y r =
     (if r = 0 then f32_pack (negative_x \<and> negative_y) 0 else f32_pack (r < 0) \<bar>r\<bar>)"

definition f32_neg :: "f32 \<Rightarrow> f32" where
  "f32_neg x = x + 0x80000000"

definition f32_add :: "f32 \<Rightarrow> f32 \<Rightarrow> f32" where
  "f32_add x y =
     (if f32_is_nan x \<or> f32_is_nan y then f32_nan
      else if f32_is_infinite x
      then (if f32_is_infinite y \<and> f32_negative x \<noteq> f32_negative y then f32_nan else x)
      else if f32_is_infinite y then y
      else f32_pack_sum (f32_negative x) (f32_negative y) (f32_signed x + f32_signed y))"

definition f32_sub :: "f32 \<Rightarrow> f32 \<Rightarrow> f32" where
  "f32_sub x y = (if f32_is_nan y then f32_nan else f32_add x (f32_neg y))"

definition f32_mul :: "f32 \<Rightarrow> f32 \<Rightarrow> f32" where
  "f32_mul x y =
     (let negative = (f32_negative x \<noteq> f32_negative y) in
      if f32_is_nan x \<or> f32_is_nan y then f32_nan
      else if f32_is_infinite x \<or> f32_is_infinite y
      then (if f32_magnitude x = 0 \<or> f32_magnitude y = 0 then f32_nan else f32_infinity negative)
      else f32_pack negative (f32_magnitude x * f32_magnitude y))"

definition f32_div :: "f32 \<Rightarrow> f32 \<Rightarrow> f32" where
  "f32_div x y =
     (let negative = (f32_negative x \<noteq> f32_negative y) in
      if f32_is_nan x \<or> f32_is_nan y then f32_nan
      else if f32_is_infinite x then (if f32_is_infinite y then f32_nan else f32_infinity negative)
      else if f32_is_infinite y then f32_pack negative 0
      else if f32_magnitude y = 0 then (if f32_magnitude x = 0 then f32_nan else f32_infinity negative)
      else f32_pack negative (f32_magnitude x / f32_magnitude y))"

text \<open>The comparison \<open>x < y\<close> of \<open>PartialOrd\<close>: false when one side is a NaN.\<close>

definition f32_less :: "f32 \<Rightarrow> f32 \<Rightarrow> bool" where
  "f32_less x y \<longleftrightarrow>
     \<not> f32_is_nan x \<and> \<not> f32_is_nan y \<and>
     (if f32_is_infinite x then f32_negative x \<and> \<not> (f32_is_infinite y \<and> f32_negative y)
      else if f32_is_infinite y then \<not> f32_negative y
      else f32_signed x < f32_signed y)"

text \<open>Conversions of integers: \<open>f32::from\<close> and \<open>as f32\<close>.\<close>

definition f32_of_int :: "int \<Rightarrow> f32" where
  "f32_of_int k = f32_pack (k < 0) (of_int \<bar>k\<bar>)"

definition f32_from_i16 :: "i16 \<Rightarrow> f32" where
  "f32_from_i16 sample = f32_of_int (sint sample)"

definition f32_one :: f32 where "f32_one = 0x3F800000"
definition f32_zero :: f32 where "f32_zero = 0"

subsection \<open>Exact results\<close>

lemma f32_zero_magnitude: "f32_magnitude 0 = 0" "f32_exponent 0 = 0"
  by (simp_all add: f32_magnitude_def f32_exponent_def f32_fraction_def)

end
