(* ===== verification/Render_Ring.thy ===== *)
theory Render_Ring
  imports Call_Runs Rust_F32
begin

section \<open>The render ring\<close>

text \<open>
  \<open>audio/render_ring.rs\<close>: the bounded single-producer/single-consumer ring between the playback
  pump and the audio callback. An \<open>f32\<close> is its bit pattern, as in the slots of the ring. Here
  \<open>push_frames\<close> and \<open>read_frames\<close> run to completion, one after the other, and refine a bounded FIFO
  queue of samples; \<open>Render_Ring_Threads\<close> takes them apart into the loads and stores that the two
  threads interleave.
  The indices are unbounded (\<open>usize\<close> would overflow only after \<open>2 ^ 64\<close> frames).
\<close>

definition RENDER_CHANNELS :: usize where "RENDER_CHANNELS = 2"
definition DEFAULT_RING_CAPACITY_FRAMES :: usize where "DEFAULT_RING_CAPACITY_FRAMES = 48000"
definition DEFAULT_TARGET_FILL_FRAMES :: usize where "DEFAULT_TARGET_FILL_FRAMES = 19200"
definition MIN_RING_CAPACITY_FRAMES :: usize where "MIN_RING_CAPACITY_FRAMES = 4800"
definition MAX_RING_CAPACITY_FRAMES :: usize where "MAX_RING_CAPACITY_FRAMES = 480000"

record render_ring_config =
  rrc_capacity_frames :: usize
  rrc_target_fill_frames :: usize

definition render_ring_config_new :: render_ring_config where
  "render_ring_config_new =
     \<lparr>rrc_capacity_frames = DEFAULT_RING_CAPACITY_FRAMES, rrc_target_fill_frames = DEFAULT_TARGET_FILL_FRAMES\<rparr>"

datatype render_ring_config_error_kind =
    CapacityOutOfRange
  | TargetFillOutOfRange
  | CapacityOverflowsAddressSpace

record render_ring_telemetry =
  rt_frames_produced :: u64
  rt_frames_requested :: u64
  rt_frames_supplied_from_ring :: u64
  rt_silence_filled_frames :: u64
  rt_underrun_callbacks :: u64
  rt_ring_full_events :: u64
  rt_callback_count :: u64
  rt_contained_panic_count :: u64

definition render_ring_telemetry_default :: render_ring_telemetry where
  "render_ring_telemetry_default =
     \<lparr>rt_frames_produced = 0, rt_frames_requested = 0, rt_frames_supplied_from_ring = 0,
      rt_silence_filled_frames = 0, rt_underrun_callbacks = 0, rt_ring_full_events = 0,
      rt_callback_count = 0, rt_contained_panic_count = 0\<rparr>"

record ring_inner =
  ri_capacity_frames :: usize
  ri_slots :: "u32 list"
  ri_write_index :: usize
  ri_read_index :: usize
  ri_telemetry :: render_ring_telemetry

definition render_ring_new :: "render_ring_config \<Rightarrow> render_ring_config_error_kind + ring_inner" where
  "render_ring_new config =
     (if \<not> (MIN_RING_CAPACITY_FRAMES \<le> rrc_capacity_frames config \<and>
            rrc_capacity_frames config \<le> MAX_RING_CAPACITY_FRAMES) then Inl CapacityOutOfRange
      else if rrc_target_fill_frames config = 0 \<or> rrc_target_fill_frames config > rrc_capacity_frames config
      then Inl TargetFillOutOfRange
      else try_bind (ok_or (checked_mul_usize (rrc_capacity_frames config) RENDER_CHANNELS) CapacityOverflowsAddressSpace)
        (\<lambda>slot_count.
          Inr \<lparr>ri_capacity_frames = rrc_capacity_frames config, ri_slots = replicate slot_count 0,
               ri_write_index = 0, ri_read_index = 0, ri_telemetry = render_ring_telemetry_default\<rparr>))"

subsection \<open>The two sides\<close>

text \<open>The slot of channel \<open>j mod 2\<close> of the frame \<open>j div 2\<close> frames after \<open>index\<close>.\<close>

definition slot_of :: "usize \<Rightarrow> usize \<Rightarrow> nat \<Rightarrow> nat" where
  "slot_of capacity index j =
     (index + j div RENDER_CHANNELS) mod capacity * RENDER_CHANNELS + j mod RENDER_CHANNELS"

definition store_samples :: "usize \<Rightarrow> usize \<Rightarrow> f32 list \<Rightarrow> usize \<Rightarrow> u32 list \<Rightarrow> u32 list" where
  "store_samples capacity write_index frames count slots =
     fold (\<lambda>j slots. slots[slot_of capacity write_index j := frames ! j]) [0..<count * RENDER_CHANNELS] slots"

definition record_push_telemetry :: "render_ring_telemetry \<Rightarrow> usize \<Rightarrow> usize \<Rightarrow> render_ring_telemetry" where
  "record_push_telemetry telemetry frames_written frames_requested =
     (let telemetry = telemetry\<lparr>rt_frames_produced := rt_frames_produced telemetry + u64_or_max frames_written\<rparr> in
      if frames_written < frames_requested
      then telemetry\<lparr>rt_ring_full_events := rt_ring_full_events telemetry + 1\<rparr> else telemetry)"

definition free_frames :: "ring_inner \<Rightarrow> usize" where
  "free_frames inner = ri_capacity_frames inner - (ri_write_index inner - ri_read_index inner)"

definition available_frames :: "ring_inner \<Rightarrow> usize" where
  "available_frames inner = ri_write_index inner - ri_read_index inner"

definition push_frames :: "ring_inner \<Rightarrow> f32 list \<Rightarrow> usize \<times> ring_inner" where
  "push_frames inner frames =
     (let available = length frames div RENDER_CHANNELS;
          write_index = ri_write_index inner;
          read_index = ri_read_index inner;
          free = ri_capacity_frames inner - (write_index - read_index);
          frames_to_write = min available free in
      (frames_to_write,
       inner\<lparr>ri_slots := store_samples (ri_capacity_frames inner) write_index frames frames_to_write (ri_slots inner),
             ri_write_index := (if frames_to_write > 0 then write_index + frames_to_write else write_index),
             ri_telemetry := record_push_telemetry (ri_telemetry inner) frames_to_write available\<rparr>))"

record render_read_outcome =
  ro_frames_supplied :: usize
  ro_frames_silence_filled :: usize

definition record_read_telemetry ::
    "render_ring_telemetry \<Rightarrow> usize \<Rightarrow> usize \<Rightarrow> usize \<Rightarrow> render_ring_telemetry" where
  "record_read_telemetry telemetry requested supplied silence_filled =
     (let telemetry = telemetry
        \<lparr>rt_frames_requested := rt_frames_requested telemetry + u64_or_max requested,
         rt_frames_supplied_from_ring := rt_frames_supplied_from_ring telemetry + u64_or_max supplied,
         rt_silence_filled_frames := rt_silence_filled_frames telemetry + u64_or_max silence_filled\<rparr> in
      if silence_filled > 0
      then telemetry\<lparr>rt_underrun_callbacks := rt_underrun_callbacks telemetry + 1\<rparr> else telemetry)"

text \<open>\<open>output\<close> is the caller's buffer; a trailing odd sample keeps its value.\<close>

definition read_frames :: "ring_inner \<Rightarrow> f32 list \<Rightarrow> render_read_outcome \<times> f32 list \<times> ring_inner" where
  "read_frames inner output =
     (let requested_frames = length output div RENDER_CHANNELS;
          write_index = ri_write_index inner;
          read_index = ri_read_index inner;
          frames_to_supply = min requested_frames (write_index - read_index);
          output = fold (\<lambda>j output. output[j := ri_slots inner ! slot_of (ri_capacity_frames inner) read_index j])
            [0..<frames_to_supply * RENDER_CHANNELS] output;
          output = fold (\<lambda>j output. output[j := 0])
            [frames_to_supply * RENDER_CHANNELS..<requested_frames * RENDER_CHANNELS] output;
          frames_silence_filled = requested_frames - frames_to_supply in
      (\<lparr>ro_frames_supplied = frames_to_supply, ro_frames_silence_filled = frames_silence_filled\<rparr>, output,
       inner\<lparr>ri_read_index := (if frames_to_supply > 0 then read_index + frames_to_supply else read_index),
             ri_telemetry := record_read_telemetry (ri_telemetry inner) requested_frames frames_to_supply
               frames_silence_filled\<rparr>))"

definition record_callback_invocation :: "ring_inner \<Rightarrow> ring_inner" where
  "record_callback_invocation inner =
     inner\<lparr>ri_telemetry := (ri_telemetry inner)\<lparr>rt_callback_count := rt_callback_count (ri_telemetry inner) + 1\<rparr>\<rparr>"

definition record_contained_panic :: "ring_inner \<Rightarrow> ring_inner" where
  "record_contained_panic inner =
     inner\<lparr>ri_telemetry := (ri_telemetry inner)
       \<lparr>rt_contained_panic_count := rt_contained_panic_count (ri_telemetry inner) + 1\<rparr>\<rparr>"

subsection \<open>Slots and stream positions\<close>

lemma slot_of_mod: "slot_of capacity index j = (RENDER_CHANNELS * index + j) mod (RENDER_CHANNELS * capacity)"
proof -
  have "(2 * index + j) mod (2 * capacity) = 2 * ((2 * index + j) div 2 mod capacity) + (2 * index + j) mod 2"
    by (rule mod_mult2_eq)
  then show ?thesis
    by (simp add: slot_of_def RENDER_CHANNELS_def)
qed

lemma mod_inj_window:
  fixes a b n :: nat
  assumes "a mod n = b mod n" and "a \<le> b" and "b < a + n"
  shows "a = b"
proof -
  have "n dvd b - a"
    using assms(1,2) by (metis mod_eq_dvd_iff_nat)
  then show ?thesis
    using assms(2,3) by (auto dest: dvd_imp_le)
qed

text \<open>The stream position \<open>i\<close> (in samples) is held in the slot \<open>i mod (2 * capacity)\<close>.\<close>

abbreviation ring_slot :: "usize \<Rightarrow> nat \<Rightarrow> nat" where
  "ring_slot capacity i \<equiv> i mod (RENDER_CHANNELS * capacity)"

definition ring_holds :: "usize \<Rightarrow> u32 list \<Rightarrow> nat \<Rightarrow> f32 list \<Rightarrow> bool" where
  "ring_holds capacity slots start xs \<longleftrightarrow> (\<forall>i < length xs. slots ! ring_slot capacity (start + i) = xs ! i)"

lemma ring_holds_update:
  assumes "ring_holds capacity slots start xs" and "start + length xs \<le> k" and "k < start + RENDER_CHANNELS * capacity"
  shows "ring_holds capacity (slots[ring_slot capacity k := v]) start xs"
proof -
  have "ring_slot capacity k \<noteq> ring_slot capacity (start + i)" if "i < length xs" for i
    using mod_inj_window [of "start + i" "RENDER_CHANNELS * capacity" k] that assms(2,3) by auto
  then show ?thesis
    using assms(1) by (simp add: ring_holds_def)
qed

lemma ring_holds_snoc:
  assumes "ring_holds capacity slots start xs" and "k = start + length xs" and "length xs < RENDER_CHANNELS * capacity"
    and "length slots = RENDER_CHANNELS * capacity"
  shows "ring_holds capacity (slots[ring_slot capacity k := v]) start (xs @ [v])"
proof -
  have "ring_slot capacity k < length slots"
    using assms(3,4) by (metis mod_less_divisor not_less_zero gr_zeroI)
  moreover have "ring_holds capacity (slots[ring_slot capacity k := v]) start xs"
    using assms by (intro ring_holds_update) simp_all
  ultimately show ?thesis
    using assms(2) by (auto simp: ring_holds_def nth_append less_Suc_eq)
qed

lemma ring_holds_take: "ring_holds capacity slots start xs \<Longrightarrow> ring_holds capacity slots start (take n xs)"
  by (simp add: ring_holds_def)

lemma ring_holds_drop: "ring_holds capacity slots start xs \<Longrightarrow> ring_holds capacity slots (start + n) (drop n xs)"
  by (simp add: ring_holds_def add.assoc)

subsection \<open>The ring as a queue\<close>

definition ring_inv :: "ring_inner \<Rightarrow> bool" where
  "ring_inv inner \<longleftrightarrow> 0 < ri_capacity_frames inner \<and>
     length (ri_slots inner) = RENDER_CHANNELS * ri_capacity_frames inner \<and>
     ri_read_index inner \<le> ri_write_index inner \<and>
     ri_write_index inner \<le> ri_read_index inner + ri_capacity_frames inner"

text \<open>The samples that were written and not yet read, oldest first.\<close>

definition ring_contents :: "ring_inner \<Rightarrow> f32 list" where
  "ring_contents inner =
     map (\<lambda>i. ri_slots inner ! ring_slot (ri_capacity_frames inner) i)
       [RENDER_CHANNELS * ri_read_index inner..<RENDER_CHANNELS * ri_write_index inner]"

lemma ring_contents_holds:
  "ring_inv inner \<Longrightarrow>
     ring_holds (ri_capacity_frames inner) (ri_slots inner) (RENDER_CHANNELS * ri_read_index inner) xs \<Longrightarrow>
     length xs = RENDER_CHANNELS * (ri_write_index inner - ri_read_index inner) \<Longrightarrow> ring_contents inner = xs"
  by (intro nth_equalityI) (auto simp: ring_contents_def ring_holds_def ring_inv_def diff_mult_distrib2)

lemma ring_holds_contents:
  "ring_holds (ri_capacity_frames inner) (ri_slots inner) (RENDER_CHANNELS * ri_read_index inner) (ring_contents inner)"
  by (auto simp: ring_contents_def ring_holds_def)

lemma length_ring_contents:
  "length (ring_contents inner) = RENDER_CHANNELS * (ri_write_index inner - ri_read_index inner)"
  by (simp add: ring_contents_def diff_mult_distrib2)

abbreviation store_prefix :: "usize \<Rightarrow> usize \<Rightarrow> f32 list \<Rightarrow> nat \<Rightarrow> u32 list \<Rightarrow> u32 list" where
  "store_prefix capacity write_index frames n slots \<equiv>
     fold (\<lambda>j slots. slots[slot_of capacity write_index j := frames ! j]) [0..<n] slots"

lemma length_store_prefix [simp]: "length (store_prefix capacity write_index frames n slots) = length slots"
  by (induction n) simp_all

lemma store_prefix_holds:
  assumes "ring_holds capacity slots start xs" and "start + length xs = RENDER_CHANNELS * write_index"
    and "length slots = RENDER_CHANNELS * capacity" and "length xs + n \<le> RENDER_CHANNELS * capacity" and "n \<le> length frames"
  shows "ring_holds capacity (store_prefix capacity write_index frames n slots) start (xs @ take n frames)"
  using assms(4,5)
proof (induction n)
  case (Suc n)
  let ?slots = "store_prefix capacity write_index frames n slots" and ?xs = "xs @ take n frames"
  have "slot_of capacity write_index n = ring_slot capacity (start + length ?xs)"
    using Suc.prems by (simp add: slot_of_mod min_def add.assoc flip: assms(2))
  moreover have "ring_holds capacity (?slots[ring_slot capacity (start + length ?xs) := frames ! n]) start (?xs @ [frames ! n])"
    using Suc assms(3) by (intro ring_holds_snoc) simp_all
  ultimately show ?case
    using Suc.prems by (simp add: take_Suc_conv_app_nth)
qed (use assms(1) in simp)

lemma push_frames_refines:
  assumes "ring_inv inner" and "push_frames inner frames = (n, inner')"
  shows "n = min (length frames div RENDER_CHANNELS) (free_frames inner)" and "ring_inv inner'"
    and "ring_contents inner' = ring_contents inner @ take (RENDER_CHANNELS * n) frames"
    and "ri_capacity_frames inner' = ri_capacity_frames inner"
proof -
  let ?c = "ri_capacity_frames inner" and ?w = "ri_write_index inner" and ?r = "ri_read_index inner"
  let ?slots' = "store_samples ?c ?w frames n (ri_slots inner)"
  show n: "n = min (length frames div RENDER_CHANNELS) (free_frames inner)"
    using assms(2) by (simp add: push_frames_def Let_def free_frames_def)
  have inner': "ri_capacity_frames inner' = ?c" "ri_slots inner' = ?slots'" "ri_write_index inner' = ?w + n"
    "ri_read_index inner' = ?r"
    using assms(2) by (auto simp: push_frames_def Let_def)
  then show "ri_capacity_frames inner' = ?c"
    by simp
  have inv: "length (ri_slots inner) = RENDER_CHANNELS * ?c" "?r \<le> ?w" "?w \<le> ?r + ?c"
    using assms(1) by (simp_all add: ring_inv_def)
  have room: "?w - ?r + n \<le> ?c"
    using n inv by (auto simp: free_frames_def)
  have len: "n * RENDER_CHANNELS \<le> length frames"
    using n by (simp add: RENDER_CHANNELS_def)
  have "ring_holds ?c ?slots' (RENDER_CHANNELS * ?r) (ring_contents inner @ take (n * RENDER_CHANNELS) frames)"
    unfolding store_samples_def
    using room inv len by (intro store_prefix_holds ring_holds_contents) (simp_all add: length_ring_contents RENDER_CHANNELS_def)
  moreover have "length ?slots' = length (ri_slots inner)"
    by (simp add: store_samples_def)
  moreover from this show "ring_inv inner'"
    using inner' inv room assms(1) by (simp add: ring_inv_def)
  ultimately show "ring_contents inner' = ring_contents inner @ take (RENDER_CHANNELS * n) frames"
    using inner' inv len by (intro ring_contents_holds) (auto simp: length_ring_contents RENDER_CHANNELS_def mult.commute)
qed

lemma fold_fill:
  assumes "n \<le> length output"
  shows "fold (\<lambda>j output. output[j := f j]) [m..<n] output =
    (if m \<le> n then take m output @ map f [m..<n] @ drop n output else output)"
  using assms
proof (induction n)
  case (Suc n)
  then have IH: "fold (\<lambda>j output. output[j := f j]) [m..<n] output =
      (if m \<le> n then take m output @ map f [m..<n] @ drop n output else output)"
    by simp
  show ?case
  proof (cases "m \<le> n")
    case True
    have "drop n output = output ! n # drop (Suc n) output"
      using Suc.prems by (simp add: Cons_nth_drop_Suc)
    then show ?thesis
      using True IH Suc.prems by (simp add: list_update_append)
  next
    case False
    then show ?thesis
      by (cases "m = Suc n") simp_all
  qed
qed simp

lemma read_frames_refines:
  assumes "ring_inv inner" and "read_frames inner output = (outcome, output', inner')"
  defines "n \<equiv> ro_frames_supplied outcome" and "requested \<equiv> length output div RENDER_CHANNELS"
  shows "n = min requested (available_frames inner)" and "ring_inv inner'"
    and "ring_contents inner = take (RENDER_CHANNELS * n) output' @ ring_contents inner'"
    and "output' = take (RENDER_CHANNELS * n) (ring_contents inner) @
      replicate (RENDER_CHANNELS * (requested - n)) 0 @ drop (RENDER_CHANNELS * requested) output"
    and "ro_frames_silence_filled outcome = requested - n" and "ri_capacity_frames inner' = ri_capacity_frames inner"
proof -
  let ?c = "ri_capacity_frames inner" and ?w = "ri_write_index inner" and ?r = "ri_read_index inner"
  show n: "n = min requested (available_frames inner)" "ro_frames_silence_filled outcome = requested - n"
    using assms(2) by (auto simp: n_def requested_def read_frames_def Let_def available_frames_def)
  have inv: "?r \<le> ?w" "?w \<le> ?r + ?c"
    using assms(1) by (simp_all add: ring_inv_def)
  have inner': "ri_capacity_frames inner' = ?c" "ri_slots inner' = ri_slots inner" "ri_write_index inner' = ?w"
    "ri_read_index inner' = ?r + n"
    using assms(2) by (auto simp: n_def read_frames_def Let_def)
  then show "ri_capacity_frames inner' = ?c"
    by simp
  have avail: "?r + n \<le> ?w"
    using n(1) inv by (auto simp: available_frames_def)
  then show "ring_inv inner'"
    using assms(1) inner' by (simp add: ring_inv_def)
  have fits: "n * RENDER_CHANNELS \<le> requested * RENDER_CHANNELS" "requested * RENDER_CHANNELS \<le> length output"
    using n(1) by (simp_all add: requested_def)
  let ?read = "map (\<lambda>j. ri_slots inner ! slot_of ?c ?r j) [0..<n * RENDER_CHANNELS]"
  have read: "?read = take (RENDER_CHANNELS * n) (ring_contents inner)"
    using avail by (intro nth_equalityI) (auto simp: length_ring_contents ring_contents_def slot_of_mod RENDER_CHANNELS_def)
  have "output' = fold (\<lambda>j output. output[j := 0]) [n * RENDER_CHANNELS..<requested * RENDER_CHANNELS]
      (fold (\<lambda>j output. output[j := ri_slots inner ! slot_of ?c ?r j]) [0..<n * RENDER_CHANNELS] output)"
    using assms(2) by (auto simp: n_def requested_def read_frames_def Let_def)
  also have "\<dots> = fold (\<lambda>j output. output[j := 0]) [n * RENDER_CHANNELS..<requested * RENDER_CHANNELS]
      (?read @ drop (n * RENDER_CHANNELS) output)"
    using fold_fill [where m = 0, OF order_trans [OF fits]] by simp
  also have "\<dots> = ?read @ replicate (RENDER_CHANNELS * (requested - n)) 0 @ drop (RENDER_CHANNELS * requested) output"
    using fits by (subst fold_fill) (simp_all add: map_replicate_const diff_mult_distrib2 mult.commute)
  finally show out: "output' = take (RENDER_CHANNELS * n) (ring_contents inner) @
      replicate (RENDER_CHANNELS * (requested - n)) 0 @ drop (RENDER_CHANNELS * requested) output"
    using read by simp
  have "ring_contents inner' = drop (RENDER_CHANNELS * n) (ring_contents inner)"
    using inner' by (simp add: ring_contents_def drop_map distrib_left)
  then show "ring_contents inner = take (RENDER_CHANNELS * n) output' @ ring_contents inner'"
    using out avail by (simp add: length_ring_contents RENDER_CHANNELS_def)
qed

subsection \<open>Calls on the ring\<close>

text \<open>
  The contract of a first-in first-out queue: over any sequence of calls, what was put in is what
  was taken out followed by what is held.
\<close>

locale fifo_queue =
  fixes inv :: "'s \<Rightarrow> bool"
    and held :: "'s \<Rightarrow> 'a list"
    and ok :: "'s \<Rightarrow> 'c \<Rightarrow> bool"
    and perform :: "'s \<Rightarrow> 'c \<Rightarrow> 'e list \<times> 's"
    and put_in :: "'e \<Rightarrow> 'a list"
    and taken_out :: "'e \<Rightarrow> 'a list"
  assumes step: "inv s \<Longrightarrow> ok s c \<Longrightarrow> perform s c = (es, s') \<Longrightarrow>
      inv s' \<and> held s @ concat (map put_in es) = concat (map taken_out es) @ held s'"
begin

lemma run_fifo:
  assumes "call_run ok perform s0 cs out s" and "inv s0"
  shows "inv s \<and> held s0 @ concat (map put_in out) = concat (map taken_out out) @ held s"
  using assms
proof (induction rule: call_run.induct)
  case (run_call cs out s c es s')
  then have "inv s" "held s0 @ concat (map put_in out) = concat (map taken_out out) @ held s"
    by simp_all
  with step [OF _ run_call(2,3)] show ?case
    by (metis append.assoc concat_append map_append)
qed simp

end

datatype ring_call =
    PushFrames "f32 list"
  | ReadFrames "f32 list"
  | RecordCallbackInvocation
  | RecordContainedPanic

datatype ring_event =
    is_Pushed: Pushed (offered_frames: usize) (pushed_samples: "f32 list")
  | is_Rendered: Rendered (render_outcome: render_read_outcome) (rendered_output: "f32 list")

fun perform_ring_call :: "ring_inner \<Rightarrow> ring_call \<Rightarrow> ring_event list \<times> ring_inner" where
  "perform_ring_call inner (PushFrames frames) =
     (let (n, inner') = push_frames inner frames in
      ([Pushed (length frames div RENDER_CHANNELS) (take (RENDER_CHANNELS * n) frames)], inner'))"
| "perform_ring_call inner (ReadFrames output) =
     (let (outcome, output', inner') = read_frames inner output in ([Rendered outcome output'], inner'))"
| "perform_ring_call inner RecordCallbackInvocation = ([], record_callback_invocation inner)"
| "perform_ring_call inner RecordContainedPanic = ([], record_contained_panic inner)"

text \<open>Slices are no longer than \<open>usize\<close> can count.\<close>

fun ring_call_ok :: "ring_inner \<Rightarrow> ring_call \<Rightarrow> bool" where
  "ring_call_ok inner (PushFrames frames) \<longleftrightarrow> length frames < 2 ^ 64"
| "ring_call_ok inner (ReadFrames output) \<longleftrightarrow> length output < 2 ^ 64"
| "ring_call_ok inner c \<longleftrightarrow> True"

fun ring_event_in :: "ring_event \<Rightarrow> f32 list" where
  "ring_event_in (Pushed offered samples) = samples"
| "ring_event_in (Rendered outcome output) = []"

fun ring_event_out :: "ring_event \<Rightarrow> f32 list" where
  "ring_event_out (Pushed offered samples) = []"
| "ring_event_out (Rendered outcome output) = take (RENDER_CHANNELS * ro_frames_supplied outcome) output"

lemma ring_inv_telemetry [simp]: "ring_inv (inner\<lparr>ri_telemetry := t\<rparr>) = ring_inv inner"
  by (simp add: ring_inv_def)

lemma ring_contents_telemetry [simp]: "ring_contents (inner\<lparr>ri_telemetry := t\<rparr>) = ring_contents inner"
  by (simp add: ring_contents_def)

lemmas record_telemetry_defs = record_callback_invocation_def record_contained_panic_def

interpretation ring_queue: fifo_queue ring_inv ring_contents ring_call_ok perform_ring_call ring_event_in ring_event_out
proof unfold_locales
  fix inner c es inner'
  assume inv: "ring_inv inner" and call: "perform_ring_call inner c = (es, inner')"
  show "ring_inv inner' \<and> ring_contents inner @ concat (map ring_event_in es) =
      concat (map ring_event_out es) @ ring_contents inner'"
  proof (cases c)
    case (PushFrames frames)
    with call show ?thesis
      by (auto simp: push_frames_refines(2,3) [OF inv] split: prod.splits)
  next
    case (ReadFrames buffer)
    with call show ?thesis
      by (auto simp: read_frames_refines(2) [OF inv] read_frames_refines(3) [OF inv, symmetric] split: prod.splits)
  qed (use inv call in \<open>auto simp: record_telemetry_defs\<close>)
qed

lemma render_ring_new_inv:
  assumes "render_ring_new config = Inr inner"
  shows "ring_inv inner" and "ring_contents inner = []" and "ri_telemetry inner = render_ring_telemetry_default"
    and "ri_capacity_frames inner = rrc_capacity_frames config"
  using assms
  by (auto simp: render_ring_new_def ring_inv_def ring_contents_def checked_mul_usize_def ok_or_def try_bind_def
      MIN_RING_CAPACITY_FRAMES_def split: if_splits option.splits sum.splits)

text \<open>The counters agree with what the two sides did, each up to the wrap-around of \<open>fetch_add\<close>.\<close>

definition telemetry_matches :: "render_ring_telemetry \<Rightarrow> ring_event list \<Rightarrow> bool" where
  "telemetry_matches telemetry out \<longleftrightarrow>
     rt_frames_produced telemetry = of_nat (\<Sum>e\<leftarrow>out. length (ring_event_in e) div RENDER_CHANNELS) \<and>
     rt_frames_supplied_from_ring telemetry = of_nat (\<Sum>e\<leftarrow>out. length (ring_event_out e) div RENDER_CHANNELS) \<and>
     rt_frames_requested telemetry = rt_frames_supplied_from_ring telemetry + rt_silence_filled_frames telemetry \<and>
     rt_ring_full_events telemetry =
       of_nat (length (filter (\<lambda>e. is_Pushed e \<and> length (pushed_samples e) div RENDER_CHANNELS < offered_frames e) out)) \<and>
     rt_underrun_callbacks telemetry =
       of_nat (length (filter (\<lambda>e. is_Rendered e \<and> 0 < ro_frames_silence_filled (render_outcome e)) out))"

lemma u64_or_max_exact: "n < 2 ^ 64 \<Longrightarrow> u64_or_max n = of_nat n"
  by (simp add: u64_or_max_def)

lemma push_frames_telemetry:
  assumes "ring_inv inner" and "length frames < 2 ^ 64" and "push_frames inner frames = (n, inner')"
    and "telemetry_matches (ri_telemetry inner) out"
  shows "telemetry_matches (ri_telemetry inner')
    (out @ [Pushed (length frames div RENDER_CHANNELS) (take (RENDER_CHANNELS * n) frames)])"
proof -
  have n: "n \<le> length frames div RENDER_CHANNELS"
    using push_frames_refines(1) [OF assms(1,3)] by simp
  then have "length (take (RENDER_CHANNELS * n) frames) div RENDER_CHANNELS = n" "n < 2 ^ 64"
    using assms(2) by (auto simp: RENDER_CHANNELS_def min_def)
  moreover have "ri_telemetry inner' = record_push_telemetry (ri_telemetry inner) n (length frames div RENDER_CHANNELS)"
    using assms(3) by (auto simp: push_frames_def Let_def)
  ultimately show ?thesis
    using assms(4) by (simp add: telemetry_matches_def record_push_telemetry_def Let_def u64_or_max_exact)
qed

lemma read_frames_telemetry:
  assumes "ring_inv inner" and "length output < 2 ^ 64" and "read_frames inner output = (outcome, output', inner')"
    and "telemetry_matches (ri_telemetry inner) out"
  shows "telemetry_matches (ri_telemetry inner') (out @ [Rendered outcome output'])"
proof -
  let ?n = "ro_frames_supplied outcome" and ?requested = "length output div RENDER_CHANNELS"
  note refines = read_frames_refines [OF assms(1,3)]
  have "?n \<le> ?requested"
    using refines(1) by simp
  moreover have "length (ring_contents inner) = length (take (RENDER_CHANNELS * ?n) output' @ ring_contents inner')"
    using refines(3) by simp
  then have "length (take (RENDER_CHANNELS * ?n) output') div RENDER_CHANNELS = ?n"
    using refines(1,4) by (simp add: RENDER_CHANNELS_def length_ring_contents available_frames_def min_def)
  moreover have "?requested < 2 ^ 64"
    using assms(2) by (simp add: RENDER_CHANNELS_def)
  moreover have "ri_telemetry inner' =
      record_read_telemetry (ri_telemetry inner) ?requested ?n (ro_frames_silence_filled outcome)"
    using assms(3) by (auto simp: read_frames_def Let_def)
  ultimately show ?thesis
    using assms(4) refines(5)
    by (simp add: telemetry_matches_def record_read_telemetry_def Let_def u64_or_max_exact of_nat_diff)
qed

lemma perform_ring_call_telemetry:
  assumes "ring_inv inner" and "ring_call_ok inner c" and "perform_ring_call inner c = (es, inner')"
    and "telemetry_matches (ri_telemetry inner) out"
  shows "telemetry_matches (ri_telemetry inner') (out @ es)"
  using assms
  by (cases c)
    (auto simp: record_telemetry_defs telemetry_matches_def [of "_\<lparr>rt_callback_count := _\<rparr>"]
      telemetry_matches_def [of "_\<lparr>rt_contained_panic_count := _\<rparr>"] telemetry_matches_def [of "ri_telemetry inner"]
      intro: push_frames_telemetry read_frames_telemetry split: prod.splits)

lemma ring_run_telemetry:
  assumes "call_run ring_call_ok perform_ring_call inner0 cs out inner"
    and "ring_inv inner0" and "telemetry_matches (ri_telemetry inner0) []"
  shows "ring_inv inner \<and> ri_capacity_frames inner = ri_capacity_frames inner0 \<and>
    telemetry_matches (ri_telemetry inner) out"
  using assms
proof (induction rule: call_run.induct)
  case (run_call cs out s c es s')
  then have IH: "ring_inv s" "ri_capacity_frames s = ri_capacity_frames inner0" "telemetry_matches (ri_telemetry s) out"
    by simp_all
  moreover have "ri_capacity_frames s' = ri_capacity_frames s"
    using run_call(3) push_frames_refines(4) [OF IH(1)] read_frames_refines(6) [OF IH(1)]
    by (cases c) (auto simp: record_telemetry_defs split: prod.splits)
  ultimately show ?case
    using ring_queue.step [OF _ run_call(2,3)] perform_ring_call_telemetry [OF _ run_call(2,3)] by simp
qed simp

definition example_ring_calls :: "ring_call list" where
  "example_ring_calls =
     [PushFrames [11, 12, 21, 22, 31, 32], ReadFrames [7, 7, 7, 7, 7], PushFrames [41, 42, 5],
      RecordCallbackInvocation, ReadFrames [7, 7, 7, 7, 7, 7]]"

lemma list_update_numeral: "(x # xs)[numeral v := y] = x # xs[pred_numeral v := y]"
  by (simp add: numeral_eq_Suc)

lemma example_ring_new:
  "render_ring_new render_ring_config_new =
     Inr \<lparr>ri_capacity_frames = 48000, ri_slots = replicate 96000 0, ri_write_index = 0,
          ri_read_index = 0, ri_telemetry = render_ring_telemetry_default\<rparr>"
  by (simp add: render_ring_new_def render_ring_config_new_def MIN_RING_CAPACITY_FRAMES_def MAX_RING_CAPACITY_FRAMES_def
      DEFAULT_RING_CAPACITY_FRAMES_def DEFAULT_TARGET_FILL_FRAMES_def RENDER_CHANNELS_def checked_mul_usize_def usize_max_def ok_or_def)

lemma example_ring_run:
  obtains inner0 inner out where "render_ring_new render_ring_config_new = Inr inner0"
    and "call_run ring_call_ok perform_ring_call inner0 example_ring_calls out inner"
    and "out = [Pushed 3 [11, 12, 21, 22, 31, 32], Rendered \<lparr>ro_frames_supplied = 2, ro_frames_silence_filled = 0\<rparr> [11, 12, 21, 22, 7],
      Pushed 1 [41, 42], Rendered \<lparr>ro_frames_supplied = 2, ro_frames_silence_filled = 1\<rparr> [31, 32, 41, 42, 0, 0]]"
    and "rt_silence_filled_frames (ri_telemetry inner) = 1"
proof -
  obtain inner0 where new: "render_ring_new render_ring_config_new = Inr inner0"
    and inner0: "inner0 = \<lparr>ri_capacity_frames = 48000, ri_slots = replicate 96000 0, ri_write_index = 0,
      ri_read_index = 0, ri_telemetry = render_ring_telemetry_default\<rparr>"
    by (simp add: example_ring_new)
  obtain out inner where exec: "call_exec ring_call_ok perform_ring_call inner0 example_ring_calls = Some (out, inner)"
    and out: "out = [Pushed 3 [11, 12, 21, 22, 31, 32], Rendered \<lparr>ro_frames_supplied = 2, ro_frames_silence_filled = 0\<rparr> [11, 12, 21, 22, 7],
      Pushed 1 [41, 42], Rendered \<lparr>ro_frames_supplied = 2, ro_frames_silence_filled = 1\<rparr> [31, 32, 41, 42, 0, 0]]"
    and tele: "rt_silence_filled_frames (ri_telemetry inner) = 1"
    unfolding inner0 by (simp add: example_ring_calls_def call_exec_def push_frames_def read_frames_def store_samples_def
        slot_of_def RENDER_CHANNELS_def record_telemetry_defs record_push_telemetry_def record_read_telemetry_def
        render_ring_telemetry_default_def u64_or_max_def upt_rec nth_list_update list_update_numeral)
  show thesis
    by (rule that [OF new call_exec_run [OF exec] out tele])
qed



text \<open>
  The ring's counters are true. After every sequence of calls, the produced and supplied
  counts are the frames actually accepted and supplied, requested frames are supplied frames plus
  silence-filled frames, the ring-full count is the number of pushes that did not fit and the
  underrun count the number of reads that were silence-filled, each modulo the \<open>u64\<close> range.
\<close>

theorem render_ring_telemetry_exact:
  assumes "render_ring_new config = Inr inner0"
    and "call_run ring_call_ok perform_ring_call inner0 cs out inner"
  shows "telemetry_matches (ri_telemetry inner) out"
proof -
  note new = render_ring_new_inv [OF assms(1)]
  have "telemetry_matches (ri_telemetry inner0) []"
    using new(3) by (simp add: telemetry_matches_def render_ring_telemetry_default_def)
  then show ?thesis
    using ring_run_telemetry [OF assms(2) new(1)] by simp
qed

theorem render_ring_telemetry_exact_witness:
  "\<exists>inner0 out inner. render_ring_new render_ring_config_new = Inr inner0 \<and>
     call_run ring_call_ok perform_ring_call inner0 example_ring_calls out inner \<and>
     rt_frames_produced (ri_telemetry inner) = 4 \<and> rt_frames_requested (ri_telemetry inner) = 5 \<and>
     rt_underrun_callbacks (ri_telemetry inner) = 1 \<and> rt_ring_full_events (ri_telemetry inner) = 0"
proof -
  obtain inner0 out inner where new: "render_ring_new render_ring_config_new = Inr inner0"
    and run: "call_run ring_call_ok perform_ring_call inner0 example_ring_calls out inner"
    and out: "out = [Pushed 3 [11, 12, 21, 22, 31, 32], Rendered \<lparr>ro_frames_supplied = 2, ro_frames_silence_filled = 0\<rparr> [11, 12, 21, 22, 7],
      Pushed 1 [41, 42], Rendered \<lparr>ro_frames_supplied = 2, ro_frames_silence_filled = 1\<rparr> [31, 32, 41, 42, 0, 0]]"
    and silence: "rt_silence_filled_frames (ri_telemetry inner) = 1"
    by (rule example_ring_run)
  have "telemetry_matches (ri_telemetry inner) out"
    by (rule render_ring_telemetry_exact [OF new run])
  then have "rt_frames_produced (ri_telemetry inner) = 4" "rt_frames_requested (ri_telemetry inner) = 5"
    "rt_underrun_callbacks (ri_telemetry inner) = 1" "rt_ring_full_events (ri_telemetry inner) = 0"
    using silence by (simp_all add: telemetry_matches_def out RENDER_CHANNELS_def)
  then show ?thesis
    using new run by auto
qed

end
