(* ===== verification/Render_Ring_Threads.thy ===== *)
theory Render_Ring_Threads
  imports Render_Ring "HOL-Library.Sublist"
begin

section \<open>The render ring between two threads\<close>

text \<open>
  \<open>push_frames\<close> and \<open>read_frames\<close> of \<open>audio/render_ring.rs\<close> taken apart into the accesses to shared
  memory that the producer and the consumer thread interleave in any order: the loads of the two
  indices, one store or load per sample slot, and the store that publishes the new index.
  A load of the other side's index may return any value between the last one this thread saw and
  the current one (an acquire load that observes an earlier release store). The slots are read
  and written in the interleaving order: the theorems below show that no slot is ever stored to
  while it is published and unread, or loaded before it is published, so the release and acquire
  accesses to the indices order all accesses to one slot.
  A producer that stores has its \<open>frames\<close>, \<open>frames_to_write\<close> and the number of samples stored; a
  consumer that loads has \<open>requested_frames\<close>, \<open>frames_to_supply\<close> and the samples loaded.
  \<open>rs_seen_read\<close> is the \<open>read_index\<close> the producer loaded last, \<open>rs_seen_write\<close> the \<open>write_index\<close> the
  consumer loaded last. \<open>rs_accepted\<close> and \<open>rs_delivered\<close> are ghosts: the samples published so far by the producer, and
  the samples of completed reads.
\<close>

datatype producer_pc =
    ProducerIdle
  | Storing "f32 list" usize nat

datatype consumer_pc =
    ConsumerIdle
  | Loading usize usize "f32 list"

record ring_threads =
  rs_inner :: ring_inner
  rs_producer :: producer_pc
  rs_consumer :: consumer_pc
  rs_seen_read :: usize
  rs_seen_write :: usize
  rs_accepted :: "f32 list"
  rs_delivered :: "f32 list"

definition ring_threads_start :: "ring_inner \<Rightarrow> ring_threads" where
  "ring_threads_start inner =
     \<lparr>rs_inner = inner, rs_producer = ProducerIdle, rs_consumer = ConsumerIdle, rs_seen_read = 0, rs_seen_write = 0,
      rs_accepted = [], rs_delivered = []\<rparr>"

definition push_begin :: "f32 list \<Rightarrow> usize \<Rightarrow> ring_threads \<Rightarrow> ring_threads" where
  "push_begin frames read_index s =
     (let inner = rs_inner s;
          free = ri_capacity_frames inner - (ri_write_index inner - read_index) in
      s\<lparr>rs_producer := Storing frames (min (length frames div RENDER_CHANNELS) free) 0, rs_seen_read := read_index\<rparr>)"

definition push_store :: "f32 list \<Rightarrow> usize \<Rightarrow> nat \<Rightarrow> ring_threads \<Rightarrow> ring_threads" where
  "push_store frames n j s =
     (let inner = rs_inner s in
      s\<lparr>rs_inner := inner\<lparr>ri_slots := (ri_slots inner)
          [slot_of (ri_capacity_frames inner) (ri_write_index inner) j := frames ! j]\<rparr>,
        rs_producer := Storing frames n (Suc j)\<rparr>)"

definition push_publish :: "f32 list \<Rightarrow> usize \<Rightarrow> ring_threads \<Rightarrow> ring_threads" where
  "push_publish frames n s =
     (let inner = rs_inner s in
      s\<lparr>rs_inner := inner
          \<lparr>ri_write_index := (if n > 0 then ri_write_index inner + n else ri_write_index inner),
           ri_telemetry := record_push_telemetry (ri_telemetry inner) n (length frames div RENDER_CHANNELS)\<rparr>,
        rs_producer := ProducerIdle,
        rs_accepted := rs_accepted s @ take (RENDER_CHANNELS * n) frames\<rparr>)"

definition read_begin :: "usize \<Rightarrow> usize \<Rightarrow> ring_threads \<Rightarrow> ring_threads" where
  "read_begin requested write_index s =
     s\<lparr>rs_consumer := Loading requested (min requested (write_index - ri_read_index (rs_inner s))) [],
       rs_seen_write := write_index\<rparr>"

definition read_load :: "usize \<Rightarrow> usize \<Rightarrow> f32 list \<Rightarrow> ring_threads \<Rightarrow> ring_threads" where
  "read_load requested n loaded s =
     (let inner = rs_inner s in
      s\<lparr>rs_consumer := Loading requested n
          (loaded @ [ri_slots inner ! slot_of (ri_capacity_frames inner) (ri_read_index inner) (length loaded)])\<rparr>)"

definition read_publish :: "usize \<Rightarrow> usize \<Rightarrow> f32 list \<Rightarrow> ring_threads \<Rightarrow> ring_threads" where
  "read_publish requested n loaded s =
     (let inner = rs_inner s in
      s\<lparr>rs_inner := inner
          \<lparr>ri_read_index := (if n > 0 then ri_read_index inner + n else ri_read_index inner),
           ri_telemetry := record_read_telemetry (ri_telemetry inner) requested n (requested - n)\<rparr>,
        rs_consumer := ConsumerIdle,
        rs_delivered := rs_delivered s @ loaded\<rparr>)"

datatype ring_thread = ProducerThread | ConsumerThread

text \<open>The steps of each thread; \<open>ring_step\<close> is a step of either.\<close>

inductive thread_step :: "ring_thread \<Rightarrow> ring_threads \<Rightarrow> ring_threads \<Rightarrow> bool" where
  thread_push_begin: "rs_producer s = ProducerIdle \<Longrightarrow> rs_seen_read s \<le> read_index \<Longrightarrow>
    read_index \<le> ri_read_index (rs_inner s) \<Longrightarrow> thread_step ProducerThread s (push_begin frames read_index s)"
| thread_push_store: "rs_producer s = Storing frames n j \<Longrightarrow> j < n * RENDER_CHANNELS \<Longrightarrow>
    thread_step ProducerThread s (push_store frames n j s)"
| thread_push_publish: "rs_producer s = Storing frames n (n * RENDER_CHANNELS) \<Longrightarrow>
    thread_step ProducerThread s (push_publish frames n s)"
| thread_read_begin: "rs_consumer s = ConsumerIdle \<Longrightarrow> rs_seen_write s \<le> write_index \<Longrightarrow>
    write_index \<le> ri_write_index (rs_inner s) \<Longrightarrow> thread_step ConsumerThread s (read_begin requested write_index s)"
| thread_read_load: "rs_consumer s = Loading requested n loaded \<Longrightarrow> length loaded < n * RENDER_CHANNELS \<Longrightarrow>
    thread_step ConsumerThread s (read_load requested n loaded s)"
| thread_read_publish: "rs_consumer s = Loading requested n loaded \<Longrightarrow> length loaded = n * RENDER_CHANNELS \<Longrightarrow>
    thread_step ConsumerThread s (read_publish requested n loaded s)"

definition ring_step :: "ring_threads \<Rightarrow> ring_threads \<Rightarrow> bool" where
  "ring_step s s' \<longleftrightarrow> (\<exists>thread. thread_step thread s s')"

text \<open>An interleaving: which thread made each step.\<close>

inductive thread_trace :: "ring_threads \<Rightarrow> ring_thread list \<Rightarrow> ring_threads \<Rightarrow> bool" for s0 where
  trace_start: "thread_trace s0 [] s0"
| trace_step: "thread_trace s0 threads s \<Longrightarrow> thread_step thread s s' \<Longrightarrow> thread_trace s0 (threads @ [thread]) s'"

inductive_cases producer_stepE: "thread_step ProducerThread s s'"
inductive_cases consumer_stepE: "thread_step ConsumerThread s s'"

lemma ring_stepI: "thread_step thread s s' \<Longrightarrow> ring_step s s'"
  by (auto simp: ring_step_def)

lemmas ring_step_intros = thread_step.intros [THEN ring_stepI]

lemmas ring_step_defs = push_begin_def push_store_def push_publish_def read_begin_def read_load_def read_publish_def Let_def

subsection \<open>The invariant\<close>

fun stored_samples :: "producer_pc \<Rightarrow> f32 list" where
  "stored_samples ProducerIdle = []"
| "stored_samples (Storing frames n j) = take j frames"

fun loaded_samples :: "consumer_pc \<Rightarrow> f32 list" where
  "loaded_samples ConsumerIdle = []"
| "loaded_samples (Loading requested n loaded) = loaded"

definition indices_ok :: "ring_threads \<Rightarrow> bool" where
  "indices_ok s \<longleftrightarrow> rs_seen_read s \<le> ri_read_index (rs_inner s) \<and> ri_read_index (rs_inner s) \<le> rs_seen_write s \<and>
     rs_seen_write s \<le> ri_write_index (rs_inner s) \<and>
     ri_write_index (rs_inner s) \<le> rs_seen_read s + ri_capacity_frames (rs_inner s)"

fun producer_ok :: "usize \<Rightarrow> usize \<Rightarrow> producer_pc \<Rightarrow> bool" where
  "producer_ok write_index limit ProducerIdle \<longleftrightarrow> True"
| "producer_ok write_index limit (Storing frames n j) \<longleftrightarrow>
     j \<le> n * RENDER_CHANNELS \<and> n * RENDER_CHANNELS \<le> length frames \<and> write_index + n \<le> limit"

fun consumer_ok :: "usize \<Rightarrow> usize \<Rightarrow> consumer_pc \<Rightarrow> bool" where
  "consumer_ok read_index limit ConsumerIdle \<longleftrightarrow> True"
| "consumer_ok read_index limit (Loading requested n loaded) \<longleftrightarrow>
     length loaded \<le> n * RENDER_CHANNELS \<and> read_index + n \<le> limit"

definition unread_samples :: "ring_threads \<Rightarrow> f32 list" where
  "unread_samples s = drop (RENDER_CHANNELS * ri_read_index (rs_inner s)) (rs_accepted s)"

definition threads_inv :: "ring_threads \<Rightarrow> bool" where
  "threads_inv s \<longleftrightarrow> indices_ok s \<and>
     producer_ok (ri_write_index (rs_inner s)) (rs_seen_read s + ri_capacity_frames (rs_inner s)) (rs_producer s) \<and>
     consumer_ok (ri_read_index (rs_inner s)) (rs_seen_write s) (rs_consumer s) \<and>
     0 < ri_capacity_frames (rs_inner s) \<and>
     length (ri_slots (rs_inner s)) = RENDER_CHANNELS * ri_capacity_frames (rs_inner s) \<and>
     length (rs_accepted s) = RENDER_CHANNELS * ri_write_index (rs_inner s) \<and>
     rs_delivered s = take (RENDER_CHANNELS * ri_read_index (rs_inner s)) (rs_accepted s) \<and>
     ring_holds (ri_capacity_frames (rs_inner s)) (ri_slots (rs_inner s)) (RENDER_CHANNELS * ri_read_index (rs_inner s))
       (unread_samples s @ stored_samples (rs_producer s)) \<and>
     loaded_samples (rs_consumer s) = take (length (loaded_samples (rs_consumer s))) (unread_samples s)"

lemmas threads_inv_defs = threads_inv_def indices_ok_def unread_samples_def

lemma threads_inv_store:
  assumes "threads_inv s" and "rs_producer s = Storing frames n j" and "j < n * RENDER_CHANNELS"
  shows "threads_inv (push_store frames n j s)"
proof -
  let ?inner = "rs_inner s"
  let ?c = "ri_capacity_frames ?inner" and ?r = "ri_read_index ?inner" and ?w = "ri_write_index ?inner"
  let ?xs = "unread_samples s @ take j frames"
  have inv: "indices_ok s" "producer_ok ?w (rs_seen_read s + ?c) (Storing frames n j)" "length (ri_slots ?inner) = RENDER_CHANNELS * ?c"
    "length (rs_accepted s) = RENDER_CHANNELS * ?w" "ring_holds ?c (ri_slots ?inner) (RENDER_CHANNELS * ?r) ?xs"
    using assms(1,2) by (simp_all add: threads_inv_def)
  have len: "length ?xs = RENDER_CHANNELS * (?w - ?r) + j"
    using inv(2,4) by (simp add: unread_samples_def diff_mult_distrib2)
  have "length ?xs < RENDER_CHANNELS * ?c"
    unfolding len using inv(1,2) assms(3) by (auto simp: indices_ok_def RENDER_CHANNELS_def)
  moreover have "RENDER_CHANNELS * ?w + j = RENDER_CHANNELS * ?r + length ?xs"
    unfolding len using inv(1) by (auto simp: indices_ok_def RENDER_CHANNELS_def)
  ultimately have "ring_holds ?c ((ri_slots ?inner)[ring_slot ?c (RENDER_CHANNELS * ?w + j) := frames ! j])
      (RENDER_CHANNELS * ?r) (?xs @ [frames ! j])"
    using inv(3,5) by (intro ring_holds_snoc)
  then show ?thesis
    using assms inv(2) by (auto simp: threads_inv_defs push_store_def Let_def slot_of_mod take_Suc_conv_app_nth)
qed

lemma threads_inv_load:
  assumes "threads_inv s" and "rs_consumer s = Loading requested n loaded" and "length loaded < n * RENDER_CHANNELS"
  shows "threads_inv (read_load requested n loaded s)"
proof -
  let ?inner = "rs_inner s"
  let ?c = "ri_capacity_frames ?inner" and ?r = "ri_read_index ?inner" and ?w = "ri_write_index ?inner"
  have inv: "indices_ok s" "consumer_ok ?r (rs_seen_write s) (Loading requested n loaded)" "length (rs_accepted s) = RENDER_CHANNELS * ?w"
    "ring_holds ?c (ri_slots ?inner) (RENDER_CHANNELS * ?r) (unread_samples s @ stored_samples (rs_producer s))"
    "loaded = take (length loaded) (unread_samples s)"
    using assms(1,2) by (simp_all add: threads_inv_def)
  have "length loaded < length (unread_samples s)"
    using inv(1,2,3) assms(3) by (auto simp: indices_ok_def unread_samples_def RENDER_CHANNELS_def)
  then have "take (Suc (length loaded)) (unread_samples s) = loaded @ [unread_samples s ! length loaded]"
    and "ri_slots ?inner ! slot_of ?c ?r (length loaded) = unread_samples s ! length loaded"
    using inv(4,5) by (simp_all add: take_Suc_conv_app_nth ring_holds_def slot_of_mod nth_append)
  then show ?thesis
    using assms by (simp add: threads_inv_def indices_ok_def read_load_def Let_def unread_samples_def)
qed

lemma threads_inv_push_publish:
  assumes "threads_inv s" and "rs_producer s = Storing frames n (n * RENDER_CHANNELS)"
  shows "threads_inv (push_publish frames n s)"
proof -
  let ?r = "ri_read_index (rs_inner s)"
  have inv: "indices_ok s" 
    "producer_ok (ri_write_index (rs_inner s)) (rs_seen_read s + ri_capacity_frames (rs_inner s)) (rs_producer s)"
    "length (rs_accepted s) = RENDER_CHANNELS * ri_write_index (rs_inner s)"
    "loaded_samples (rs_consumer s) = take (length (loaded_samples (rs_consumer s))) (unread_samples s)"
    using assms(1) by (simp_all add: threads_inv_def)
  have "RENDER_CHANNELS * ?r \<le> length (rs_accepted s)"
    using inv(1,3) by (simp add: indices_ok_def)
  then have unread: "unread_samples (push_publish frames n s) = unread_samples s @ take (RENDER_CHANNELS * n) frames"
    and delivered: "take (RENDER_CHANNELS * ?r) (rs_accepted s @ take (RENDER_CHANNELS * n) frames) =
      take (RENDER_CHANNELS * ?r) (rs_accepted s)"
    by (simp_all add: unread_samples_def push_publish_def Let_def)
  have "length (loaded_samples (rs_consumer s)) \<le> length (unread_samples s)"
    by (metis inv(4) length_take min.cobounded1)
  then have "loaded_samples (rs_consumer s) =
      take (length (loaded_samples (rs_consumer s))) (unread_samples (push_publish frames n s))"
    using inv(4) unread by simp
  then show ?thesis
    using assms inv(1,2,3) unread delivered
    by (auto simp: threads_inv_def indices_ok_def push_publish_def Let_def mult.commute distrib_left)
qed

lemma threads_inv_read_publish:
  assumes "threads_inv s" and "rs_consumer s = Loading requested n loaded" and "length loaded = n * RENDER_CHANNELS"
  shows "threads_inv (read_publish requested n loaded s)"
proof -
  let ?inner = "rs_inner s" and ?s' = "read_publish requested n loaded s"
  let ?c = "ri_capacity_frames ?inner" and ?r = "ri_read_index ?inner" and ?stored = "stored_samples (rs_producer s)"
  have inv: "indices_ok s" "consumer_ok ?r (rs_seen_write s) (Loading requested n loaded)"
    "length (rs_accepted s) = RENDER_CHANNELS * ri_write_index ?inner"
    "ring_holds ?c (ri_slots ?inner) (RENDER_CHANNELS * ?r) (unread_samples s @ ?stored)"
    "loaded = take (length loaded) (unread_samples s)" "rs_delivered s = take (RENDER_CHANNELS * ?r) (rs_accepted s)"
    using assms(1,2) by (simp_all add: threads_inv_def)
  have unread: "unread_samples ?s' = drop (RENDER_CHANNELS * n) (unread_samples s)"
    by (simp add: unread_samples_def read_publish_def Let_def distrib_left add.commute)
  have "RENDER_CHANNELS * n \<le> length (unread_samples s)"
    using inv(1,2,3) by (auto simp: indices_ok_def unread_samples_def RENDER_CHANNELS_def)
  then have "ring_holds ?c (ri_slots ?inner) (RENDER_CHANNELS * (?r + n)) (unread_samples ?s' @ ?stored)"
    using ring_holds_drop [OF inv(4), of "RENDER_CHANNELS * n"] unread by (simp add: distrib_left)
  moreover have "rs_delivered s @ loaded = take (RENDER_CHANNELS * (?r + n)) (rs_accepted s)"
    using inv(5,6) assms(3) by (simp add: unread_samples_def take_add distrib_left mult.commute)
  ultimately show ?thesis
    using assms inv(1,2) unread by (auto simp: threads_inv_def indices_ok_def read_publish_def Let_def)
qed

lemma thread_step_threads_inv:
  assumes "thread_step thread s s'" and "threads_inv s"
  shows "threads_inv s'"
  using assms
proof (cases rule: thread_step.cases)
  case (thread_push_begin read_index frames)
  then show ?thesis
    using assms(2) by (auto simp: threads_inv_defs push_begin_def Let_def RENDER_CHANNELS_def)
next
  case (thread_read_begin write_index requested)
  then show ?thesis
    using assms(2) by (auto simp: threads_inv_defs read_begin_def RENDER_CHANNELS_def)
qed (use assms(2) in \<open>simp_all add: threads_inv_store threads_inv_load threads_inv_push_publish threads_inv_read_publish\<close>)

lemma ring_steps_threads_inv: "ring_step\<^sup>*\<^sup>* s s' \<Longrightarrow> threads_inv s \<Longrightarrow> threads_inv s'"
  by (induction rule: rtranclp_induct) (auto simp: ring_step_def intro: thread_step_threads_inv)

lemma thread_trace_threads_inv: "thread_trace s threads s' \<Longrightarrow> threads_inv s \<Longrightarrow> threads_inv s'"
  by (induction rule: thread_trace.induct) (auto intro: thread_step_threads_inv)

lemma threads_inv_start: "render_ring_new config = Inr inner \<Longrightarrow> threads_inv (ring_threads_start inner)"
  by (auto simp: threads_inv_defs ring_threads_start_def ring_holds_def render_ring_new_def ok_or_def try_bind_def
      checked_mul_usize_def MIN_RING_CAPACITY_FRAMES_def split: if_splits option.splits sum.splits)

subsection \<open>Uninterrupted calls\<close>

text \<open>A thread that runs its call alone performs the sequential operation.\<close>

lemma push_store_steps:
  assumes "rs_producer s = Storing frames n 0" and "m \<le> n * RENDER_CHANNELS"
  shows "(thread_step ProducerThread ^^ m) s (s\<lparr>rs_producer := Storing frames n m,
    rs_inner := (rs_inner s)\<lparr>ri_slots :=
      store_prefix (ri_capacity_frames (rs_inner s)) (ri_write_index (rs_inner s)) frames m (ri_slots (rs_inner s))\<rparr>\<rparr>)"
    (is "(thread_step ProducerThread ^^ m) s (?at m)")
  using assms(2)
proof (induction m)
  case 0
  then show ?case
    using assms(1) by (cases s) simp
next
  case (Suc m)
  have "thread_step ProducerThread (?at m) (push_store frames n m (?at m))"
    using Suc.prems by (intro thread_push_store) simp_all
  moreover have "push_store frames n m (?at m) = ?at (Suc m)"
    by (cases s) (simp add: push_store_def Let_def)
  ultimately show ?case
    using Suc by (auto intro: relpowp_Suc_I simp del: relpowp.simps)
qed

lemma read_load_steps:
  assumes "rs_consumer s = Loading requested n []" and "m \<le> n * RENDER_CHANNELS"
  shows "(thread_step ConsumerThread ^^ m) s (s\<lparr>rs_consumer := Loading requested n (map (\<lambda>j. ri_slots (rs_inner s) !
    slot_of (ri_capacity_frames (rs_inner s)) (ri_read_index (rs_inner s)) j) [0..<m])\<rparr>)"
    (is "(thread_step ConsumerThread ^^ m) s (?at m)")
  using assms(2)
proof (induction m)
  case 0
  then show ?case
    using assms(1) by (cases s) simp
next
  case (Suc m)
  let ?loaded = "map (\<lambda>j. ri_slots (rs_inner s) ! slot_of (ri_capacity_frames (rs_inner s)) (ri_read_index (rs_inner s)) j) [0..<m]"
  have "thread_step ConsumerThread (?at m) (read_load requested n ?loaded (?at m))"
    using Suc.prems by (intro thread_read_load) simp_all
  moreover have "read_load requested n ?loaded (?at m) = ?at (Suc m)"
    by (cases s) (simp add: read_load_def Let_def)
  ultimately show ?case
    using Suc by (auto intro: relpowp_Suc_I simp del: relpowp.simps)
qed

lemma push_frames_steps:
  assumes "rs_producer s = ProducerIdle" and "push_frames (rs_inner s) frames = (n, inner')"
  shows "(thread_step ProducerThread ^^ (n * RENDER_CHANNELS + 1)) (push_begin frames (ri_read_index (rs_inner s)) s)
    (s\<lparr>rs_inner := inner', rs_seen_read := ri_read_index (rs_inner s),
       rs_accepted := rs_accepted s @ take (RENDER_CHANNELS * n) frames\<rparr>)"
proof -
  let ?inner = "rs_inner s" and ?r = "ri_read_index (rs_inner s)"
  have n: "n = min (length frames div RENDER_CHANNELS) (ri_capacity_frames ?inner - (ri_write_index ?inner - ?r))"
    using assms(2) by (simp add: push_frames_def Let_def)
  let ?s1 = "push_begin frames ?r s"
  have s1: "?s1 = s\<lparr>rs_producer := Storing frames n 0, rs_seen_read := ?r\<rparr>"
    by (simp add: push_begin_def Let_def n)
  let ?s2 = "?s1\<lparr>rs_producer := Storing frames n (n * RENDER_CHANNELS), rs_inner := ?inner\<lparr>ri_slots :=
    store_samples (ri_capacity_frames ?inner) (ri_write_index ?inner) frames n (ri_slots ?inner)\<rparr>\<rparr>"
  have "(thread_step ProducerThread ^^ (n * RENDER_CHANNELS)) ?s1 ?s2"
    using push_store_steps [of ?s1 frames n "n * RENDER_CHANNELS"] by (simp add: s1 store_samples_def)
  moreover have "thread_step ProducerThread ?s2 (push_publish frames n ?s2)"
    by (intro thread_push_publish) simp
  moreover have "push_publish frames n ?s2 = s\<lparr>rs_inner := inner', rs_seen_read := ?r,
      rs_accepted := rs_accepted s @ take (RENDER_CHANNELS * n) frames\<rparr>"
    using assms unfolding s1 by (cases s) (auto simp: push_publish_def push_frames_def Let_def)
  ultimately show ?thesis
    using relpowp_Suc_I by fastforce
qed

lemma read_frames_steps:
  assumes "ring_inv (rs_inner s)" and "rs_consumer s = ConsumerIdle"
    and "read_frames (rs_inner s) output = (outcome, output', inner')"
  defines "n \<equiv> ro_frames_supplied outcome"
  shows "(thread_step ConsumerThread ^^ (n * RENDER_CHANNELS + 1))
    (read_begin (length output div RENDER_CHANNELS) (ri_write_index (rs_inner s)) s)
    (s\<lparr>rs_inner := inner', rs_seen_write := ri_write_index (rs_inner s),
       rs_delivered := rs_delivered s @ take (RENDER_CHANNELS * n) output'\<rparr>)"
proof -
  let ?inner = "rs_inner s" and ?w = "ri_write_index (rs_inner s)" and ?requested = "length output div RENDER_CHANNELS"
  have n: "n = min ?requested (?w - ri_read_index ?inner)"
    using assms(3) by (auto simp: n_def read_frames_def Let_def)
  let ?s1 = "read_begin ?requested ?w s"
  have s1: "?s1 = s\<lparr>rs_consumer := Loading ?requested n [], rs_seen_write := ?w\<rparr>"
    by (simp add: read_begin_def n)
  let ?loaded = "map (\<lambda>j. ri_slots ?inner ! slot_of (ri_capacity_frames ?inner) (ri_read_index ?inner) j) [0..<n * RENDER_CHANNELS]"
  have supplied: "take (RENDER_CHANNELS * n) output' = ?loaded"
  proof -
    have "n * RENDER_CHANNELS \<le> RENDER_CHANNELS * (?w - ri_read_index ?inner)"
      using n by (simp add: mult.commute)
    then have "take (RENDER_CHANNELS * n) (ring_contents ?inner) = ?loaded"
      by (intro nth_equalityI) (auto simp: length_ring_contents ring_contents_def slot_of_mod diff_mult_distrib2 mult.commute)
    then show ?thesis
      using read_frames_refines(4) [OF assms(1,3)] n by (simp add: n_def length_ring_contents)
  qed
  let ?s2 = "?s1\<lparr>rs_consumer := Loading ?requested n ?loaded\<rparr>"
  have "(thread_step ConsumerThread ^^ (n * RENDER_CHANNELS)) ?s1 ?s2"
    using read_load_steps [of ?s1 ?requested n "n * RENDER_CHANNELS"] by (simp add: s1)
  moreover have "thread_step ConsumerThread ?s2 (read_publish ?requested n ?loaded ?s2)"
    by (intro thread_read_publish) simp_all
  moreover have "read_publish ?requested n ?loaded ?s2 = s\<lparr>rs_inner := inner', rs_seen_write := ?w,
      rs_delivered := rs_delivered s @ ?loaded\<rparr>"
    using assms(2,3) unfolding s1 by (cases s) (auto simp: n_def read_publish_def read_frames_def Let_def)
  ultimately show ?thesis
    using relpowp_Suc_I supplied by fastforce
qed

subsection \<open>Safety under every interleaving\<close>

text \<open>The slot that the producer stores to next.\<close>

fun store_target :: "ring_inner \<Rightarrow> producer_pc \<Rightarrow> nat set" where
  "store_target inner ProducerIdle = {}"
| "store_target inner (Storing frames n j) =
     (if j < n * RENDER_CHANNELS then {slot_of (ri_capacity_frames inner) (ri_write_index inner) j} else {})"

definition unread_slots :: "ring_inner \<Rightarrow> nat set" where
  "unread_slots inner =
     ring_slot (ri_capacity_frames inner) ` {RENDER_CHANNELS * ri_read_index inner..<RENDER_CHANNELS * ri_write_index inner}"

lemma threads_inv_no_overwrite:
  assumes "threads_inv s"
  shows "store_target (rs_inner s) (rs_producer s) \<inter> unread_slots (rs_inner s) = {}"
proof (cases "rs_producer s")
  case (Storing frames n j)
  let ?c = "ri_capacity_frames (rs_inner s)" and ?r = "ri_read_index (rs_inner s)" and ?w = "ri_write_index (rs_inner s)"
  have inv: "indices_ok s" "?w + n \<le> rs_seen_read s + ?c"
    using assms Storing by (simp_all add: threads_inv_def)
  have "ring_slot ?c i \<noteq> ring_slot ?c (RENDER_CHANNELS * ?w + j)"
    if "j < n * RENDER_CHANNELS" "i \<in> {RENDER_CHANNELS * ?r..<RENDER_CHANNELS * ?w}" for i
    using mod_inj_window [of i "RENDER_CHANNELS * ?c" "RENDER_CHANNELS * ?w + j"] that inv
    by (auto simp: indices_ok_def RENDER_CHANNELS_def)
  then have "ring_slot ?c (RENDER_CHANNELS * ?w + j) \<notin> unread_slots (rs_inner s)" if "j < n * RENDER_CHANNELS"
    using that unfolding unread_slots_def by (metis imageE)
  then show ?thesis
    using Storing by (simp add: slot_of_mod)
qed simp

text \<open>A concrete interleaving: one frame published, then a second push and a read both in progress.\<close>

definition example_threads :: "ring_inner \<Rightarrow> ring_threads" where
  "example_threads inner =
     (let published = push_publish [11, 12] 1 (push_store [11, 12] 1 1 (push_store [11, 12] 1 0
            (push_begin [11, 12] 0 (ring_threads_start inner)))) in
      push_store [21, 22] 1 0 (read_load 4 1 [] (read_begin 4 1 (push_begin [21, 22] 0 published))))"

lemma example_threads_steps:
  assumes "render_ring_new render_ring_config_new = Inr inner0"
  shows "ring_step\<^sup>*\<^sup>* (ring_threads_start inner0) (example_threads inner0)"
proof -
  have inner0: "inner0 = \<lparr>ri_capacity_frames = 48000, ri_slots = replicate 96000 0, ri_write_index = 0,
      ri_read_index = 0, ri_telemetry = render_ring_telemetry_default\<rparr>"
    using assms by (simp add: example_ring_new)
  let ?s1 = "push_begin [11, 12] 0 (ring_threads_start inner0)"
  let ?s4 = "push_publish [11, 12] 1 (push_store [11, 12] 1 1 (push_store [11, 12] 1 0 ?s1))"
  let ?s7 = "read_load 4 1 [] (read_begin 4 1 (push_begin [21, 22] 0 ?s4))"
  note defs = ring_threads_start_def ring_step_defs inner0 RENDER_CHANNELS_def
  have 1: "ring_step (ring_threads_start inner0) ?s1" "ring_step ?s1 (push_store [11, 12] 1 0 ?s1)"
    "ring_step (push_store [11, 12] 1 0 ?s1) (push_store [11, 12] 1 1 (push_store [11, 12] 1 0 ?s1))"
    "ring_step (push_store [11, 12] 1 1 (push_store [11, 12] 1 0 ?s1)) ?s4"
    by (intro ring_step_intros; simp add: defs)+
  have 2: "ring_step ?s4 (push_begin [21, 22] 0 ?s4)"
    "ring_step (push_begin [21, 22] 0 ?s4) (read_begin 4 1 (push_begin [21, 22] 0 ?s4))"
    "ring_step (read_begin 4 1 (push_begin [21, 22] 0 ?s4)) ?s7" "ring_step ?s7 (push_store [21, 22] 1 0 ?s7)"
    by (intro ring_step_intros; simp add: defs)+
  note next_step = rtranclp.rtrancl_into_rtrancl [where r = ring_step]
  have "ring_step\<^sup>*\<^sup>* (ring_threads_start inner0) ?s4"
    by (rule next_step [OF next_step [OF next_step [OF r_into_rtranclp [where r = ring_step, OF 1(1)] 1(2)] 1(3)] 1(4)])
  then have "ring_step\<^sup>*\<^sup>* (ring_threads_start inner0) (push_store [21, 22] 1 0 ?s7)"
    by (rule next_step [OF next_step [OF next_step [OF next_step [OF _ 2(1)] 2(2)] 2(3)] 2(4)])
  then show ?thesis
    by (simp add: example_threads_def)
qed



subsection \<open>Completion under every schedule\<close>

text \<open>The steps a thread still needs to complete its call.\<close>

fun producer_left :: "producer_pc \<Rightarrow> nat" where
  "producer_left ProducerIdle = 0"
| "producer_left (Storing frames n j) = n * RENDER_CHANNELS - j + 1"

fun consumer_left :: "consumer_pc \<Rightarrow> nat" where
  "consumer_left ConsumerIdle = 0"
| "consumer_left (Loading requested n loaded) = n * RENDER_CHANNELS - length loaded + 1"

text \<open>A busy thread has exactly one step, whatever the other one does.\<close>

lemma producer_step_unique:
  assumes "threads_inv s" and "rs_producer s = Storing frames n j"
  shows "thread_step ProducerThread s s' \<longleftrightarrow>
    s' = (if j < n * RENDER_CHANNELS then push_store frames n j s else push_publish frames n s)"
proof -
  have "j \<le> n * RENDER_CHANNELS"
    using assms by (simp add: threads_inv_def)
  then show ?thesis
    using assms(2) by (auto elim!: producer_stepE intro: thread_push_store thread_push_publish)
qed

lemma consumer_step_unique:
  assumes "threads_inv s" and "rs_consumer s = Loading requested n loaded"
  shows "thread_step ConsumerThread s s' \<longleftrightarrow>
    s' = (if length loaded < n * RENDER_CHANNELS then read_load requested n loaded s else read_publish requested n loaded s)"
proof -
  have "length loaded \<le> n * RENDER_CHANNELS"
    using assms by (simp add: threads_inv_def)
  then show ?thesis
    using assms(2) by (auto elim!: consumer_stepE intro: thread_read_load thread_read_publish)
qed

lemma other_thread_frame:
  "thread_step ConsumerThread s s' \<Longrightarrow> rs_producer s' = rs_producer s \<and> rs_accepted s' = rs_accepted s \<and>
     ri_write_index (rs_inner s') = ri_write_index (rs_inner s)"
  "thread_step ProducerThread s s' \<Longrightarrow> rs_consumer s' = rs_consumer s \<and> rs_delivered s' = rs_delivered s \<and>
     ri_read_index (rs_inner s') = ri_read_index (rs_inner s)"
  by (auto elim!: producer_stepE consumer_stepE simp: ring_step_defs)

lemma producer_completes:
  assumes "threads_inv s" and "rs_producer s = Storing frames n j" and "thread_trace s threads s'"
    and "count_list threads ProducerThread \<le> producer_left (rs_producer s)"
  shows "if count_list threads ProducerThread < producer_left (rs_producer s)
    then rs_producer s' = Storing frames n (j + count_list threads ProducerThread) \<and> rs_accepted s' = rs_accepted s \<and>
      ri_write_index (rs_inner s') = ri_write_index (rs_inner s)
    else rs_producer s' = ProducerIdle \<and> rs_accepted s' = rs_accepted s @ take (RENDER_CHANNELS * n) frames \<and>
      ri_write_index (rs_inner s') = ri_write_index (rs_inner s) + n"
  using assms(3,4)
proof (induction rule: thread_trace.induct)
  case trace_start
  then show ?case
    using assms(2) by simp
next
  case (trace_step threads s1 thread s2)
  have inv: "threads_inv s1" "j \<le> n * RENDER_CHANNELS"
    using thread_trace_threads_inv [OF trace_step.hyps(1) assms(1)] assms(1,2) by (simp_all add: threads_inv_def)
  show ?case
  proof (cases thread)
    case ProducerThread
    then have less: "count_list threads ProducerThread < producer_left (rs_producer s)"
      using trace_step.prems by simp
    then have s1: "rs_producer s1 = Storing frames n (j + count_list threads ProducerThread)" "rs_accepted s1 = rs_accepted s"
      "ri_write_index (rs_inner s1) = ri_write_index (rs_inner s)"
      using trace_step.IH by simp_all
    show ?thesis
      using producer_step_unique [OF inv(1) s1(1)] trace_step.hyps(2) ProducerThread s1 less assms(2) inv(2)
      by (auto simp: ring_step_defs split: if_splits)
  next
    case ConsumerThread
    then show ?thesis
      using other_thread_frame(1) [of s1 s2] trace_step by simp
  qed
qed

lemma accepted_grows: "thread_trace s threads s' \<Longrightarrow> prefix (rs_accepted s) (rs_accepted s')"
proof (induction rule: thread_trace.induct)
  case (trace_step threads s1 thread s2)
  have "prefix (rs_accepted s1) (rs_accepted s2)"
    using trace_step.hyps(2) by (cases rule: thread_step.cases) (auto simp: ring_step_defs)
  then show ?case
    using trace_step.IH prefix_order.trans by blast
qed simp

lemma consumer_completes:
  assumes "threads_inv s" and "rs_consumer s = Loading requested n loaded" and "thread_trace s threads s'"
    and "count_list threads ConsumerThread \<le> consumer_left (rs_consumer s)"
  shows "if count_list threads ConsumerThread < consumer_left (rs_consumer s)
    then (\<exists>loaded'. rs_consumer s' = Loading requested n loaded' \<and>
        length loaded' = length loaded + count_list threads ConsumerThread) \<and>
      ri_read_index (rs_inner s') = ri_read_index (rs_inner s)
    else rs_consumer s' = ConsumerIdle \<and> ri_read_index (rs_inner s') = ri_read_index (rs_inner s) + n"
  using assms(3,4)
proof (induction rule: thread_trace.induct)
  case trace_start
  then show ?case
    using assms(2) by simp
next
  case (trace_step threads s1 thread s2)
  have inv: "threads_inv s1" "length loaded \<le> n * RENDER_CHANNELS"
    using thread_trace_threads_inv [OF trace_step.hyps(1) assms(1)] assms(1,2) by (simp_all add: threads_inv_def)
  show ?case
  proof (cases thread)
    case ConsumerThread
    then have less: "count_list threads ConsumerThread < consumer_left (rs_consumer s)"
      using trace_step.prems by simp
    then obtain loaded' where s1: "rs_consumer s1 = Loading requested n loaded'"
      "length loaded' = length loaded + count_list threads ConsumerThread"
      "ri_read_index (rs_inner s1) = ri_read_index (rs_inner s)"
      using trace_step.IH by auto
    show ?thesis
      using consumer_step_unique [OF inv(1) s1(1)] trace_step.hyps(2) ConsumerThread s1 less assms(2) inv(2)
      by (auto simp: ring_step_defs split: if_splits)
  next
    case ProducerThread
    then show ?thesis
      using other_thread_frame(2) [of s1 s2] trace_step by simp
  qed
qed

lemma consumer_delivers:
  assumes "threads_inv s" and "rs_consumer s = Loading requested n loaded" and "thread_trace s threads s'"
    and "count_list threads ConsumerThread = consumer_left (rs_consumer s)"
  shows "rs_consumer s' = ConsumerIdle" and "rs_delivered s' = rs_delivered s @ take (RENDER_CHANNELS * n) (unread_samples s)"
proof -
  let ?r = "ri_read_index (rs_inner s)"
  have done_read: "rs_consumer s' = ConsumerIdle" "ri_read_index (rs_inner s') = ?r + n"
    using consumer_completes [OF assms(1-3)] assms(4) by simp_all
  then show "rs_consumer s' = ConsumerIdle"
    by simp
  have "?r + n \<le> ri_write_index (rs_inner s)" and len: "length (rs_accepted s) = RENDER_CHANNELS * ri_write_index (rs_inner s)"
    using assms(1,2) by (auto simp: threads_inv_def indices_ok_def)
  then have inside: "RENDER_CHANNELS * (?r + n) \<le> length (rs_accepted s)"
    by simp
  obtain later where later: "rs_accepted s' = rs_accepted s @ later"
    using accepted_grows [OF assms(3)] by (auto simp: prefix_def)
  have "rs_delivered s' = take (RENDER_CHANNELS * (?r + n)) (rs_accepted s')"
    using thread_trace_threads_inv [OF assms(3,1)] by (simp add: threads_inv_def done_read(2))
  also have "\<dots> = take (RENDER_CHANNELS * ?r) (rs_accepted s) @ take (RENDER_CHANNELS * n) (unread_samples s)"
    using inside by (simp add: later unread_samples_def take_add distrib_left)
  finally show "rs_delivered s' = rs_delivered s @ take (RENDER_CHANNELS * n) (unread_samples s)"
    using assms(1) by (simp add: threads_inv_def)
qed

text \<open>Alone, a busy thread can only go one way.\<close>

lemma producer_alone:
  assumes "(thread_step ProducerThread ^^ k) s a" and "(thread_step ProducerThread ^^ k) s b" and "threads_inv s"
    and "k \<le> producer_left (rs_producer s)"
  shows "a = b"
  using assms
proof (induction k arbitrary: s)
  case (Suc k)
  obtain x y where x: "thread_step ProducerThread s x" "(thread_step ProducerThread ^^ k) x a"
    and y: "thread_step ProducerThread s y" "(thread_step ProducerThread ^^ k) y b"
    using relpowp_Suc_E2 [OF Suc.prems(1)] relpowp_Suc_E2 [OF Suc.prems(2)] by metis
  obtain frames n j where busy: "rs_producer s = Storing frames n j"
    using Suc.prems(4) by (cases "rs_producer s") auto
  have "j \<le> n * RENDER_CHANNELS"
    using Suc.prems(3) busy by (simp add: threads_inv_def)
  then have "x = y" "k \<le> producer_left (rs_producer x)"
    using producer_step_unique [OF Suc.prems(3) busy] x(1) y(1) busy Suc.prems(4)
    by (auto simp: ring_step_defs split: if_splits)
  then show ?case
    using Suc.IH [OF x(2)] y(2) thread_step_threads_inv [OF x(1) Suc.prems(3)] by simp
qed simp

lemma consumer_alone:
  assumes "(thread_step ConsumerThread ^^ k) s a" and "(thread_step ConsumerThread ^^ k) s b" and "threads_inv s"
    and "k \<le> consumer_left (rs_consumer s)"
  shows "a = b"
  using assms
proof (induction k arbitrary: s)
  case (Suc k)
  obtain x y where x: "thread_step ConsumerThread s x" "(thread_step ConsumerThread ^^ k) x a"
    and y: "thread_step ConsumerThread s y" "(thread_step ConsumerThread ^^ k) y b"
    using relpowp_Suc_E2 [OF Suc.prems(1)] relpowp_Suc_E2 [OF Suc.prems(2)] by metis
  obtain requested n loaded where busy: "rs_consumer s = Loading requested n loaded"
    using Suc.prems(4) by (cases "rs_consumer s") auto
  have "length loaded \<le> n * RENDER_CHANNELS"
    using Suc.prems(3) busy by (simp add: threads_inv_def)
  then have "x = y" "k \<le> consumer_left (rs_consumer x)"
    using consumer_step_unique [OF Suc.prems(3) busy] x(1) y(1) busy Suc.prems(4)
    by (auto simp: ring_step_defs split: if_splits)
  then show ?case
    using Suc.IH [OF x(2)] y(2) thread_step_threads_inv [OF x(1) Suc.prems(3)] by simp
qed simp

lemma push_alone:
  assumes inv: "threads_inv s" and idle: "rs_producer s = ProducerIdle" and push: "push_frames (rs_inner s) frames = (n, inner')"
  shows "thread_step ProducerThread s (push_begin frames (ri_read_index (rs_inner s)) s)"
    and "(thread_step ProducerThread ^^ (n * RENDER_CHANNELS + 1)) (push_begin frames (ri_read_index (rs_inner s)) s) s' \<longleftrightarrow>
      s' = s\<lparr>rs_inner := inner', rs_seen_read := ri_read_index (rs_inner s),
        rs_accepted := rs_accepted s @ take (RENDER_CHANNELS * n) frames\<rparr>"
proof -
  have "rs_seen_read s \<le> ri_read_index (rs_inner s)"
    using inv by (simp add: threads_inv_def indices_ok_def)
  then show begin_push: "thread_step ProducerThread s (push_begin frames (ri_read_index (rs_inner s)) s)"
    using idle by (intro thread_push_begin) simp_all
  have "n * RENDER_CHANNELS + 1 \<le> producer_left (rs_producer (push_begin frames (ri_read_index (rs_inner s)) s))"
    using push by (auto simp: push_begin_def push_frames_def Let_def)
  then show "(thread_step ProducerThread ^^ (n * RENDER_CHANNELS + 1)) (push_begin frames (ri_read_index (rs_inner s)) s) s' \<longleftrightarrow>
      s' = s\<lparr>rs_inner := inner', rs_seen_read := ri_read_index (rs_inner s),
        rs_accepted := rs_accepted s @ take (RENDER_CHANNELS * n) frames\<rparr>"
    using producer_alone [OF _ push_frames_steps [OF idle push] thread_step_threads_inv [OF begin_push inv]]
      push_frames_steps [OF idle push] by blast
qed

lemma read_alone:
  assumes inv: "threads_inv s" and idle: "rs_consumer s = ConsumerIdle"
    and read: "read_frames (rs_inner s) buffer = (outcome, buffer', inner')"
  defines "start \<equiv> read_begin (length buffer div RENDER_CHANNELS) (ri_write_index (rs_inner s)) s"
    and "n \<equiv> ro_frames_supplied outcome"
  shows "thread_step ConsumerThread s start"
    and "(thread_step ConsumerThread ^^ (n * RENDER_CHANNELS + 1)) start s' \<longleftrightarrow>
      s' = s\<lparr>rs_inner := inner', rs_seen_write := ri_write_index (rs_inner s),
        rs_delivered := rs_delivered s @ take (RENDER_CHANNELS * n) buffer'\<rparr>"
proof -
  have seen: "rs_seen_write s \<le> ri_write_index (rs_inner s)" and ring: "ring_inv (rs_inner s)"
    using inv by (auto simp: threads_inv_def indices_ok_def ring_inv_def)
  then show begin_read: "thread_step ConsumerThread s start"
    using idle unfolding start_def by (intro thread_read_begin) simp_all
  have "n * RENDER_CHANNELS + 1 \<le> consumer_left (rs_consumer start)"
    using read by (auto simp: n_def start_def read_begin_def read_frames_def Let_def)
  then show "(thread_step ConsumerThread ^^ (n * RENDER_CHANNELS + 1)) start s' \<longleftrightarrow>
      s' = s\<lparr>rs_inner := inner', rs_seen_write := ri_write_index (rs_inner s),
        rs_delivered := rs_delivered s @ take (RENDER_CHANNELS * n) buffer'\<rparr>"
    using consumer_alone [OF _ read_frames_steps [OF ring idle read, folded start_def n_def]
        thread_step_threads_inv [OF begin_read inv]] read_frames_steps [OF ring idle read, folded start_def n_def] by blast
qed

text \<open>
  C34: neither call waits for the other side. In every reachable state, a thread between calls can
  begin one, and a thread in a call has exactly one step to make, whatever the other side does.
  Under every schedule the call is complete as soon as its thread has made, since its begin, one step
  for each sample moved and one to publish, however many steps the other thread made in between;
  before that it is still in the call, and at that moment exactly its samples have been published
  (delivered). A call that begins with the current index and runs alone has one outcome, that of
  the sequential \<open>push_frames\<close> or \<open>read_frames\<close>.
\<close>

theorem ring_calls_wait_free:
  assumes "render_ring_new config = Inr inner0" and "ring_step\<^sup>*\<^sup>* (ring_threads_start inner0) s"
    and "thread_trace s threads s'"
  shows "(case rs_producer s of
      ProducerIdle \<Rightarrow>
        push_frames (rs_inner s) frames = (n, inner1) \<longrightarrow>
        thread_step ProducerThread s (push_begin frames (ri_read_index (rs_inner s)) s) \<and>
        ((thread_step ProducerThread ^^ (n * RENDER_CHANNELS + 1)) (push_begin frames (ri_read_index (rs_inner s)) s) s1 \<longleftrightarrow>
          s1 = s\<lparr>rs_inner := inner1, rs_seen_read := ri_read_index (rs_inner s),
            rs_accepted := rs_accepted s @ take (RENDER_CHANNELS * n) frames\<rparr>)
    | Storing offered m j \<Rightarrow>
        m * RENDER_CHANNELS \<le> length offered \<and> (\<exists>!s2. thread_step ProducerThread s s2) \<and>
        (count_list threads ProducerThread < m * RENDER_CHANNELS - j + 1 \<longrightarrow>
          rs_producer s' = Storing offered m (j + count_list threads ProducerThread)) \<and>
        (count_list threads ProducerThread = m * RENDER_CHANNELS - j + 1 \<longrightarrow>
          rs_producer s' = ProducerIdle \<and> rs_accepted s' = rs_accepted s @ take (RENDER_CHANNELS * m) offered)) \<and>
    (case rs_consumer s of
      ConsumerIdle \<Rightarrow>
        read_frames (rs_inner s) buffer = (outcome, buffer', inner2) \<longrightarrow>
        thread_step ConsumerThread s (read_begin (length buffer div RENDER_CHANNELS) (ri_write_index (rs_inner s)) s) \<and>
        ((thread_step ConsumerThread ^^ (ro_frames_supplied outcome * RENDER_CHANNELS + 1))
            (read_begin (length buffer div RENDER_CHANNELS) (ri_write_index (rs_inner s)) s) s1 \<longleftrightarrow>
          s1 = s\<lparr>rs_inner := inner2, rs_seen_write := ri_write_index (rs_inner s),
            rs_delivered := rs_delivered s @ take (RENDER_CHANNELS * ro_frames_supplied outcome) buffer'\<rparr>)
    | Loading requested m loaded \<Rightarrow>
        (\<exists>!s2. thread_step ConsumerThread s s2) \<and>
        (count_list threads ConsumerThread < m * RENDER_CHANNELS - length loaded + 1 \<longrightarrow> rs_consumer s' \<noteq> ConsumerIdle) \<and>
        (count_list threads ConsumerThread = m * RENDER_CHANNELS - length loaded + 1 \<longrightarrow>
          rs_consumer s' = ConsumerIdle \<and> rs_delivered s' = rs_delivered s @ take (RENDER_CHANNELS * m) (unread_samples s)))"
proof -
  have inv: "threads_inv s"
    by (rule ring_steps_threads_inv [OF assms(2) threads_inv_start [OF assms(1)]])
  show ?thesis
  proof (intro conjI, goal_cases)
    case 1
    show ?case
    proof (cases "rs_producer s")
      case ProducerIdle
      then show ?thesis
        using push_alone [OF inv] by simp
    next
      case (Storing offered m j)
      have "\<exists>!s2. thread_step ProducerThread s s2" "m * RENDER_CHANNELS \<le> length offered"
        using producer_step_unique [OF inv Storing] inv Storing by (auto simp: threads_inv_def)
      then show ?thesis
        using Storing producer_completes [OF inv Storing assms(3)] by simp
    qed
  next
    case 2
    show ?case
    proof (cases "rs_consumer s")
      case ConsumerIdle
      then show ?thesis
        using read_alone [OF inv] by simp
    next
      case (Loading requested m loaded)
      have "\<exists>!s2. thread_step ConsumerThread s s2"
        using consumer_step_unique [OF inv Loading] by auto
      then show ?thesis
        using Loading consumer_completes [OF inv Loading assms(3)] consumer_delivers [OF inv Loading assms(3)] by auto
    qed
  qed
qed

theorem ring_calls_wait_free_witness:
  "\<exists>inner0 s'. render_ring_new render_ring_config_new = Inr inner0 \<and>
     ring_step\<^sup>*\<^sup>* (ring_threads_start inner0) (example_threads inner0) \<and>
     thread_trace (example_threads inner0) [ConsumerThread, ProducerThread, ProducerThread, ConsumerThread] s' \<and>
     rs_producer s' = ProducerIdle \<and> rs_accepted s' = [11, 12, 21, 22] \<and>
     rs_consumer s' = ConsumerIdle \<and> length (rs_delivered s') = 2"
proof -
  obtain inner0 where new: "render_ring_new render_ring_config_new = Inr inner0"
    by (simp add: example_ring_new)
  let ?s = "example_threads inner0"
  obtain x where s: "rs_producer ?s = Storing [21, 22] 1 1" "rs_consumer ?s = Loading 4 1 [x]" "rs_accepted ?s = [11, 12]"
    "rs_delivered ?s = []" "ri_read_index (rs_inner ?s) = 0"
    using new by (auto simp: example_ring_new example_threads_def ring_step_defs ring_threads_start_def RENDER_CHANNELS_def)
  let ?s1 = "read_load 4 1 [x] ?s"
  let ?s3 = "push_publish [21, 22] 1 (push_store [21, 22] 1 1 ?s1)"
  obtain loaded where loaded: "rs_consumer ?s3 = Loading 4 1 loaded" "length loaded = 2"
    by (simp add: ring_step_defs)
  have steps: "thread_step ConsumerThread ?s ?s1" "thread_step ProducerThread ?s1 (push_store [21, 22] 1 1 ?s1)"
    "thread_step ProducerThread (push_store [21, 22] 1 1 ?s1) ?s3" "thread_step ConsumerThread ?s3 (read_publish 4 1 loaded ?s3)"
    using s loaded by (intro thread_step.intros; simp add: ring_step_defs RENDER_CHANNELS_def)+
  have trace: "thread_trace ?s [ConsumerThread, ProducerThread, ProducerThread, ConsumerThread] (read_publish 4 1 loaded ?s3)"
    using trace_step [OF trace_step [OF trace_step [OF trace_step [OF trace_start steps(1)] steps(2)] steps(3)] steps(4)] by simp
  show ?thesis
    using new example_threads_steps [OF new] trace s
      ring_calls_wait_free [OF new example_threads_steps [OF new] trace]
    by (intro exI [of _ inner0] exI [of _ "read_publish 4 1 loaded ?s3"]) (simp add: RENDER_CHANNELS_def unread_samples_def)
qed

end
