(* ===== verification/Core_Error.thy ===== *)
theory Core_Error
  imports Domain_Ids
begin

section \<open>Structured core errors\<close>

text \<open>
  \<open>error.rs\<close>: the failure codes with their subsystem, numeric value and stable name, and the
  validated error record with its bounded context. The variants of \<open>CoreSubsystem\<close> carry the
  prefix \<open>Subsystem\<close>, those of \<open>ErrorSeverity\<close> the prefix \<open>Severity\<close>.
\<close>

definition MAX_ERROR_MESSAGE_BYTES :: usize where "MAX_ERROR_MESSAGE_BYTES = 512"
definition MAX_ERROR_CONTEXT_ENTRIES :: usize where "MAX_ERROR_CONTEXT_ENTRIES = 16"
definition MAX_ERROR_CONTEXT_KEY_BYTES :: usize where "MAX_ERROR_CONTEXT_KEY_BYTES = 64"
definition MAX_ERROR_CONTEXT_VALUE_BYTES :: usize where "MAX_ERROR_CONTEXT_VALUE_BYTES = 256"

datatype core_subsystem =
    SubsystemValidation
  | SubsystemProtocol
  | SubsystemTransport
  | SubsystemSynchronization
  | SubsystemAudio
  | SubsystemStorage
  | SubsystemPlatform
  | SubsystemFfi
  | SubsystemRuntime

primrec core_subsystem_code :: "core_subsystem \<Rightarrow> u16" where
  "core_subsystem_code SubsystemValidation = 1"
| "core_subsystem_code SubsystemProtocol = 2"
| "core_subsystem_code SubsystemTransport = 3"
| "core_subsystem_code SubsystemSynchronization = 4"
| "core_subsystem_code SubsystemAudio = 5"
| "core_subsystem_code SubsystemStorage = 6"
| "core_subsystem_code SubsystemPlatform = 7"
| "core_subsystem_code SubsystemFfi = 8"
| "core_subsystem_code SubsystemRuntime = 9"

primrec core_subsystem_name :: "core_subsystem \<Rightarrow> string" where
  "core_subsystem_name SubsystemValidation = ''validation''"
| "core_subsystem_name SubsystemProtocol = ''protocol''"
| "core_subsystem_name SubsystemTransport = ''transport''"
| "core_subsystem_name SubsystemSynchronization = ''synchronization''"
| "core_subsystem_name SubsystemAudio = ''audio''"
| "core_subsystem_name SubsystemStorage = ''storage''"
| "core_subsystem_name SubsystemPlatform = ''platform''"
| "core_subsystem_name SubsystemFfi = ''ffi''"
| "core_subsystem_name SubsystemRuntime = ''runtime''"

datatype error_severity =
    SeverityWarning
  | SeverityError
  | SeverityFatal

primrec error_severity_name :: "error_severity \<Rightarrow> string" where
  "error_severity_name SeverityWarning = ''warning''"
| "error_severity_name SeverityError = ''error''"
| "error_severity_name SeverityFatal = ''fatal''"

datatype core_error_code =
    InvalidIdentifier
  | InvalidArgument
  | InvalidStateTransition
  | ResourceLimitExceeded
  | UnsupportedProtocolVersion
  | MalformedProtocolFrame
  | ProtocolFrameTooLarge
  | UnsupportedMessageKind
  | IntegrityCheckFailed
  | TransportUnavailable
  | TransportConnectionFailed
  | TransportConnectionLost
  | TransportDeliveryFailed
  | TransportTimeout
  | InvalidSyncSample
  | SynchronizationTimeout
  | SynchronizationConfidenceLost
  | InvalidAudioConfiguration
  | AudioOutputStartFailed
  | AudioOutputFailed
  | AudioUnderrun
  | AudioEngineUnavailable
  | StorageOpenFailed
  | StorageMigrationFailed
  | StorageIntegrityFailed
  | StorageReadFailed
  | StorageWriteFailed
  | StoragePragmaFailed
  | StorageTransactionFailed
  | StorageConstraintViolation
  | StorageBusy
  | StorageCorrupt
  | StorageCloseFailed
  | StorageQueryFailed
  | PlatformOperationFailed
  | PermissionDenied
  | CapabilityUnavailable
  | FfiInvalidArgument
  | FfiIncompatibleVersion
  | FfiPanicContained
  | FfiCallbackFailed
  | QueueOverflow
  | ShutdownInProgress
  | ShutdownFailed
  | WorkerStopped

primrec numeric_code :: "core_error_code \<Rightarrow> u16" where
  "numeric_code InvalidIdentifier = 1000"
| "numeric_code InvalidArgument = 1001"
| "numeric_code InvalidStateTransition = 1002"
| "numeric_code ResourceLimitExceeded = 1003"
| "numeric_code UnsupportedProtocolVersion = 2000"
| "numeric_code MalformedProtocolFrame = 2001"
| "numeric_code ProtocolFrameTooLarge = 2002"
| "numeric_code UnsupportedMessageKind = 2003"
| "numeric_code IntegrityCheckFailed = 2004"
| "numeric_code TransportUnavailable = 3000"
| "numeric_code TransportConnectionFailed = 3001"
| "numeric_code TransportConnectionLost = 3002"
| "numeric_code TransportDeliveryFailed = 3003"
| "numeric_code TransportTimeout = 3004"
| "numeric_code InvalidSyncSample = 4000"
| "numeric_code SynchronizationTimeout = 4001"
| "numeric_code SynchronizationConfidenceLost = 4002"
| "numeric_code InvalidAudioConfiguration = 5000"
| "numeric_code AudioOutputStartFailed = 5001"
| "numeric_code AudioOutputFailed = 5002"
| "numeric_code AudioUnderrun = 5003"
| "numeric_code AudioEngineUnavailable = 5004"
| "numeric_code StorageOpenFailed = 6000"
| "numeric_code StorageMigrationFailed = 6001"
| "numeric_code StorageIntegrityFailed = 6002"
| "numeric_code StorageReadFailed = 6003"
| "numeric_code StorageWriteFailed = 6004"
| "numeric_code StoragePragmaFailed = 6005"
| "numeric_code StorageTransactionFailed = 6006"
| "numeric_code StorageConstraintViolation = 6007"
| "numeric_code StorageBusy = 6008"
| "numeric_code StorageCorrupt = 6009"
| "numeric_code StorageCloseFailed = 6010"
| "numeric_code StorageQueryFailed = 6011"
| "numeric_code PlatformOperationFailed = 7000"
| "numeric_code PermissionDenied = 7001"
| "numeric_code CapabilityUnavailable = 7002"
| "numeric_code FfiInvalidArgument = 8000"
| "numeric_code FfiIncompatibleVersion = 8001"
| "numeric_code FfiPanicContained = 8002"
| "numeric_code FfiCallbackFailed = 8003"
| "numeric_code QueueOverflow = 9000"
| "numeric_code ShutdownInProgress = 9001"
| "numeric_code ShutdownFailed = 9002"
| "numeric_code WorkerStopped = 9003"

primrec code_subsystem :: "core_error_code \<Rightarrow> core_subsystem" where
  "code_subsystem InvalidIdentifier = SubsystemValidation"
| "code_subsystem InvalidArgument = SubsystemValidation"
| "code_subsystem InvalidStateTransition = SubsystemValidation"
| "code_subsystem ResourceLimitExceeded = SubsystemValidation"
| "code_subsystem UnsupportedProtocolVersion = SubsystemProtocol"
| "code_subsystem MalformedProtocolFrame = SubsystemProtocol"
| "code_subsystem ProtocolFrameTooLarge = SubsystemProtocol"
| "code_subsystem UnsupportedMessageKind = SubsystemProtocol"
| "code_subsystem IntegrityCheckFailed = SubsystemProtocol"
| "code_subsystem TransportUnavailable = SubsystemTransport"
| "code_subsystem TransportConnectionFailed = SubsystemTransport"
| "code_subsystem TransportConnectionLost = SubsystemTransport"
| "code_subsystem TransportDeliveryFailed = SubsystemTransport"
| "code_subsystem TransportTimeout = SubsystemTransport"
| "code_subsystem InvalidSyncSample = SubsystemSynchronization"
| "code_subsystem SynchronizationTimeout = SubsystemSynchronization"
| "code_subsystem SynchronizationConfidenceLost = SubsystemSynchronization"
| "code_subsystem InvalidAudioConfiguration = SubsystemAudio"
| "code_subsystem AudioOutputStartFailed = SubsystemAudio"
| "code_subsystem AudioOutputFailed = SubsystemAudio"
| "code_subsystem AudioUnderrun = SubsystemAudio"
| "code_subsystem AudioEngineUnavailable = SubsystemAudio"
| "code_subsystem StorageOpenFailed = SubsystemStorage"
| "code_subsystem StorageMigrationFailed = SubsystemStorage"
| "code_subsystem StorageIntegrityFailed = SubsystemStorage"
| "code_subsystem StorageReadFailed = SubsystemStorage"
| "code_subsystem StorageWriteFailed = SubsystemStorage"
| "code_subsystem StoragePragmaFailed = SubsystemStorage"
| "code_subsystem StorageTransactionFailed = SubsystemStorage"
| "code_subsystem StorageConstraintViolation = SubsystemStorage"
| "code_subsystem StorageBusy = SubsystemStorage"
| "code_subsystem StorageCorrupt = SubsystemStorage"
| "code_subsystem StorageCloseFailed = SubsystemStorage"
| "code_subsystem StorageQueryFailed = SubsystemStorage"
| "code_subsystem PlatformOperationFailed = SubsystemPlatform"
| "code_subsystem PermissionDenied = SubsystemPlatform"
| "code_subsystem CapabilityUnavailable = SubsystemPlatform"
| "code_subsystem FfiInvalidArgument = SubsystemFfi"
| "code_subsystem FfiIncompatibleVersion = SubsystemFfi"
| "code_subsystem FfiPanicContained = SubsystemFfi"
| "code_subsystem FfiCallbackFailed = SubsystemFfi"
| "code_subsystem QueueOverflow = SubsystemRuntime"
| "code_subsystem ShutdownInProgress = SubsystemRuntime"
| "code_subsystem ShutdownFailed = SubsystemRuntime"
| "code_subsystem WorkerStopped = SubsystemRuntime"

primrec code_stable_name :: "core_error_code \<Rightarrow> string" where
  "code_stable_name InvalidIdentifier = ''invalid_identifier''"
| "code_stable_name InvalidArgument = ''invalid_argument''"
| "code_stable_name InvalidStateTransition = ''invalid_state_transition''"
| "code_stable_name ResourceLimitExceeded = ''resource_limit_exceeded''"
| "code_stable_name UnsupportedProtocolVersion = ''unsupported_protocol_version''"
| "code_stable_name MalformedProtocolFrame = ''malformed_protocol_frame''"
| "code_stable_name ProtocolFrameTooLarge = ''protocol_frame_too_large''"
| "code_stable_name UnsupportedMessageKind = ''unsupported_message_kind''"
| "code_stable_name IntegrityCheckFailed = ''integrity_check_failed''"
| "code_stable_name TransportUnavailable = ''transport_unavailable''"
| "code_stable_name TransportConnectionFailed = ''transport_connection_failed''"
| "code_stable_name TransportConnectionLost = ''transport_connection_lost''"
| "code_stable_name TransportDeliveryFailed = ''transport_delivery_failed''"
| "code_stable_name TransportTimeout = ''transport_timeout''"
| "code_stable_name InvalidSyncSample = ''invalid_sync_sample''"
| "code_stable_name SynchronizationTimeout = ''synchronization_timeout''"
| "code_stable_name SynchronizationConfidenceLost = ''synchronization_confidence_lost''"
| "code_stable_name InvalidAudioConfiguration = ''invalid_audio_configuration''"
| "code_stable_name AudioOutputStartFailed = ''audio_output_start_failed''"
| "code_stable_name AudioOutputFailed = ''audio_output_failed''"
| "code_stable_name AudioUnderrun = ''audio_underrun''"
| "code_stable_name AudioEngineUnavailable = ''audio_engine_unavailable''"
| "code_stable_name StorageOpenFailed = ''storage_open_failed''"
| "code_stable_name StorageMigrationFailed = ''storage_migration_failed''"
| "code_stable_name StorageIntegrityFailed = ''storage_integrity_failed''"
| "code_stable_name StorageReadFailed = ''storage_read_failed''"
| "code_stable_name StorageWriteFailed = ''storage_write_failed''"
| "code_stable_name StoragePragmaFailed = ''storage_pragma_failed''"
| "code_stable_name StorageTransactionFailed = ''storage_transaction_failed''"
| "code_stable_name StorageConstraintViolation = ''storage_constraint_violation''"
| "code_stable_name StorageBusy = ''storage_busy''"
| "code_stable_name StorageCorrupt = ''storage_corrupt''"
| "code_stable_name StorageCloseFailed = ''storage_close_failed''"
| "code_stable_name StorageQueryFailed = ''storage_query_failed''"
| "code_stable_name PlatformOperationFailed = ''platform_operation_failed''"
| "code_stable_name PermissionDenied = ''permission_denied''"
| "code_stable_name CapabilityUnavailable = ''capability_unavailable''"
| "code_stable_name FfiInvalidArgument = ''ffi_invalid_argument''"
| "code_stable_name FfiIncompatibleVersion = ''ffi_incompatible_version''"
| "code_stable_name FfiPanicContained = ''ffi_panic_contained''"
| "code_stable_name FfiCallbackFailed = ''ffi_callback_failed''"
| "code_stable_name QueueOverflow = ''queue_overflow''"
| "code_stable_name ShutdownInProgress = ''shutdown_in_progress''"
| "code_stable_name ShutdownFailed = ''shutdown_failed''"
| "code_stable_name WorkerStopped = ''worker_stopped''"

definition core_error_codes :: "core_error_code list" where
  "core_error_codes =
     [InvalidIdentifier, InvalidArgument, InvalidStateTransition,
      ResourceLimitExceeded, UnsupportedProtocolVersion, MalformedProtocolFrame,
      ProtocolFrameTooLarge, UnsupportedMessageKind, IntegrityCheckFailed,
      TransportUnavailable, TransportConnectionFailed, TransportConnectionLost,
      TransportDeliveryFailed, TransportTimeout, InvalidSyncSample,
      SynchronizationTimeout, SynchronizationConfidenceLost, InvalidAudioConfiguration,
      AudioOutputStartFailed, AudioOutputFailed, AudioUnderrun,
      AudioEngineUnavailable, StorageOpenFailed, StorageMigrationFailed,
      StorageIntegrityFailed, StorageReadFailed, StorageWriteFailed,
      StoragePragmaFailed, StorageTransactionFailed, StorageConstraintViolation,
      StorageBusy, StorageCorrupt, StorageCloseFailed,
      StorageQueryFailed, PlatformOperationFailed, PermissionDenied,
      CapabilityUnavailable, FfiInvalidArgument, FfiIncompatibleVersion,
      FfiPanicContained, FfiCallbackFailed, QueueOverflow,
      ShutdownInProgress, ShutdownFailed, WorkerStopped]"

record error_context_entry =
  ece_key :: str
  ece_value :: str

text \<open>\<open>CoreErrorRecord\<close> and \<open>CoreError\<close> have the same fields; the second is validated.\<close>

record core_error_record =
  cer_code :: core_error_code
  cer_message :: str
  cer_subsystem :: core_subsystem
  cer_severity :: error_severity
  cer_retryable :: bool
  cer_operation_id :: "operation_id option"
  cer_context :: "error_context_entry list"

record core_error =
  ce_code :: core_error_code
  ce_message :: str
  ce_subsystem :: core_subsystem
  ce_severity :: error_severity
  ce_retryable :: bool
  ce_operation_id :: "operation_id option"
  ce_context :: "error_context_entry list"

datatype core_error_build_error =
    EmptyMessage
  | MessageTooLong usize usize
  | MessageContainsControlCharacter
  | EmptyContextKey
  | ContextKeyTooLong usize usize
  | ContextKeyHasSurroundingWhitespace
  | ContextKeyContainsControlCharacter
  | EmptyContextValue
  | ContextValueTooLong usize usize
  | ContextValueContainsControlCharacter
  | ContextLimitExceeded usize
  | SubsystemMismatch core_error_code core_subsystem core_subsystem

definition validate_error_message :: "str \<Rightarrow> core_error_build_error + unit" where
  "validate_error_message message =
     (if trim message = [] then Inl EmptyMessage
      else if str_len message > MAX_ERROR_MESSAGE_BYTES
      then Inl (MessageTooLong (str_len message) MAX_ERROR_MESSAGE_BYTES)
      else if list_ex is_control message then Inl MessageContainsControlCharacter
      else Inr ())"

definition validate_context_key :: "str \<Rightarrow> core_error_build_error + unit" where
  "validate_context_key key =
     (if trim key = [] then Inl EmptyContextKey
      else if str_len key > MAX_ERROR_CONTEXT_KEY_BYTES
      then Inl (ContextKeyTooLong (str_len key) MAX_ERROR_CONTEXT_KEY_BYTES)
      else if trim key \<noteq> key then Inl ContextKeyHasSurroundingWhitespace
      else if list_ex is_control key then Inl ContextKeyContainsControlCharacter
      else Inr ())"

definition validate_context_value :: "str \<Rightarrow> core_error_build_error + unit" where
  "validate_context_value value =
     (if trim value = [] then Inl EmptyContextValue
      else if str_len value > MAX_ERROR_CONTEXT_VALUE_BYTES
      then Inl (ContextValueTooLong (str_len value) MAX_ERROR_CONTEXT_VALUE_BYTES)
      else if list_ex is_control value then Inl ContextValueContainsControlCharacter
      else Inr ())"

definition error_context_entry_new :: "str \<Rightarrow> str \<Rightarrow> core_error_build_error + error_context_entry" where
  "error_context_entry_new key value =
     try_bind (validate_context_key key) (\<lambda>_.
     try_bind (validate_context_value value) (\<lambda>_.
     Inr \<lparr>ece_key = key, ece_value = value\<rparr>))"

fun validate_context :: "error_context_entry list \<Rightarrow> core_error_build_error + unit" where
  "validate_context [] = Inr ()"
| "validate_context (entry # entries) =
     try_bind (validate_context_key (ece_key entry)) (\<lambda>_.
     try_bind (validate_context_value (ece_value entry)) (\<lambda>_.
     validate_context entries))"

definition core_error_try_from :: "core_error_record \<Rightarrow> core_error_build_error + core_error" where
  "core_error_try_from record =
     try_bind (validate_error_message (cer_message record)) (\<lambda>_.
     if cer_subsystem record \<noteq> code_subsystem (cer_code record)
     then Inl (SubsystemMismatch (cer_code record) (code_subsystem (cer_code record)) (cer_subsystem record))
     else if length (cer_context record) > MAX_ERROR_CONTEXT_ENTRIES
     then Inl (ContextLimitExceeded MAX_ERROR_CONTEXT_ENTRIES)
     else try_bind (validate_context (cer_context record)) (\<lambda>_.
       Inr \<lparr>ce_code = cer_code record, ce_message = cer_message record, ce_subsystem = cer_subsystem record,
            ce_severity = cer_severity record, ce_retryable = cer_retryable record,
            ce_operation_id = cer_operation_id record, ce_context = cer_context record\<rparr>))"

definition core_error_record_from :: "core_error \<Rightarrow> core_error_record" where
  "core_error_record_from error =
     \<lparr>cer_code = ce_code error, cer_message = ce_message error, cer_subsystem = ce_subsystem error,
      cer_severity = ce_severity error, cer_retryable = ce_retryable error,
      cer_operation_id = ce_operation_id error, cer_context = ce_context error\<rparr>"

definition core_error_new ::
    "core_error_code \<Rightarrow> str \<Rightarrow> error_severity \<Rightarrow> bool \<Rightarrow> operation_id option \<Rightarrow>
       core_error_build_error + core_error" where
  "core_error_new code message severity retryable operation_id =
     core_error_try_from
       \<lparr>cer_code = code, cer_message = message, cer_subsystem = code_subsystem code, cer_severity = severity,
        cer_retryable = retryable, cer_operation_id = operation_id, cer_context = []\<rparr>"

definition with_context :: "core_error \<Rightarrow> error_context_entry \<Rightarrow> core_error_build_error + core_error" where
  "with_context error entry =
     (if length (ce_context error) \<ge> MAX_ERROR_CONTEXT_ENTRIES
      then Inl (ContextLimitExceeded MAX_ERROR_CONTEXT_ENTRIES)
      else Inr (error\<lparr>ce_context := ce_context error @ [entry]\<rparr>))"

primrec identifier_kind_name :: "identifier_kind \<Rightarrow> string" where
  "identifier_kind_name Session = ''session_id''"
| "identifier_kind_name Stream = ''stream_id''"
| "identifier_kind_name Device = ''device_id''"
| "identifier_kind_name Request = ''request_id''"
| "identifier_kind_name Operation = ''operation_id''"
| "identifier_kind_name DiagnosticRun = ''diagnostic_run_id''"

primrec validation_reason_name :: "id_validation_reason \<Rightarrow> string" where
  "validation_reason_name Empty = ''empty''"
| "validation_reason_name (TooLong actual maximum) = ''too_long''"
| "validation_reason_name SurroundingWhitespace = ''surrounding_whitespace''"
| "validation_reason_name (ControlCharacter i) = ''control_character''"

definition from_identifier_validation :: "id_validation_error \<Rightarrow> operation_id option \<Rightarrow> core_error" where
  "from_identifier_validation error operation_id =
     \<lparr>ce_code = InvalidIdentifier, ce_message = lit ''invalid domain identifier'', ce_subsystem = SubsystemValidation,
      ce_severity = SeverityError, ce_retryable = False, ce_operation_id = operation_id,
      ce_context =
        [\<lparr>ece_key = lit ''identifier_kind'', ece_value = lit (identifier_kind_name (ive_identifier_kind error))\<rparr>,
         \<lparr>ece_key = lit ''reason'', ece_value = lit (validation_reason_name (ive_reason error))\<rparr>]\<rparr>"

subsection \<open>Errors that the constructors build\<close>

inductive built_error :: "core_error \<Rightarrow> bool" where
  built_try_from: "core_error_try_from record = Inr error \<Longrightarrow> built_error error"
| built_new: "core_error_new code message severity retryable operation_id = Inr error \<Longrightarrow> built_error error"
| built_with_context: "built_error error \<Longrightarrow> error_context_entry_new key value = Inr entry \<Longrightarrow>
    with_context error entry = Inr error' \<Longrightarrow> built_error error'"
| built_from_identifier: "built_error (from_identifier_validation id_error operation_id)"

definition context_entry_ok :: "error_context_entry \<Rightarrow> bool" where
  "context_entry_ok entry \<longleftrightarrow> is_ok (validate_context_key (ece_key entry)) \<and> is_ok (validate_context_value (ece_value entry))"

definition core_error_ok :: "core_error \<Rightarrow> bool" where
  "core_error_ok error \<longleftrightarrow> is_ok (validate_error_message (ce_message error)) \<and>
     ce_subsystem error = code_subsystem (ce_code error) \<and> length (ce_context error) \<le> MAX_ERROR_CONTEXT_ENTRIES \<and>
     list_all context_entry_ok (ce_context error)"

lemma validate_context_ok_iff: "validate_context entries = Inr () \<longleftrightarrow> list_all context_entry_ok entries"
  by (induction entries) (auto simp: context_entry_ok_def try_bind_Inr_iff is_ok_def split: sum.splits)

lemma core_error_try_from_iff:
  "core_error_try_from r = Inr error \<longleftrightarrow> r = core_error_record_from error \<and> core_error_ok error"
proof
  assume "core_error_try_from r = Inr error"
  then have checks: "validate_error_message (cer_message r) = Inr ()" "cer_subsystem r = code_subsystem (cer_code r)"
      "length (cer_context r) \<le> MAX_ERROR_CONTEXT_ENTRIES" "validate_context (cer_context r) = Inr ()"
    and error: "error = \<lparr>ce_code = cer_code r, ce_message = cer_message r, ce_subsystem = cer_subsystem r,
      ce_severity = cer_severity r, ce_retryable = cer_retryable r, ce_operation_id = cer_operation_id r,
      ce_context = cer_context r\<rparr>"
    by (auto simp: core_error_try_from_def try_bind_Inr_iff split: if_splits)
  have "core_error_ok error"
    using checks by (simp add: error core_error_ok_def is_ok_def validate_context_ok_iff)
  moreover have "r = core_error_record_from error"
    by (simp add: error core_error_record_from_def)
  ultimately show "r = core_error_record_from error \<and> core_error_ok error"
    by simp
next
  assume r: "r = core_error_record_from error \<and> core_error_ok error"
  then have "validate_error_message (ce_message error) = Inr ()" "ce_subsystem error = code_subsystem (ce_code error)"
    "length (ce_context error) \<le> MAX_ERROR_CONTEXT_ENTRIES" "validate_context (ce_context error) = Inr ()"
    by (auto simp: core_error_ok_def is_ok_def validate_context_ok_iff split: sum.splits)
  with r show "core_error_try_from r = Inr error"
    by (simp add: core_error_try_from_def core_error_record_from_def)
qed

lemma core_error_new_ok: "core_error_new code message severity retryable operation_id = Inr error \<Longrightarrow> core_error_ok error"
  by (simp add: core_error_new_def core_error_try_from_iff)

lemma error_context_entry_new_ok: "error_context_entry_new key value = Inr entry \<Longrightarrow> context_entry_ok entry"
  by (auto simp: error_context_entry_new_def context_entry_ok_def try_bind_Inr_iff is_ok_def)

lemma with_context_ok: "core_error_ok error \<Longrightarrow> context_entry_ok entry \<Longrightarrow> with_context error entry = Inr error' \<Longrightarrow> core_error_ok error'"
  by (auto simp: with_context_def core_error_ok_def split: if_splits)

lemma from_identifier_validation_ok: "core_error_ok (from_identifier_validation error operation_id)"
proof -
  have names: "list_all printable (map identifier_kind_name [Session, Stream, Device, Request, Operation, DiagnosticRun])"
    "list_all printable [''empty'', ''too_long'', ''surrounding_whitespace'', ''control_character'']"
    by code_simp+
  have "printable (identifier_kind_name kind)" "length (identifier_kind_name kind) \<le> 256" for kind
    using names(1) by (cases kind; simp)+
  moreover have "printable (validation_reason_name reason)" "length (validation_reason_name reason) \<le> 256" for reason
    using names(2) by (cases reason; simp)+
  moreover have "is_ok (validate_context_value (lit s))" if "printable s" "length s \<le> 256" for s
    using that by (simp add: validate_context_value_def printable_lit is_ok_def MAX_ERROR_CONTEXT_VALUE_BYTES_def)
  moreover have "printable ''invalid domain identifier''" "printable ''identifier_kind''" "printable ''reason''"
    by code_simp+
  then have "is_ok (validate_error_message (lit ''invalid domain identifier''))"
    "is_ok (validate_context_key (lit ''identifier_kind''))" "is_ok (validate_context_key (lit ''reason''))"
    by (simp_all add: validate_error_message_def validate_context_key_def printable_lit is_ok_def
        MAX_ERROR_MESSAGE_BYTES_def MAX_ERROR_CONTEXT_KEY_BYTES_def)
  ultimately show ?thesis
    by (simp add: core_error_ok_def from_identifier_validation_def context_entry_ok_def MAX_ERROR_CONTEXT_ENTRIES_def)
qed

lemma built_error_ok: "built_error error \<Longrightarrow> core_error_ok error"
  by (induction rule: built_error.induct)
    (auto simp: core_error_try_from_iff from_identifier_validation_ok
      intro: core_error_new_ok with_context_ok error_context_entry_new_ok)

text \<open>
  C40: every error that the constructors can build is valid and survives the transfer record. An
  error from \<open>CoreError::new\<close>, \<open>try_from\<close>, \<open>from_identifier_validation\<close> or any number of
  \<open>with_context\<close> calls names the subsystem of its code, has at most 16 context entries, and
  converting it to a \<open>CoreErrorRecord\<close> and back always succeeds with the same error.
\<close>

theorem core_error_record_roundtrip:
  assumes "built_error error"
  shows "core_error_try_from (core_error_record_from error) = Inr error \<and>
    ce_subsystem error = code_subsystem (ce_code error) \<and> length (ce_context error) \<le> 16"
  using built_error_ok [OF assms] by (simp add: core_error_try_from_iff core_error_ok_def MAX_ERROR_CONTEXT_ENTRIES_def)

theorem core_error_record_roundtrip_witness:
  "core_error_try_from (core_error_record_from
     (from_identifier_validation \<lparr>ive_identifier_kind = Session, ive_reason = Empty\<rparr> None)) =
   Inr (from_identifier_validation \<lparr>ive_identifier_kind = Session, ive_reason = Empty\<rparr> None)"
  using core_error_record_roundtrip [OF built_from_identifier] by blast

lemma core_error_codes_complete: "code \<in> set core_error_codes"
  by (cases code) (simp_all add: core_error_codes_def)

lemma core_error_codes_inj:
  "inj_on f (set core_error_codes) \<Longrightarrow> f code = f code' \<longleftrightarrow> code = code'"
  by (auto dest: inj_onD simp: core_error_codes_complete)

lemma numeric_code_inj_on: "inj_on numeric_code (set core_error_codes)"
proof -
  have "distinct (map numeric_code core_error_codes)"
    by code_simp
  then show ?thesis
    by (simp add: distinct_map)
qed

lemma code_stable_name_inj_on: "inj_on code_stable_name (set core_error_codes)"
proof -
  have "distinct (map code_stable_name core_error_codes)"
    by code_simp
  then show ?thesis
    by (simp add: distinct_map)
qed

text \<open>
  Error codes identify failures. No two codes share their numeric value or their stable name,
  and the thousands of the numeric value are the discriminant of the code's subsystem.
\<close>

theorem error_codes_identify:
  "(numeric_code code = numeric_code code' \<longleftrightarrow> code = code') \<and>
   (code_stable_name code = code_stable_name code' \<longleftrightarrow> code = code') \<and>
   unat (numeric_code code) div 1000 = unat (core_subsystem_code (code_subsystem code))"
  by (simp add: core_error_codes_inj [OF numeric_code_inj_on] core_error_codes_inj [OF code_stable_name_inj_on])
    (cases code; simp)

end
