(* ===== verification/Runtime_Records.thy ===== *)
theory Runtime_Records
  imports Core_Error Domain_Enums Domain_Settings Protocol_Types
begin

section \<open>Records of the runtime actor\<close>

text \<open>
  \<open>runtime/types.rs\<close>: the validated records that commands, platform events and snapshots carry,
  with the host draft and the patches applied to it. The variants \<open>Unchanged\<close>, \<open>Set\<close> and \<open>Clear\<close> of
  the two patch enums carry the prefixes \<open>InviteCode\<close> and \<open>AudioSource\<close>. An \<open>IpAddr\<close> is its
  32-bit or 128-bit value.
\<close>

definition MAX_AUDIO_SOURCE_ID_BYTES :: usize where "MAX_AUDIO_SOURCE_ID_BYTES = 128"
definition MAX_AUDIO_SOURCE_DISPLAY_NAME_BYTES :: usize where "MAX_AUDIO_SOURCE_DISPLAY_NAME_BYTES = 256"
definition MAX_DIAGNOSTIC_EVENT_NAME_BYTES :: usize where "MAX_DIAGNOSTIC_EVENT_NAME_BYTES = 96"
definition MAX_DIAGNOSTIC_FIELDS :: usize where "MAX_DIAGNOSTIC_FIELDS = 16"
definition MAX_DIAGNOSTIC_FIELD_KEY_BYTES :: usize where "MAX_DIAGNOSTIC_FIELD_KEY_BYTES = 64"
definition MAX_DIAGNOSTIC_FIELD_VALUE_BYTES :: usize where "MAX_DIAGNOSTIC_FIELD_VALUE_BYTES = 256"

datatype runtime_record_validation_error =
    RevisionOverflow
  | AudioSourceId
  | AudioSourceDisplayName
  | AudioSourceLength
  | AudioSourceRequired
  | SessionName
  | InviteCode
  | InviteCodeRequired
  | UnexpectedInviteCode
  | TuningSettings
  | NetworkPort
  | ProtocolVersion
  | DeviceDisplayName
  | DeliveryCount
  | SynchronizationSummary
  | DiagnosticName
  | DiagnosticFieldKey
  | DiagnosticFieldValue
  | DiagnosticFieldLimit

definition validate_human_text ::
    "str \<Rightarrow> usize \<Rightarrow> runtime_record_validation_error \<Rightarrow> runtime_record_validation_error + unit" where
  "validate_human_text value max_bytes error =
     (if value = [] \<or> trim value \<noteq> value \<or> str_len value > max_bytes \<or> list_ex is_control value
      then Inl error else Inr ())"

definition validate_token ::
    "str \<Rightarrow> usize \<Rightarrow> runtime_record_validation_error \<Rightarrow> runtime_record_validation_error + unit" where
  "validate_token value max_bytes error =
     (if value = [] \<or> trim value \<noteq> value \<or> str_len value > max_bytes \<or>
         list_ex (\<lambda>c. is_control c \<or> is_whitespace c) value
      then Inl error else Inr ())"

definition validate_bounded_text ::
    "str \<Rightarrow> usize \<Rightarrow> runtime_record_validation_error \<Rightarrow> runtime_record_validation_error + unit" where
  "validate_bounded_text value max_bytes error =
     (if value = [] \<or> str_len value > max_bytes \<or> list_ex (\<lambda>c. code_point c = 0) value
      then Inl error else Inr ())"

type_synonym snapshot_revision = u64

definition revision_checked_next :: "snapshot_revision \<Rightarrow> runtime_record_validation_error + snapshot_revision" where
  "revision_checked_next revision =
     (case checked_add revision 1 of Some value \<Rightarrow> Inr value | None \<Rightarrow> Inl RevisionOverflow)"

record audio_source_descriptor =
  asd_source_id :: str
  asd_display_name :: str
  asd_byte_length :: "u64 option"
  asd_duration_ms :: "u64 option"

definition audio_source_descriptor_new ::
    "str \<Rightarrow> str \<Rightarrow> u64 option \<Rightarrow> u64 option \<Rightarrow> runtime_record_validation_error + audio_source_descriptor" where
  "audio_source_descriptor_new source_id display_name byte_length duration_ms =
     try_bind (validate_token source_id MAX_AUDIO_SOURCE_ID_BYTES AudioSourceId) (\<lambda>_.
     try_bind (validate_human_text display_name MAX_AUDIO_SOURCE_DISPLAY_NAME_BYTES AudioSourceDisplayName) (\<lambda>_.
     if byte_length = Some 0 then Inl AudioSourceLength
     else Inr \<lparr>asd_source_id = source_id, asd_display_name = display_name, asd_byte_length = byte_length,
               asd_duration_ms = duration_ms\<rparr>))"

datatype invite_code_patch = InviteCodeUnchanged | InviteCodeSet str | InviteCodeClear
datatype audio_source_patch = AudioSourceUnchanged | AudioSourceSet audio_source_descriptor | AudioSourceClear

record host_draft_patch =
  hdp_session_name :: "str option"
  hdp_approval_mode :: "approval_mode option"
  hdp_invite_code :: invite_code_patch
  hdp_audio_source :: audio_source_patch
  hdp_remember_approved_devices :: "bool option"

record host_draft =
  hd_session_name :: str
  hd_approval_mode :: approval_mode
  hd_invite_code :: "str option"
  hd_audio_source :: "audio_source_descriptor option"
  hd_remember_approved_devices :: bool

definition host_draft_default :: host_draft where
  "host_draft_default =
     \<lparr>hd_session_name = [], hd_approval_mode = ApprovalManual, hd_invite_code = None, hd_audio_source = None,
      hd_remember_approved_devices = False\<rparr>"

fun validate_approval :: "approval_mode \<Rightarrow> str option \<Rightarrow> runtime_record_validation_error + unit" where
  "validate_approval ApprovalInviteCode (Some code) = validate_token code MAX_INVITE_CODE_BYTES InviteCode"
| "validate_approval ApprovalInviteCode None = Inl InviteCodeRequired"
| "validate_approval _ (Some _) = Inl UnexpectedInviteCode"
| "validate_approval _ None = Inr ()"

definition validate_consistency :: "host_draft \<Rightarrow> runtime_record_validation_error + unit" where
  "validate_consistency draft = validate_approval (hd_approval_mode draft) (hd_invite_code draft)"

definition patch_session_name :: "str option \<Rightarrow> host_draft \<Rightarrow> runtime_record_validation_error + host_draft" where
  "patch_session_name patch next =
     (case patch of
        Some session_name \<Rightarrow>
          try_bind (validate_human_text session_name MAX_SESSION_NAME_BYTES SessionName) (\<lambda>_.
          Inr (next\<lparr>hd_session_name := session_name\<rparr>))
      | None \<Rightarrow> Inr next)"

fun patch_invite_code :: "invite_code_patch \<Rightarrow> host_draft \<Rightarrow> runtime_record_validation_error + host_draft" where
  "patch_invite_code InviteCodeUnchanged next = Inr next"
| "patch_invite_code (InviteCodeSet code) next =
     try_bind (validate_token code MAX_INVITE_CODE_BYTES InviteCode) (\<lambda>_. Inr (next\<lparr>hd_invite_code := Some code\<rparr>))"
| "patch_invite_code InviteCodeClear next = Inr (next\<lparr>hd_invite_code := None\<rparr>)"

fun patch_audio_source :: "audio_source_patch \<Rightarrow> host_draft \<Rightarrow> host_draft" where
  "patch_audio_source AudioSourceUnchanged next = next"
| "patch_audio_source (AudioSourceSet source) next = next\<lparr>hd_audio_source := Some source\<rparr>"
| "patch_audio_source AudioSourceClear next = next\<lparr>hd_audio_source := None\<rparr>"

definition patched :: "host_draft \<Rightarrow> host_draft_patch \<Rightarrow> runtime_record_validation_error + host_draft" where
  "patched self patch =
     try_bind (patch_session_name (hdp_session_name patch) self) (\<lambda>next.
     let next = (case hdp_approval_mode patch of Some mode \<Rightarrow> next\<lparr>hd_approval_mode := mode\<rparr> | None \<Rightarrow> next) in
     try_bind (patch_invite_code (hdp_invite_code patch) next) (\<lambda>next.
     let next = patch_audio_source (hdp_audio_source patch) next;
         next = (case hdp_remember_approved_devices patch of
                   Some remember \<Rightarrow> next\<lparr>hd_remember_approved_devices := remember\<rparr> | None \<Rightarrow> next) in
     try_bind (validate_consistency next) (\<lambda>_. Inr next)))"

definition validate_for_creation :: "host_draft \<Rightarrow> runtime_record_validation_error + unit" where
  "validate_for_creation self =
     try_bind (validate_human_text (hd_session_name self) MAX_SESSION_NAME_BYTES SessionName) (\<lambda>_.
     if hd_audio_source self = None then Inl AudioSourceRequired else validate_consistency self)"

record tuning_patch =
  tp_sync_sample_window :: "u16 option"
  tp_sync_cadence_ms :: "u64 option"
  tp_startup_buffer_ms :: "u64 option"
  tp_late_packet_threshold_ms :: "u64 option"
  tp_hard_resync_threshold_ms :: "u64 option"
  tp_sync_drift_threshold_ms :: "f64 option"
  tp_scan_window_ms :: "u64 option"

primrec unwrap_or :: "'a option \<Rightarrow> 'a \<Rightarrow> 'a" where
  "unwrap_or None d = d"
| "unwrap_or (Some x) d = x"

definition apply_to :: "tuning_patch \<Rightarrow> tuning_settings \<Rightarrow> runtime_record_validation_error + tuning_settings" where
  "apply_to self current =
     (let next =
        \<lparr>ts_sync_sample_window = unwrap_or (tp_sync_sample_window self) (ts_sync_sample_window current),
         ts_sync_cadence_ms = unwrap_or (tp_sync_cadence_ms self) (ts_sync_cadence_ms current),
         ts_startup_buffer_ms = unwrap_or (tp_startup_buffer_ms self) (ts_startup_buffer_ms current),
         ts_late_packet_threshold_ms = unwrap_or (tp_late_packet_threshold_ms self) (ts_late_packet_threshold_ms current),
         ts_hard_resync_threshold_ms = unwrap_or (tp_hard_resync_threshold_ms self) (ts_hard_resync_threshold_ms current),
         ts_sync_drift_threshold_ms = unwrap_or (tp_sync_drift_threshold_ms self) (ts_sync_drift_threshold_ms current),
         ts_scan_window_ms = unwrap_or (tp_scan_window_ms self) (ts_scan_window_ms current)\<rparr> in
      try_bind (map_err (\<lambda>_. TuningSettings) (tuning_settings_validate next)) (\<lambda>_. Inr next))"

datatype ip_addr = IpV4 u32 | IpV6 "128 word"

record network_endpoint =
  ne_address :: ip_addr
  ne_control_port :: u16
  ne_sync_port :: u16
  ne_audio_port :: u16

definition network_endpoint_new ::
    "ip_addr \<Rightarrow> u16 \<Rightarrow> u16 \<Rightarrow> u16 \<Rightarrow> runtime_record_validation_error + network_endpoint" where
  "network_endpoint_new address control_port sync_port audio_port =
     (if control_port = 0 \<or> sync_port = 0 \<or> audio_port = 0 then Inl NetworkPort
      else Inr \<lparr>ne_address = address, ne_control_port = control_port, ne_sync_port = sync_port, ne_audio_port = audio_port\<rparr>)"

record capability_snapshot =
  cs_nearby_discovery_available :: bool
  cs_nearby_advertising_available :: bool
  cs_local_network_available :: bool
  cs_audio_source_selection_available :: bool
  cs_audio_output_available :: bool
  cs_secure_store_available :: bool

record session_advertisement =
  sa_session_id :: session_id
  sa_host_device_id :: device_id
  sa_session_name :: str
  sa_approval_mode :: approval_mode
  sa_protocol_version :: u16
  sa_endpoint :: "network_endpoint option"

definition session_advertisement_new ::
    "session_id \<Rightarrow> device_id \<Rightarrow> str \<Rightarrow> approval_mode \<Rightarrow> u16 \<Rightarrow> network_endpoint option \<Rightarrow>
       runtime_record_validation_error + session_advertisement" where
  "session_advertisement_new session_id host_device_id session_name approval_mode protocol_version endpoint =
     try_bind (validate_human_text session_name MAX_SESSION_NAME_BYTES SessionName) (\<lambda>_.
     if protocol_version = 0 then Inl ProtocolVersion
     else Inr \<lparr>sa_session_id = session_id, sa_host_device_id = host_device_id, sa_session_name = session_name,
               sa_approval_mode = approval_mode, sa_protocol_version = protocol_version, sa_endpoint = endpoint\<rparr>)"

record join_request_summary =
  jrs_request_id :: request_id
  jrs_device_id :: device_id
  jrs_display_name :: str
  jrs_trust_state :: trust_state
  jrs_invite_code_valid :: bool
  jrs_received_at :: monotonic_millis

definition join_request_summary_new ::
    "request_id \<Rightarrow> device_id \<Rightarrow> str \<Rightarrow> trust_state \<Rightarrow> bool \<Rightarrow> monotonic_millis \<Rightarrow>
       runtime_record_validation_error + join_request_summary" where
  "join_request_summary_new request_id device_id display_name trust_state invite_code_valid received_at =
     try_bind (validate_human_text display_name MAX_DISPLAY_NAME_BYTES DeviceDisplayName) (\<lambda>_.
     Inr \<lparr>jrs_request_id = request_id, jrs_device_id = device_id, jrs_display_name = display_name,
          jrs_trust_state = trust_state, jrs_invite_code_valid = invite_code_valid, jrs_received_at = received_at\<rparr>)"

record delivery_report =
  dr_intended_peers :: u32
  dr_successful_peers :: u32
  dr_failed_peers :: u32
  dr_severity :: delivery_severity

definition delivery_report_new :: "u32 \<Rightarrow> u32 \<Rightarrow> u32 \<Rightarrow> runtime_record_validation_error + delivery_report" where
  "delivery_report_new intended_peers successful_peers failed_peers =
     (case checked_add successful_peers failed_peers of
        None \<Rightarrow> Inl DeliveryCount
      | Some accounted \<Rightarrow>
          if accounted \<noteq> intended_peers then Inl DeliveryCount
          else Inr \<lparr>dr_intended_peers = intended_peers, dr_successful_peers = successful_peers,
                    dr_failed_peers = failed_peers,
                    dr_severity = (if intended_peers = 0 then DeliveryZeroPeers
                                   else if failed_peers = 0 then DeliveryOk else DeliveryPartialFailure)\<rparr>)"

record synchronization_summary =
  ss_confidence :: sync_confidence
  ss_offset_ms :: f64
  ss_round_trip_ms :: f64
  ss_drift_ppm :: f64

definition synchronization_summary_new ::
    "sync_confidence \<Rightarrow> f64 \<Rightarrow> f64 \<Rightarrow> f64 \<Rightarrow> runtime_record_validation_error + synchronization_summary" where
  "synchronization_summary_new confidence offset_ms round_trip_ms drift_ppm =
     (if \<not> is_finite offset_ms \<or> \<not> is_finite round_trip_ms \<or> f64_less round_trip_ms (f64_of_rat 0) \<or> \<not> is_finite drift_ppm
      then Inl SynchronizationSummary
      else Inr \<lparr>ss_confidence = confidence, ss_offset_ms = offset_ms, ss_round_trip_ms = round_trip_ms,
                ss_drift_ppm = drift_ppm\<rparr>)"

record listener_summary =
  ls_device_id :: device_id
  ls_display_name :: str
  ls_trust_state :: trust_state
  ls_transport_state :: transport_state
  ls_synchronization :: "synchronization_summary option"
  ls_last_contact :: "monotonic_millis option"
  ls_last_error :: "core_error option"

definition listener_summary_new ::
    "device_id \<Rightarrow> str \<Rightarrow> trust_state \<Rightarrow> transport_state \<Rightarrow> runtime_record_validation_error + listener_summary" where
  "listener_summary_new device_id display_name trust_state transport_state =
     try_bind (validate_human_text display_name MAX_DISPLAY_NAME_BYTES DeviceDisplayName) (\<lambda>_.
     Inr \<lparr>ls_device_id = device_id, ls_display_name = display_name, ls_trust_state = trust_state,
          ls_transport_state = transport_state, ls_synchronization = None, ls_last_contact = None, ls_last_error = None\<rparr>)"

record diagnostic_field =
  df_key :: str
  df_value :: str

definition diagnostic_field_new :: "str \<Rightarrow> str \<Rightarrow> runtime_record_validation_error + diagnostic_field" where
  "diagnostic_field_new key value =
     try_bind (validate_token key MAX_DIAGNOSTIC_FIELD_KEY_BYTES DiagnosticFieldKey) (\<lambda>_.
     try_bind (validate_bounded_text value MAX_DIAGNOSTIC_FIELD_VALUE_BYTES DiagnosticFieldValue) (\<lambda>_.
     Inr \<lparr>df_key = key, df_value = value\<rparr>))"

record core_diagnostic =
  cd_name :: str
  cd_fields :: "diagnostic_field list"

definition core_diagnostic_new :: "str \<Rightarrow> diagnostic_field list \<Rightarrow> runtime_record_validation_error + core_diagnostic" where
  "core_diagnostic_new name entries =
     try_bind (validate_token name MAX_DIAGNOSTIC_EVENT_NAME_BYTES DiagnosticName) (\<lambda>_.
     if length entries > MAX_DIAGNOSTIC_FIELDS then Inl DiagnosticFieldLimit
     else Inr \<lparr>cd_name = name, cd_fields = entries\<rparr>)"

subsection \<open>The host draft under patches\<close>

text \<open>The actor replaces its draft by a successful patch and keeps it when the patch is rejected.\<close>

fun apply_patches :: "host_draft \<Rightarrow> host_draft_patch list \<Rightarrow> host_draft" where
  "apply_patches draft [] = draft"
| "apply_patches draft (patch # patches) =
     apply_patches (case patched draft patch of Inr next \<Rightarrow> next | Inl _ \<Rightarrow> draft) patches"

definition human_text :: "usize \<Rightarrow> str \<Rightarrow> bool" where
  "human_text max_bytes s \<longleftrightarrow> s \<noteq> [] \<and> trim s = s \<and> str_len s \<le> max_bytes \<and> \<not> list_ex is_control s"

definition token :: "usize \<Rightarrow> str \<Rightarrow> bool" where
  "token max_bytes s \<longleftrightarrow> s \<noteq> [] \<and> str_len s \<le> max_bytes \<and> \<not> list_ex is_control s \<and> \<not> list_ex is_whitespace s"

lemma validate_human_text_iff [simp]: "validate_human_text s n e = Inr () \<longleftrightarrow> human_text n s"
  by (auto simp: validate_human_text_def human_text_def)

lemma validate_token_iff [simp]: "validate_token s n e = Inr () \<longleftrightarrow> token n s"
proof -
  have "trim s = s" if "s \<noteq> []" "\<not> list_ex is_whitespace s"
    using that by (intro trim_eq_if) (auto simp: list_ex_iff)
  then show ?thesis
    by (auto simp: validate_token_def token_def list_ex_iff)
qed

definition draft_ok :: "host_draft \<Rightarrow> bool" where
  "draft_ok draft \<longleftrightarrow>
     (hd_session_name draft = [] \<or> human_text MAX_SESSION_NAME_BYTES (hd_session_name draft)) \<and>
     (if hd_approval_mode draft = ApprovalInviteCode
      then \<exists>code. hd_invite_code draft = Some code \<and> token MAX_INVITE_CODE_BYTES code
      else hd_invite_code draft = None)"

lemma validate_consistency_iff:
  "validate_consistency draft = Inr () \<longleftrightarrow>
     (if hd_approval_mode draft = ApprovalInviteCode
      then \<exists>code. hd_invite_code draft = Some code \<and> token MAX_INVITE_CODE_BYTES code
      else hd_invite_code draft = None)"
  by (cases "hd_approval_mode draft"; cases "hd_invite_code draft") (simp_all add: validate_consistency_def)

lemma patched_fields:
  assumes "patched self patch = Inr next"
  shows "hd_session_name next = unwrap_or (hdp_session_name patch) (hd_session_name self)"
    and "hd_approval_mode next = unwrap_or (hdp_approval_mode patch) (hd_approval_mode self)"
    and "hd_invite_code next =
      (case hdp_invite_code patch of InviteCodeUnchanged \<Rightarrow> hd_invite_code self | InviteCodeSet code \<Rightarrow> Some code | InviteCodeClear \<Rightarrow> None)"
    and "hd_audio_source next =
      (case hdp_audio_source patch of AudioSourceUnchanged \<Rightarrow> hd_audio_source self | AudioSourceSet source \<Rightarrow> Some source | AudioSourceClear \<Rightarrow> None)"
    and "hd_remember_approved_devices next = unwrap_or (hdp_remember_approved_devices patch) (hd_remember_approved_devices self)"
    and "validate_consistency next = Inr ()"
    and "\<forall>name. hdp_session_name patch = Some name \<longrightarrow> human_text MAX_SESSION_NAME_BYTES name"
proof -
  obtain d1 d2 where d1: "patch_session_name (hdp_session_name patch) self = Inr d1"
    and d2: "patch_invite_code (hdp_invite_code patch) (case hdp_approval_mode patch of
      Some mode \<Rightarrow> d1\<lparr>hd_approval_mode := mode\<rparr> | None \<Rightarrow> d1) = Inr d2"
    and nxt: "next = (case hdp_remember_approved_devices patch of
        Some remember \<Rightarrow> (patch_audio_source (hdp_audio_source patch) d2)\<lparr>hd_remember_approved_devices := remember\<rparr>
      | None \<Rightarrow> patch_audio_source (hdp_audio_source patch) d2)"
    and ok: "validate_consistency next = Inr ()"
    using assms by (auto simp: patched_def try_bind_Inr_iff Let_def)
  show "validate_consistency next = Inr ()"
    by (rule ok)
  have p1: "hd_session_name d1 = unwrap_or (hdp_session_name patch) (hd_session_name self)"
    "\<forall>name. hdp_session_name patch = Some name \<longrightarrow> human_text MAX_SESSION_NAME_BYTES name"
    "hd_approval_mode d1 = hd_approval_mode self" "hd_invite_code d1 = hd_invite_code self"
    "hd_audio_source d1 = hd_audio_source self" "hd_remember_approved_devices d1 = hd_remember_approved_devices self"
    using d1 by (auto simp: patch_session_name_def try_bind_Inr_iff split: option.splits)
  have p2: "hd_session_name d2 = hd_session_name d1" "hd_approval_mode d2 = unwrap_or (hdp_approval_mode patch) (hd_approval_mode d1)"
    "hd_invite_code d2 = (case hdp_invite_code patch of
      InviteCodeUnchanged \<Rightarrow> hd_invite_code d1 | InviteCodeSet code \<Rightarrow> Some code | InviteCodeClear \<Rightarrow> None)"
    "hd_audio_source d2 = hd_audio_source d1" "hd_remember_approved_devices d2 = hd_remember_approved_devices d1"
    using d2 by (cases "hdp_invite_code patch"; auto simp: try_bind_Inr_iff split: option.splits)+
  have p3: "hd_session_name next = hd_session_name d2" "hd_approval_mode next = hd_approval_mode d2"
    "hd_invite_code next = hd_invite_code d2"
    "hd_audio_source next = (case hdp_audio_source patch of
      AudioSourceUnchanged \<Rightarrow> hd_audio_source d2 | AudioSourceSet source \<Rightarrow> Some source | AudioSourceClear \<Rightarrow> None)"
    "hd_remember_approved_devices next = unwrap_or (hdp_remember_approved_devices patch) (hd_remember_approved_devices d2)"
    using nxt by (cases "hdp_audio_source patch"; auto split: option.splits)+
  show "hd_session_name next = unwrap_or (hdp_session_name patch) (hd_session_name self)"
    "hd_approval_mode next = unwrap_or (hdp_approval_mode patch) (hd_approval_mode self)"
    "hd_remember_approved_devices next = unwrap_or (hdp_remember_approved_devices patch) (hd_remember_approved_devices self)"
    "\<forall>name. hdp_session_name patch = Some name \<longrightarrow> human_text MAX_SESSION_NAME_BYTES name"
    using p1 p2 p3 by simp_all
  show "hd_invite_code next =
      (case hdp_invite_code patch of InviteCodeUnchanged \<Rightarrow> hd_invite_code self | InviteCodeSet code \<Rightarrow> Some code | InviteCodeClear \<Rightarrow> None)"
    "hd_audio_source next =
      (case hdp_audio_source patch of AudioSourceUnchanged \<Rightarrow> hd_audio_source self | AudioSourceSet source \<Rightarrow> Some source | AudioSourceClear \<Rightarrow> None)"
    using p1 p2 p3 by (simp_all split: invite_code_patch.splits audio_source_patch.splits)
qed

lemma patched_draft_ok:
  assumes "draft_ok self" and "patched self patch = Inr next"
  shows "draft_ok next"
  using assms(1) patched_fields [OF assms(2)]
  by (cases "hdp_session_name patch") (auto simp: draft_ok_def validate_consistency_iff)

lemma apply_patches_draft_ok: "draft_ok draft \<Longrightarrow> draft_ok (apply_patches draft patches)"
  by (induction draft patches rule: apply_patches.induct) (auto dest: patched_draft_ok split: sum.splits)

text \<open>
  C35: the host draft is always consistent. After any sequence of patches to the default draft, of
  which the rejected ones leave it unchanged, the draft has an invite code exactly when its
  approval mode asks for one, the code is a bounded token and the session name is empty or a
  bounded text; so the draft can be used to create a session exactly when a session name and an
  audio source have been set.
\<close>

theorem host_draft_stays_consistent:
  "draft_ok (apply_patches host_draft_default patches) \<and>
   (validate_for_creation (apply_patches host_draft_default patches) = Inr () \<longleftrightarrow>
      hd_session_name (apply_patches host_draft_default patches) \<noteq> [] \<and>
      hd_audio_source (apply_patches host_draft_default patches) \<noteq> None)"
proof -
  let ?draft = "apply_patches host_draft_default patches"
  have "draft_ok host_draft_default"
    by (simp add: draft_ok_def host_draft_default_def)
  then have ok: "draft_ok ?draft"
    by (rule apply_patches_draft_ok)
  then have "validate_consistency ?draft = Inr ()" "hd_session_name ?draft = [] \<or> human_text MAX_SESSION_NAME_BYTES (hd_session_name ?draft)"
    by (simp_all add: draft_ok_def validate_consistency_iff)
  then have "validate_for_creation ?draft = Inr () \<longleftrightarrow> hd_session_name ?draft \<noteq> [] \<and> hd_audio_source ?draft \<noteq> None"
    by (auto simp: validate_for_creation_def try_bind_Inr_iff human_text_def)
  with ok show ?thesis
    by simp
qed

text \<open>
  A patch changes exactly what it mentions. When \<open>HostDraft::patched\<close> or
  \<open>TuningPatch::apply_to\<close> accepts a patch, every field that the patch leaves out keeps its value,
  every other field has the patched value, and the resulting settings pass their validation.
\<close>

theorem patches_change_what_they_mention:
  "(patched self patch = Inr draft \<longrightarrow>
      hd_session_name draft = unwrap_or (hdp_session_name patch) (hd_session_name self) \<and>
      hd_approval_mode draft = unwrap_or (hdp_approval_mode patch) (hd_approval_mode self) \<and>
      hd_invite_code draft = (case hdp_invite_code patch of
        InviteCodeUnchanged \<Rightarrow> hd_invite_code self | InviteCodeSet code \<Rightarrow> Some code | InviteCodeClear \<Rightarrow> None) \<and>
      hd_audio_source draft = (case hdp_audio_source patch of
        AudioSourceUnchanged \<Rightarrow> hd_audio_source self | AudioSourceSet source \<Rightarrow> Some source | AudioSourceClear \<Rightarrow> None) \<and>
      hd_remember_approved_devices draft =
        unwrap_or (hdp_remember_approved_devices patch) (hd_remember_approved_devices self)) \<and>
   (apply_to tuning current = Inr settings \<longrightarrow>
      tuning_settings_validate settings = Inr () \<and>
      ts_startup_buffer_ms settings = unwrap_or (tp_startup_buffer_ms tuning) (ts_startup_buffer_ms current) \<and>
      ts_late_packet_threshold_ms settings = unwrap_or (tp_late_packet_threshold_ms tuning) (ts_late_packet_threshold_ms current) \<and>
      ts_hard_resync_threshold_ms settings = unwrap_or (tp_hard_resync_threshold_ms tuning) (ts_hard_resync_threshold_ms current))"
  using patched_fields [of self patch draft]
  by (auto simp: apply_to_def Let_def try_bind_Inr_iff map_err_def split: sum.splits)

definition example_patch :: host_draft_patch where
  "example_patch =
     \<lparr>hdp_session_name = Some (lit ''Roof party''), hdp_approval_mode = None, hdp_invite_code = InviteCodeUnchanged,
      hdp_audio_source = AudioSourceUnchanged, hdp_remember_approved_devices = Some True\<rparr>"

theorem patches_change_what_they_mention_witness:
  "\<exists>draft. patched host_draft_default example_patch = Inr draft \<and> hd_session_name draft = lit ''Roof party'' \<and>
     hd_approval_mode draft = ApprovalManual \<and> hd_remember_approved_devices draft"
proof -
  have "printable ''Roof party''"
    by code_simp
  then have "validate_human_text (lit ''Roof party'') MAX_SESSION_NAME_BYTES SessionName = Inr ()"
    by (simp add: human_text_def printable_lit MAX_SESSION_NAME_BYTES_def)
  then have "patch_session_name (Some (lit ''Roof party'')) host_draft_default =
      Inr (host_draft_default\<lparr>hd_session_name := lit ''Roof party''\<rparr>)"
    by (simp only: patch_session_name_def option.case try_bind_simps)
  then obtain draft where draft: "patched host_draft_default example_patch = Inr draft"
    by (simp add: patched_def example_patch_def validate_consistency_def host_draft_default_def)
  then show ?thesis
    using patches_change_what_they_mention [of host_draft_default example_patch draft undefined undefined undefined]
    by (simp add: example_patch_def host_draft_default_def)
qed

end
