(* ===== verification/Host_Queue.thy ===== *)
theory Host_Queue
  imports Runtime_Records Audio_Types "HOL-Library.Multiset"
begin

section \<open>The host queue\<close>

text \<open>
  \<open>runtime/playlist.rs\<close>: the ordered playlist of the host, with the current entry at the front.
  Every operation names the revision it was prepared for and is atomic: it returns the changed
  queue or an error, and an error leaves the queue as it was.
\<close>

definition MAX_HOST_QUEUE_ENTRIES :: usize where "MAX_HOST_QUEUE_ENTRIES = 100"
definition MAX_HOST_QUEUE_SOURCE_BYTES :: u64 where "MAX_HOST_QUEUE_SOURCE_BYTES = 16 * 1024 * 1024 * 1024"
definition MAX_QUEUE_ENTRY_ID_BYTES :: usize where "MAX_QUEUE_ENTRY_ID_BYTES = 128"

datatype host_queue_error =
    InvalidEntryId
  | DuplicateEntryId
  | CapacityExceeded
  | SourceCapacityExceeded
  | InconsistentSourceMetadata
  | InvalidOrder
  | CurrentEntryLocked
  | EntryNotFound
  | StaleRevision u64 u64
  | RevisionExhausted

record queue_entry =
  qe_entry_id :: str
  qe_source :: audio_source_descriptor

definition queue_entry_new :: "str \<Rightarrow> audio_source_descriptor \<Rightarrow> host_queue_error + queue_entry" where
  "queue_entry_new entry_id source =
     (if entry_id = [] \<or> str_len entry_id > MAX_QUEUE_ENTRY_ID_BYTES \<or> trim entry_id \<noteq> entry_id \<or>
         list_ex is_control entry_id
      then Inl InvalidEntryId else Inr \<lparr>qe_entry_id = entry_id, qe_source = source\<rparr>)"

record host_queue =
  hq_entries :: "queue_entry list"
  hq_revision :: u64

definition host_queue_default :: host_queue where
  "host_queue_default = \<lparr>hq_entries = [], hq_revision = 0\<rparr>"

definition queue_current :: "host_queue \<Rightarrow> queue_entry option" where
  "queue_current self = (case hq_entries self of [] \<Rightarrow> None | entry # _ \<Rightarrow> Some entry)"

definition queue_upcoming :: "host_queue \<Rightarrow> queue_entry list" where
  "queue_upcoming self = tl (hq_entries self)"

definition check_revision :: "host_queue \<Rightarrow> u64 \<Rightarrow> host_queue_error + unit" where
  "check_revision self expected =
     (if expected = hq_revision self then Inr () else Inl (StaleRevision expected (hq_revision self)))"

definition next_revision :: "host_queue \<Rightarrow> host_queue_error + u64" where
  "next_revision self = ok_or (checked_add (hq_revision self) 1) RevisionExhausted"

type_synonym source_sizes = "(str \<times> u64 option) list"

text \<open>One step of the loops that collect the distinct sources of a list of entries.\<close>

definition note_source :: "queue_entry \<Rightarrow> source_sizes \<Rightarrow> host_queue_error + source_sizes" where
  "note_source entry sources =
     (case find (\<lambda>(source_id, _). source_id = asd_source_id (qe_source entry)) sources of
        Some (_, known_size) \<Rightarrow>
          if known_size \<noteq> asd_byte_length (qe_source entry) then Inl InconsistentSourceMetadata else Inr sources
      | None \<Rightarrow> Inr (sources @ [(asd_source_id (qe_source entry), asd_byte_length (qe_source entry))]))"

fun collect_sources :: "queue_entry list \<Rightarrow> source_sizes \<Rightarrow> host_queue_error + source_sizes" where
  "collect_sources [] sources = Inr sources"
| "collect_sources (entry # entries) sources = try_bind (note_source entry sources) (collect_sources entries)"

fun add_entries :: "queue_entry list \<Rightarrow> str list \<Rightarrow> source_sizes \<Rightarrow> host_queue_error + source_sizes" where
  "add_entries [] ids sources = Inr sources"
| "add_entries (entry # entries) ids sources =
     (if qe_entry_id entry \<in> set ids then Inl DuplicateEntryId
      else try_bind (note_source entry sources) (add_entries entries (ids @ [qe_entry_id entry])))"

fun source_total :: "u64 \<Rightarrow> source_sizes \<Rightarrow> u64 option" where
  "source_total acc [] = Some acc"
| "source_total acc ((_, byte_length) # sources) =
     (case checked_add acc (unwrap_or byte_length MAX_SOURCE_BYTES) of
        None \<Rightarrow> None | Some acc' \<Rightarrow> source_total acc' sources)"

definition validate_source_total :: "source_sizes \<Rightarrow> host_queue_error + unit" where
  "validate_source_total sources =
     (case source_total 0 sources of
        None \<Rightarrow> Inl SourceCapacityExceeded
      | Some bytes \<Rightarrow> if bytes > MAX_HOST_QUEUE_SOURCE_BYTES then Inl SourceCapacityExceeded else Inr ())"

definition replace_entries :: "host_queue \<Rightarrow> queue_entry list \<Rightarrow> host_queue_error + host_queue" where
  "replace_entries self entries =
     try_bind (next_revision self) (\<lambda>revision. Inr (self\<lparr>hq_entries := entries, hq_revision := revision\<rparr>))"

definition queue_append :: "host_queue \<Rightarrow> u64 \<Rightarrow> queue_entry list \<Rightarrow> host_queue_error + host_queue" where
  "queue_append self expected_revision entries =
     try_bind (check_revision self expected_revision) (\<lambda>_.
     if entries = [] then Inr self
     else if min usize_max (length (hq_entries self) + length entries) > MAX_HOST_QUEUE_ENTRIES then Inl CapacityExceeded
     else try_bind (collect_sources (hq_entries self) []) (\<lambda>sources.
       try_bind (add_entries entries (map qe_entry_id (hq_entries self)) sources) (\<lambda>sources.
       try_bind (validate_source_total sources) (\<lambda>_.
       replace_entries self (hq_entries self @ entries)))))"

fun has_duplicate_id :: "str list \<Rightarrow> queue_entry list \<Rightarrow> bool" where
  "has_duplicate_id previous [] = False"
| "has_duplicate_id previous (entry # entries) =
     (qe_entry_id entry \<in> set previous \<or> has_duplicate_id (previous @ [qe_entry_id entry]) entries)"

definition replace_all :: "host_queue \<Rightarrow> u64 \<Rightarrow> queue_entry list \<Rightarrow> host_queue_error + host_queue" where
  "replace_all self expected_revision entries =
     try_bind (check_revision self expected_revision) (\<lambda>_.
     if length entries > MAX_HOST_QUEUE_ENTRIES then Inl CapacityExceeded
     else if has_duplicate_id [] entries then Inl DuplicateEntryId
     else try_bind (collect_sources entries []) (\<lambda>sources.
       try_bind (validate_source_total sources) (\<lambda>_.
       if entries = hq_entries self then Inr self else replace_entries self entries)))"

fun reorder_entries ::
    "queue_entry list \<Rightarrow> str list \<Rightarrow> queue_entry list \<Rightarrow> host_queue_error + queue_entry list" where
  "reorder_entries entries [] reordered = Inr reordered"
| "reorder_entries entries (entry_id # ids) reordered =
     (case find (\<lambda>entry. qe_entry_id entry = entry_id) entries of
        None \<Rightarrow> Inl InvalidOrder
      | Some entry \<Rightarrow>
          if list_ex (\<lambda>entry. qe_entry_id entry = entry_id) reordered then Inl InvalidOrder
          else reorder_entries entries ids (reordered @ [entry]))"

definition reorder :: "host_queue \<Rightarrow> u64 \<Rightarrow> str list \<Rightarrow> bool \<Rightarrow> host_queue_error + host_queue" where
  "reorder self expected_revision ordered_entry_ids current_locked =
     try_bind (check_revision self expected_revision) (\<lambda>_.
     if length ordered_entry_ids \<noteq> length (hq_entries self) then Inl InvalidOrder
     else if current_locked \<and>
       (case queue_current self of
          None \<Rightarrow> False
        | Some current \<Rightarrow> (case ordered_entry_ids of [] \<Rightarrow> True | first # _ \<Rightarrow> first \<noteq> qe_entry_id current))
     then Inl CurrentEntryLocked
     else try_bind (reorder_entries (hq_entries self) ordered_entry_ids []) (\<lambda>reordered.
       if reordered = hq_entries self then Inr self else replace_entries self reordered))"

fun position :: "str \<Rightarrow> queue_entry list \<Rightarrow> usize option" where
  "position entry_id [] = None"
| "position entry_id (entry # entries) =
     (if qe_entry_id entry = entry_id then Some 0 else map_option Suc (position entry_id entries))"

definition remove_at :: "usize \<Rightarrow> 'a list \<Rightarrow> 'a list" where
  "remove_at index xs = take index xs @ drop (Suc index) xs"

definition queue_remove :: "host_queue \<Rightarrow> u64 \<Rightarrow> str \<Rightarrow> bool \<Rightarrow> host_queue_error + host_queue" where
  "queue_remove self expected_revision entry_id current_locked =
     try_bind (check_revision self expected_revision) (\<lambda>_.
     case position entry_id (hq_entries self) of
       None \<Rightarrow> Inl EntryNotFound
     | Some index \<Rightarrow>
         if current_locked \<and> index = 0 then Inl CurrentEntryLocked
         else replace_entries self (remove_at index (hq_entries self)))"

definition complete_current :: "host_queue \<Rightarrow> u64 \<Rightarrow> host_queue_error + host_queue" where
  "complete_current self expected_revision =
     try_bind (check_revision self expected_revision) (\<lambda>_.
     if hq_entries self = [] then Inl EntryNotFound
     else replace_entries self (remove_at 0 (hq_entries self)))"

definition queue_clear :: "host_queue \<Rightarrow> u64 \<Rightarrow> bool \<Rightarrow> host_queue_error + host_queue" where
  "queue_clear self expected_revision current_locked =
     try_bind (check_revision self expected_revision) (\<lambda>_.
     let retained = (if current_locked \<and> hq_entries self \<noteq> [] then 1 else 0) in
     if length (hq_entries self) = retained then Inr self
     else replace_entries self (take retained (hq_entries self)))"

text \<open>The calls of the actor on its queue.\<close>

datatype queue_call =
    Append u64 "queue_entry list"
  | ReplaceAll u64 "queue_entry list"
  | Reorder u64 "str list" bool
  | Remove u64 str bool
  | CompleteCurrent u64
  | Clear u64 bool

primrec call_revision :: "queue_call \<Rightarrow> u64" where
  "call_revision (Append r es) = r"
| "call_revision (ReplaceAll r es) = r"
| "call_revision (Reorder r ids locked) = r"
| "call_revision (Remove r entry_id locked) = r"
| "call_revision (CompleteCurrent r) = r"
| "call_revision (Clear r locked) = r"

primrec perform_queue_call :: "host_queue \<Rightarrow> queue_call \<Rightarrow> host_queue_error + host_queue" where
  "perform_queue_call self (Append r es) = queue_append self r es"
| "perform_queue_call self (ReplaceAll r es) = replace_all self r es"
| "perform_queue_call self (Reorder r ids locked) = reorder self r ids locked"
| "perform_queue_call self (Remove r entry_id locked) = queue_remove self r entry_id locked"
| "perform_queue_call self (CompleteCurrent r) = complete_current self r"
| "perform_queue_call self (Clear r locked) = queue_clear self r locked"

fun run_queue_calls :: "host_queue \<Rightarrow> queue_call list \<Rightarrow> host_queue" where
  "run_queue_calls self [] = self"
| "run_queue_calls self (c # cs) =
     run_queue_calls (case perform_queue_call self c of Inr self' \<Rightarrow> self' | Inl _ \<Rightarrow> self) cs"

subsection \<open>What a queue may hold\<close>

definition source_key :: "queue_entry \<Rightarrow> str \<times> u64 option" where
  "source_key entry = (asd_source_id (qe_source entry), asd_byte_length (qe_source entry))"

definition source_bytes :: "str \<times> u64 option \<Rightarrow> nat" where
  "source_bytes source = unat (unwrap_or (snd source) MAX_SOURCE_BYTES)"

definition sources_agree :: "queue_entry list \<Rightarrow> bool" where
  "sources_agree entries \<longleftrightarrow> inj_on fst (set (map source_key entries))"

definition entries_ok :: "queue_entry list \<Rightarrow> bool" where
  "entries_ok entries \<longleftrightarrow> length entries \<le> MAX_HOST_QUEUE_ENTRIES \<and> distinct (map qe_entry_id entries) \<and>
     sources_agree entries \<and> sum source_bytes (set (map source_key entries)) \<le> unat MAX_HOST_QUEUE_SOURCE_BYTES"

definition sources_of :: "source_sizes \<Rightarrow> queue_entry list \<Rightarrow> bool" where
  "sources_of sources entries \<longleftrightarrow> set sources = set (map source_key entries) \<and> distinct (map fst sources)"

lemma sources_of_agree: "sources_of sources entries \<Longrightarrow> sources_agree entries"
  by (metis distinct_map sources_agree_def sources_of_def)

lemma find_source:
  "distinct (map fst sources) \<Longrightarrow>
     find (\<lambda>(source_id, _). source_id = k) sources = (case map_of sources k of None \<Rightarrow> None | Some v \<Rightarrow> Some (k, v))"
  by (induction sources) auto

lemma note_source_ok:
  assumes "sources_of sources entries"
  shows "note_source entry sources = Inr sources' \<Longrightarrow> sources_of sources' (entries @ [entry])"
    and "sources_agree (entries @ [entry]) \<Longrightarrow> \<exists>sources'. note_source entry sources = Inr sources'"
proof -
  let ?k = "asd_source_id (qe_source entry)" and ?v = "asd_byte_length (qe_source entry)"
  have dist: "distinct (map fst sources)" and set: "set sources = set (map source_key entries)"
    using assms by (simp_all add: sources_of_def)
  note find = find_source [OF dist, of ?k]
  show "sources_of sources' (entries @ [entry])" if "note_source entry sources = Inr sources'"
  proof (cases "map_of sources ?k")
    case None
    then have "sources' = sources @ [source_key entry]"
      using that find by (simp add: note_source_def source_key_def)
    moreover have "?k \<notin> fst ` set sources"
      using None by (simp add: map_of_eq_None_iff)
    ultimately show ?thesis
      using dist set by (auto simp: sources_of_def source_key_def)
  next
    case (Some v)
    then have "sources' = sources" "source_key entry \<in> set sources"
      using that find dist by (auto simp: note_source_def source_key_def split: if_splits)
    then show ?thesis
      using dist set by (auto simp: sources_of_def)
  qed
  show "\<exists>sources'. note_source entry sources = Inr sources'" if agree: "sources_agree (entries @ [entry])"
  proof (cases "map_of sources ?k")
    case (Some v)
    then have "(?k, v) \<in> set (map source_key entries)"
      using dist set by (metis map_of_SomeD)
    then have "v = ?v"
      using inj_onD [OF agree [unfolded sources_agree_def], of "(?k, v)" "(?k, ?v)"] by (simp add: source_key_def)
    then show ?thesis
      using Some find by (simp add: note_source_def)
  qed (simp add: note_source_def find)
qed

lemma sources_agree_append: "sources_agree (xs @ ys) \<Longrightarrow> sources_agree xs"
  by (auto simp: sources_agree_def intro: inj_on_subset)

lemma collect_sources_ok:
  assumes "sources_of sources seen"
  shows "collect_sources entries sources = Inr sources' \<Longrightarrow> sources_of sources' (seen @ entries)"
    and "sources_agree (seen @ entries) \<Longrightarrow> \<exists>sources'. collect_sources entries sources = Inr sources'"
proof -
  show "sources_of sources' (seen @ entries)" if "collect_sources entries sources = Inr sources'"
    using assms that
  proof (induction entries arbitrary: seen sources)
    case (Cons entry entries)
    then obtain s1 where s1: "note_source entry sources = Inr s1" "collect_sources entries s1 = Inr sources'"
      by (auto simp: try_bind_Inr_iff)
    from Cons.IH [OF note_source_ok(1) [OF Cons.prems(1) s1(1)] s1(2)] show ?case
      by simp
  qed simp
  show "\<exists>sources'. collect_sources entries sources = Inr sources'" if "sources_agree (seen @ entries)"
    using assms that
  proof (induction entries arbitrary: seen sources)
    case (Cons entry entries)
    then have "sources_agree (seen @ [entry])"
      using sources_agree_append [of "seen @ [entry]" entries] by simp
    then obtain s1 where s1: "note_source entry sources = Inr s1"
      using note_source_ok(2) [OF Cons.prems(1)] by blast
    with Cons.IH [OF note_source_ok(1) [OF Cons.prems(1) s1]] Cons.prems(2) show ?case
      by simp
  qed simp
qed

lemma add_entries_collect:
  "add_entries entries ids sources = Inr sources' \<longleftrightarrow>
     distinct (map qe_entry_id entries) \<and> set ids \<inter> set (map qe_entry_id entries) = {} \<and>
     collect_sources entries sources = Inr sources'"
  by (induction entries ids sources rule: add_entries.induct) (auto simp: try_bind_Inr_iff)

lemma has_duplicate_id_iff:
  "has_duplicate_id previous entries \<longleftrightarrow>
     \<not> (distinct (map qe_entry_id entries) \<and> set previous \<inter> set (map qe_entry_id entries) = {})"
  by (induction previous entries rule: has_duplicate_id.induct) auto

lemma source_total_eq:
  "source_total acc sources =
     (if unat acc + (\<Sum>s\<leftarrow>sources. source_bytes s) < 2 ^ 64
      then Some (of_nat (unat acc + (\<Sum>s\<leftarrow>sources. source_bytes s))) else None)"
proof (induction acc sources rule: source_total.induct)
  case (1 acc)
  then show ?case
    using unsigned_less [of acc] by simp
next
  case (2 acc k byte_length sources)
  let ?n = "unwrap_or byte_length MAX_SOURCE_BYTES"
  show ?case
  proof (cases "checked_add acc ?n")
    case None
    then have "2 ^ 64 \<le> unat acc + unat ?n"
      by (simp add: checked_add_def split: if_splits)
    then show ?thesis
      using None by (simp add: source_bytes_def)
  next
    case (Some acc')
    then have "unat acc' = unat acc + unat ?n"
      by (rule checked_add_SomeD)
    then show ?thesis
      using 2 [OF Some] Some by (simp add: source_bytes_def [of "(k, byte_length)"] add.assoc)
  qed
qed

lemma validate_source_total_iff:
  assumes "sources_of sources entries"
  shows "validate_source_total sources = Inr () \<longleftrightarrow>
    sum source_bytes (set (map source_key entries)) \<le> unat MAX_HOST_QUEUE_SOURCE_BYTES"
proof -
  have "distinct sources"
    using assms by (simp add: sources_of_def distinct_map)
  then have total: "(\<Sum>s\<leftarrow>sources. source_bytes s) = sum source_bytes (set (map source_key entries))"
    using assms by (simp add: sources_of_def sum_list_distinct_conv_sum_set)
  show ?thesis
    by (auto simp: validate_source_total_def source_total_eq total word_less_nat_alt unat_of_nat
        MAX_HOST_QUEUE_SOURCE_BYTES_def simp del: of_nat_sum)
qed

lemma replace_entries_iff:
  "replace_entries self entries = Inr self' \<longleftrightarrow> unat (hq_revision self) < U64_MAX \<and>
     self' = \<lparr>hq_entries = entries, hq_revision = hq_revision self + 1\<rparr>"
  by (cases self) (auto simp: replace_entries_def next_revision_def try_bind_Inr_iff ok_or_def checked_add_def U64_MAX_def
      split: option.splits if_splits)

subsection \<open>What the operations accept\<close>

lemma check_revision_iff [simp]: "check_revision self r = Inr () \<longleftrightarrow> r = hq_revision self"
  by (auto simp: check_revision_def)

lemma collect_then_total:
  assumes "sources_of sources seen"
  shows "(\<exists>sources'. collect_sources entries sources = Inr sources' \<and> validate_source_total sources' = Inr ()) \<longleftrightarrow>
    sources_agree (seen @ entries) \<and>
    sum source_bytes (set (map source_key (seen @ entries))) \<le> unat MAX_HOST_QUEUE_SOURCE_BYTES"
  using collect_sources_ok [OF assms, of entries] validate_source_total_iff sources_of_agree by blast

lemma queue_append_iff:
  assumes "entries_ok (hq_entries self)" and "entries \<noteq> []"
  shows "queue_append self r entries = Inr self' \<longleftrightarrow> r = hq_revision self \<and> entries_ok (hq_entries self @ entries) \<and>
    replace_entries self (hq_entries self @ entries) = Inr self'"
proof -
  have "sources_of [] []"
    by (simp add: sources_of_def)
  moreover have "sources_agree ([] @ hq_entries self)" and distinct: "distinct (map qe_entry_id (hq_entries self))"
    using assms(1) by (simp_all add: entries_ok_def)
  ultimately obtain sources where sources: "collect_sources (hq_entries self) [] = Inr sources" "sources_of sources (hq_entries self)"
    using collect_sources_ok [of "[]" "[]" "hq_entries self"] by auto
  have "queue_append self r entries = Inr self' \<longleftrightarrow> r = hq_revision self \<and>
      length (hq_entries self @ entries) \<le> MAX_HOST_QUEUE_ENTRIES \<and>
      distinct (map qe_entry_id (hq_entries self @ entries)) \<and>
      (\<exists>sources'. collect_sources entries sources = Inr sources' \<and> validate_source_total sources' = Inr ()) \<and>
      replace_entries self (hq_entries self @ entries) = Inr self'"
    using assms(2) distinct sources(1)
    by (auto simp: queue_append_def try_bind_Inr_iff add_entries_collect MAX_HOST_QUEUE_ENTRIES_def usize_max_def)
  then show ?thesis
    unfolding collect_then_total [OF sources(2)] entries_ok_def by blast
qed

lemma replace_all_iff:
  "replace_all self r entries = Inr self' \<longleftrightarrow> r = hq_revision self \<and> entries_ok entries \<and>
     (if entries = hq_entries self then self' = self else replace_entries self entries = Inr self')"
proof -
  have "sources_of [] []"
    by (simp add: sources_of_def)
  note total = collect_then_total [OF this, of entries, simplified]
  have "replace_all self r entries = Inr self' \<longleftrightarrow> r = hq_revision self \<and> length entries \<le> MAX_HOST_QUEUE_ENTRIES \<and>
      distinct (map qe_entry_id entries) \<and>
      (\<exists>sources'. collect_sources entries [] = Inr sources' \<and> validate_source_total sources' = Inr ()) \<and>
      (if entries = hq_entries self then self' = self else replace_entries self entries = Inr self')"
    by (auto simp: replace_all_def try_bind_Inr_iff has_duplicate_id_iff)
  then show ?thesis
    unfolding total entries_ok_def by auto
qed

text \<open>Reordering by the ids of all entries is a permutation.\<close>

lemma find_entry_Some:
  "find (\<lambda>entry. qe_entry_id entry = entry_id) entries = Some entry \<Longrightarrow> entry \<in> set entries \<and> qe_entry_id entry = entry_id"
  by (auto simp: find_Some_iff)

lemma reorder_entries_ok:
  "reorder_entries entries ids reordered = Inr out \<Longrightarrow>
     distinct (map qe_entry_id reordered) \<Longrightarrow> set reordered \<subseteq> set entries \<Longrightarrow>
     map qe_entry_id out = map qe_entry_id reordered @ ids \<and> set out \<subseteq> set entries \<and>
       distinct (map qe_entry_id reordered @ ids)"
proof (induction entries ids reordered rule: reorder_entries.induct)
  case (2 entries entry_id ids reordered)
  then obtain entry where entry: "find (\<lambda>entry. qe_entry_id entry = entry_id) entries = Some entry"
    and fresh: "\<not> list_ex (\<lambda>entry. qe_entry_id entry = entry_id) reordered"
    and rest: "reorder_entries entries ids (reordered @ [entry]) = Inr out"
    by (auto split: option.splits if_splits)
  note found = find_entry_Some [OF entry]
  then have "distinct (map qe_entry_id (reordered @ [entry]))" "set (reordered @ [entry]) \<subseteq> set entries"
    using "2.prems"(2,3) fresh by (auto simp: list_ex_iff)
  from "2.IH" [OF entry fresh rest this] show ?case
    using found by simp
qed simp

lemma reorder_entries_total:
  "distinct (map qe_entry_id reordered @ ids) \<Longrightarrow> set ids \<subseteq> qe_entry_id ` set entries \<Longrightarrow>
     \<exists>out. reorder_entries entries ids reordered = Inr out"
proof (induction entries ids reordered rule: reorder_entries.induct)
  case (2 entries entry_id ids reordered)
  then obtain entry where entry: "find (\<lambda>entry. qe_entry_id entry = entry_id) entries = Some entry"
    by (cases "find (\<lambda>entry. qe_entry_id entry = entry_id) entries") (auto simp: find_None_iff)
  moreover have fresh: "\<not> list_ex (\<lambda>entry. qe_entry_id entry = entry_id) reordered"
    using "2.prems"(1) by (auto simp: list_ex_iff)
  moreover have "distinct (map qe_entry_id (reordered @ [entry]) @ ids)"
    using "2.prems"(1) find_entry_Some [OF entry] by auto
  ultimately show ?case
    using "2.IH" [OF entry fresh] "2.prems"(2) by simp
qed simp

lemma reorder_entries_mset:
  assumes "distinct (map qe_entry_id entries)" and "length ids = length entries"
    and "reorder_entries entries ids [] = Inr out"
  shows "mset out = mset entries" and "map qe_entry_id out = ids"
proof -
  have out: "map qe_entry_id out = ids" "set out \<subseteq> set entries" "distinct ids"
    using reorder_entries_ok [OF assms(3)] by simp_all
  then show "map qe_entry_id out = ids"
    by simp
  have distinct: "distinct out" "distinct entries"
    using out(1,3) assms(1) by (auto simp: distinct_map)
  then have "card (set out) = card (set entries)"
    using out(1) assms(2) by (metis distinct_card length_map)
  then have "set out = set entries"
    using out(2) by (simp add: card_subset_eq)
  then show "mset out = mset entries"
    using distinct by (simp add: set_eq_iff_mset_eq_distinct)
qed

subsection \<open>The invariant and the revision\<close>

lemma entries_ok_part:
  assumes "entries_ok entries" and "set part \<subseteq> set entries" and "distinct (map qe_entry_id part)"
    and "length part \<le> length entries"
  shows "entries_ok part"
proof -
  have keys: "set (map source_key part) \<subseteq> set (map source_key entries)"
    using assms(2) by auto
  then have "sum source_bytes (set (map source_key part)) \<le> sum source_bytes (set (map source_key entries))"
    by (intro sum_mono2) simp_all
  moreover have "sources_agree part"
    using assms(1) keys by (auto simp: entries_ok_def sources_agree_def intro: inj_on_subset)
  ultimately show ?thesis
    using assms by (simp add: entries_ok_def)
qed

lemma set_remove_at: "set (remove_at i xs) \<subseteq> set xs"
  by (auto simp: remove_at_def dest: in_set_takeD in_set_dropD)

lemma distinct_remove_at: "distinct xs \<Longrightarrow> distinct (remove_at i xs)"
  by (simp add: remove_at_def set_take_disj_set_drop_if_distinct)

lemma map_remove_at: "map f (remove_at i xs) = remove_at i (map f xs)"
  by (simp add: remove_at_def take_map drop_map)

lemma entries_ok_remove_at:
  assumes "entries_ok entries"
  shows "entries_ok (remove_at i entries)"
proof (rule entries_ok_part [OF assms set_remove_at])
  show "distinct (map qe_entry_id (remove_at i entries))"
    using assms by (simp add: entries_ok_def map_remove_at distinct_remove_at)
  show "length (remove_at i entries) \<le> length entries"
    by (simp add: remove_at_def)
qed

lemma entries_ok_take:
  assumes "entries_ok entries"
  shows "entries_ok (take n entries)"
  using assms by (intro entries_ok_part [OF assms set_take_subset]) (simp_all add: entries_ok_def flip: take_map)

lemma entries_ok_mset:
  assumes "mset xs = mset ys" and "entries_ok ys"
  shows "entries_ok xs"
proof (rule entries_ok_part [OF assms(2)])
  have "mset (map qe_entry_id xs) = mset (map qe_entry_id ys)"
    using assms(1) by simp
  from mset_eq_imp_distinct_iff [OF this] show "distinct (map qe_entry_id xs)"
    using assms(2) by (simp add: entries_ok_def)
qed (use assms(1) in \<open>auto dest: mset_eq_setD mset_eq_length\<close>)

text \<open>Every accepted call names the current revision; it changes nothing or replaces the entries.\<close>

lemma perform_queue_call_shape:
  assumes "perform_queue_call self c = Inr self'"
  shows "call_revision c = hq_revision self"
    and "self' = self \<or> (\<exists>entries. entries \<noteq> hq_entries self \<and> replace_entries self entries = Inr self')"
proof -
  have short: "remove_at i xs \<noteq> xs" if "i < length xs" for i and xs :: "queue_entry list"
    using that by (auto simp: remove_at_def dest!: arg_cong [where f = length])
  have position: "position entry_id entries = Some i \<Longrightarrow> i < length entries" for entry_id entries i
    by (induction entry_id entries arbitrary: i rule: position.induct) (auto split: if_splits)
  have truncated: "take n xs \<noteq> xs" if "length xs \<noteq> n" "n \<le> length xs" for n and xs :: "queue_entry list"
    using that by (auto dest!: arg_cong [where f = length])
  show "call_revision c = hq_revision self"
    using assms by (cases c) (auto simp: queue_append_def replace_all_def reorder_def queue_remove_def complete_current_def
        queue_clear_def try_bind_Inr_iff)
  show "self' = self \<or> (\<exists>entries. entries \<noteq> hq_entries self \<and> replace_entries self entries = Inr self')"
  proof (cases c)
    case (Remove r entry_id locked)
    then show ?thesis
      using assms by (auto simp: queue_remove_def try_bind_Inr_iff split: option.splits if_splits dest!: position short)
  next
    case (CompleteCurrent r)
    then show ?thesis
      using assms short [of 0 "hq_entries self"] by (auto simp: complete_current_def try_bind_Inr_iff split: if_splits)
  next
    case (Clear r locked)
    let ?n = "if locked \<and> hq_entries self \<noteq> [] then 1 else 0"
    have "self' = self \<or> length (hq_entries self) \<noteq> ?n \<and> replace_entries self (take ?n (hq_entries self)) = Inr self'"
      using assms Clear by (auto simp: queue_clear_def try_bind_Inr_iff Let_def split: if_splits)
    moreover have "?n \<le> length (hq_entries self)"
      by (auto simp: Suc_le_eq)
    ultimately show ?thesis
      using truncated by blast
  qed (use assms in \<open>auto simp: queue_append_def replace_all_def reorder_def try_bind_Inr_iff split: if_splits\<close>)
qed

lemma perform_queue_call_ok:
  assumes "entries_ok (hq_entries self)" and "perform_queue_call self c = Inr self'"
  shows "entries_ok (hq_entries self')"
proof (cases c)
  case (Append r entries)
  then show ?thesis
    using assms queue_append_iff [OF assms(1), of entries r self']
    by (cases "entries = []") (auto simp: replace_entries_iff queue_append_def try_bind_Inr_iff)
next
  case (ReplaceAll r entries)
  then show ?thesis
    using assms by (auto simp: replace_all_iff replace_entries_iff split: if_splits)
next
  case (Reorder r ids locked)
  then obtain out where "reorder_entries (hq_entries self) ids [] = Inr out" "length ids = length (hq_entries self)"
    and out: "self' = self \<or> hq_entries self' = out"
    using assms(2) by (auto simp: reorder_def try_bind_Inr_iff replace_entries_iff split: if_splits)
  then have "mset out = mset (hq_entries self)"
    using assms(1) by (intro reorder_entries_mset(1)) (simp_all add: entries_ok_def)
  then show ?thesis
    using out assms(1) entries_ok_mset by auto
next
  case (Remove r entry_id locked)
  then show ?thesis
    using assms by (auto simp: queue_remove_def try_bind_Inr_iff replace_entries_iff entries_ok_remove_at
        split: option.splits if_splits)
next
  case (CompleteCurrent r)
  then show ?thesis
    using assms by (auto simp: complete_current_def try_bind_Inr_iff replace_entries_iff entries_ok_remove_at split: if_splits)
next
  case (Clear r locked)
  then show ?thesis
    using assms by (auto simp: queue_clear_def try_bind_Inr_iff replace_entries_iff entries_ok_take Let_def split: if_splits)
qed

lemma run_queue_calls_ok: "entries_ok (hq_entries self) \<Longrightarrow> entries_ok (hq_entries (run_queue_calls self cs))"
  by (induction self cs rule: run_queue_calls.induct) (auto dest: perform_queue_call_ok split: sum.splits)

lemma perform_queue_call_stale:
  "call_revision c \<noteq> hq_revision self \<Longrightarrow>
     perform_queue_call self c = Inl (StaleRevision (call_revision c) (hq_revision self))"
  by (cases c) (simp_all add: queue_append_def replace_all_def reorder_def queue_remove_def complete_current_def
      queue_clear_def check_revision_def)

lemma perform_queue_call_revision:
  assumes "perform_queue_call self c = Inr self'"
  shows "unat (hq_revision self') = unat (hq_revision self) + (if hq_entries self' = hq_entries self then 0 else 1)"
proof -
  consider "self' = self" | entries where "entries \<noteq> hq_entries self" "replace_entries self entries = Inr self'"
    using perform_queue_call_shape(2) [OF assms] by blast
  then show ?thesis
  proof cases
    case 2
    then have "hq_entries self' \<noteq> hq_entries self" "hq_revision self' = hq_revision self + 1" "unat (hq_revision self) < U64_MAX"
      by (simp_all add: replace_entries_iff)
    then show ?thesis
      by (simp add: unat_word_ariths U64_MAX_def)
  qed simp
qed

lemma run_queue_calls_revision: "unat (hq_revision self) \<le> unat (hq_revision (run_queue_calls self cs))"
proof (induction self cs rule: run_queue_calls.induct)
  case (2 self c cs)
  then show ?case
    using perform_queue_call_revision [of self c] by (fastforce split: sum.splits)
qed simp

text \<open>
  C30: the host queue never violates its limits. After any sequence of calls on an empty queue,
  accepted or rejected, the queue has at most 100 entries with distinct ids, entries of one
  source agree on its size, and the distinct sources (8 GiB each where the size is unknown)
  amount to at most 16 GiB, computed without wrap-around.
\<close>

theorem host_queue_within_limits:
  "entries_ok (hq_entries (run_queue_calls host_queue_default calls))"
  by (rule run_queue_calls_ok) (simp add: host_queue_default_def entries_ok_def sources_agree_def)

text \<open>
  C36: no update is lost. When a call has changed the queue, every other call that was prepared for
  the revision before the change is rejected as stale, whatever calls were performed in between,
  and the rejection names both revisions.
\<close>

theorem queue_no_lost_updates:
  assumes "perform_queue_call self c = Inr self'" and "hq_entries self' \<noteq> hq_entries self"
    and "call_revision d = hq_revision self"
  shows "perform_queue_call (run_queue_calls self' cs) d =
    Inl (StaleRevision (hq_revision self) (hq_revision (run_queue_calls self' cs)))"
proof -
  have "unat (hq_revision self) < unat (hq_revision self')"
    using perform_queue_call_revision [OF assms(1)] assms(2) by simp
  then have "call_revision d \<noteq> hq_revision (run_queue_calls self' cs)"
    using run_queue_calls_revision [of self' cs] assms(3) by auto
  from perform_queue_call_stale [OF this] show ?thesis
    by (simp add: assms(3))
qed

definition example_source :: audio_source_descriptor where
  "example_source = \<lparr>asd_source_id = lit ''a'', asd_display_name = lit ''A'', asd_byte_length = Some 1000, asd_duration_ms = None\<rparr>"

definition example_entry :: "string \<Rightarrow> queue_entry" where
  "example_entry entry_id = \<lparr>qe_entry_id = lit entry_id, qe_source = example_source\<rparr>"

definition example_queue :: host_queue where
  "example_queue = \<lparr>hq_entries = [example_entry ''x'', example_entry ''y''], hq_revision = 1\<rparr>"

lemmas example_queue_defs = example_queue_def example_entry_def example_source_def

lemma example_append:
  "perform_queue_call host_queue_default (Append 0 [example_entry ''x'', example_entry ''y'']) = Inr example_queue"
  by (simp add: queue_append_def host_queue_default_def example_queue_defs note_source_def validate_source_total_def
      checked_add_def MAX_HOST_QUEUE_ENTRIES_def usize_max_def MAX_HOST_QUEUE_SOURCE_BYTES_def replace_entries_def
      next_revision_def ok_or_def check_revision_def)

theorem queue_no_lost_updates_witness:
  "perform_queue_call (run_queue_calls example_queue [CompleteCurrent 1]) (Clear 0 False) =
     Inl (StaleRevision 0 (hq_revision (run_queue_calls example_queue [CompleteCurrent 1])))"
  using queue_no_lost_updates [OF example_append, of "Clear 0 False" "[CompleteCurrent 1]"]
  by (simp add: example_queue_defs host_queue_default_def)

lemma map_id_unique:
  assumes "distinct (map qe_entry_id entries)" and "mset xs = mset entries" and "mset ys = mset entries"
    and "map qe_entry_id xs = map qe_entry_id ys"
  shows "xs = ys"
proof (rule map_inj_on [OF assms(4)])
  have "set xs \<union> set ys = set entries"
    using assms(2,3) by (metis mset_eq_setD sup.idem)
  then show "inj_on qe_entry_id (set xs \<union> set ys)"
    using assms(1) by (simp add: distinct_map)
qed

lemma reorder_entries_iff:
  assumes "distinct (map qe_entry_id entries)"
  shows "length ids = length entries \<and> reorder_entries entries ids [] = Inr out \<longleftrightarrow>
    mset ids = mset (map qe_entry_id entries) \<and> mset out = mset entries \<and> map qe_entry_id out = ids"
proof
  assume "length ids = length entries \<and> reorder_entries entries ids [] = Inr out"
  then have "mset out = mset entries" "map qe_entry_id out = ids"
    using reorder_entries_mset [OF assms] by blast+
  then show "mset ids = mset (map qe_entry_id entries) \<and> mset out = mset entries \<and> map qe_entry_id out = ids"
    by auto
next
  assume perm: "mset ids = mset (map qe_entry_id entries) \<and> mset out = mset entries \<and> map qe_entry_id out = ids"
  then have ids: "distinct ids" "length ids = length entries" "set ids = qe_entry_id ` set entries"
    using assms mset_eq_imp_distinct_iff [of ids "map qe_entry_id entries"] mset_eq_length [of ids "map qe_entry_id entries"]
      mset_eq_setD [of ids "map qe_entry_id entries"] by simp_all
  then obtain out' where out': "reorder_entries entries ids [] = Inr out'"
    using reorder_entries_total [of "[]" ids entries] by auto
  then have "out' = out"
    using reorder_entries_mset [OF assms ids(2) out'] perm map_id_unique [OF assms] by metis
  then show "length ids = length entries \<and> reorder_entries entries ids [] = Inr out"
    using ids(2) out' by simp
qed

lemma reorder_steps:
  "reorder self r ids locked = Inr self' \<longleftrightarrow> r = hq_revision self \<and>
     \<not> (locked \<and> hq_entries self \<noteq> [] \<and> hd ids \<noteq> qe_entry_id (hd (hq_entries self))) \<and>
     (\<exists>out. (length ids = length (hq_entries self) \<and> reorder_entries (hq_entries self) ids [] = Inr out) \<and>
       (if out = hq_entries self then self' = self else replace_entries self out = Inr self'))"
  by (cases "hq_entries self"; cases ids) (auto simp: reorder_def queue_current_def try_bind_Inr_iff split: if_splits)

text \<open>
  Reordering permutes. On a queue within its limits, \<open>reorder\<close> is accepted exactly when it
  names the current revision, the ids are those of the entries in some order, a locked current
  entry stays first, and a revision is left if the order changes; the queue then has the same
  entries in the order of the ids, and the next revision if the order changed.
\<close>

theorem queue_reorder_permutes:
  assumes "entries_ok (hq_entries self)"
  shows "reorder self r ids locked = Inr self' \<longleftrightarrow>
    r = hq_revision self \<and> mset ids = mset (map qe_entry_id (hq_entries self)) \<and>
    \<not> (locked \<and> hq_entries self \<noteq> [] \<and> hd ids \<noteq> qe_entry_id (hd (hq_entries self))) \<and>
    mset (hq_entries self') = mset (hq_entries self) \<and> map qe_entry_id (hq_entries self') = ids \<and>
    (if hq_entries self' = hq_entries self then self' = self
     else unat (hq_revision self) < U64_MAX \<and> hq_revision self' = hq_revision self + 1)"
proof -
  have "distinct (map qe_entry_id (hq_entries self))"
    using assms by (simp add: entries_ok_def)
  from reorder_entries_iff [OF this] show ?thesis
    unfolding reorder_steps by (cases self') (auto simp: replace_entries_iff split: if_splits)
qed

theorem queue_reorder_permutes_witness:
  "reorder example_queue 1 [lit ''y'', lit ''x''] False =
     Inr \<lparr>hq_entries = [example_entry ''y'', example_entry ''x''], hq_revision = 2\<rparr>"
proof -
  have "entries_ok (hq_entries example_queue)"
    using run_queue_calls_ok [of host_queue_default "[Append 0 [example_entry ''x'', example_entry ''y'']]"] example_append
    by (simp add: entries_ok_def host_queue_default_def sources_agree_def)
  note reorder = queue_reorder_permutes [OF this]
  show ?thesis
    unfolding reorder by (simp add: example_queue_defs U64_MAX_def add_mset_commute)
qed

end
