(* ===== verification/Secure_Replay.thy ===== *)
theory Secure_Replay
  imports Call_Runs "HOL-Library.AList"
begin

unbundle bit_operations_syntax

section \<open>Replay protection of authenticated datagrams\<close>

text \<open>
  \<open>transport/secure_replay.rs\<close>: one sliding window of 128 sequence numbers per verified peer and
  traffic purpose, fenced by the traffic-key generation. A window refines the set of all sequence
  numbers it has committed. The hash map of channels is an association list with distinct keys.
\<close>

definition REPLAY_BITS :: u64 where "REPLAY_BITS = 128"
definition MAX_PEER_CHANNELS :: usize where "MAX_PEER_CHANNELS = 512"

datatype datagram_purpose = PurposeAudio | PurposeSynchronization

text \<open>A fingerprint is an array of 32 bytes.\<close>

type_synonym fingerprint = "u8 list"

record replay_key =
  rk_peer_fingerprint :: fingerprint
  rk_generation :: u64
  rk_purpose :: datagram_purpose

datatype replay_error =
    InvalidIdentity
  | InvalidGeneration
  | TooManyPeers
  | UnknownKey
  | RetiredKey
  | WrongGeneration
  | Duplicate
  | TooOld

record replay_window =
  rw_highest :: "u64 option"
  rw_seen :: "128 word"

definition replay_window_default :: replay_window where
  "replay_window_default = \<lparr>rw_highest = None, rw_seen = 0\<rparr>"

definition window_check :: "replay_window \<Rightarrow> u64 \<Rightarrow> replay_error + unit" where
  "window_check self sequence =
     (case rw_highest self of
        None \<Rightarrow> Inr ()
      | Some highest \<Rightarrow>
          if sequence > highest then Inr ()
          else let distance = highest - sequence in
            if distance \<ge> REPLAY_BITS then Inl TooOld
            else if rw_seen self AND push_bit (unat distance) 1 \<noteq> 0 then Inl Duplicate
            else Inr ())"

definition window_commit :: "replay_window \<Rightarrow> u64 \<Rightarrow> replay_error + replay_window" where
  "window_commit self sequence =
     try_bind (window_check self sequence) (\<lambda>_.
     Inr (case rw_highest self of
            Some highest \<Rightarrow>
              if sequence > highest
              then let distance = sequence - highest in
                \<lparr>rw_highest = Some sequence,
                 rw_seen = (if distance \<ge> REPLAY_BITS then 1 else push_bit (unat distance) (rw_seen self) OR 1)\<rparr>
              else self\<lparr>rw_seen := rw_seen self OR push_bit (unat (highest - sequence)) 1\<rparr>
          | None \<Rightarrow> \<lparr>rw_highest = Some sequence, rw_seen = 1\<rparr>))"

record peer_channel =
  pc_generation :: u64
  pc_active :: bool
  pc_window :: replay_window

type_synonym channel_slot = "fingerprint \<times> datagram_purpose"
type_synonym secure_datagram_replay = "(channel_slot \<times> peer_channel) list"

definition replay_new :: secure_datagram_replay where
  "replay_new = []"

definition slot_of_key :: "replay_key \<Rightarrow> channel_slot" where
  "slot_of_key key = (rk_peer_fingerprint key, rk_purpose key)"

definition activate :: "secure_datagram_replay \<Rightarrow> replay_key \<Rightarrow> replay_error + secure_datagram_replay" where
  "activate self key =
     (if rk_peer_fingerprint key = replicate 32 0 then Inl InvalidIdentity
      else if rk_generation key = 0 then Inl InvalidGeneration
      else
        let slot = slot_of_key key;
            fresh = \<lparr>pc_generation = rk_generation key, pc_active = True, pc_window = replay_window_default\<rparr> in
        case map_of self slot of
          Some previous \<Rightarrow>
            if rk_generation key \<le> pc_generation previous then Inl WrongGeneration
            else Inr (AList.update slot fresh self)
        | None \<Rightarrow>
            if length self \<ge> MAX_PEER_CHANNELS then Inl TooManyPeers
            else Inr (AList.update slot fresh self))"

definition check_candidate :: "secure_datagram_replay \<Rightarrow> replay_key \<Rightarrow> u64 \<Rightarrow> replay_error + unit" where
  "check_candidate self key sequence =
     try_bind (ok_or (map_of self (slot_of_key key)) UnknownKey) (\<lambda>channel.
     if rk_generation key \<noteq> pc_generation channel then Inl WrongGeneration
     else if \<not> pc_active channel then Inl RetiredKey
     else window_check (pc_window channel) sequence)"

definition commit_verified ::
    "secure_datagram_replay \<Rightarrow> replay_key \<Rightarrow> u64 \<Rightarrow> replay_error + secure_datagram_replay" where
  "commit_verified self key sequence =
     try_bind (check_candidate self key sequence) (\<lambda>_.
     case map_of self (slot_of_key key) of
       None \<Rightarrow> Inl UnknownKey
     | Some channel \<Rightarrow>
         try_bind (window_commit (pc_window channel) sequence) (\<lambda>window.
         Inr (AList.update (slot_of_key key) (channel\<lparr>pc_window := window\<rparr>) self)))"

definition retire :: "secure_datagram_replay \<Rightarrow> replay_key \<Rightarrow> bool \<times> secure_datagram_replay" where
  "retire self key =
     (case map_of self (slot_of_key key) of
        None \<Rightarrow> (False, self)
      | Some channel \<Rightarrow>
          if pc_generation channel \<noteq> rk_generation key \<or> \<not> pc_active channel then (False, self)
          else (True, AList.update (slot_of_key key) (channel\<lparr>pc_active := False\<rparr>) self))"

subsection \<open>A window and the set of committed sequence numbers\<close>

definition spec_check :: "u64 set \<Rightarrow> u64 \<Rightarrow> replay_error + unit" where
  "spec_check committed sequence =
     (if committed = {} \<or> sequence > Max committed then Inr ()
      else if unat (Max committed) \<ge> unat sequence + 128 then Inl TooOld
      else if sequence \<in> committed then Inl Duplicate
      else Inr ())"

definition window_holds :: "replay_window \<Rightarrow> u64 set \<Rightarrow> bool" where
  "window_holds w committed \<longleftrightarrow> finite committed \<and>
     (case rw_highest w of
        None \<Rightarrow> committed = {}
      | Some highest \<Rightarrow> committed \<noteq> {} \<and> highest = Max committed \<and>
          (\<forall>d < 128. bit (rw_seen w) d \<longleftrightarrow> d \<le> unat highest \<and> highest - of_nat d \<in> committed))"

lemma window_holds_default: "window_holds replay_window_default {}"
  by (simp add: window_holds_def replay_window_default_def)

lemma window_check_refines:
  assumes "window_holds w committed"
  shows "window_check w sequence = spec_check committed sequence"
proof (cases "rw_highest w")
  case None
  then show ?thesis
    using assms by (simp add: window_holds_def window_check_def spec_check_def)
next
  case (Some highest)
  then have holds: "committed \<noteq> {}" "highest = Max committed"
    "\<forall>d < 128. bit (rw_seen w) d \<longleftrightarrow> d \<le> unat highest \<and> highest - of_nat d \<in> committed"
    using assms by (simp_all add: window_holds_def)
  show ?thesis
  proof (cases "sequence > highest")
    case True
    then show ?thesis
      using Some holds by (simp add: window_check_def spec_check_def)
  next
    case False
    then have distance: "unat (highest - sequence) = unat highest - unat sequence" "unat sequence \<le> unat highest"
      by (simp_all add: unat_sub word_le_nat_alt word_less_nat_alt)
    then have "bit (rw_seen w) (unat (highest - sequence)) \<longleftrightarrow> sequence \<in> committed"
      if "unat (highest - sequence) < 128"
      using that holds(3) by simp
    then show ?thesis
      using Some False distance holds(1,2)
      by (auto simp: window_check_def spec_check_def Let_def and_exp_eq_0_iff_not_bit REPLAY_BITS_def word_le_nat_alt)
  qed
qed

lemma unat_sub_of_nat:
  fixes s :: u64
  assumes "d \<le> unat s"
  shows "unat (s - of_nat d) = unat s - d"
proof -
  have "unat (of_nat d :: u64) = d"
    using assms unsigned_less [of s, where ?'a = nat] by (simp add: unat_of_nat)
  then show ?thesis
    using assms by (simp add: unat_sub word_le_nat_alt)
qed

text \<open>A committed sequence above the highest one shifts the window by the distance.\<close>

lemma window_shift:
  fixes seen :: "128 word" and h s :: u64
  assumes "\<forall>d < 128. bit seen d \<longleftrightarrow> d \<le> unat h \<and> h - of_nat d \<in> committed" and "h = Max committed" and "finite committed"
    and "h < s" and "d < 128"
  shows "bit (if s - h \<ge> REPLAY_BITS then 1 else push_bit (unat (s - h)) seen OR 1) d \<longleftrightarrow>
    d \<le> unat s \<and> s - of_nat d \<in> insert s committed"
proof -
  let ?k = "unat s - unat h"
  have k: "unat (s - h) = ?k" "unat h < unat s"
    using assms(4) by (simp_all add: unat_sub word_less_nat_alt less_imp_le)
  have bound: "unat c \<le> unat h" if "c \<in> committed" for c
    using Max_ge [OF assms(3) that] assms(2) by (simp add: word_le_nat_alt)
  have sub: "unat (s - of_nat d) = unat s - d" if "d \<le> unat s"
    using that by (rule unat_sub_of_nat)
  have below: "s - of_nat d \<notin> committed" if "d < ?k" "d \<le> unat s"
    using bound [of "s - of_nat d"] sub that by auto
  have shifted: "s - of_nat d = h - of_nat (d - ?k)" if "?k \<le> d" "d \<le> unat s"
    using unat_sub_of_nat [of "d - ?k" h] sub that k(2) by (simp add: word_unat_eq_iff)
  have zero: "s - of_nat d = s \<longleftrightarrow> d = 0" if "d \<le> unat s"
    unfolding word_unat_eq_iff [of _ s] using sub that by auto
  show ?thesis
  proof (cases "d \<le> unat s")
    case True
    show ?thesis
    proof (cases "d < ?k")
      case True
      then have "\<not> bit (push_bit (unat (s - h)) seen) d"
        by (simp add: bit_push_bit_iff k(1))
      then show ?thesis
        using below zero True \<open>d \<le> unat s\<close> by (simp add: bit_or_iff bit_1_iff)
    next
      case False
      then have "bit (push_bit (unat (s - h)) seen) d \<longleftrightarrow> bit seen (d - ?k)" and small: "\<not> s - h \<ge> REPLAY_BITS"
        using assms(5) by (simp_all add: bit_push_bit_iff k(1) REPLAY_BITS_def word_le_nat_alt)
      moreover have "bit seen (d - ?k) \<longleftrightarrow> d - ?k \<le> unat h \<and> h - of_nat (d - ?k) \<in> committed" "d - ?k \<le> unat h"
        using assms(1,5) True k(2) by (meson less_imp_diff_less, linarith)
      then have "bit seen (d - ?k) \<longleftrightarrow> s - of_nat d \<in> committed"
        using shifted False True by (metis not_less)
      moreover have "d \<noteq> 0"
        using False k(2) by simp
      ultimately show ?thesis
        using True zero by (simp add: bit_or_iff bit_1_iff)
    qed
  next
    case False
    then have "d \<noteq> 0" "\<not> bit seen (d - ?k)"
      using assms(1,5) k(2) by auto
    then show ?thesis
      using False by (simp add: bit_or_iff bit_1_iff bit_push_bit_iff k(1))
  qed
qed

lemma window_commit_refines:
  assumes "window_holds w committed"
  shows "window_commit w sequence = Inr w' \<Longrightarrow> window_holds w' (insert sequence committed)"
    and "(\<exists>w'. window_commit w sequence = Inr w') \<longleftrightarrow> spec_check committed sequence = Inr ()"
proof -
  show "(\<exists>w'. window_commit w sequence = Inr w') \<longleftrightarrow> spec_check committed sequence = Inr ()"
    by (auto simp: window_commit_def try_bind_Inr_iff window_check_refines [OF assms])
  assume commit: "window_commit w sequence = Inr w'"
  then have check: "spec_check committed sequence = Inr ()"
    by (auto simp: window_commit_def try_bind_Inr_iff window_check_refines [OF assms])
  have fin: "finite committed"
    using assms by (simp add: window_holds_def)
  show "window_holds w' (insert sequence committed)"
  proof (cases "rw_highest w")
    case None
    then have "w' = \<lparr>rw_highest = Some sequence, rw_seen = 1\<rparr>" "committed = {}"
      using commit assms by (auto simp: window_commit_def try_bind_Inr_iff window_holds_def)
    moreover have "d = 0" if "d \<le> unat sequence" "sequence - of_nat d = sequence" for d
      using unat_sub_of_nat [OF that(1)] that by simp
    ultimately show ?thesis
      by (auto simp: window_holds_def bit_1_iff)
  next
    case (Some highest)
    then have holds: "committed \<noteq> {}" "highest = Max committed"
      "\<forall>d < 128. bit (rw_seen w) d \<longleftrightarrow> d \<le> unat highest \<and> highest - of_nat d \<in> committed"
      using assms by (simp_all add: window_holds_def)
    show ?thesis
    proof (cases "highest < sequence")
      case True
      then have "w' = \<lparr>rw_highest = Some sequence, rw_seen =
          (if sequence - highest \<ge> REPLAY_BITS then 1 else push_bit (unat (sequence - highest)) (rw_seen w) OR 1)\<rparr>"
        using commit Some by (auto simp: window_commit_def try_bind_Inr_iff Let_def)
      moreover have "Max (insert sequence committed) = sequence"
        using True holds(1,2) fin by (simp add: Max_insert max_absorb1 less_imp_le del: Max_less_iff)
      ultimately show ?thesis
        using window_shift [OF holds(3,2) fin True] fin by (simp add: window_holds_def)
    next
      case False
      let ?n = "unat (highest - sequence)"
      have w': "w' = w\<lparr>rw_seen := rw_seen w OR push_bit ?n 1\<rparr>"
        using commit Some False by (auto simp: window_commit_def try_bind_Inr_iff Let_def)
      have n: "?n = unat highest - unat sequence" "unat sequence \<le> unat highest"
        using False by (simp_all add: unat_sub word_le_nat_alt word_less_nat_alt)
      have target: "d = ?n \<longleftrightarrow> d \<le> unat highest \<and> highest - of_nat d = sequence" for d
        using n unat_sub_of_nat [of d highest] by (auto simp: word_unat_eq_iff)
      have "bit (push_bit ?n 1 :: 128 word) d \<longleftrightarrow> d = ?n" if "d < 128" for d
        using that by (auto simp: bit_exp_iff)
      then have "\<forall>d < 128. bit (rw_seen w OR push_bit ?n 1) d \<longleftrightarrow>
          d \<le> unat highest \<and> highest - of_nat d \<in> insert sequence committed"
        using holds(3) target by (auto simp: bit_or_iff)
      moreover have "Max (insert sequence committed) = highest"
        using Max_insert [OF fin holds(1)] False holds(2) by (simp only: not_less max_absorb2)
      ultimately show ?thesis
        using fin Some unfolding window_holds_def w' by (simp del: Max_insert)
    qed
  qed
qed

subsection \<open>The registry over a session\<close>

datatype replay_call = Activate replay_key | CommitVerified replay_key u64 | Retire replay_key

text \<open>The events of a run are the accepted datagrams.\<close>

fun perform_replay_call ::
    "secure_datagram_replay \<Rightarrow> replay_call \<Rightarrow> (replay_key \<times> u64) list \<times> secure_datagram_replay" where
  "perform_replay_call self (Activate key) = ([], case activate self key of Inr self' \<Rightarrow> self' | Inl _ \<Rightarrow> self)"
| "perform_replay_call self (CommitVerified key sequence) =
     (case commit_verified self key sequence of Inr self' \<Rightarrow> ([(key, sequence)], self') | Inl _ \<Rightarrow> ([], self))"
| "perform_replay_call self (Retire key) = ([], snd (retire self key))"

abbreviation replay_run ::
    "secure_datagram_replay \<Rightarrow> replay_call list \<Rightarrow> (replay_key \<times> u64) list \<Rightarrow> secure_datagram_replay \<Rightarrow> bool" where
  "replay_run \<equiv> call_run (\<lambda>_ _. True) perform_replay_call"

definition accepted_for :: "(replay_key \<times> u64) list \<Rightarrow> replay_key \<Rightarrow> u64 set" where
  "accepted_for out key = {sequence. (key, sequence) \<in> set out}"

definition channel_key :: "channel_slot \<Rightarrow> u64 \<Rightarrow> replay_key" where
  "channel_key slot generation =
     \<lparr>rk_peer_fingerprint = fst slot, rk_generation = generation, rk_purpose = snd slot\<rparr>"

definition channel_ok :: "(replay_key \<times> u64) list \<Rightarrow> channel_slot \<Rightarrow> peer_channel \<Rightarrow> bool" where
  "channel_ok out slot channel \<longleftrightarrow>
     window_holds (pc_window channel) (accepted_for out (channel_key slot (pc_generation channel))) \<and>
     (\<forall>(key, sequence) \<in> set out. slot_of_key key = slot \<longrightarrow> rk_generation key \<le> pc_generation channel)"

definition replay_inv :: "(replay_key \<times> u64) list \<Rightarrow> secure_datagram_replay \<Rightarrow> bool" where
  "replay_inv out self \<longleftrightarrow> distinct out \<and> distinct (map fst self) \<and> length self \<le> MAX_PEER_CHANNELS \<and>
     (\<forall>(key, sequence) \<in> set out. slot_of_key key \<in> dom (map_of self)) \<and>
     (\<forall>slot channel. map_of self slot = Some channel \<longrightarrow> channel_ok out slot channel)"

lemma channel_key_slot: "channel_key (slot_of_key key) (rk_generation key) = key"
  by (simp add: channel_key_def slot_of_key_def)

lemma slot_of_channel_key [simp]: "slot_of_key (channel_key slot generation) = slot"
  by (simp add: channel_key_def slot_of_key_def)

lemma length_update: "length (AList.update k v xs) = (if k \<in> fst ` set xs then length xs else Suc (length xs))"
  by (induction xs) auto

lemma channel_ok_generation:
  "channel_ok out slot channel \<Longrightarrow> (key, sequence) \<in> set out \<Longrightarrow> slot_of_key key = slot \<Longrightarrow>
     rk_generation key \<le> pc_generation channel"
  by (auto simp: channel_ok_def)

lemma replay_inv_channel:
  assumes "replay_inv out self" and "(key, sequence) \<in> set out"
  obtains channel where "map_of self (slot_of_key key) = Some channel"
  using assms by (auto simp: replay_inv_def dom_def)

lemma replay_inv_channel_ok: "replay_inv out self \<Longrightarrow> map_of self slot = Some channel \<Longrightarrow> channel_ok out slot channel"
  unfolding replay_inv_def by blast

lemma replay_inv_update:
  assumes "replay_inv out self" and "channel_ok out slot channel"
    and "map_of self slot = None \<Longrightarrow> length self < MAX_PEER_CHANNELS"
  shows "replay_inv out (AList.update slot channel self)"
proof -
  have "length (AList.update slot channel self) \<le> MAX_PEER_CHANNELS"
    using assms(1,3) by (auto simp: length_update replay_inv_def map_of_eq_None_iff)
  moreover have "distinct (map fst (AList.update slot channel self))"
    using assms(1) by (simp add: replay_inv_def distinct_update)
  moreover have "\<forall>(key, sequence) \<in> set out. slot_of_key key \<in> dom (map_of (AList.update slot channel self))"
    using assms(1) by (auto simp: replay_inv_def update_conv')
  ultimately show ?thesis
    using assms(1,2) by (simp add: replay_inv_def update_conv')
qed

lemma activate_inv:
  assumes "replay_inv out self" and "activate self key = Inr self'"
  shows "replay_inv out self'"
proof -
  let ?fresh = "\<lparr>pc_generation = rk_generation key, pc_active = True, pc_window = replay_window_default\<rparr>"
  have self': "self' = AList.update (slot_of_key key) ?fresh self"
    and replaced: "\<And>previous. map_of self (slot_of_key key) = Some previous \<Longrightarrow> pc_generation previous < rk_generation key"
    and added: "map_of self (slot_of_key key) = None \<Longrightarrow> length self < MAX_PEER_CHANNELS"
    using assms(2) by (auto simp: activate_def Let_def split: if_splits option.splits)
  have older: "rk_generation k < rk_generation key" if k: "(k, q) \<in> set out" "slot_of_key k = slot_of_key key" for k q
  proof -
    obtain previous where previous: "map_of self (slot_of_key key) = Some previous"
      using replay_inv_channel [OF assms(1) k(1)] k(2) by metis
    then show ?thesis
      using channel_ok_generation [OF replay_inv_channel_ok [OF assms(1) previous] k] replaced by fastforce
  qed
  then have "accepted_for out key = {}"
    by (auto simp: accepted_for_def)
  then have "channel_ok out (slot_of_key key) ?fresh"
    using older by (auto simp: channel_ok_def channel_key_slot window_holds_default less_imp_le)
  then show ?thesis
    unfolding self' using added by (intro replay_inv_update assms(1)) auto
qed

lemma retire_inv:
  assumes "replay_inv out self"
  shows "replay_inv out (snd (retire self key))"
proof (cases "map_of self (slot_of_key key)")
  case (Some channel)
  have "channel_ok out (slot_of_key key) (channel\<lparr>pc_active := False\<rparr>)"
    using replay_inv_channel_ok [OF assms Some] by (simp add: channel_ok_def)
  then show ?thesis
    using assms Some by (auto simp: retire_def intro: replay_inv_update)
qed (use assms in \<open>simp add: retire_def\<close>)

text \<open>What the registry accepts, in terms of everything it has accepted so far.\<close>

lemma check_candidate_exact:
  assumes "replay_inv out self"
  shows "check_candidate self key sequence =
    (case map_of self (slot_of_key key) of
       None \<Rightarrow> Inl UnknownKey
     | Some channel \<Rightarrow>
         if rk_generation key \<noteq> pc_generation channel then Inl WrongGeneration
         else if \<not> pc_active channel then Inl RetiredKey
         else spec_check (accepted_for out key) sequence)"
proof (cases "map_of self (slot_of_key key)")
  case (Some channel)
  show ?thesis
  proof (cases "rk_generation key = pc_generation channel")
    case True
    then have "window_holds (pc_window channel) (accepted_for out key)"
      using replay_inv_channel_ok [OF assms Some] channel_key_slot [of key] by (simp add: channel_ok_def)
    then show ?thesis
      using True Some by (simp add: check_candidate_def ok_or_def window_check_refines)
  qed (use Some in \<open>simp add: check_candidate_def ok_or_def\<close>)
qed (simp add: check_candidate_def ok_or_def)

lemma spec_check_fresh: "finite committed \<Longrightarrow> spec_check committed sequence = Inr () \<Longrightarrow> sequence \<notin> committed"
  using leD [OF Max_ge [of committed sequence]] by (auto simp: spec_check_def simp del: Max_less_iff split: if_splits)

lemma accepted_for_append:
  "accepted_for (out @ [(key, sequence)]) k = (if k = key then insert sequence (accepted_for out k) else accepted_for out k)"
  by (auto simp: accepted_for_def)

lemma finite_accepted_for: "finite (accepted_for out key)"
proof -
  have "accepted_for out key \<subseteq> snd ` set out"
    by (force simp: accepted_for_def)
  then show ?thesis
    using finite_subset by blast
qed

lemma commit_verified_inv:
  assumes "replay_inv out self" and "commit_verified self key sequence = Inr self'"
  shows "replay_inv (out @ [(key, sequence)]) self'"
proof -
  obtain channel window where channel: "map_of self (slot_of_key key) = Some channel"
    and check: "check_candidate self key sequence = Inr ()"
    and window: "window_commit (pc_window channel) sequence = Inr window"
    and self': "self' = AList.update (slot_of_key key) (channel\<lparr>pc_window := window\<rparr>) self"
    using assms(2) by (auto simp: commit_verified_def try_bind_Inr_iff split: option.splits)
  have generation: "rk_generation key = pc_generation channel" and fresh: "spec_check (accepted_for out key) sequence = Inr ()"
    using check channel by (auto simp: check_candidate_exact [OF assms(1)] split: if_splits)
  let ?out = "out @ [(key, sequence)]"
  note old = replay_inv_channel_ok [OF assms(1)]
  have key: "channel_key (slot_of_key key) (pc_generation channel) = key"
    using generation channel_key_slot [of key] by simp
  have other: "channel_ok ?out slot c" if "map_of self slot = Some c" "slot \<noteq> slot_of_key key" for slot c
  proof -
    have "channel_key slot (pc_generation c) \<noteq> key"
      using that(2) by auto
    then show ?thesis
      using old [OF that(1)] that(2) by (auto simp: channel_ok_def accepted_for_append)
  qed
  have "window_holds window (insert sequence (accepted_for out key))"
    using window_commit_refines(1) [OF _ window] old [OF channel] key by (simp add: channel_ok_def)
  then have "channel_ok ?out (slot_of_key key) (channel\<lparr>pc_window := window\<rparr>)"
    using old [OF channel] generation key by (auto simp: channel_ok_def accepted_for_append)
  moreover have "(key, sequence) \<notin> set out"
    using spec_check_fresh [OF finite_accepted_for fresh] by (simp add: accepted_for_def)
  moreover have "slot_of_key key \<in> fst ` set self"
    using channel by (metis domI dom_map_of_conv_image_fst)
  then have "length self' = length self" "dom (map_of self') = dom (map_of self)"
    using channel by (auto simp: self' length_update update_conv')
  ultimately show ?thesis
    using assms(1) other channel unfolding replay_inv_def self' by (auto simp: distinct_update update_conv')
qed

lemma replay_run_inv:
  assumes "replay_run replay_new cs out self"
  shows "replay_inv out self"
  using assms
proof (induction rule: call_run.induct)
  case run_start
  show ?case
    by (simp add: replay_inv_def replay_new_def MAX_PEER_CHANNELS_def)
next
  case (run_call cs out s c es s')
  show ?case
  proof (cases c)
    case (Activate key)
    then show ?thesis
      using run_call.IH run_call.hyps(3) activate_inv by (auto split: sum.splits)
  next
    case (CommitVerified key sequence)
    then show ?thesis
      using run_call.IH run_call.hyps(3) commit_verified_inv by (auto split: sum.splits)
  next
    case (Retire key)
    then show ?thesis
      using run_call.IH run_call.hyps(3) retire_inv by auto
  qed
qed

definition example_key :: replay_key where
  "example_key = \<lparr>rk_peer_fingerprint = replicate 32 1, rk_generation = 1, rk_purpose = PurposeAudio\<rparr>"

definition example_replay_calls :: "replay_call list" where
  "example_replay_calls =
     Activate example_key # map (CommitVerified example_key) [200, 198, 198, 200, 327, 199, 326]"

definition example_accepted :: "(replay_key \<times> u64) list" where
  "example_accepted = [(example_key, 200), (example_key, 198), (example_key, 327), (example_key, 326)]"

fun channel_state :: "(replay_key \<times> u64) list \<times> secure_datagram_replay \<Rightarrow> (replay_key \<times> u64) list \<times> (u64 \<times> bool) option" where
  "channel_state (out, self) =
     (out, map_option (\<lambda>c. (pc_generation c, pc_active c)) (map_of self (slot_of_key example_key)))"

lemma example_replay:
  "map_option channel_state (call_exec (\<lambda>_ _. True) perform_replay_call replay_new example_replay_calls) =
     Some (example_accepted, Some (1, True))"
  by code_simp

lemma example_replay_run:
  obtains self channel where "replay_run replay_new example_replay_calls example_accepted self"
    and "map_of self (slot_of_key example_key) = Some channel" and "pc_generation channel = 1" and "pc_active channel"
  using example_replay call_exec_run by (force simp: map_option_case split: option.splits)

text \<open>
  C6: no authenticated datagram is accepted twice. Over any run of activations, retirements and
  commits on a new registry, no sequence number is committed twice for the same peer, purpose and
  traffic-key generation, however old or reordered the attempts are, and the registry never has
  more than 512 channels.
\<close>

theorem replay_never_accepted_twice:
  assumes "replay_run replay_new cs out self"
  shows "distinct out \<and> length self \<le> MAX_PEER_CHANNELS"
  using replay_run_inv [OF assms] by (simp add: replay_inv_def)

theorem replay_never_accepted_twice_witness:
  "\<exists>self. replay_run replay_new example_replay_calls example_accepted self \<and> length self \<le> MAX_PEER_CHANNELS"
proof -
  obtain self where run: "replay_run replay_new example_replay_calls example_accepted self"
    by (rule example_replay_run)
  then show ?thesis
    using replay_never_accepted_twice [OF run] by blast
qed

text \<open>
  C25: the 128-bit window refines the set of everything accepted. After any run, a candidate for an
  active channel's generation is accepted exactly when it is above the highest accepted sequence,
  or less than 128 below it and not accepted before; otherwise it is reported as a duplicate or
  as too old according to that set, and \<open>commit_verified\<close> succeeds exactly for those candidates.
\<close>

theorem replay_window_refines_history:
  assumes "replay_run replay_new cs out self"
  shows "check_candidate self key sequence =
      (case map_of self (slot_of_key key) of
         None \<Rightarrow> Inl UnknownKey
       | Some channel \<Rightarrow>
           if rk_generation key \<noteq> pc_generation channel then Inl WrongGeneration
           else if \<not> pc_active channel then Inl RetiredKey
           else spec_check (accepted_for out key) sequence) \<and>
    ((\<exists>self'. commit_verified self key sequence = Inr self') \<longleftrightarrow> check_candidate self key sequence = Inr ())"
proof -
  note inv = replay_run_inv [OF assms]
  have "\<exists>self'. commit_verified self key sequence = Inr self'" if check: "check_candidate self key sequence = Inr ()"
  proof -
    obtain channel where "map_of self (slot_of_key key) = Some channel" "window_check (pc_window channel) sequence = Inr ()"
      using check by (auto simp: check_candidate_def ok_or_def try_bind_Inr_iff split: option.splits if_splits)
    then show ?thesis
      using check by (auto simp: commit_verified_def window_commit_def try_bind_Inr_iff)
  qed
  moreover have "check_candidate self key sequence = Inr ()" if "commit_verified self key sequence = Inr self'" for self'
    using that by (auto simp: commit_verified_def try_bind_Inr_iff)
  ultimately show ?thesis
    using check_candidate_exact [OF inv] by blast
qed

theorem replay_window_refines_history_witness:
  "\<exists>self. replay_run replay_new example_replay_calls example_accepted self \<and>
     check_candidate self example_key 199 = Inl TooOld \<and> check_candidate self example_key 326 = Inl Duplicate \<and>
     check_candidate self example_key 200 = Inl Duplicate \<and> check_candidate self example_key 201 = Inr ()"
proof -
  obtain self channel where run: "replay_run replay_new example_replay_calls example_accepted self"
    and channel: "map_of self (slot_of_key example_key) = Some channel" "pc_generation channel = 1" "pc_active channel"
    by (rule example_replay_run)
  have accepted: "accepted_for example_accepted example_key = {200, 198, 327, 326}"
    by (auto simp: accepted_for_def example_accepted_def)
  have "check_candidate self example_key s = spec_check {200, 198, 327, 326} s" for s
    using replay_window_refines_history [OF run, of example_key s] channel accepted by (simp add: example_key_def)
  then show ?thesis
    using run by (auto simp: spec_check_def)
qed

end
