(* ===== verification/Clock_Sync.thy ===== *)
theory Clock_Sync
  imports F64_Order BTree_Map Call_Runs Domain_Enums
begin

section \<open>Clock synchronisation\<close>

text \<open>
  \<open>sync/types.rs\<close> and \<open>sync/estimator.rs\<close>: four-timestamp exchanges between a listener and its
  host, and the estimator that turns them into an offset. The newtypes \<open>LocalMonotonicMillis\<close>,
  \<open>HostMonotonicMillis\<close> and \<open>SyncCorrelationId\<close> are plain \<open>u64\<close> values, \<open>i128\<close> arithmetic on them is
  arithmetic on \<open>int\<close> (it cannot overflow), and a \<open>VecDeque\<close> is a list with its front first.
\<close>

subsection \<open>One exchange\<close>

definition checked_elapsed_since :: "u64 \<Rightarrow> u64 \<Rightarrow> u64 option" where
  "checked_elapsed_since self earlier = checked_sub self earlier"

record sync_exchange =
  sx_correlation_id :: u64
  sx_t1_local_send :: u64
  sx_t2_host_receive :: u64
  sx_t3_host_send :: u64
  sx_t4_local_receive :: u64

record sync_sample =
  sm_correlation_id :: u64
  sm_local_receive_time :: u64
  sm_round_trip_time_ms :: f64
  sm_offset_ms :: f64

datatype sync_timestamp_error =
    TimestampLocalClockMovedBackwards
  | TimestampHostClockMovedBackwards
  | TimestampHostProcessingExceedsRoundTrip

definition offset_twice :: "sync_exchange \<Rightarrow> int" where
  "offset_twice exchange =
     (int (unat (sx_t2_host_receive exchange)) - int (unat (sx_t1_local_send exchange))) +
     (int (unat (sx_t3_host_send exchange)) - int (unat (sx_t4_local_receive exchange)))"

definition from_exchange :: "sync_exchange \<Rightarrow> sync_timestamp_error + sync_sample" where
  "from_exchange exchange =
     try_bind (ok_or (checked_elapsed_since (sx_t4_local_receive exchange) (sx_t1_local_send exchange))
       TimestampLocalClockMovedBackwards) (\<lambda>local_round_trip.
     try_bind (ok_or (checked_elapsed_since (sx_t3_host_send exchange) (sx_t2_host_receive exchange))
       TimestampHostClockMovedBackwards) (\<lambda>host_processing.
     try_bind (ok_or (checked_sub local_round_trip host_processing) TimestampHostProcessingExceedsRoundTrip)
       (\<lambda>network_round_trip.
     Inr \<lparr>sm_correlation_id = sx_correlation_id exchange, sm_local_receive_time = sx_t4_local_receive exchange,
          sm_round_trip_time_ms = u64_to_f64 network_round_trip,
          sm_offset_ms = f64_div (f64_of_rat (of_int (offset_twice exchange))) (f64_of_rat 2)\<rparr>)))"

subsection \<open>The estimator\<close>

definition MAX_PENDING_PROBES :: usize where "MAX_PENDING_PROBES = 64"
definition MAX_ESTIMATOR_SAMPLES :: usize where "MAX_ESTIMATOR_SAMPLES = 128"
definition MAX_DRIFT_HISTORY_SAMPLES :: usize where "MAX_DRIFT_HISTORY_SAMPLES = 256"
definition PENDING_PROBE_MAX_AGE_MS :: u64 where "PENDING_PROBE_MAX_AGE_MS = 5000"
definition ACQUISITION_ADAPT_AFTER_REJECTIONS :: u64 where "ACQUISITION_ADAPT_AFTER_REJECTIONS = 3"
definition ACQUISITION_ADAPT_AFTER_MS :: u64 where "ACQUISITION_ADAPT_AFTER_MS = 750"
definition ACQUISITION_ADAPTIVE_CEILING_MS :: f64 where "ACQUISITION_ADAPTIVE_CEILING_MS = f64_of_rat 600"
definition ACQUISITION_HARD_CEILING_AFTER_MS :: u64 where "ACQUISITION_HARD_CEILING_AFTER_MS = 2000"
definition ACQUISITION_HARD_CEILING_MS :: f64 where "ACQUISITION_HARD_CEILING_MS = f64_of_rat 1000"
definition ACQUISITION_REJECTED_RTT_HISTORY :: usize where "ACQUISITION_REJECTED_RTT_HISTORY = 12"

record sync_estimator_config =
  ec_max_samples :: usize
  ec_max_accepted_rtt_ms :: f64
  ec_cadence_ms :: u64
  ec_drift_threshold_ms :: f64
  ec_drift_history_size :: usize

definition sync_estimator_config_default :: sync_estimator_config where
  "sync_estimator_config_default =
     \<lparr>ec_max_samples = 12, ec_max_accepted_rtt_ms = f64_of_rat 200, ec_cadence_ms = 2000,
      ec_drift_threshold_ms = f64_of_rat 18, ec_drift_history_size = 24\<rparr>"

datatype sync_estimator_error =
    InvalidConfiguration
  | DuplicateCorrelationId u64
  | PendingProbeLimitReached usize
  | StaleCorrelationId u64
  | CorrelationTimestampMismatch u64
  | EstimatorTimestamp sync_timestamp_error
  | EstimatorLocalClockMovedBackwards

definition sync_estimator_config_validate ::
    "sync_estimator_config \<Rightarrow> sync_estimator_error + sync_estimator_config" where
  "sync_estimator_config_validate self =
     (if 1 \<le> ec_max_samples self \<and> ec_max_samples self \<le> MAX_ESTIMATOR_SAMPLES \<and>
         is_finite (ec_max_accepted_rtt_ms self) \<and> f64_le (f64_of_rat 0) (ec_max_accepted_rtt_ms self) \<and>
         ec_cadence_ms self > 0 \<and>
         is_finite (ec_drift_threshold_ms self) \<and> f64_le (f64_of_rat 0) (ec_drift_threshold_ms self) \<and>
         1 \<le> ec_drift_history_size self \<and> ec_drift_history_size self \<le> MAX_DRIFT_HISTORY_SAMPLES
      then Inr self else Inl InvalidConfiguration)"

record sync_snapshot =
  sn_offset_ms :: f64
  sn_round_trip_time_ms :: f64
  sn_jitter_ms :: f64
  sn_confidence :: sync_confidence
  sn_skew_ppm :: f64
  sn_accepted_sample_count :: usize

definition sync_snapshot_default :: sync_snapshot where
  "sync_snapshot_default =
     \<lparr>sn_offset_ms = f64_of_rat 0, sn_round_trip_time_ms = f64_of_rat 0, sn_jitter_ms = f64_of_rat 0,
      sn_confidence = ConfidenceUnknown, sn_skew_ppm = f64_of_rat 0, sn_accepted_sample_count = 0\<rparr>"

record sync_acquisition_status =
  aq_rejected_sample_count :: u64
  aq_elapsed_ms :: u64
  aq_effective_rtt_limit_ms :: f64
  aq_degraded_lock :: bool

record sync_observation =
  ob_sample :: sync_sample
  ob_accepted :: bool
  ob_snapshot :: sync_snapshot
  ob_acquisition :: sync_acquisition_status

datatype sync_decision = DecisionWait | InitialProbeRequired | PeriodicProbeRequired | DriftProbeRequired

record clock_sync_estimator =
  es_config :: sync_estimator_config
  es_pending :: "(u64, u64) btree_map"
  es_accepted_samples :: "sync_sample list"
  es_drift_history :: "(u64 \<times> f64) list"
  es_last_accepted_sync_at :: "u64 option"
  es_acquisition_started_at :: "u64 option"
  es_rejected_acquisition_rtts :: "f64 list"
  es_acquisition_rejected_count :: u64
  es_degraded_lock :: bool

definition clock_sync_estimator_new :: "sync_estimator_config \<Rightarrow> sync_estimator_error + clock_sync_estimator" where
  "clock_sync_estimator_new config =
     try_bind (sync_estimator_config_validate config) (\<lambda>config.
     Inr \<lparr>es_config = config, es_pending = bt_empty, es_accepted_samples = [], es_drift_history = [],
          es_last_accepted_sync_at = None, es_acquisition_started_at = None, es_rejected_acquisition_rtts = [],
          es_acquisition_rejected_count = 0, es_degraded_lock = False\<rparr>)"

definition evict_stale_pending_probes :: "u64 \<Rightarrow> (u64, u64) btree_map \<Rightarrow> (u64, u64) btree_map" where
  "evict_stale_pending_probes now pending =
     filter (\<lambda>(_, sent_at). saturating_sub now sent_at < PENDING_PROBE_MAX_AGE_MS) pending"

definition begin_probe :: "clock_sync_estimator \<Rightarrow> u64 \<Rightarrow> u64 \<Rightarrow> (sync_estimator_error + unit) \<times> clock_sync_estimator" where
  "begin_probe self correlation_id local_send_time =
     (if bt_contains_key (es_pending self) correlation_id then (Inl (DuplicateCorrelationId correlation_id), self)
      else
        let self = self\<lparr>es_pending := evict_stale_pending_probes local_send_time (es_pending self)\<rparr> in
        if length (es_pending self) \<ge> MAX_PENDING_PROBES
        then (Inl (PendingProbeLimitReached MAX_PENDING_PROBES), self)
        else
          let self = (if es_accepted_samples self = [] \<and> es_acquisition_started_at self = None
                      then self\<lparr>es_acquisition_started_at := Some local_send_time\<rparr> else self) in
          (Inr (), self\<lparr>es_pending := bt_insert correlation_id local_send_time (es_pending self)\<rparr>))"

definition acquisition_elapsed_ms :: "clock_sync_estimator \<Rightarrow> u64 \<Rightarrow> u64" where
  "acquisition_elapsed_ms self now =
     (case es_acquisition_started_at self of None \<Rightarrow> 0 | Some started \<Rightarrow> saturating_sub now started)"

definition adaptive_limit :: "clock_sync_estimator \<Rightarrow> f64" where
  "adaptive_limit self =
     (let measured = sort_key f64_total_key (es_rejected_acquisition_rtts self);
          median = measured ! (length measured div 2) in
      f64_min (f64_max (f64_mul median (f64_of_rat (3 / 2))) (ec_max_accepted_rtt_ms (es_config self)))
        (f64_max ACQUISITION_ADAPTIVE_CEILING_MS (ec_max_accepted_rtt_ms (es_config self))))"

definition effective_rtt_limit_ms :: "clock_sync_estimator \<Rightarrow> u64 \<Rightarrow> f64" where
  "effective_rtt_limit_ms self now =
     (if es_accepted_samples self \<noteq> [] then ec_max_accepted_rtt_ms (es_config self)
      else
        let elapsed_ms = acquisition_elapsed_ms self now in
        if elapsed_ms \<ge> ACQUISITION_HARD_CEILING_AFTER_MS
        then f64_max (ec_max_accepted_rtt_ms (es_config self)) ACQUISITION_HARD_CEILING_MS
        else if elapsed_ms < ACQUISITION_ADAPT_AFTER_MS \<or>
          es_acquisition_rejected_count self < ACQUISITION_ADAPT_AFTER_REJECTIONS \<or>
          es_rejected_acquisition_rtts self = []
        then ec_max_accepted_rtt_ms (es_config self)
        else adaptive_limit self)"

definition acquisition_status :: "clock_sync_estimator \<Rightarrow> u64 \<Rightarrow> sync_acquisition_status" where
  "acquisition_status self now =
     \<lparr>aq_rejected_sample_count = es_acquisition_rejected_count self, aq_elapsed_ms = acquisition_elapsed_ms self now,
      aq_effective_rtt_limit_ms = effective_rtt_limit_ms self now, aq_degraded_lock = es_degraded_lock self\<rparr>"

definition classify_confidence :: "f64 \<Rightarrow> f64 \<Rightarrow> sync_confidence" where
  "classify_confidence round_trip_time_ms jitter_ms =
     (if f64_le round_trip_time_ms (f64_of_rat 20) \<and> f64_le jitter_ms (f64_of_rat 2) then ConfidenceExcellent
      else if f64_le round_trip_time_ms (f64_of_rat 50) \<and> f64_le jitter_ms (f64_of_rat 5) then ConfidenceGood
      else if f64_le round_trip_time_ms (f64_of_rat 90) \<and> f64_le jitter_ms (f64_of_rat 12) then ConfidenceFair
      else ConfidencePoor)"

definition usize_to_f64 :: "usize \<Rightarrow> f64" where
  "usize_to_f64 n = f64_of_rat (of_nat n)"

definition estimate_skew_ppm :: "(u64 \<times> f64) list \<Rightarrow> f64" where
  "estimate_skew_ppm history =
     (if length history < 3 then f64_of_rat 0
      else
        let origin = fst (hd history);
            points = map (\<lambda>(time, offset). (u64_to_f64 (saturating_sub time origin), offset)) history;
            divisor = usize_to_f64 (length points);
            x_mean = f64_div (f64_sum (map fst points)) divisor;
            y_mean = f64_div (f64_sum (map snd points)) divisor;
            numerator = f64_sum (map (\<lambda>(x, y). f64_mul (f64_sub x x_mean) (f64_sub y y_mean)) points);
            denominator = f64_sum (map (\<lambda>(x, _). f64_mul (f64_sub x x_mean) (f64_sub x x_mean)) points) in
        if f64_value denominator = Finite 0 then f64_of_rat 0
        else f64_mul (f64_div numerator denominator) (f64_of_rat 1000000))"

definition snapshot :: "clock_sync_estimator \<Rightarrow> sync_snapshot" where
  "snapshot self =
     (if es_accepted_samples self = [] then sync_snapshot_default
      else
        let selected = sort_key (\<lambda>s. f64_total_key (sm_round_trip_time_ms s)) (es_accepted_samples self);
            selected = take (max (length selected div 2) 1) selected;
            sample_count = length selected;
            divisor = usize_to_f64 sample_count;
            offset_ms = f64_div (f64_sum (map sm_offset_ms selected)) divisor;
            round_trip_time_ms = f64_div (f64_sum (map sm_round_trip_time_ms selected)) divisor;
            jitter_ms = (if sample_count = 1 then f64_of_rat 0
              else f64_div (f64_sum (map (\<lambda>s. f64_abs (f64_sub (sm_offset_ms s) offset_ms)) selected)) divisor) in
        \<lparr>sn_offset_ms = offset_ms, sn_round_trip_time_ms = round_trip_time_ms, sn_jitter_ms = jitter_ms,
         sn_confidence = classify_confidence round_trip_time_ms jitter_ms,
         sn_skew_ppm = estimate_skew_ppm (es_drift_history self),
         sn_accepted_sample_count = length (es_accepted_samples self)\<rparr>)"

text \<open>\<open>pop_front\<close> at the limit, then \<open>push_back\<close>.\<close>

definition push_bounded :: "usize \<Rightarrow> 'a \<Rightarrow> 'a list \<Rightarrow> 'a list" where
  "push_bounded limit x xs = (if length xs = limit then tl xs else xs) @ [x]"

definition record_sample :: "sync_sample \<Rightarrow> f64 \<Rightarrow> clock_sync_estimator \<Rightarrow> clock_sync_estimator" where
  "record_sample sample limit self =
     (if f64_le (sm_round_trip_time_ms sample) limit
      then self
        \<lparr>es_degraded_lock := es_degraded_lock self \<or>
           (es_accepted_samples self = [] \<and>
            f64_less (ec_max_accepted_rtt_ms (es_config self)) (sm_round_trip_time_ms sample)),
         es_accepted_samples := push_bounded (ec_max_samples (es_config self)) sample (es_accepted_samples self),
         es_drift_history := push_bounded (ec_drift_history_size (es_config self))
           (sm_local_receive_time sample, sm_offset_ms sample) (es_drift_history self),
         es_last_accepted_sync_at := Some (sm_local_receive_time sample)\<rparr>
      else if es_accepted_samples self = []
      then self
        \<lparr>es_acquisition_rejected_count := saturating_add (es_acquisition_rejected_count self) 1,
         es_rejected_acquisition_rtts := push_bounded ACQUISITION_REJECTED_RTT_HISTORY
           (sm_round_trip_time_ms sample) (es_rejected_acquisition_rtts self)\<rparr>
      else self)"

definition observe_response ::
    "clock_sync_estimator \<Rightarrow> u64 \<Rightarrow> u64 \<Rightarrow> u64 \<Rightarrow> u64 \<Rightarrow> u64 \<Rightarrow>
       (sync_estimator_error + sync_observation) \<times> clock_sync_estimator" where
  "observe_response self correlation_id echoed_local_send_time host_receive_time host_send_time local_receive_time =
     (case bt_get (es_pending self) correlation_id of
        None \<Rightarrow> (Inl (StaleCorrelationId correlation_id), self)
      | Some registered_send_time \<Rightarrow>
          let self = self\<lparr>es_pending := bt_remove correlation_id (es_pending self)\<rparr> in
          if registered_send_time \<noteq> echoed_local_send_time
          then (Inl (CorrelationTimestampMismatch correlation_id), self)
          else
            case from_exchange
              \<lparr>sx_correlation_id = correlation_id, sx_t1_local_send = registered_send_time,
               sx_t2_host_receive = host_receive_time, sx_t3_host_send = host_send_time,
               sx_t4_local_receive = local_receive_time\<rparr> of
              Inl error \<Rightarrow> (Inl (EstimatorTimestamp error), self)
            | Inr sample \<Rightarrow>
                let limit = effective_rtt_limit_ms self local_receive_time;
                    self = record_sample sample limit self in
                (Inr \<lparr>ob_sample = sample, ob_accepted = f64_le (sm_round_trip_time_ms sample) limit,
                      ob_snapshot = snapshot self,
                      ob_acquisition =
                        \<lparr>aq_rejected_sample_count = es_acquisition_rejected_count self,
                         aq_elapsed_ms = acquisition_elapsed_ms self local_receive_time,
                         aq_effective_rtt_limit_ms = limit, aq_degraded_lock = es_degraded_lock self\<rparr>\<rparr>, self))"

definition sync_decide :: "clock_sync_estimator \<Rightarrow> u64 \<Rightarrow> sync_snapshot \<Rightarrow> sync_estimator_error + sync_decision" where
  "sync_decide self now snap =
     (case es_last_accepted_sync_at self of
        None \<Rightarrow> Inr InitialProbeRequired
      | Some last_sync \<Rightarrow>
          try_bind (ok_or (checked_elapsed_since now last_sync) EstimatorLocalClockMovedBackwards) (\<lambda>elapsed.
          if f64_less (ec_drift_threshold_ms (es_config self)) (f64_abs (sn_offset_ms snap)) then Inr DriftProbeRequired
          else if elapsed \<ge> ec_cadence_ms (es_config self) then Inr PeriodicProbeRequired
          else Inr DecisionWait))"

subsection \<open>What one exchange measures\<close>

lemma from_exchange_iff:
  "from_exchange x = Inr s \<longleftrightarrow>
     unat (sx_t1_local_send x) \<le> unat (sx_t4_local_receive x) \<and>
     unat (sx_t2_host_receive x) \<le> unat (sx_t3_host_send x) \<and>
     unat (sx_t3_host_send x) - unat (sx_t2_host_receive x) \<le> unat (sx_t4_local_receive x) - unat (sx_t1_local_send x) \<and>
     s = \<lparr>sm_correlation_id = sx_correlation_id x, sm_local_receive_time = sx_t4_local_receive x,
          sm_round_trip_time_ms = u64_to_f64
            ((sx_t4_local_receive x - sx_t1_local_send x) - (sx_t3_host_send x - sx_t2_host_receive x)),
          sm_offset_ms = f64_div (f64_of_rat (of_int (offset_twice x))) (f64_of_rat 2)\<rparr>"
proof -
  have "checked_sub a b = (if unat b \<le> unat a then Some (a - b) else None)" for a b :: u64
    by (simp add: checked_sub_def word_less_nat_alt)
  then show ?thesis
    by (auto simp: from_exchange_def checked_elapsed_since_def try_bind_Inr_iff ok_or_def unat_sub word_le_nat_alt
        split: option.splits if_splits)
qed

lemma f64_half_exact:
  assumes "\<bar>k\<bar> < 2 ^ 53"
  shows "f64_value (f64_div (f64_of_rat (of_int k)) (f64_of_rat 2)) = Finite (of_int k / 2)"
  using f64_of_int_exact [OF assms] f64_of_int_exact [of 2] f64_of_half_exact [OF assms] by (simp add: f64_div_def)

definition millis :: "u64 \<Rightarrow> rat" where
  "millis t = of_nat (unat t)"

text \<open>
  C9: the measured offset is right up to half the measured round trip. When the host's clock is
  ahead of the listener's by \<open>\<theta>\<close>, the probe reaches the host no earlier than it was sent, the
  response arrives no earlier than it was sent, and no timestamp exceeds \<open>2 ^ 51\<close>
  milliseconds, then \<open>from_exchange\<close> succeeds, the sample's round-trip time is exactly the sum of
  the two network delays, and its offset differs from \<open>\<theta>\<close> by at most half of it.
\<close>

theorem sync_offset_error_bounded:
  fixes \<theta> :: rat
  assumes "millis (sx_t1_local_send x) + \<theta> \<le> millis (sx_t2_host_receive x)"
    and "sx_t2_host_receive x \<le> sx_t3_host_send x"
    and "millis (sx_t3_host_send x) \<le> millis (sx_t4_local_receive x) + \<theta>"
    and "max (millis (sx_t4_local_receive x)) (millis (sx_t3_host_send x)) < 2 ^ 51"
  shows "\<exists>s rtt offset. from_exchange x = Inr s \<and>
    f64_value (sm_round_trip_time_ms s) = Finite rtt \<and> f64_value (sm_offset_ms s) = Finite offset \<and>
    rtt = (millis (sx_t2_host_receive x) - \<theta> - millis (sx_t1_local_send x)) +
          (millis (sx_t4_local_receive x) + \<theta> - millis (sx_t3_host_send x)) \<and>
    \<bar>offset - \<theta>\<bar> \<le> rtt / 2"
proof -
  define t1 t2 t3 t4 where t: "t1 = unat (sx_t1_local_send x)" "t2 = unat (sx_t2_host_receive x)"
    "t3 = unat (sx_t3_host_send x)" "t4 = unat (sx_t4_local_receive x)"
  have bounds: "of_nat t1 + \<theta> \<le> of_nat t2" "t2 \<le> t3" "of_nat t3 \<le> of_nat t4 + \<theta>"
    "(of_nat t4 :: rat) < of_nat (2 ^ 51)" "(of_nat t3 :: rat) < of_nat (2 ^ 51)"
    using assms by (simp_all add: t millis_def word_le_nat_alt)
  then have small: "t3 < 2 ^ 51" "t4 < 2 ^ 51"
    by (simp_all only: of_nat_less_iff)
  have "(of_nat t1 + of_nat t3 :: rat) \<le> of_nat t2 + of_nat t4"
    using bounds(1,3) by linarith
  then have order: "t1 + t3 \<le> t2 + t4"
    by (simp flip: of_nat_add)
  define rtt where "rtt = (t4 - t1) - (t3 - t2)"
  have rtt: "rtt < 2 ^ 53" "int rtt = (int t4 - int t1) - (int t3 - int t2)"
    using order bounds(2) small by (simp_all add: rtt_def)
  let ?s = "\<lparr>sm_correlation_id = sx_correlation_id x, sm_local_receive_time = sx_t4_local_receive x,
    sm_round_trip_time_ms = u64_to_f64 ((sx_t4_local_receive x - sx_t1_local_send x) - (sx_t3_host_send x - sx_t2_host_receive x)),
    sm_offset_ms = f64_div (f64_of_rat (of_int (offset_twice x))) (f64_of_rat 2)\<rparr>"
  have ok: "from_exchange x = Inr ?s"
    using order bounds(2) unfolding from_exchange_iff t [symmetric] by simp
  have "unat ((sx_t4_local_receive x - sx_t1_local_send x) - (sx_t3_host_send x - sx_t2_host_receive x)) = rtt"
    using order bounds(2) by (simp add: rtt_def t unat_sub word_le_nat_alt)
  then have rtt_value: "f64_value (sm_round_trip_time_ms ?s) = Finite (of_nat rtt)"
    using f64_of_nat_exact [OF rtt(1)] by (simp add: u64_to_f64_def)
  have twice: "offset_twice x = (int t2 - int t1) + (int t3 - int t4)"
    by (simp add: offset_twice_def t)
  have "\<bar>offset_twice x\<bar> < 2 ^ 53"
    using small bounds(2) order unfolding twice by (auto simp: abs_less_iff)
  then have offset_value: "f64_value (sm_offset_ms ?s) = Finite (of_int (offset_twice x) / 2)"
    by (simp add: f64_half_exact)
  have rtt_sum: "(of_nat rtt :: rat) = (of_nat t2 - \<theta> - of_nat t1) + (of_nat t4 + \<theta> - of_nat t3)"
    using arg_cong [OF rtt(2), of "of_int :: int \<Rightarrow> rat"] by simp
  moreover have "\<bar>of_int (offset_twice x) / 2 - \<theta>\<bar> \<le> of_nat rtt / 2"
    using bounds(1,3) unfolding rtt_sum twice by (simp add: abs_le_iff field_simps)
  ultimately show ?thesis
    using ok rtt_value offset_value unfolding millis_def t [symmetric] by blast
qed

theorem sync_offset_error_bounded_witness:
  "\<exists>s rtt offset. from_exchange \<lparr>sx_correlation_id = 7, sx_t1_local_send = 2000, sx_t2_host_receive = 2015,
       sx_t3_host_send = 2017, sx_t4_local_receive = 2022\<rparr> = Inr s \<and>
     f64_value (sm_round_trip_time_ms s) = Finite rtt \<and> f64_value (sm_offset_ms s) = Finite offset \<and>
     rtt = 20 \<and> \<bar>offset - 3\<bar> \<le> 10"
  using sync_offset_error_bounded [of "\<lparr>sx_correlation_id = 7, sx_t1_local_send = 2000, sx_t2_host_receive = 2015,
      sx_t3_host_send = 2017, sx_t4_local_receive = 2022\<rparr>" 3] by (fastforce simp: millis_def)

subsection \<open>Runs of the estimator\<close>

datatype sync_call =
    BeginProbe u64 u64
  | ObserveResponse u64 u64 u64 u64 u64

text \<open>The events of a run: started probes, consumed responses (with the accepted sample, if any).\<close>

datatype sync_event = Started u64 | Consumed u64 "sync_sample option"

fun perform_sync_call :: "clock_sync_estimator \<Rightarrow> sync_call \<Rightarrow> sync_event list \<times> clock_sync_estimator" where
  "perform_sync_call self (BeginProbe correlation_id local_send_time) =
     (case begin_probe self correlation_id local_send_time of
        (Inr _, self') \<Rightarrow> ([Started correlation_id], self')
      | (Inl _, self') \<Rightarrow> ([], self'))"
| "perform_sync_call self (ObserveResponse correlation_id echoed host_receive host_send local_receive) =
     (case observe_response self correlation_id echoed host_receive host_send local_receive of
        (Inr observation, self') \<Rightarrow>
          ([Consumed correlation_id (if ob_accepted observation then Some (ob_sample observation) else None)], self')
      | (Inl (StaleCorrelationId _), self') \<Rightarrow> ([], self')
      | (Inl _, self') \<Rightarrow> ([Consumed correlation_id None], self'))"

abbreviation sync_run :: "clock_sync_estimator \<Rightarrow> sync_call list \<Rightarrow> sync_event list \<Rightarrow> clock_sync_estimator \<Rightarrow> bool" where
  "sync_run \<equiv> call_run (\<lambda>_ _. True) perform_sync_call"

fun accepted_sample :: "sync_event \<Rightarrow> sync_sample list" where
  "accepted_sample (Consumed correlation_id (Some sample)) = [sample]"
| "accepted_sample event = []"

definition accepted_in :: "sync_event list \<Rightarrow> sync_sample list" where
  "accepted_in out = concat (map accepted_sample out)"

definition started_count :: "u64 \<Rightarrow> sync_event list \<Rightarrow> nat" where
  "started_count correlation_id out = length (filter (\<lambda>e. e = Started correlation_id) out)"

definition consumed_count :: "u64 \<Rightarrow> sync_event list \<Rightarrow> nat" where
  "consumed_count correlation_id out = length (filter (\<lambda>e. \<exists>s. e = Consumed correlation_id s) out)"

text \<open>The bounds of the estimator's memory, and the balance of probes and responses.\<close>

definition estimator_bounded :: "clock_sync_estimator \<Rightarrow> bool" where
  "estimator_bounded self \<longleftrightarrow> bt_wf (es_pending self) \<and> length (es_pending self) \<le> MAX_PENDING_PROBES \<and>
     length (es_accepted_samples self) \<le> ec_max_samples (es_config self) \<and>
     length (es_drift_history self) \<le> ec_drift_history_size (es_config self) \<and>
     length (es_rejected_acquisition_rtts self) \<le> ACQUISITION_REJECTED_RTT_HISTORY"

definition pending_count :: "u64 \<Rightarrow> clock_sync_estimator \<Rightarrow> nat" where
  "pending_count correlation_id self = (if bt_contains_key (es_pending self) correlation_id then 1 else 0)"

lemma length_push_bounded: "0 < limit \<Longrightarrow> length xs \<le> limit \<Longrightarrow> length (push_bounded limit x xs) \<le> limit"
  by (auto simp: push_bounded_def)

lemma push_bounded_not_Nil [simp]: "push_bounded limit x xs \<noteq> []"
  by (simp add: push_bounded_def)

lemma evict_wf: "bt_wf m \<Longrightarrow> bt_wf (evict_stale_pending_probes now m)"
  by (simp add: evict_stale_pending_probes_def bt_wf_def sorted_wrt_map sorted_wrt_filter)

lemma length_evict: "length (evict_stale_pending_probes now m) \<le> length m"
  by (simp add: evict_stale_pending_probes_def)

lemma evict_subset: "set (evict_stale_pending_probes now m) \<subseteq> set m"
  by (auto simp: evict_stale_pending_probes_def)

lemma evict_get: "bt_wf m \<Longrightarrow> bt_contains_key (evict_stale_pending_probes now m) k \<Longrightarrow> bt_contains_key m k"
  using evict_subset [of now m] evict_wf [of m now] btree.entries_lookup
  by (fastforce simp: bt_contains_key_def)

lemma begin_probe_cases:
  assumes "begin_probe self correlation_id t = (result, self')"
  obtains (duplicate) "result = Inl (DuplicateCorrelationId correlation_id)" "self' = self"
      "bt_contains_key (es_pending self) correlation_id"
    | (full) "result = Inl (PendingProbeLimitReached MAX_PENDING_PROBES)"
      "self' = self\<lparr>es_pending := evict_stale_pending_probes t (es_pending self)\<rparr>"
      "length (evict_stale_pending_probes t (es_pending self)) \<ge> MAX_PENDING_PROBES"
    | (started) started where "result = Inr ()" "\<not> bt_contains_key (es_pending self) correlation_id"
      "self' = self\<lparr>es_acquisition_started_at := started,
        es_pending := bt_insert correlation_id t (evict_stale_pending_probes t (es_pending self))\<rparr>"
      "length (evict_stale_pending_probes t (es_pending self)) < MAX_PENDING_PROBES"
proof -
  let ?pending = "evict_stale_pending_probes t (es_pending self)"
  consider (dup) "bt_contains_key (es_pending self) correlation_id"
    | (full) "\<not> bt_contains_key (es_pending self) correlation_id" "length ?pending \<ge> MAX_PENDING_PROBES"
    | (room) "\<not> bt_contains_key (es_pending self) correlation_id" "length ?pending < MAX_PENDING_PROBES"
    by linarith
  then show thesis
  proof cases
    case room
    let ?started = "if es_accepted_samples self = [] \<and> es_acquisition_started_at self = None
      then Some t else es_acquisition_started_at self"
    have "begin_probe self correlation_id t =
        (Inr (), self\<lparr>es_acquisition_started_at := ?started, es_pending := bt_insert correlation_id t ?pending\<rparr>)"
      using room by (simp add: begin_probe_def Let_def)
    then show thesis
      using assms room by (intro that(3)) simp_all
  qed (use assms that(1,2) in \<open>simp_all add: begin_probe_def Let_def\<close>)
qed

lemma observe_response_cases:
  assumes "observe_response self correlation_id echoed host_receive host_send local_receive = (result, self')"
  obtains (stale) "result = Inl (StaleCorrelationId correlation_id)" "self' = self"
      "\<not> bt_contains_key (es_pending self) correlation_id"
    | (rejected) e where "result = Inl e" "\<forall>i. e \<noteq> StaleCorrelationId i"
      "bt_contains_key (es_pending self) correlation_id"
      "self' = self\<lparr>es_pending := bt_remove correlation_id (es_pending self)\<rparr>"
    | (sampled) observation limit where "result = Inr observation" "bt_contains_key (es_pending self) correlation_id"
      "limit = effective_rtt_limit_ms (self\<lparr>es_pending := bt_remove correlation_id (es_pending self)\<rparr>) local_receive"
      "ob_accepted observation = f64_le (sm_round_trip_time_ms (ob_sample observation)) limit"
      "self' = record_sample (ob_sample observation) limit (self\<lparr>es_pending := bt_remove correlation_id (es_pending self)\<rparr>)"
proof (cases "bt_get (es_pending self) correlation_id")
  case None
  then show thesis
    using assms by (intro that(1)) (simp_all add: observe_response_def bt_contains_key_def)
next
  case (Some registered)
  let ?self = "self\<lparr>es_pending := bt_remove correlation_id (es_pending self)\<rparr>"
  let ?exchange = "\<lparr>sx_correlation_id = correlation_id, sx_t1_local_send = registered, sx_t2_host_receive = host_receive,
    sx_t3_host_send = host_send, sx_t4_local_receive = local_receive\<rparr>"
  have known: "bt_contains_key (es_pending self) correlation_id"
    using Some by (simp add: bt_contains_key_def)
  consider (mismatch) "registered \<noteq> echoed" | (error) e where "registered = echoed" "from_exchange ?exchange = Inl e"
    | (sample) x where "registered = echoed" "from_exchange ?exchange = Inr x"
    by (cases "from_exchange ?exchange") blast+
  then show thesis
  proof cases
    case mismatch
    then show thesis
      using assms Some known
      by (intro that(2) [of "CorrelationTimestampMismatch correlation_id"]) (simp_all add: observe_response_def Let_def)
  next
    case error
    then show thesis
      using assms Some known by (intro that(2) [of "EstimatorTimestamp e"]) (simp_all add: observe_response_def Let_def)
  next
    case sample
    let ?limit = "effective_rtt_limit_ms ?self local_receive"
    obtain observation where "result = Inr observation" "ob_sample observation = x"
      "ob_accepted observation = f64_le (sm_round_trip_time_ms x) ?limit" "self' = record_sample x ?limit ?self"
      using assms Some sample by (auto simp: observe_response_def Let_def)
    then show thesis
      using known by (intro that(3) [of observation ?limit]) simp_all
  qed
qed

lemma record_sample_bounded:
  assumes "estimator_bounded self" and "0 < ec_max_samples (es_config self)" and "0 < ec_drift_history_size (es_config self)"
  shows "estimator_bounded (record_sample sample limit self)"
  using assms
  by (simp add: record_sample_def estimator_bounded_def length_push_bounded ACQUISITION_REJECTED_RTT_HISTORY_def)

lemma record_sample_fields [simp]:
  "es_config (record_sample sample limit self) = es_config self"
  "es_pending (record_sample sample limit self) = es_pending self"
  by (simp_all add: record_sample_def)

lemma length_bt_remove: "length (bt_remove k m) \<le> length m"
  by (simp add: bt_remove_def)

lemma perform_sync_call_config: "es_config (snd (perform_sync_call self c)) = es_config self"
proof (cases c)
  case (BeginProbe correlation_id t)
  obtain result self' where b: "begin_probe self correlation_id t = (result, self')"
    by fastforce
  then show ?thesis
    by (cases rule: begin_probe_cases) (simp_all add: BeginProbe b)
next
  case (ObserveResponse correlation_id echoed host_receive host_send local_receive)
  obtain result self' where
    o: "observe_response self correlation_id echoed host_receive host_send local_receive = (result, self')"
    by fastforce
  then show ?thesis
    by (cases rule: observe_response_cases) (simp_all add: ObserveResponse o split: sync_estimator_error.splits)
qed

lemma perform_sync_call_bounded:
  assumes "estimator_bounded self" and "0 < ec_max_samples (es_config self)" and "0 < ec_drift_history_size (es_config self)"
  shows "estimator_bounded (snd (perform_sync_call self c))"
proof (cases c)
  case (BeginProbe correlation_id t)
  obtain result self' where b: "begin_probe self correlation_id t = (result, self')"
    by fastforce
  let ?pending = "evict_stale_pending_probes t (es_pending self)"
  have wf: "bt_wf ?pending" "length ?pending \<le> MAX_PENDING_PROBES"
    using assms(1) evict_wf order_trans [OF length_evict] by (auto simp: estimator_bounded_def)
  from b show ?thesis
  proof (cases rule: begin_probe_cases)
    case (started started)
    then have "\<not> bt_contains_key ?pending correlation_id"
      using evict_get [of "es_pending self" t correlation_id] assms(1) by (auto simp: estimator_bounded_def)
    then have "bt_get ?pending correlation_id = None"
      by (simp add: bt_contains_key_def)
    then have "length (bt_insert correlation_id t ?pending) \<le> MAX_PENDING_PROBES"
      using started(4) btree.length_entries_insert [OF wf(1)] by simp
    then show ?thesis
      using assms(1) wf b BeginProbe started by (simp add: estimator_bounded_def btree.wf_insert)
  qed (use assms(1) wf b BeginProbe in \<open>simp_all add: estimator_bounded_def\<close>)
next
  case (ObserveResponse correlation_id echoed host_receive host_send local_receive)
  obtain result self' where
    o: "observe_response self correlation_id echoed host_receive host_send local_receive = (result, self')"
    by fastforce
  let ?self = "self\<lparr>es_pending := bt_remove correlation_id (es_pending self)\<rparr>"
  have removed: "estimator_bounded ?self"
    using assms(1) length_bt_remove [of correlation_id "es_pending self"]
    by (auto simp: estimator_bounded_def btree.wf_remove)
  from o have "self' = self \<or> self' = ?self \<or> (\<exists>sample limit. self' = record_sample sample limit ?self)"
    by (cases rule: observe_response_cases) blast+
  then have "estimator_bounded self'"
    using assms removed record_sample_bounded [OF removed] by auto
  moreover have "snd (perform_sync_call self c) = self'"
    by (simp add: ObserveResponse o split: sum.splits sync_estimator_error.splits)
  ultimately show ?thesis
    by simp
qed

subsection \<open>The acceptance gate\<close>

lemma f64_le_trans: "f64_le x y \<Longrightarrow> f64_le y z \<Longrightarrow> f64_le x z"
  by (auto simp: f64_le_def split: f64_number.splits)

lemma f64_max_value:
  "f64_value x = Finite a \<Longrightarrow> f64_value y = Finite b \<Longrightarrow> f64_value (f64_max x y) = Finite (max a b)"
  by (auto simp: f64_max_def f64_le_def max_def)

lemma f64_min_le_right: "f64_value y = Finite b \<Longrightarrow> f64_le (f64_min x y) y"
  by (auto simp: f64_min_def f64_le_def split: f64_number.splits if_splits)

lemma ceiling_values: "f64_value ACQUISITION_ADAPTIVE_CEILING_MS = Finite 600" "f64_value ACQUISITION_HARD_CEILING_MS = Finite 1000"
  using f64_of_int_exact [of 600] f64_of_int_exact [of 1000]
  by (simp_all add: ACQUISITION_ADAPTIVE_CEILING_MS_def ACQUISITION_HARD_CEILING_MS_def)

lemma effective_limit_bounded:
  assumes "f64_value (ec_max_accepted_rtt_ms (es_config self)) = Finite m"
  shows "f64_le (effective_rtt_limit_ms self now) (f64_max (ec_max_accepted_rtt_ms (es_config self)) ACQUISITION_HARD_CEILING_MS)"
proof -
  let ?m = "ec_max_accepted_rtt_ms (es_config self)"
  have hard: "f64_value (f64_max ?m ACQUISITION_HARD_CEILING_MS) = Finite (max m 1000)"
    and soft: "f64_value (f64_max ACQUISITION_ADAPTIVE_CEILING_MS ?m) = Finite (max 600 m)"
    using assms ceiling_values by (auto intro: f64_max_value)
  have "f64_le (adaptive_limit self) (f64_max ACQUISITION_ADAPTIVE_CEILING_MS ?m)"
    unfolding adaptive_limit_def Let_def by (rule f64_min_le_right [OF soft])
  then have "f64_le (adaptive_limit self) (f64_max ?m ACQUISITION_HARD_CEILING_MS)"
    by (rule f64_le_trans) (simp add: f64_le_def hard soft)
  then show ?thesis
    by (auto simp: effective_rtt_limit_ms_def Let_def f64_le_def hard assms)
qed

text \<open>
  The samples accepted so far: only the first one may exceed the configured limit, and the
  estimator remembers whether it did.
\<close>

definition gate_ok :: "clock_sync_estimator \<Rightarrow> sync_sample list \<Rightarrow> bool" where
  "gate_ok self samples \<longleftrightarrow> (es_accepted_samples self = [] \<longleftrightarrow> samples = []) \<and>
     (case samples of
        [] \<Rightarrow> \<not> es_degraded_lock self
      | first # rest \<Rightarrow>
          f64_le (sm_round_trip_time_ms first)
            (f64_max (ec_max_accepted_rtt_ms (es_config self)) ACQUISITION_HARD_CEILING_MS) \<and>
          (es_degraded_lock self \<longleftrightarrow> f64_less (ec_max_accepted_rtt_ms (es_config self)) (sm_round_trip_time_ms first)) \<and>
          list_all (\<lambda>s. f64_le (sm_round_trip_time_ms s) (ec_max_accepted_rtt_ms (es_config self))) rest)"

lemma gate_ok_pending [simp]:
  "gate_ok (self\<lparr>es_pending := p\<rparr>) samples = gate_ok self samples"
  "gate_ok (self\<lparr>es_acquisition_started_at := a\<rparr>) samples = gate_ok self samples"
  by (simp_all add: gate_ok_def split: list.splits)

lemma gate_ok_record:
  assumes "gate_ok self samples" and "f64_value (ec_max_accepted_rtt_ms (es_config self)) = Finite m"
    and "limit = effective_rtt_limit_ms self now"
  shows "gate_ok (record_sample sample limit self)
    (samples @ (if f64_le (sm_round_trip_time_ms sample) limit then [sample] else []))"
proof (cases samples)
  case Nil
  then have empty: "es_accepted_samples self = []" "\<not> es_degraded_lock self"
    using assms(1) by (simp_all add: gate_ok_def)
  have "f64_le (sm_round_trip_time_ms sample) (f64_max (ec_max_accepted_rtt_ms (es_config self)) ACQUISITION_HARD_CEILING_MS)"
    if "f64_le (sm_round_trip_time_ms sample) limit"
    using f64_le_trans [OF that [unfolded assms(3)] effective_limit_bounded [OF assms(2)]] .
  then show ?thesis
    using Nil empty by (auto simp: gate_ok_def record_sample_def)
next
  case (Cons first rest)
  then have "limit = ec_max_accepted_rtt_ms (es_config self)" "es_accepted_samples self \<noteq> []"
    using assms(1,3) by (simp_all add: gate_ok_def effective_rtt_limit_ms_def)
  then show ?thesis
    using assms(1) Cons by (auto simp: gate_ok_def record_sample_def)
qed

definition estimator_inv :: "sync_event list \<Rightarrow> clock_sync_estimator \<Rightarrow> bool" where
  "estimator_inv out self \<longleftrightarrow> estimator_bounded self \<and> gate_ok self (accepted_in out) \<and>
     (\<forall>i. consumed_count i out + pending_count i self \<le> started_count i out)"

lemma event_counts [simp]:
  "accepted_in [] = []" "accepted_in (xs @ ys) = accepted_in xs @ accepted_in ys"
  "consumed_count i [] = 0" "consumed_count i (xs @ ys) = consumed_count i xs + consumed_count i ys"
  "started_count i [] = 0" "started_count i (xs @ ys) = started_count i xs + started_count i ys"
  "accepted_in [e] = accepted_sample e"
  "consumed_count i [Consumed j s] = (if i = j then 1 else 0)" "consumed_count i [Started j] = 0"
  "started_count i [Started j] = (if i = j then 1 else 0)" "started_count i [Consumed j s] = 0"
  by (simp_all add: accepted_in_def consumed_count_def started_count_def)

lemma pending_count_evict:
  "bt_wf (es_pending self) \<Longrightarrow>
     pending_count i (self\<lparr>es_pending := evict_stale_pending_probes t (es_pending self)\<rparr>) \<le> pending_count i self"
  using evict_get [of "es_pending self" t i] by (auto simp: pending_count_def)

lemma pending_count_remove:
  assumes "bt_wf (es_pending self)" and "bt_contains_key (es_pending self) j"
  shows "pending_count i (self\<lparr>es_pending := bt_remove j (es_pending self)\<rparr>) + (if i = j then 1 else 0) = pending_count i self"
  using assms by (simp add: pending_count_def bt_contains_key_def btree.lookup_remove)

lemma pending_count_record [simp]: "pending_count i (record_sample sample limit self) = pending_count i self"
  by (simp add: pending_count_def)

lemma begin_probe_inv:
  assumes "estimator_inv out self" and "perform_sync_call self (BeginProbe correlation_id t) = (es, self')"
    and "estimator_bounded self'"
  shows "estimator_inv (out @ es) self'"
proof -
  obtain result s where b: "begin_probe self correlation_id t = (result, s)"
    by fastforce
  have wf: "bt_wf (es_pending self)" and counts: "\<And>i. consumed_count i out + pending_count i self \<le> started_count i out"
    using assms(1) by (simp_all add: estimator_inv_def estimator_bounded_def)
  let ?pending = "evict_stale_pending_probes t (es_pending self)"
  have evicted: "pending_count i (self\<lparr>es_pending := ?pending\<rparr>) \<le> pending_count i self" for i
    using pending_count_evict [OF wf] .
  from b show ?thesis
  proof (cases rule: begin_probe_cases)
    case duplicate
    then show ?thesis
      using assms b by simp
  next
    case full
    then have "es = []" "self' = self\<lparr>es_pending := ?pending\<rparr>"
      using assms(2) b by simp_all
    then show ?thesis
      using assms(1,3) order_trans [OF add_left_mono [OF evicted] counts] by (simp add: estimator_inv_def)
  next
    case (started started)
    then have es: "es = [Started correlation_id]"
      and self': "self' = self\<lparr>es_acquisition_started_at := started, es_pending := bt_insert correlation_id t ?pending\<rparr>"
      using assms(2) b by simp_all
    have inserted: "pending_count i self' \<le> pending_count i (self\<lparr>es_pending := ?pending\<rparr>) + (if i = correlation_id then 1 else 0)" for i
      unfolding self' by (simp add: pending_count_def bt_contains_key_def btree.lookup_insert evict_wf wf)
    have "consumed_count i out + pending_count i self' \<le> started_count i out + (if i = correlation_id then 1 else 0)" for i
      using counts [of i] evicted [of i] inserted [of i] by linarith
    moreover have "gate_ok self' (accepted_in out)"
      using assms(1) unfolding self' by (simp add: estimator_inv_def)
    ultimately show ?thesis
      using assms(3) by (simp add: estimator_inv_def es)
  qed
qed

lemma observe_response_inv:
  assumes "estimator_inv out self" and "f64_value (ec_max_accepted_rtt_ms (es_config self)) = Finite m"
    and "perform_sync_call self (ObserveResponse correlation_id echoed host_receive host_send local_receive) = (es, self')"
    and "estimator_bounded self'"
  shows "estimator_inv (out @ es) self'"
proof -
  obtain result s where o: "observe_response self correlation_id echoed host_receive host_send local_receive = (result, s)"
    by fastforce
  let ?self = "self\<lparr>es_pending := bt_remove correlation_id (es_pending self)\<rparr>"
  have wf: "bt_wf (es_pending self)" and gate: "gate_ok self (accepted_in out)"
    and counts: "\<And>i. consumed_count i out + pending_count i self \<le> started_count i out"
    using assms(1) by (simp_all add: estimator_inv_def estimator_bounded_def)
  have removed: "consumed_count i out + (if i = correlation_id then 1 else 0) + pending_count i ?self \<le> started_count i out"
    if "bt_contains_key (es_pending self) correlation_id" for i
    using counts [of i] pending_count_remove [OF wf that, of i] by linarith
  from o show ?thesis
  proof (cases rule: observe_response_cases)
    case stale
    then show ?thesis
      using assms o by simp
  next
    case (rejected e)
    then have "es = [Consumed correlation_id None]" "self' = ?self"
      using assms(3) o by (auto split: sync_estimator_error.splits)
    then show ?thesis
      using assms(4) gate removed [OF rejected(3)] by (simp add: estimator_inv_def)
  next
    case (sampled observation limit)
    let ?sample = "ob_sample observation"
    have es: "es = [Consumed correlation_id (if f64_le (sm_round_trip_time_ms ?sample) limit then Some ?sample else None)]"
      and self': "self' = record_sample ?sample limit ?self"
      using assms(3) o sampled by auto
    have "gate_ok self' (accepted_in out @ (if f64_le (sm_round_trip_time_ms ?sample) limit then [?sample] else []))"
      using gate assms(2) sampled(3) unfolding self' by (intro gate_ok_record) simp_all
    then show ?thesis
      using assms(4) removed [OF sampled(2)] by (auto simp: estimator_inv_def es self' split: if_splits)
  qed
qed

lemma sync_run_inv:
  assumes "sync_run self0 cs out self" and "clock_sync_estimator_new config = Inr self0"
  shows "estimator_inv out self \<and> es_config self = config"
  using assms
proof (induction rule: call_run.induct)
  case run_start
  then show ?case
    by (auto simp: clock_sync_estimator_new_def sync_estimator_config_validate_def estimator_inv_def estimator_bounded_def
        gate_ok_def pending_count_def bt_contains_key_def btree.lookup_empty btree.wf_empty split: if_splits)
      (simp_all add: bt_empty_def)
next
  case (run_call cs out s c es s')
  have config: "0 < ec_max_samples config" "0 < ec_drift_history_size config" "is_finite (ec_max_accepted_rtt_ms config)"
    using run_call.prems by (auto simp: clock_sync_estimator_new_def sync_estimator_config_validate_def split: if_splits)
  then obtain m where m: "f64_value (ec_max_accepted_rtt_ms config) = Finite m"
    by (auto simp: is_finite_def split: f64_number.splits)
  have inv: "estimator_inv out s" "es_config s = config"
    using run_call by simp_all
  have s': "es_config s' = config" "estimator_bounded s'"
    using perform_sync_call_config [of s c] perform_sync_call_bounded [of s c] inv config run_call.hyps(3)
    by (simp_all add: estimator_inv_def)
  show ?case
  proof (cases c)
    case (BeginProbe correlation_id t)
    then show ?thesis
      using begin_probe_inv [OF inv(1) run_call.hyps(3) [unfolded BeginProbe] s'(2)] s'(1) by simp
  next
    case (ObserveResponse correlation_id echoed host_receive host_send local_receive)
    have "f64_value (ec_max_accepted_rtt_ms (es_config s)) = Finite m"
      using m inv(2) by simp
    from observe_response_inv [OF inv(1) this run_call.hyps(3) [unfolded ObserveResponse] s'(2)] show ?thesis
      using s'(1) by simp
  qed
qed

text \<open>
  C26: only the first lock may be degraded. Over any run of probes and responses, every sample
  accepted after the first one has a round trip within the configured limit; the first one is
  within the larger of that limit and the hard ceiling of one second, and the estimator reports a
  degraded lock exactly when the first accepted sample exceeded the configured limit.
\<close>

theorem sync_gate_strict_after_lock:
  assumes "clock_sync_estimator_new config = Inr self0" and "sync_run self0 cs out self"
  shows "case accepted_in out of
      [] \<Rightarrow> \<not> es_degraded_lock self
    | first # rest \<Rightarrow>
        f64_le (sm_round_trip_time_ms first) (f64_max (ec_max_accepted_rtt_ms config) ACQUISITION_HARD_CEILING_MS) \<and>
        (es_degraded_lock self \<longleftrightarrow> f64_less (ec_max_accepted_rtt_ms config) (sm_round_trip_time_ms first)) \<and>
        list_all (\<lambda>s. f64_le (sm_round_trip_time_ms s) (ec_max_accepted_rtt_ms config)) rest"
  using sync_run_inv [OF assms(2,1)] by (auto simp: estimator_inv_def gate_ok_def)

text \<open>A listener whose first response takes 100 ms and whose second one takes 400 ms.\<close>

definition slow_second_response :: "sync_call list" where
  "slow_second_response =
     [BeginProbe 1 1000, ObserveResponse 1 1000 5010 5011 1101, BeginProbe 2 3000, ObserveResponse 2 3000 7020 7021 3401]"

definition first_sample :: sync_sample where
  "first_sample = \<lparr>sm_correlation_id = 1, sm_local_receive_time = 1101, sm_round_trip_time_ms = u64_to_f64 100,
     sm_offset_ms = f64_div (f64_of_rat 7920) (f64_of_rat 2)\<rparr>"

lemma slow_second_response_exchanges:
  "from_exchange \<lparr>sx_correlation_id = 1, sx_t1_local_send = 1000, sx_t2_host_receive = 5010, sx_t3_host_send = 5011,
     sx_t4_local_receive = 1101\<rparr> = Inr first_sample"
  "\<exists>s. from_exchange \<lparr>sx_correlation_id = 2, sx_t1_local_send = 3000, sx_t2_host_receive = 7020, sx_t3_host_send = 7021,
     sx_t4_local_receive = 3401\<rparr> = Inr s \<and> sm_round_trip_time_ms s = u64_to_f64 400"
  by (simp_all add: from_exchange_iff first_sample_def offset_twice_def)

lemma response_times:
  "f64_le (u64_to_f64 100) (f64_of_rat 200)" "\<not> f64_le (u64_to_f64 400) (f64_of_rat 200)"
  "\<not> f64_less (f64_of_rat 200) (u64_to_f64 100)"
  using f64_of_nat_exact [of 100] f64_of_nat_exact [of 400] f64_of_int_exact [of 200]
  by (simp_all add: u64_to_f64_def f64_le_def f64_less_def)

lemma slow_second_response_exec:
  assumes "clock_sync_estimator_new sync_estimator_config_default = Inr self0"
  shows "\<exists>self. call_exec (\<lambda>_ _. True) perform_sync_call self0 slow_second_response =
    Some ([Started 1, Consumed 1 (Some first_sample), Started 2, Consumed 2 None], self)"
proof -
  obtain s2 where second: "from_exchange \<lparr>sx_correlation_id = 2, sx_t1_local_send = 3000, sx_t2_host_receive = 7020,
      sx_t3_host_send = 7021, sx_t4_local_receive = 3401\<rparr> = Inr s2" "sm_round_trip_time_ms s2 = u64_to_f64 400"
    using slow_second_response_exchanges(2) by blast
  have self0: "es_config self0 = sync_estimator_config_default" "es_pending self0 = []" "es_accepted_samples self0 = []"
    "es_acquisition_started_at self0 = None"
    using assms by (auto simp: clock_sync_estimator_new_def sync_estimator_config_validate_def bt_empty_def split: if_splits)
  have rtt: "sm_round_trip_time_ms first_sample = u64_to_f64 100"
    by (simp add: first_sample_def)
  show ?thesis
    by (simp add: call_exec_def slow_second_response_def begin_probe_def observe_response_def Let_def self0
        bt_contains_key_def bt_get_def bt_remove_def evict_stale_pending_probes_def saturating_sub_def
        MAX_PENDING_PROBES_def PENDING_PROBE_MAX_AGE_MS_def effective_rtt_limit_ms_def acquisition_elapsed_ms_def
        ACQUISITION_HARD_CEILING_AFTER_MS_def ACQUISITION_ADAPT_AFTER_MS_def
        slow_second_response_exchanges(1) second record_sample_def rtt response_times push_bounded_def
        sync_estimator_config_default_def)
qed

theorem sync_gate_strict_after_lock_witness:
  "\<exists>self0 self. clock_sync_estimator_new sync_estimator_config_default = Inr self0 \<and>
     sync_run self0 slow_second_response [Started 1, Consumed 1 (Some first_sample), Started 2, Consumed 2 None] self \<and>
     \<not> es_degraded_lock self"
proof -
  obtain self0 where new: "clock_sync_estimator_new sync_estimator_config_default = Inr self0"
    using f64_of_int_exact [of 200] f64_of_int_exact [of 18] f64_of_int_exact [of 0]
    by (simp add: clock_sync_estimator_new_def sync_estimator_config_validate_def sync_estimator_config_default_def
        MAX_ESTIMATOR_SAMPLES_def MAX_DRIFT_HISTORY_SAMPLES_def is_finite_def f64_le_def)
  obtain self where "call_exec (\<lambda>_ _. True) perform_sync_call self0 slow_second_response =
      Some ([Started 1, Consumed 1 (Some first_sample), Started 2, Consumed 2 None], self)"
    using slow_second_response_exec [OF new] by blast
  then have run: "sync_run self0 slow_second_response
      [Started 1, Consumed 1 (Some first_sample), Started 2, Consumed 2 None] self"
    by (rule call_exec_run)
  then show ?thesis
    using sync_gate_strict_after_lock [OF new run] new response_times
    by (auto simp: accepted_in_def first_sample_def sync_estimator_config_default_def)
qed

text \<open>
  C31: lost responses cannot stop the probing. After any run, at most 64 probes are pending; a
  response is consumed at most once per started probe; and starting a probe with a fresh
  correlation id fails only when 64 probes were sent within the last five seconds, so it succeeds
  whenever every pending probe is at least five seconds old.
\<close>

theorem sync_probing_recovers:
  assumes "clock_sync_estimator_new config = Inr self0" and "sync_run self0 cs out self"
  shows "length (es_pending self) \<le> MAX_PENDING_PROBES \<and> consumed_count i out \<le> started_count i out \<and>
    (\<not> bt_contains_key (es_pending self) i \<longrightarrow>
      (fst (begin_probe self i now) = Inr () \<longleftrightarrow>
        length (filter (\<lambda>(_, sent_at). unat now - unat sent_at < 5000) (es_pending self)) < MAX_PENDING_PROBES))"
proof -
  have inv: "estimator_inv out self"
    using sync_run_inv [OF assms(2,1)] by simp
  then have "consumed_count i out + pending_count i self \<le> started_count i out"
    by (simp add: estimator_inv_def)
  then have counts: "consumed_count i out \<le> started_count i out"
    by linarith
  have fresh: "saturating_sub now sent_at < PENDING_PROBE_MAX_AGE_MS \<longleftrightarrow> unat now - unat sent_at < 5000" for sent_at
    by (simp add: word_less_nat_alt unat_saturating_sub PENDING_PROBE_MAX_AGE_MS_def)
  have "fst (begin_probe self i now) = Inr () \<longleftrightarrow>
      length (evict_stale_pending_probes now (es_pending self)) < MAX_PENDING_PROBES"
    if "\<not> bt_contains_key (es_pending self) i"
    using that by (simp add: begin_probe_def Let_def)
  then show ?thesis
    using inv counts by (simp add: estimator_inv_def estimator_bounded_def evict_stale_pending_probes_def fresh)
qed

theorem sync_probing_recovers_witness:
  "\<exists>self0 out self. clock_sync_estimator_new sync_estimator_config_default = Inr self0 \<and>
     sync_run self0 [BeginProbe 1 1000, BeginProbe 2 1500, BeginProbe 1 2000] out self \<and>
     length (es_pending self) = 2 \<and> consumed_count 1 out \<le> started_count 1 out \<and>
     fst (begin_probe self 3 6000) = Inr ()"
proof -
  have "case clock_sync_estimator_new sync_estimator_config_default of Inl _ \<Rightarrow> False | Inr self0 \<Rightarrow>
      (case call_exec (\<lambda>_ _. True) perform_sync_call self0 [BeginProbe 1 1000, BeginProbe 2 1500, BeginProbe 1 2000] of
         None \<Rightarrow> False
       | Some (out, self) \<Rightarrow> length (es_pending self) = 2 \<and> \<not> bt_contains_key (es_pending self) 3 \<and>
           length (filter (\<lambda>(_, sent_at). unat (6000 :: u64) - unat sent_at < 5000) (es_pending self)) < MAX_PENDING_PROBES)"
    by code_simp
  then obtain self0 out self where new: "clock_sync_estimator_new sync_estimator_config_default = Inr self0"
    and exec: "call_exec (\<lambda>_ _. True) perform_sync_call self0 [BeginProbe 1 1000, BeginProbe 2 1500, BeginProbe 1 2000] = Some (out, self)"
    and pending: "length (es_pending self) = 2" "\<not> bt_contains_key (es_pending self) 3"
      "length (filter (\<lambda>(_, sent_at). unat (6000 :: u64) - unat sent_at < 5000) (es_pending self)) < MAX_PENDING_PROBES"
    by (auto split: sum.splits option.splits)
  note run = call_exec_run [OF exec]
  have "fst (begin_probe self 3 6000) = Inr ()" "consumed_count 1 out \<le> started_count 1 out"
    using sync_probing_recovers [OF new run, of 3 6000] sync_probing_recovers [OF new run, of 1] pending by blast+
  then show ?thesis
    using new run pending by blast
qed

end
