(* ===== verification/Host_Admission.thy ===== *)
theory Host_Admission
  imports Host_Queue
begin

section \<open>Admission policy and effects\<close>

text \<open>
  \<open>runtime/host_admission.rs\<close>: the policy that classifies a join request, plans an approval and
  decides whether a delivery commits it. \<open>runtime/effects.rs\<close>: the work the actor asks of the
  transport and of the storage, validated when it is built.
\<close>

subsection \<open>The policy\<close>

datatype join_rejection_reason = IncorrectInviteCode | DeviceNotApproved | HostRejected | HostUnavailable

primrec rejection_stable_name :: "join_rejection_reason \<Rightarrow> string" where
  "rejection_stable_name IncorrectInviteCode = ''incorrect_invite_code''"
| "rejection_stable_name DeviceNotApproved = ''device_not_approved''"
| "rejection_stable_name HostRejected = ''host_rejected''"
| "rejection_stable_name HostUnavailable = ''host_unavailable''"

datatype join_request_disposition =
    PendingManualDecision
  | AutoApprove bool
  | AutoReject join_rejection_reason

record trust_persistence_request =
  tpr_request_id :: request_id
  tpr_device_id :: device_id
  tpr_display_name :: str

record approval_delivery =
  ad_request_id :: request_id
  ad_device_id :: device_id
  ad_trusted_for_future :: bool
  ad_persistence_failed :: bool

datatype approval_preparation =
    PersistTrustFirst trust_persistence_request
  | Deliver approval_delivery

datatype trust_persistence_outcome = PersistenceCommitted | PersistenceFailed

datatype delivery_commit_disposition = Delivered | DeliveredWithFailures | NoRecipients | DeliveryFailed

fun commits_domain_decision :: "delivery_commit_disposition \<Rightarrow> bool" where
  "commits_domain_decision Delivered = True"
| "commits_domain_decision DeliveredWithFailures = True"
| "commits_domain_decision NoRecipients = False"
| "commits_domain_decision DeliveryFailed = False"

definition classify_join_request :: "host_draft \<Rightarrow> join_request_summary \<Rightarrow> join_request_disposition" where
  "classify_join_request draft request =
     (if hd_approval_mode draft = ApprovalInviteCode \<and> \<not> jrs_invite_code_valid request
      then AutoReject IncorrectInviteCode
      else if hd_approval_mode draft = ApprovalTrustedDevices
      then (if jrs_trust_state request = TrustTrusted then AutoApprove True else AutoReject DeviceNotApproved)
      else PendingManualDecision)"

definition prepare_explicit_approval :: "join_request_summary \<Rightarrow> bool \<Rightarrow> approval_preparation" where
  "prepare_explicit_approval request remember_for_future =
     (if remember_for_future \<and> jrs_trust_state request \<noteq> TrustTrusted
      then PersistTrustFirst
        \<lparr>tpr_request_id = jrs_request_id request, tpr_device_id = jrs_device_id request,
         tpr_display_name = jrs_display_name request\<rparr>
      else Deliver
        \<lparr>ad_request_id = jrs_request_id request, ad_device_id = jrs_device_id request,
         ad_trusted_for_future = (jrs_trust_state request = TrustTrusted), ad_persistence_failed = False\<rparr>)"

definition prepare_approval :: "host_draft \<Rightarrow> join_request_summary \<Rightarrow> approval_preparation" where
  "prepare_approval draft request = prepare_explicit_approval request (hd_remember_approved_devices draft)"

definition approval_after_persistence ::
    "trust_persistence_request \<Rightarrow> trust_persistence_outcome \<Rightarrow> approval_delivery" where
  "approval_after_persistence persistence result =
     \<lparr>ad_request_id = tpr_request_id persistence, ad_device_id = tpr_device_id persistence,
      ad_trusted_for_future = (result = PersistenceCommitted),
      ad_persistence_failed = (result = PersistenceFailed)\<rparr>"

definition classify_delivery :: "delivery_report \<Rightarrow> delivery_commit_disposition" where
  "classify_delivery report =
     (if dr_intended_peers report = 0 then NoRecipients
      else if dr_successful_peers report = 0 then DeliveryFailed
      else if dr_failed_peers report = 0 then Delivered
      else DeliveredWithFailures)"

subsection \<open>Effects\<close>

datatype effect_contract_error = EffectControlReason | EffectDeviceDisplayName | EffectTuningSettings

primrec effect_error_text :: "effect_contract_error \<Rightarrow> string" where
  "effect_error_text EffectControlReason = ''transport control reason is invalid''"
| "effect_error_text EffectDeviceDisplayName = ''device display name is invalid''"
| "effect_error_text EffectTuningSettings = ''tuning settings are invalid''"

definition effect_validate_token :: "str \<Rightarrow> usize \<Rightarrow> effect_contract_error \<Rightarrow> effect_contract_error + unit" where
  "effect_validate_token value max_bytes error =
     (if value = [] \<or> trim value \<noteq> value \<or> str_len value > max_bytes \<or>
         list_ex (\<lambda>c. is_control c \<or> is_whitespace c) value
      then Inl error else Inr ())"

definition effect_validate_human_text :: "str \<Rightarrow> usize \<Rightarrow> effect_contract_error \<Rightarrow> effect_contract_error + unit" where
  "effect_validate_human_text value max_bytes error =
     (if value = [] \<or> trim value \<noteq> value \<or> str_len value > max_bytes \<or> list_ex is_control value
      then Inl error else Inr ())"

datatype transport_effect_request =
    DeliverJoinApproval request_id session_id device_id bool
  | DeliverJoinRejection request_id session_id device_id str
  | DisconnectListenerEffect session_id device_id str

primrec transport_effect_validate :: "transport_effect_request \<Rightarrow> effect_contract_error + unit" where
  "transport_effect_validate (DeliverJoinApproval request_id session_id listener_id trusted) = Inr ()"
| "transport_effect_validate (DeliverJoinRejection request_id session_id listener_id reason_code) =
     effect_validate_token reason_code MAX_REASON_BYTES EffectControlReason"
| "transport_effect_validate (DisconnectListenerEffect session_id listener_id reason_code) =
     effect_validate_token reason_code MAX_REASON_BYTES EffectControlReason"

record transport_effect =
  te_operation_id :: operation_id
  te_request :: transport_effect_request

definition transport_effect_new ::
    "operation_id \<Rightarrow> transport_effect_request \<Rightarrow> effect_contract_error + transport_effect" where
  "transport_effect_new operation_id request =
     try_bind (transport_effect_validate request) (\<lambda>_. Inr \<lparr>te_operation_id = operation_id, te_request = request\<rparr>)"

datatype storage_effect_request =
    PersistSettings tuning_settings
  | PersistTrustedDevice device_id str

primrec storage_effect_validate :: "storage_effect_request \<Rightarrow> effect_contract_error + unit" where
  "storage_effect_validate (PersistSettings settings) =
     map_err (\<lambda>_. EffectTuningSettings) (tuning_settings_validate settings)"
| "storage_effect_validate (PersistTrustedDevice device_id display_name) =
     effect_validate_human_text display_name MAX_DISPLAY_NAME_BYTES EffectDeviceDisplayName"

record storage_effect =
  se_operation_id :: operation_id
  se_request :: storage_effect_request

definition storage_effect_new ::
    "operation_id \<Rightarrow> storage_effect_request \<Rightarrow> effect_contract_error + storage_effect" where
  "storage_effect_new operation_id request =
     try_bind (storage_effect_validate request) (\<lambda>_. Inr \<lparr>se_operation_id = operation_id, se_request = request\<rparr>)"

subsection \<open>What the policy grants\<close>

lemma effect_validate_token_iff [simp]: "effect_validate_token s n e = Inr () \<longleftrightarrow> token n s"
proof -
  have "trim s = s" if "s \<noteq> []" "\<not> list_ex is_whitespace s"
    using that by (intro trim_eq_if) (auto simp: list_ex_iff)
  then show ?thesis
    by (auto simp: effect_validate_token_def token_def list_ex_iff)
qed

lemma effect_validate_human_text_iff [simp]: "effect_validate_human_text s n e = Inr () \<longleftrightarrow> human_text n s"
  by (auto simp: effect_validate_human_text_def human_text_def)

lemma classify_auto_approve:
  "classify_join_request draft request = AutoApprove trusted \<longleftrightarrow>
     trusted \<and> hd_approval_mode draft = ApprovalTrustedDevices \<and> jrs_trust_state request = TrustTrusted"
  by (auto simp: classify_join_request_def)

lemma prepare_deliver:
  "prepare_explicit_approval request remember = Deliver delivery \<Longrightarrow>
     ad_request_id delivery = jrs_request_id request \<and> ad_device_id delivery = jrs_device_id request \<and>
     (ad_trusted_for_future delivery \<longleftrightarrow> jrs_trust_state request = TrustTrusted)"
  by (auto simp: prepare_explicit_approval_def split: if_splits)

lemma prepare_persist:
  "prepare_explicit_approval request remember = PersistTrustFirst persistence \<Longrightarrow>
     tpr_request_id persistence = jrs_request_id request \<and> tpr_device_id persistence = jrs_device_id request"
  by (auto simp: prepare_explicit_approval_def split: if_splits)

lemma approval_after_persistence_fields [simp]:
  "ad_request_id (approval_after_persistence persistence result) = tpr_request_id persistence"
  "ad_device_id (approval_after_persistence persistence result) = tpr_device_id persistence"
  "ad_trusted_for_future (approval_after_persistence persistence result) \<longleftrightarrow> result = PersistenceCommitted"
  by (simp_all add: approval_after_persistence_def)

lemma transport_effect_new_iff:
  "transport_effect_new operation_id request = Inr effect \<longleftrightarrow>
     transport_effect_validate request = Inr () \<and> effect = \<lparr>te_operation_id = operation_id, te_request = request\<rparr>"
  by (auto simp: transport_effect_new_def try_bind_Inr_iff)

lemma storage_effect_new_iff:
  "storage_effect_new operation_id request = Inr effect \<longleftrightarrow>
     storage_effect_validate request = Inr () \<and> effect = \<lparr>se_operation_id = operation_id, se_request = request\<rparr>"
  by (auto simp: storage_effect_new_def try_bind_Inr_iff)

end
