(* ===== verification/Rust_Format.thy ===== *)
theory Rust_Format
  imports Domain_Ids
begin

section \<open>Formatted numbers\<close>

text \<open>
  The part of \<open>core::fmt\<close> the runtime uses in identifiers and messages: the decimal form of an
  unsigned integer. It is injective, and an identifier made of a printable prefix and a decimal
  number is a valid identifier.
\<close>

fun digits :: "nat \<Rightarrow> string" where
  "digits n = (if n < 10 then [char_of (48 + n)] else digits (n div 10) @ [char_of (48 + n mod 10)])"

declare digits.simps [simp del]

definition decimal :: "u64 \<Rightarrow> string" where
  "decimal n = digits (unat n)"

definition digits_value :: "string \<Rightarrow> nat" where
  "digits_value s = foldl (\<lambda>a c. 10 * a + (of_char c - 48)) 0 s"

lemma of_char_digit: "d < 10 \<Longrightarrow> (of_char (char_of (48 + d)) :: nat) = 48 + d"
  by (simp add: of_char_of)

lemma digits_value_digits: "digits_value (digits n) = n"
proof (induction n rule: digits.induct)
  case (1 n)
  then show ?case
    using of_char_digit [of n] of_char_digit [of "n mod 10"]
    by (subst digits.simps) (auto simp: digits_value_def)
qed

lemma digits_inject [simp]: "digits m = digits n \<longleftrightarrow> m = n"
  by (metis digits_value_digits)

lemma decimal_inject [simp]: "decimal m = decimal n \<longleftrightarrow> m = n"
  by (simp add: decimal_def word_unat_eq_iff)

lemma printable_token_digits: "printable_token (digits n)"
proof (induction n rule: digits.induct)
  case (1 n)
  then show ?case
    using of_char_digit [of n] of_char_digit [of "n mod 10"]
    by (subst digits.simps) (auto simp: printable_token_def)
qed

lemma length_digits: "n < 10 ^ k \<Longrightarrow> 0 < k \<Longrightarrow> length (digits n) \<le> k"
proof (induction n arbitrary: k rule: digits.induct)
  case (1 n)
  show ?case
  proof (cases "n < 10")
    case False
    then obtain j where j: "k = Suc j" "0 < j"
      using "1.prems" by (cases k; cases "k - 1") auto
    have "n div 10 < 10 ^ j"
      using "1.prems"(1) j(1) by (simp add: less_mult_imp_div_less mult.commute)
    then show ?thesis
      using "1.IH" [OF False _ j(2)] False j(1) by (subst digits.simps) simp
  qed (use "1.prems" in \<open>subst digits.simps, simp\<close>)
qed

lemma length_decimal: "length (decimal n) \<le> 20"
proof -
  have "unat n < 2 ^ 64"
    using unsigned_less [of n, where ?'a = nat] by simp
  then have "unat n < 10 ^ 20"
    by simp
  then show ?thesis
    unfolding decimal_def by (intro length_digits) simp_all
qed

lemma printable_token_append: "printable_token s \<Longrightarrow> printable_token t \<Longrightarrow> printable_token (s @ t)"
  by (simp add: printable_token_def)

lemma valid_identifier_lit:
  assumes "printable s" and "length s \<le> 128"
  shows "valid_identifier (lit s)"
  using printable_lit [OF assms(1)] assms(2) by (simp add: valid_identifier_def MAX_IDENTIFIER_BYTES_def)

lemma valid_identifier_numbered:
  assumes "printable_token prefix" and "length prefix \<le> 100"
  shows "valid_identifier (lit (prefix @ decimal n))"
proof (rule valid_identifier_lit)
  show "printable (prefix @ decimal n)"
    using assms(1) printable_token_digits unfolding decimal_def
    by (intro printable_token_printable printable_token_append)
  show "length (prefix @ decimal n) \<le> 128"
    using assms(2) length_decimal [of n] by simp
qed

end
