(* ===== verification/Actor_Records.thy ===== *)
theory Actor_Records
  imports Host_Admission Rust_Format
begin

section \<open>Inputs, snapshot and notifications of the runtime actor\<close>

text \<open>
  \<open>runtime/records/*.rs\<close>, \<open>runtime/records_runtime.rs\<close> and \<open>runtime/actor_runtime/errors.rs\<close>: the
  commands and events that enter the actor, the snapshot it publishes, the notifications it
  emits and the errors it builds. Variants whose names several enums of the source share carry a
  prefix (\<open>Contract\<close>, \<open>Command\<close>, \<open>Platform\<close>, \<open>Transport\<close>, \<open>Audio\<close>, \<open>Storage\<close>). \<open>StoredSettings\<close> and
  \<open>TrustedDevice\<close> of \<open>storage/models.rs\<close> are the payloads of storage completions.
\<close>

subsection \<open>Contract errors\<close>

definition MAX_DISCOVERED_SESSIONS :: usize where "MAX_DISCOVERED_SESSIONS = 128"
definition MAX_PENDING_JOIN_REQUESTS :: usize where "MAX_PENDING_JOIN_REQUESTS = 128"
definition MAX_CONNECTED_LISTENERS :: usize where "MAX_CONNECTED_LISTENERS = 256"
definition MAX_CAPABILITY_REQUESTS :: usize where "MAX_CAPABILITY_REQUESTS = 16"
definition MAX_EXPORT_ID_BYTES :: usize where "MAX_EXPORT_ID_BYTES = 128"
definition MAX_STORAGE_TRUSTED_DEVICES :: usize where "MAX_STORAGE_TRUSTED_DEVICES = 1024"

definition current_protocol_version :: u16 where "current_protocol_version = PROTOCOL_VERSION"

datatype runtime_contract_error =
    ContractInviteCode
  | ContractLinearGain
  | ContractAudioOutputFormat
  | ContractAudioBackendName
  | ContractCapabilityList
  | ContractExportId
  | ContractStoredTrustedDeviceLimit
  | ContractDiscoveredSessionLimit
  | ContractPendingRequestLimit
  | ContractListenerLimit
  | ContractDuplicateSession
  | ContractDuplicateRequest
  | ContractDuplicateListener
  | ContractDiscoveryStateMismatch
  | ContractUnknownSelectedSession

primrec contract_error_text :: "runtime_contract_error \<Rightarrow> string" where
  "contract_error_text ContractInviteCode = ''join invite code is invalid''"
| "contract_error_text ContractLinearGain = ''linear gain must be finite and between zero and one''"
| "contract_error_text ContractAudioOutputFormat = ''audio-output format fields must be nonzero''"
| "contract_error_text ContractAudioBackendName = ''audio backend name is invalid''"
| "contract_error_text ContractCapabilityList = ''capability request list is invalid''"
| "contract_error_text ContractExportId = ''diagnostics export identifier is invalid''"
| "contract_error_text ContractStoredTrustedDeviceLimit = ''stored trusted-device limit exceeded''"
| "contract_error_text ContractDiscoveredSessionLimit = ''discovered-session limit exceeded''"
| "contract_error_text ContractPendingRequestLimit = ''pending join-request limit exceeded''"
| "contract_error_text ContractListenerLimit = ''listener limit exceeded''"
| "contract_error_text ContractDuplicateSession = ''duplicate discovered session identifier''"
| "contract_error_text ContractDuplicateRequest = ''duplicate pending request identifier''"
| "contract_error_text ContractDuplicateListener = ''duplicate listener identifier''"
| "contract_error_text ContractDiscoveryStateMismatch = ''discovery flag and transport state disagree''"
| "contract_error_text ContractUnknownSelectedSession = ''selected session is not present in discovery results''"

text \<open>The texts of the errors that the actor turns into messages.\<close>

primrec record_error_text :: "runtime_record_validation_error \<Rightarrow> string" where
  "record_error_text RevisionOverflow = ''snapshot revision overflow''"
| "record_error_text AudioSourceId = ''audio source ID is invalid''"
| "record_error_text AudioSourceDisplayName = ''audio source display name is invalid''"
| "record_error_text AudioSourceLength = ''audio source byte length must be greater than zero''"
| "record_error_text AudioSourceRequired = ''a staged audio source is required''"
| "record_error_text SessionName = ''session name is invalid''"
| "record_error_text InviteCode = ''invite code is invalid''"
| "record_error_text InviteCodeRequired = ''invite-code approval requires an invite code''"
| "record_error_text UnexpectedInviteCode = ''invite code is not allowed for this approval mode''"
| "record_error_text TuningSettings = ''tuning patch produces invalid settings''"
| "record_error_text NetworkPort = ''network service ports must be nonzero''"
| "record_error_text ProtocolVersion = ''protocol version must be nonzero''"
| "record_error_text DeviceDisplayName = ''device display name is invalid''"
| "record_error_text DeliveryCount = ''delivery counts are inconsistent''"
| "record_error_text SynchronizationSummary = ''synchronization summary is invalid''"
| "record_error_text DiagnosticName = ''diagnostic event name is invalid''"
| "record_error_text DiagnosticFieldKey = ''diagnostic field key is invalid''"
| "record_error_text DiagnosticFieldValue = ''diagnostic field value is invalid''"
| "record_error_text DiagnosticFieldLimit = ''diagnostic field count exceeds the supported limit''"

primrec queue_error_text :: "host_queue_error \<Rightarrow> string" where
  "queue_error_text InvalidEntryId = ''queue entry ID is invalid''"
| "queue_error_text DuplicateEntryId = ''queue entry ID already exists''"
| "queue_error_text CapacityExceeded = ''host queue is at its entry limit''"
| "queue_error_text SourceCapacityExceeded = ''host queue sources exceed the total size limit''"
| "queue_error_text InconsistentSourceMetadata = ''queue entries disagree about a shared source''"
| "queue_error_text InvalidOrder = ''queue order does not match its entries''"
| "queue_error_text CurrentEntryLocked = ''the current queue entry is locked''"
| "queue_error_text EntryNotFound = ''queue entry was not found''"
| "queue_error_text (StaleRevision expected current) =
     ''queue revision changed (expected '' @ decimal expected @ '', current '' @ decimal current @ '')''"
| "queue_error_text RevisionExhausted = ''queue revision is exhausted''"

definition contract_validate_token ::
    "str \<Rightarrow> usize \<Rightarrow> runtime_contract_error \<Rightarrow> runtime_contract_error + unit" where
  "contract_validate_token value max_bytes error =
     (if value = [] \<or> trim value \<noteq> value \<or> str_len value > max_bytes \<or>
         list_ex (\<lambda>c. is_control c \<or> is_whitespace c) value
      then Inl error else Inr ())"

text \<open>The loops that compare every element with the ones before it.\<close>

fun validate_unique :: "('a \<Rightarrow> 'k) \<Rightarrow> runtime_contract_error \<Rightarrow> 'k list \<Rightarrow> 'a list \<Rightarrow> runtime_contract_error + unit" where
  "validate_unique key error earlier [] = Inr ()"
| "validate_unique key error earlier (x # xs) =
     (if key x \<in> set earlier then Inl error else validate_unique key error (earlier @ [key x]) xs)"

definition validate_unique_sessions :: "session_advertisement list \<Rightarrow> runtime_contract_error + unit" where
  "validate_unique_sessions = validate_unique sa_session_id ContractDuplicateSession []"

definition validate_unique_requests :: "join_request_summary list \<Rightarrow> runtime_contract_error + unit" where
  "validate_unique_requests = validate_unique jrs_request_id ContractDuplicateRequest []"

definition validate_unique_listeners :: "listener_summary list \<Rightarrow> runtime_contract_error + unit" where
  "validate_unique_listeners = validate_unique ls_device_id ContractDuplicateListener []"

subsection \<open>Commands\<close>

type_synonym f32_bits = u32

datatype core_command =
    SelectRole app_role
  | UpdateHostDraft host_draft_patch
  | AppendHostQueue u64 "queue_entry list"
  | ReorderHostQueue u64 "str list"
  | RemoveHostQueueEntry u64 str
  | ClearHostQueue u64
  | CreateHostSession
  | EndHostSession
  | CommandStartDiscovery
  | CommandStopDiscovery
  | SelectSession session_id
  | SubmitJoin "str option"
  | CancelJoin
  | ApproveJoin request_id bool
  | RejectJoin request_id
  | RemoveListener device_id
  | StartPlayback audio_source_descriptor
  | PausePlayback
  | ResumePlayback
  | StopPlayback
  | SetLocalVolume f32_bits
  | RequestResync
  | RetryRecoverableFailure
  | UpdateTuning tuning_patch
  | ExportDiagnostics
  | CommandShutdown

text \<open>The \<open>f32\<close> values between zero and one, negative zero included, by their bit patterns.\<close>

definition unit_gain :: "f32_bits \<Rightarrow> bool" where
  "unit_gain bits \<longleftrightarrow> bits \<le> 0x3F800000 \<or> bits = 0x80000000"

definition validate_shape :: "core_command \<Rightarrow> runtime_contract_error + unit" where
  "validate_shape command =
     (case command of
        SubmitJoin (Some code) \<Rightarrow> contract_validate_token code MAX_INVITE_CODE_BYTES ContractInviteCode
      | SetLocalVolume linear_gain \<Rightarrow> if \<not> unit_gain linear_gain then Inl ContractLinearGain else Inr ()
      | _ \<Rightarrow> Inr ())"

record core_command_request =
  ccr_expected_revision :: snapshot_revision
  ccr_command :: core_command

definition core_command_request_new ::
    "snapshot_revision \<Rightarrow> core_command \<Rightarrow> runtime_contract_error + core_command_request" where
  "core_command_request_new expected_revision command =
     try_bind (validate_shape command) (\<lambda>_.
     Inr \<lparr>ccr_expected_revision = expected_revision, ccr_command = command\<rparr>)"

subsection \<open>Platform effects and events\<close>

datatype permission_capability =
    NearbyDiscovery | NearbyAdvertising | LocalNetwork | AudioSourceSelection | AudioOutput | SecureStore

record discovery_request =
  dq_scan_window_ms :: u64

definition discovery_from_tuning :: "tuning_settings \<Rightarrow> discovery_request" where
  "discovery_from_tuning tuning = \<lparr>dq_scan_window_ms = ts_scan_window_ms tuning\<rparr>"

record network_establishment_request =
  ner_session_id :: session_id
  ner_endpoint :: "network_endpoint option"

record audio_output_request =
  aor_sample_rate_hz :: u32
  aor_channels :: u16

definition audio_output_request_new :: "u32 \<Rightarrow> u16 \<Rightarrow> runtime_contract_error + audio_output_request" where
  "audio_output_request_new sample_rate_hz channels =
     (if sample_rate_hz = 0 \<or> channels = 0 then Inl ContractAudioOutputFormat
      else Inr \<lparr>aor_sample_rate_hz = sample_rate_hz, aor_channels = channels\<rparr>)"

record audio_output_info =
  aoi_sample_rate_hz :: u32
  aoi_channels :: u16
  aoi_backend_name :: str

definition audio_output_info_new :: "u32 \<Rightarrow> u16 \<Rightarrow> str \<Rightarrow> runtime_contract_error + audio_output_info" where
  "audio_output_info_new sample_rate_hz channels backend_name =
     try_bind (audio_output_request_new sample_rate_hz channels) (\<lambda>_.
     try_bind (contract_validate_token backend_name 64 ContractAudioBackendName) (\<lambda>_.
     Inr \<lparr>aoi_sample_rate_hz = sample_rate_hz, aoi_channels = channels, aoi_backend_name = backend_name\<rparr>))"

datatype platform_effect_request =
    RequestCapabilities "permission_capability list"
  | StartAdvertising session_advertisement
  | StopAdvertising
  | StartDiscovery discovery_request
  | StopDiscovery
  | EstablishNetwork network_establishment_request
  | ReleaseNetwork
  | PrepareAudioSource audio_source_descriptor
  | StartAudioOutput audio_output_request
  | StopAudioOutput
  | ShareDiagnostics str

definition platform_effect_validate :: "platform_effect_request \<Rightarrow> runtime_contract_error + unit" where
  "platform_effect_validate request =
     (case request of
        RequestCapabilities capabilities \<Rightarrow>
          if capabilities = [] \<or> length capabilities > MAX_CAPABILITY_REQUESTS then Inl ContractCapabilityList
          else validate_unique id ContractCapabilityList [] capabilities
      | ShareDiagnostics export_id \<Rightarrow> contract_validate_token export_id MAX_EXPORT_ID_BYTES ContractExportId
      | _ \<Rightarrow> Inr ())"

record platform_effect =
  pe_operation_id :: operation_id
  pe_request :: platform_effect_request

definition platform_effect_new ::
    "operation_id \<Rightarrow> platform_effect_request \<Rightarrow> runtime_contract_error + platform_effect" where
  "platform_effect_new operation_id request =
     try_bind (platform_effect_validate request) (\<lambda>_. Inr \<lparr>pe_operation_id = operation_id, pe_request = request\<rparr>)"

datatype platform_operation_completion =
    CapabilitiesResolved capability_snapshot
  | AdvertisingStarted
  | AdvertisingStopped
  | DiscoveryStarted
  | DiscoveryStopped
  | NetworkEndpointReady network_endpoint
  | NetworkReleased
  | AudioSourcePrepared audio_source_descriptor
  | AudioOutputStarted audio_output_info
  | AudioOutputStopped
  | DiagnosticsShared str

datatype platform_event =
    PlatformSucceeded operation_id platform_operation_completion
  | PlatformOpFailed operation_id core_error
  | SessionDiscovered session_advertisement
  | SessionExpired session_id
  | CapabilityStateChanged capability_snapshot
  | AppEnteredForeground
  | AppEnteredBackground

fun platform_event_operation_id :: "platform_event \<Rightarrow> operation_id option" where
  "platform_event_operation_id (PlatformSucceeded operation_id completion) = Some operation_id"
| "platform_event_operation_id (PlatformOpFailed operation_id error) = Some operation_id"
| "platform_event_operation_id _ = None"

subsection \<open>Transport, audio and storage events\<close>

datatype transport_event =
    TransportStateChanged transport_state
  | JoinRequested join_request_summary
  | TransportListenerConnected listener_summary
  | TransportListenerDisconnected device_id "core_error option"
  | DeliveryCompleted operation_id delivery_report
  | SessionEnded session_id
  | TransportEventFailed core_error
  | AwaitingApproval
  | JoinApproved bool
  | JoinRejected str

datatype audio_event =
    PlaybackStateChanged playback_state
  | PositionAdvanced stream_id u64
  | TrackBoundaryApplied str u64
  | TrackBoundaryScheduled str u64
  | SynchronizationUpdated device_id synchronization_summary
  | EndOfStream stream_id
  | UnderrunReported u32
  | AudioEventFailed core_error

record stored_settings =
  sts_tuning :: tuning_settings
  sts_allow_shared_address_space :: bool
  sts_updated_at_ms :: u64

record trusted_device =
  td_device_id :: device_id
  td_display_name :: str
  td_public_key :: "u8 list option"
  td_private_key_ref :: "str option"
  td_trust_state :: trust_state
  td_first_seen_ms :: u64
  td_last_seen_ms :: u64
  td_updated_at_ms :: u64

datatype storage_completion =
    SettingsLoaded "stored_settings option"
  | SettingsSaved
  | TrustedDevicesLoaded "trusted_device list"
  | TrustedDeviceUpdated device_id
  | DiagnosticsExportReady str

definition storage_completion_validate :: "storage_completion \<Rightarrow> runtime_contract_error + unit" where
  "storage_completion_validate completion =
     (case completion of
        TrustedDevicesLoaded devices \<Rightarrow>
          if length devices > MAX_STORAGE_TRUSTED_DEVICES then Inl ContractStoredTrustedDeviceLimit else Inr ()
      | DiagnosticsExportReady export_id \<Rightarrow> contract_validate_token export_id MAX_EXPORT_ID_BYTES ContractExportId
      | _ \<Rightarrow> Inr ())"

datatype storage_event =
    StorageSucceeded (storage_event_operation_id: operation_id) storage_completion
  | StorageOpFailed (storage_event_operation_id: operation_id) core_error

primrec storage_event_validate :: "storage_event \<Rightarrow> runtime_contract_error + unit" where
  "storage_event_validate (StorageSucceeded operation_id completion) = storage_completion_validate completion"
| "storage_event_validate (StorageOpFailed operation_id error) = Inr ()"

subsection \<open>The snapshot\<close>

datatype recoverable_action = ActionRetry | ActionRescan | ActionReconnect | ActionResynchronize | ActionReselectAudioSource

record host_queue_boundary =
  hb_entry_id :: str
  hb_first_sample_index :: u64

datatype host_queue_preparation_state = PreparationEmpty | PreparationPrepared

datatype host_queue_readiness =
    ReadinessEmpty | ReadinessReady | ReadinessBuffering | ReadinessPlaying | ReadinessPaused | ReadinessUnderrun
  | ReadinessFailed

record host_queue_snapshot =
  hqs_revision :: u64
  hqs_current :: "queue_entry option"
  hqs_upcoming :: "queue_entry list"
  hqs_preparation_state :: host_queue_preparation_state
  hqs_readiness :: host_queue_readiness
  hqs_error :: "core_error option"
  hqs_next_boundary :: "host_queue_boundary option"

record core_snapshot =
  snap_revision :: snapshot_revision
  snap_selected_role :: "app_role option"
  snap_capabilities :: capability_snapshot
  snap_host_draft :: host_draft
  snap_host_queue :: host_queue
  snap_host_queue_next_boundary :: "host_queue_boundary option"
  snap_host_lifecycle :: host_lifecycle
  snap_listener_lifecycle :: listener_lifecycle
  snap_transport_state :: transport_state
  snap_discovery_active :: bool
  snap_discovered_sessions :: "session_advertisement list"
  snap_selected_session :: "session_id option"
  snap_pending_join_requests :: "join_request_summary list"
  snap_listeners :: "listener_summary list"
  snap_playback_state :: playback_state
  snap_playback_position_ms :: u64
  snap_stream_ended_naturally :: bool
  snap_synchronization :: "synchronization_summary option"
  snap_tuning :: tuning_settings
  snap_last_delivery :: "delivery_report option"
  snap_last_delivery_operation_id :: "operation_id option"
  snap_recoverable_action :: "recoverable_action option"
  snap_last_error :: "core_error option"
  snap_shutting_down :: bool

definition capability_snapshot_default :: capability_snapshot where
  "capability_snapshot_default =
     \<lparr>cs_nearby_discovery_available = False, cs_nearby_advertising_available = False,
      cs_local_network_available = False, cs_audio_source_selection_available = False,
      cs_audio_output_available = False, cs_secure_store_available = False\<rparr>"

definition core_snapshot_default :: core_snapshot where
  "core_snapshot_default =
     \<lparr>snap_revision = 0, snap_selected_role = None, snap_capabilities = capability_snapshot_default,
      snap_host_draft = host_draft_default, snap_host_queue = host_queue_default,
      snap_host_queue_next_boundary = None, snap_host_lifecycle = HostIdle,
      snap_listener_lifecycle = ListenerIdle, snap_transport_state = TransportIdle, snap_discovery_active = False,
      snap_discovered_sessions = [], snap_selected_session = None, snap_pending_join_requests = [],
      snap_listeners = [], snap_playback_state = PlaybackStopped, snap_playback_position_ms = 0,
      snap_stream_ended_naturally = False, snap_synchronization = None, snap_tuning = tuning_settings_default,
      snap_last_delivery = None, snap_last_delivery_operation_id = None, snap_recoverable_action = None,
      snap_last_error = None, snap_shutting_down = False\<rparr>"

definition readiness_of :: "playback_state \<Rightarrow> bool \<Rightarrow> host_queue_readiness" where
  "readiness_of state is_empty =
     (if state = PlaybackError then ReadinessFailed
      else if is_empty then ReadinessEmpty
      else case state of
             PlaybackBuffering \<Rightarrow> ReadinessBuffering
           | PlaybackPlaying \<Rightarrow> ReadinessPlaying
           | PlaybackPaused \<Rightarrow> ReadinessPaused
           | PlaybackUnderrun \<Rightarrow> ReadinessUnderrun
           | _ \<Rightarrow> ReadinessReady)"

definition host_queue_snapshot_of :: "core_snapshot \<Rightarrow> host_queue_snapshot" where
  "host_queue_snapshot_of self =
     \<lparr>hqs_revision = hq_revision (snap_host_queue self),
      hqs_current = queue_current (snap_host_queue self),
      hqs_upcoming = queue_upcoming (snap_host_queue self),
      hqs_preparation_state = (if hq_entries (snap_host_queue self) = [] then PreparationEmpty else PreparationPrepared),
      hqs_readiness = readiness_of (snap_playback_state self) (hq_entries (snap_host_queue self) = []),
      hqs_error = (if snap_playback_state self = PlaybackError then snap_last_error self else None),
      hqs_next_boundary = snap_host_queue_next_boundary self\<rparr>"

definition core_snapshot_validate :: "core_snapshot \<Rightarrow> runtime_contract_error + unit" where
  "core_snapshot_validate self =
     (if length (snap_discovered_sessions self) > MAX_DISCOVERED_SESSIONS then Inl ContractDiscoveredSessionLimit
      else if length (snap_pending_join_requests self) > MAX_PENDING_JOIN_REQUESTS then Inl ContractPendingRequestLimit
      else if length (snap_listeners self) > MAX_CONNECTED_LISTENERS then Inl ContractListenerLimit
      else
        try_bind (validate_unique_sessions (snap_discovered_sessions self)) (\<lambda>_.
        try_bind (validate_unique_requests (snap_pending_join_requests self)) (\<lambda>_.
        try_bind (validate_unique_listeners (snap_listeners self)) (\<lambda>_.
        if snap_discovery_active self \<noteq> (snap_transport_state self = TransportDiscovering)
        then Inl ContractDiscoveryStateMismatch
        else case snap_selected_session self of
               Some selected_session \<Rightarrow>
                 if list_ex (\<lambda>advertisement. sa_session_id advertisement = selected_session) (snap_discovered_sessions self)
                 then Inr () else Inl ContractUnknownSelectedSession
             | None \<Rightarrow> Inr ()))))"

subsection \<open>Inputs and notifications\<close>

datatype core_actor_input =
    InputCommand operation_id core_command_request
  | InputPlatform platform_event
  | InputTransport transport_event
  | InputAudio audio_event
  | InputStorage storage_event

definition input_operation_id :: "core_actor_input \<Rightarrow> operation_id option" where
  "input_operation_id input =
     (case input of
        InputCommand operation_id request \<Rightarrow> Some operation_id
      | InputPlatform event \<Rightarrow> platform_event_operation_id event
      | InputStorage event \<Rightarrow> Some (storage_event_operation_id event)
      | InputTransport (DeliveryCompleted operation_id report) \<Rightarrow> Some operation_id
      | InputTransport _ \<Rightarrow> None
      | InputAudio _ \<Rightarrow> None)"

datatype core_notification =
    NotifySnapshot core_snapshot
  | NotifyEffect platform_effect
  | NotifyTransportEffect transport_effect
  | NotifyStorageEffect storage_effect
  | NotifyError core_error
  | NotifyDiagnostic core_diagnostic

subsection \<open>Errors of the actor\<close>

definition actor_error :: "core_error_code \<Rightarrow> string \<Rightarrow> error_severity \<Rightarrow> bool \<Rightarrow> operation_id option \<Rightarrow> core_error" where
  "actor_error code message severity retryable operation_id =
     \<lparr>ce_code = code, ce_message = lit message, ce_subsystem = code_subsystem code, ce_severity = severity,
      ce_retryable = retryable, ce_operation_id = operation_id, ce_context = []\<rparr>"

definition invalid_argument :: "string \<Rightarrow> operation_id option \<Rightarrow> core_error" where
  "invalid_argument message operation_id = actor_error InvalidArgument message SeverityError False operation_id"

definition invalid_state :: "string \<Rightarrow> operation_id option \<Rightarrow> core_error" where
  "invalid_state message operation_id = actor_error InvalidStateTransition message SeverityError False operation_id"

definition resource_limit :: "string \<Rightarrow> operation_id option \<Rightarrow> core_error" where
  "resource_limit message operation_id = actor_error ResourceLimitExceeded message SeverityFatal False operation_id"

definition join_rejected :: "str \<Rightarrow> core_error" where
  "join_rejected reason =
     (actor_error TransportConnectionFailed [] SeverityError True None)
       \<lparr>ce_message := lit ''host rejected join request: '' @ reason\<rparr>"

definition transport_delivery_failed :: "string \<Rightarrow> operation_id \<Rightarrow> core_error" where
  "transport_delivery_failed message operation_id =
     actor_error TransportDeliveryFailed message SeverityError True (Some operation_id)"

subsection \<open>What a valid snapshot is\<close>

lemma validate_unique_iff:
  "validate_unique key error earlier xs = Inr () \<longleftrightarrow> distinct (map key xs) \<and> set earlier \<inter> set (map key xs) = {}"
  by (induction xs arbitrary: earlier) auto

lemma contract_validate_token_iff [simp]: "contract_validate_token s n e = Inr () \<longleftrightarrow> token n s"
proof -
  have "trim s = s" if "s \<noteq> []" "\<not> list_ex is_whitespace s"
    using that by (intro trim_eq_if) (auto simp: list_ex_iff)
  then show ?thesis
    by (auto simp: contract_validate_token_def token_def list_ex_iff)
qed

definition snapshot_ok :: "core_snapshot \<Rightarrow> bool" where
  "snapshot_ok self \<longleftrightarrow>
     length (snap_discovered_sessions self) \<le> 128 \<and> length (snap_pending_join_requests self) \<le> 128 \<and>
     length (snap_listeners self) \<le> 256 \<and>
     distinct (map sa_session_id (snap_discovered_sessions self)) \<and>
     distinct (map jrs_request_id (snap_pending_join_requests self)) \<and>
     distinct (map ls_device_id (snap_listeners self)) \<and>
     (snap_discovery_active self \<longleftrightarrow> snap_transport_state self = TransportDiscovering) \<and>
     set_option (snap_selected_session self) \<subseteq> sa_session_id ` set (snap_discovered_sessions self)"

lemma core_snapshot_validate_iff: "core_snapshot_validate self = Inr () \<longleftrightarrow> snapshot_ok self"
  by (auto simp: core_snapshot_validate_def snapshot_ok_def validate_unique_sessions_def validate_unique_requests_def
      validate_unique_listeners_def validate_unique_iff try_bind_Inr_iff list_ex_iff MAX_DISCOVERED_SESSIONS_def
      MAX_PENDING_JOIN_REQUESTS_def MAX_CONNECTED_LISTENERS_def split: option.splits if_splits)

lemma core_snapshot_default_ok: "snapshot_ok core_snapshot_default"
  by (simp add: snapshot_ok_def core_snapshot_default_def)

lemma platform_effect_new_iff:
  "platform_effect_new operation_id request = Inr effect \<longleftrightarrow>
     platform_effect_validate request = Inr () \<and> effect = \<lparr>pe_operation_id = operation_id, pe_request = request\<rparr>"
  by (auto simp: platform_effect_new_def try_bind_Inr_iff)

end
