(* ===== verification/Actor_State.thy ===== *)
theory Actor_State
  imports Actor_Records
begin

section \<open>The state of the runtime actor and its audio events\<close>

text \<open>
  \<open>runtime/actor_runtime/state/mod.rs\<close>, \<open>support.rs\<close>, \<open>audio.rs\<close>, \<open>host_audio_control.rs\<close> and the
  audio part of \<open>admission.rs\<close>. A method on \<open>&mut self\<close> that returns \<open>Result\<close> is a function to
  \<open>core_error + 'a \<times> actor_state\<close>: when it fails, the caller drops the state, because
  \<open>ActorState::process\<close> works on a clone and stores it only on success.
\<close>

definition MAX_PENDING_EFFECT_OPERATIONS :: usize where "MAX_PENDING_EFFECT_OPERATIONS = 128"
definition MAX_RETIRED_AUDIO_STREAM_IDS :: usize where "MAX_RETIRED_AUDIO_STREAM_IDS = 16"

datatype pending_platform_operation =
    PendingStartAdvertising session_id
  | PendingStopAdvertising
  | PendingStartDiscovery
  | PendingStopDiscovery
  | PendingEstablishNetwork session_id
  | PendingReleaseNetwork
  | PendingShareDiagnostics str

datatype pending_transport_operation =
    PendingApproveJoin approval_delivery
  | PendingRejectJoin request_id device_id "operation_id option"
  | PendingDisconnectListener device_id

datatype pending_storage_operation =
    PersistApprovalTrust trust_persistence_request
  | PersistTuning tuning_settings

record actor_state =
  act_snapshot :: core_snapshot
  act_local_device_id :: device_id
  act_host_session_id :: "session_id option"
  act_active_audio_stream_id :: "stream_id option"
  act_pending_host_boundaries :: "host_queue_boundary list"
  act_retired_audio_stream_ids :: "stream_id list"
  act_pending_platform :: "(operation_id \<times> pending_platform_operation) list"
  act_pending_transport :: "(operation_id \<times> pending_transport_operation) list"
  act_pending_storage :: "(operation_id \<times> pending_storage_operation) list"
  act_next_effect_sequence :: u64
  act_next_session_sequence :: u64
  act_next_export_sequence :: u64
  act_session_id_namespace :: "str option"

record apply_outcome =
  ao_notifications :: "core_notification list"
  ao_changed :: bool
  ao_stop_requested :: bool

definition outcome_default :: apply_outcome where
  "outcome_default = \<lparr>ao_notifications = [], ao_changed = False, ao_stop_requested = False\<rparr>"

definition outcome_changed :: apply_outcome where
  "outcome_changed = \<lparr>ao_notifications = [], ao_changed = True, ao_stop_requested = False\<rparr>"

definition outcome_effect :: "platform_effect \<Rightarrow> apply_outcome" where
  "outcome_effect effect = \<lparr>ao_notifications = [NotifyEffect effect], ao_changed = True, ao_stop_requested = False\<rparr>"

definition outcome_transport_effect :: "transport_effect \<Rightarrow> apply_outcome" where
  "outcome_transport_effect effect =
     \<lparr>ao_notifications = [NotifyTransportEffect effect], ao_changed = True, ao_stop_requested = False\<rparr>"

definition outcome_storage_effect :: "storage_effect \<Rightarrow> apply_outcome" where
  "outcome_storage_effect effect =
     \<lparr>ao_notifications = [NotifyStorageEffect effect], ao_changed = True, ao_stop_requested = False\<rparr>"

text \<open>The outcome of a handler that reports an error and still changes the state.\<close>

definition outcome_error :: "core_error \<Rightarrow> apply_outcome" where
  "outcome_error error = \<lparr>ao_notifications = [NotifyError error], ao_changed = True, ao_stop_requested = False\<rparr>"

definition actor_state_new :: "device_id \<Rightarrow> str option \<Rightarrow> actor_state" where
  "actor_state_new local_device_id session_id_namespace =
     \<lparr>act_snapshot = core_snapshot_default, act_local_device_id = local_device_id, act_host_session_id = None,
      act_active_audio_stream_id = None, act_pending_host_boundaries = [], act_retired_audio_stream_ids = [],
      act_pending_platform = [], act_pending_transport = [], act_pending_storage = [],
      act_next_effect_sequence = 1, act_next_session_sequence = 1, act_next_export_sequence = 1,
      act_session_id_namespace = session_id_namespace\<rparr>"

type_synonym 'a actor_result = "core_error + 'a \<times> actor_state"

text \<open>An assignment to fields of \<open>self.snapshot\<close>.\<close>

definition on_snapshot :: "(core_snapshot \<Rightarrow> core_snapshot) \<Rightarrow> actor_state \<Rightarrow> actor_state" where
  "on_snapshot f self = self\<lparr>act_snapshot := f (act_snapshot self)\<rparr>"

subsection \<open>Operations in progress\<close>

definition ensure_effect_capacity :: "actor_state \<Rightarrow> core_error + unit" where
  "ensure_effect_capacity self =
     (let pending = length (act_pending_platform self) + length (act_pending_transport self) + length (act_pending_storage self) in
      if pending > usize_max then Inl (resource_limit ''pending effect-operation count overflow'' None)
      else if pending \<ge> MAX_PENDING_EFFECT_OPERATIONS
      then Inl (resource_limit ''pending effect-operation capacity reached'' None)
      else Inr ())"

definition next_effect_id :: "actor_state \<Rightarrow> operation_id actor_result" where
  "next_effect_id self =
     (let sequence = act_next_effect_sequence self in
      try_bind (ok_or (checked_add sequence 1) (resource_limit ''effect operation identifier overflow'' None)) (\<lambda>next.
      try_bind (map_err (\<lambda>error. from_identifier_validation error None)
        (id_new Operation OperationId (lit (''effect-'' @ decimal sequence)))) (\<lambda>operation_id.
      Inr (operation_id, self\<lparr>act_next_effect_sequence := next\<rparr>))))"

definition next_session_id :: "actor_state \<Rightarrow> session_id actor_result" where
  "next_session_id self =
     (let sequence = act_next_session_sequence self in
      try_bind (ok_or (checked_add sequence 1) (resource_limit ''session identifier overflow'' None)) (\<lambda>next.
      let value = (case act_session_id_namespace self of
          None \<Rightarrow> lit (''session-'' @ decimal sequence)
        | Some namespace \<Rightarrow> lit ''session-'' @ namespace @ lit (''-'' @ decimal sequence)) in
      try_bind (map_err (\<lambda>error. from_identifier_validation error None) (session_id_new value)) (\<lambda>session_id.
      Inr (session_id, self\<lparr>act_next_session_sequence := next\<rparr>))))"

definition next_export_id :: "actor_state \<Rightarrow> str actor_result" where
  "next_export_id self =
     (let sequence = act_next_export_sequence self in
      try_bind (ok_or (checked_add sequence 1) (resource_limit ''diagnostics export identifier overflow'' None)) (\<lambda>next.
      Inr (lit (''diagnostics-'' @ decimal sequence), self\<lparr>act_next_export_sequence := next\<rparr>)))"

definition start_platform_operation ::
    "actor_state \<Rightarrow> platform_effect_request \<Rightarrow> pending_platform_operation \<Rightarrow> platform_effect actor_result" where
  "start_platform_operation self request pending =
     try_bind (ensure_effect_capacity self) (\<lambda>_.
     try_bind (next_effect_id self) (\<lambda>(operation_id, self).
     try_bind (map_err (\<lambda>error. invalid_argument (contract_error_text error) (Some operation_id))
       (platform_effect_new operation_id request)) (\<lambda>effect.
     Inr (effect, self\<lparr>act_pending_platform := act_pending_platform self @ [(operation_id, pending)]\<rparr>))))"

definition start_transport_operation ::
    "actor_state \<Rightarrow> transport_effect_request \<Rightarrow> pending_transport_operation \<Rightarrow> transport_effect actor_result" where
  "start_transport_operation self request pending =
     try_bind (ensure_effect_capacity self) (\<lambda>_.
     try_bind (next_effect_id self) (\<lambda>(operation_id, self).
     try_bind (map_err (\<lambda>error. invalid_argument (effect_error_text error) (Some operation_id))
       (transport_effect_new operation_id request)) (\<lambda>effect.
     Inr (effect, self\<lparr>act_pending_transport := act_pending_transport self @ [(operation_id, pending)]\<rparr>))))"

definition start_storage_operation ::
    "actor_state \<Rightarrow> storage_effect_request \<Rightarrow> pending_storage_operation \<Rightarrow> storage_effect actor_result" where
  "start_storage_operation self request pending =
     try_bind (ensure_effect_capacity self) (\<lambda>_.
     try_bind (next_effect_id self) (\<lambda>(operation_id, self).
     try_bind (map_err (\<lambda>error. invalid_argument (effect_error_text error) (Some operation_id))
       (storage_effect_new operation_id request)) (\<lambda>effect.
     Inr (effect, self\<lparr>act_pending_storage := act_pending_storage self @ [(operation_id, pending)]\<rparr>))))"

text \<open>\<open>iter().find(..)\<close> and \<open>iter().position(..)\<close> with \<open>remove\<close> on the lists of pending operations.\<close>

definition pending_lookup :: "operation_id \<Rightarrow> (operation_id \<times> 'p) list \<Rightarrow> 'p option" where
  "pending_lookup operation_id pending = map_option snd (find (\<lambda>(candidate, _). candidate = operation_id) pending)"

fun pending_delete :: "operation_id \<Rightarrow> (operation_id \<times> 'p) list \<Rightarrow> (operation_id \<times> 'p) list" where
  "pending_delete operation_id [] = []"
| "pending_delete operation_id ((candidate, p) # pending) =
     (if candidate = operation_id then pending else (candidate, p) # pending_delete operation_id pending)"

definition pending_platform :: "actor_state \<Rightarrow> operation_id \<Rightarrow> pending_platform_operation option" where
  "pending_platform self operation_id = pending_lookup operation_id (act_pending_platform self)"

definition pending_storage :: "actor_state \<Rightarrow> operation_id \<Rightarrow> pending_storage_operation option" where
  "pending_storage self operation_id = pending_lookup operation_id (act_pending_storage self)"

definition remove_pending :: "actor_state \<Rightarrow> operation_id \<Rightarrow> pending_platform_operation option \<times> actor_state" where
  "remove_pending self operation_id =
     (pending_lookup operation_id (act_pending_platform self),
      self\<lparr>act_pending_platform := pending_delete operation_id (act_pending_platform self)\<rparr>)"

definition remove_pending_transport ::
    "actor_state \<Rightarrow> operation_id \<Rightarrow> pending_transport_operation option \<times> actor_state" where
  "remove_pending_transport self operation_id =
     (pending_lookup operation_id (act_pending_transport self),
      self\<lparr>act_pending_transport := pending_delete operation_id (act_pending_transport self)\<rparr>)"

definition remove_pending_storage ::
    "actor_state \<Rightarrow> operation_id \<Rightarrow> pending_storage_operation option \<times> actor_state" where
  "remove_pending_storage self operation_id =
     (pending_lookup operation_id (act_pending_storage self),
      self\<lparr>act_pending_storage := pending_delete operation_id (act_pending_storage self)\<rparr>)"

subsection \<open>Checks and resets\<close>

definition require_role :: "actor_state \<Rightarrow> app_role \<Rightarrow> operation_id \<Rightarrow> core_error + unit" where
  "require_role self role operation_id =
     (if snap_selected_role (act_snapshot self) = Some role then Inr ()
      else Inl (invalid_state (''command requires the '' @ app_role_wire_name role @ '' role'') (Some operation_id)))"

definition require_role_event :: "actor_state \<Rightarrow> app_role \<Rightarrow> core_error + unit" where
  "require_role_event self role =
     (if snap_selected_role (act_snapshot self) = Some role then Inr ()
      else Inl (invalid_state (''event requires the '' @ app_role_wire_name role @ '' role'') None))"

definition require_discovery_active :: "actor_state \<Rightarrow> core_error + unit" where
  "require_discovery_active self =
     (if snap_discovery_active (act_snapshot self) then Inr ()
      else Inl (invalid_state ''discovery result arrived while discovery was inactive'' None))"

definition clear_failure :: "actor_state \<Rightarrow> actor_state" where
  "clear_failure self = on_snapshot (\<lambda>s. s\<lparr>snap_last_error := None, snap_recoverable_action := None\<rparr>) self"

definition clear_host_boundary_reservations :: "actor_state \<Rightarrow> actor_state" where
  "clear_host_boundary_reservations self =
     on_snapshot (\<lambda>s. s\<lparr>snap_host_queue_next_boundary := None\<rparr>) (self\<lparr>act_pending_host_boundaries := []\<rparr>)"

definition first_boundary :: "host_queue_boundary list \<Rightarrow> host_queue_boundary option" where
  "first_boundary boundaries = (case boundaries of [] \<Rightarrow> None | b # _ \<Rightarrow> Some b)"

definition publish_earliest_host_boundary :: "actor_state \<Rightarrow> actor_state" where
  "publish_earliest_host_boundary self =
     on_snapshot (\<lambda>s. s\<lparr>snap_host_queue_next_boundary := first_boundary (act_pending_host_boundaries self)\<rparr>) self"

definition retire_active_audio_stream :: "actor_state \<Rightarrow> actor_state" where
  "retire_active_audio_stream self =
     (let self = clear_host_boundary_reservations self in
      case act_active_audio_stream_id self of
        None \<Rightarrow> self
      | Some stream_id \<Rightarrow>
          let self = self\<lparr>act_active_audio_stream_id := None\<rparr>;
              retired = act_retired_audio_stream_ids self in
          if stream_id \<in> set retired then self
          else self\<lparr>act_retired_audio_stream_ids :=
            (if length retired = MAX_RETIRED_AUDIO_STREAM_IDS then tl retired else retired) @ [stream_id]\<rparr>)"

definition reset_host_session :: "actor_state \<Rightarrow> actor_state" where
  "reset_host_session self =
     (let self = self\<lparr>act_host_session_id := None\<rparr>;
          self = on_snapshot (\<lambda>s. s\<lparr>snap_host_queue := host_queue_default\<rparr>) self;
          self = clear_host_boundary_reservations self;
          self = on_snapshot (\<lambda>s. s\<lparr>snap_host_draft := (snap_host_draft s)\<lparr>hd_audio_source := None\<rparr>\<rparr>) self;
          self = self\<lparr>act_pending_transport := [],
            act_pending_storage :=
              filter (\<lambda>(_, pending). case pending of PersistTuning _ \<Rightarrow> True | _ \<Rightarrow> False) (act_pending_storage self)\<rparr>;
          self = on_snapshot (\<lambda>s. s\<lparr>snap_host_lifecycle := HostIdle, snap_transport_state := TransportIdle,
            snap_pending_join_requests := [], snap_listeners := [], snap_playback_state := PlaybackStopped\<rparr>) self;
          self = retire_active_audio_stream self in
      on_snapshot (\<lambda>s. s\<lparr>snap_playback_position_ms := 0, snap_last_delivery := None,
        snap_last_delivery_operation_id := None\<rparr>) self)"

definition reset_listener_connection :: "actor_state \<Rightarrow> actor_state" where
  "reset_listener_connection self =
     retire_active_audio_stream (on_snapshot (\<lambda>s. s\<lparr>snap_discovery_active := False,
       snap_transport_state := TransportIdle, snap_listener_lifecycle := ListenerIdle, snap_selected_session := None,
       snap_playback_state := PlaybackStopped\<rparr>) self)"

definition retry_if :: "core_error \<Rightarrow> recoverable_action \<Rightarrow> recoverable_action option" where
  "retry_if error action = (if ce_retryable error then Some action else None)"

definition apply_pending_failure :: "actor_state \<Rightarrow> pending_platform_operation \<Rightarrow> core_error \<Rightarrow> actor_state" where
  "apply_pending_failure self pending error =
     (let host_failure = on_snapshot (\<lambda>s. s\<lparr>snap_host_lifecycle := HostError, snap_transport_state := TransportFailed,
            snap_recoverable_action := retry_if error ActionRetry\<rparr>) self;
          listener_failure = (\<lambda>action. on_snapshot (\<lambda>s. s\<lparr>snap_discovery_active := False,
            snap_listener_lifecycle := ListenerError, snap_transport_state := TransportFailed,
            snap_recoverable_action := retry_if error action\<rparr>) self) in
      case pending of
        PendingStartAdvertising _ \<Rightarrow> host_failure
      | PendingStopAdvertising \<Rightarrow> host_failure
      | PendingStartDiscovery \<Rightarrow> listener_failure ActionRescan
      | PendingStopDiscovery \<Rightarrow> listener_failure ActionRescan
      | PendingEstablishNetwork _ \<Rightarrow> listener_failure ActionReconnect
      | PendingReleaseNetwork \<Rightarrow> listener_failure ActionReconnect
      | PendingShareDiagnostics _ \<Rightarrow> self)"

definition diagnostic_entry :: "string \<Rightarrow> str \<Rightarrow> core_error + diagnostic_field" where
  "diagnostic_entry key value =
     map_err (\<lambda>error. invalid_argument (record_error_text error) None) (diagnostic_field_new (lit key) value)"

definition diagnostic :: "string \<Rightarrow> diagnostic_field list \<Rightarrow> core_error + apply_outcome" where
  "diagnostic name entries =
     try_bind (map_err (\<lambda>error. invalid_argument (record_error_text error) None) (core_diagnostic_new (lit name) entries))
       (\<lambda>d. Inr \<lparr>ao_notifications = [NotifyDiagnostic d], ao_changed = False, ao_stop_requested = False\<rparr>)"

subsection \<open>Audio events\<close>

definition change_playback_state :: "actor_state \<Rightarrow> playback_state \<Rightarrow> actor_state" where
  "change_playback_state self state =
     (let self = (if state = PlaybackBuffering then clear_failure self else self);
          self = (if state = PlaybackPlaying \<and>
                     snap_playback_state (act_snapshot self) \<notin> {PlaybackPaused, PlaybackPlaying}
                  then clear_host_boundary_reservations
                    (on_snapshot (\<lambda>s. s\<lparr>snap_stream_ended_naturally := False\<rparr>)
                      (retire_active_audio_stream (on_snapshot (\<lambda>s. s\<lparr>snap_playback_position_ms := 0\<rparr>) self)))
                  else self);
          self = (if state \<in> {PlaybackStopped, PlaybackError}
                  then retire_active_audio_stream (clear_host_boundary_reservations self) else self);
          self = (if state = PlaybackStopped then on_snapshot (\<lambda>s. s\<lparr>snap_playback_position_ms := 0\<rparr>) self else self) in
      on_snapshot (\<lambda>s. s\<lparr>snap_playback_state := state\<rparr>) self)"

definition advance_position :: "actor_state \<Rightarrow> stream_id \<Rightarrow> u64 \<Rightarrow> apply_outcome actor_result" where
  "advance_position self stream_id position_ms =
     (if snap_playback_state (act_snapshot self) \<notin> {PlaybackPlaying, PlaybackPaused}
      then Inl (invalid_state ''playback position advanced while playback was inactive'' None)
      else if stream_id \<in> set (act_retired_audio_stream_ids self)
      then Inl (invalid_state ''playback position belongs to a retired stream'' None)
      else if act_active_audio_stream_id self \<notin> {None, Some stream_id}
      then Inl (invalid_state ''playback position belongs to a different stream'' None)
      else if position_ms < snap_playback_position_ms (act_snapshot self)
      then Inl (invalid_state ''playback position moved backward'' None)
      else Inr (outcome_changed,
        on_snapshot (\<lambda>s. s\<lparr>snap_playback_position_ms := position_ms\<rparr>)
          (self\<lparr>act_active_audio_stream_id := Some stream_id\<rparr>)))"

definition sync_legacy_audio_source :: "actor_state \<Rightarrow> actor_state" where
  "sync_legacy_audio_source self =
     on_snapshot (\<lambda>s. s\<lparr>snap_host_draft := (snap_host_draft s)
       \<lparr>hd_audio_source := map_option qe_source (queue_current (snap_host_queue s))\<rparr>\<rparr>) self"

definition apply_boundary :: "actor_state \<Rightarrow> str \<Rightarrow> u64 \<Rightarrow> apply_outcome actor_result" where
  "apply_boundary self entry_id first_sample_index =
     (if snap_playback_state (act_snapshot self) \<noteq> PlaybackPlaying
      then Inl (invalid_state ''track boundary applied while playback was inactive'' None)
      else case queue_upcoming (snap_host_queue (act_snapshot self)) of
        [] \<Rightarrow> Inl (invalid_state ''track boundary has no matching queued entry'' None)
      | expected # _ \<Rightarrow>
          if qe_entry_id expected \<noteq> entry_id
          then Inl (invalid_state ''track boundary does not match the next queued entry'' None)
          else case act_pending_host_boundaries self of
            [] \<Rightarrow> Inl (invalid_state ''track boundary was applied without being scheduled'' None)
          | boundary # boundaries \<Rightarrow>
              if hb_entry_id boundary \<noteq> entry_id \<or> hb_first_sample_index boundary \<noteq> first_sample_index
              then Inl (invalid_state ''applied track boundary differs from the announced queue boundary'' None)
              else
                try_bind (map_err (\<lambda>error. invalid_state (queue_error_text error) None)
                  (complete_current (snap_host_queue (act_snapshot self)) (hq_revision (snap_host_queue (act_snapshot self)))))
                (\<lambda>queue.
                Inr (outcome_changed, publish_earliest_host_boundary
                  ((sync_legacy_audio_source (on_snapshot (\<lambda>s. s\<lparr>snap_host_queue := queue\<rparr>) self))
                    \<lparr>act_pending_host_boundaries := boundaries\<rparr>))))"

definition schedule_boundary :: "actor_state \<Rightarrow> str \<Rightarrow> u64 \<Rightarrow> apply_outcome actor_result" where
  "schedule_boundary self entry_id first_sample_index =
     (if snap_playback_state (act_snapshot self) \<notin> {PlaybackPlaying, PlaybackPaused}
      then Inl (invalid_state ''track boundary scheduled while playback was inactive'' None)
      else case find (\<lambda>boundary. hb_entry_id boundary = entry_id) (act_pending_host_boundaries self) of
        Some boundary \<Rightarrow>
          if hb_first_sample_index boundary = first_sample_index then Inr (outcome_default, self)
          else Inl (invalid_state ''track boundary already reserved at another sample index'' None)
      | None \<Rightarrow>
          let upcoming = queue_upcoming (snap_host_queue (act_snapshot self));
              reserved = act_pending_host_boundaries self in
          if \<not> length reserved < length upcoming
          then Inl (invalid_state ''track boundary has no matching queued entry'' None)
          else if qe_entry_id (upcoming ! length reserved) \<noteq> entry_id
          then Inl (invalid_state ''track boundary does not match the next unreserved queued entry'' None)
          else if first_sample_index = 0 \<or>
            (reserved \<noteq> [] \<and> first_sample_index \<le> hb_first_sample_index (last reserved))
          then Inl (invalid_state ''track boundaries must advance in sample order'' None)
          else Inr (outcome_changed, publish_earliest_host_boundary
            (self\<lparr>act_pending_host_boundaries :=
               reserved @ [\<lparr>hb_entry_id = entry_id, hb_first_sample_index = first_sample_index\<rparr>]\<rparr>)))"

fun update_listener :: "device_id \<Rightarrow> synchronization_summary \<Rightarrow> listener_summary list \<Rightarrow> listener_summary list" where
  "update_listener device_id summary [] = []"
| "update_listener device_id summary (listener # listeners) =
     (if ls_device_id listener = device_id then listener\<lparr>ls_synchronization := Some summary\<rparr> # listeners
      else listener # update_listener device_id summary listeners)"

definition end_of_stream :: "actor_state \<Rightarrow> stream_id \<Rightarrow> apply_outcome actor_result" where
  "end_of_stream self stream_id =
     (if stream_id \<in> set (act_retired_audio_stream_ids self)
      then Inl (invalid_state ''end of stream belongs to a retired playback stream'' None)
      else if act_active_audio_stream_id self \<notin> {None, Some stream_id}
      then Inl (invalid_state ''end of stream belongs to a different playback stream'' None)
      else if snap_playback_state (act_snapshot self) \<noteq> PlaybackPlaying
      then Inl (invalid_state ''end of stream received while playback was inactive'' None)
      else if queue_upcoming (snap_host_queue (act_snapshot self)) \<noteq> [] \<or>
        snap_host_queue_next_boundary (act_snapshot self) \<noteq> None
      then Inr (outcome_changed,
        on_snapshot (\<lambda>s. s\<lparr>snap_stream_ended_naturally := False\<rparr>)
          (clear_host_boundary_reservations (retire_active_audio_stream
            (on_snapshot (\<lambda>s. s\<lparr>snap_playback_state := PlaybackStopped, snap_playback_position_ms := 0\<rparr>) self))))
      else
        try_bind (map_err (\<lambda>error. invalid_state (queue_error_text error) None)
          (queue_clear (snap_host_queue (act_snapshot self)) (hq_revision (snap_host_queue (act_snapshot self))) False))
        (\<lambda>queue.
        Inr (outcome_changed,
          on_snapshot (\<lambda>s. s\<lparr>snap_playback_state := PlaybackStopped, snap_stream_ended_naturally := True\<rparr>)
            (retire_active_audio_stream (clear_host_boundary_reservations
              (on_snapshot (\<lambda>s. s\<lparr>snap_host_queue := queue,
                snap_host_draft := (snap_host_draft s)\<lparr>hd_audio_source := None\<rparr>\<rparr>) self))))))"

primrec apply_audio :: "actor_state \<Rightarrow> audio_event \<Rightarrow> apply_outcome actor_result" where
  "apply_audio self (PlaybackStateChanged state) = Inr (outcome_changed, change_playback_state self state)"
| "apply_audio self (PositionAdvanced stream_id position_ms) = advance_position self stream_id position_ms"
| "apply_audio self (TrackBoundaryApplied entry_id first_sample_index) = apply_boundary self entry_id first_sample_index"
| "apply_audio self (TrackBoundaryScheduled entry_id first_sample_index) =
     schedule_boundary self entry_id first_sample_index"
| "apply_audio self (SynchronizationUpdated device_id summary) =
     Inr (outcome_changed, on_snapshot (\<lambda>s. s\<lparr>snap_synchronization := Some summary,
       snap_listeners := update_listener device_id summary (snap_listeners s)\<rparr>) self)"
| "apply_audio self (EndOfStream stream_id) = end_of_stream self stream_id"
| "apply_audio self (UnderrunReported missing_frames) =
     (let self = clear_host_boundary_reservations (on_snapshot (\<lambda>s. s\<lparr>snap_playback_state := PlaybackUnderrun\<rparr>) self) in
      try_bind (diagnostic_entry ''missing_frames'' (lit (digits (unat missing_frames)))) (\<lambda>entry.
      try_bind (diagnostic ''audio_underrun'' [entry]) (\<lambda>result.
      Inr (result\<lparr>ao_changed := True\<rparr>, self))))"
| "apply_audio self (AudioEventFailed error) =
     Inr (outcome_error error,
       on_snapshot (\<lambda>s. s\<lparr>snap_last_error := Some error\<rparr>)
         (clear_host_boundary_reservations
           (on_snapshot (\<lambda>s. s\<lparr>snap_playback_state := PlaybackError\<rparr>) (retire_active_audio_stream self))))"

fun audio_transition :: "audio_event \<Rightarrow> playback_state option" where
  "audio_transition (PlaybackStateChanged state) = Some state"
| "audio_transition (EndOfStream stream_id) = Some PlaybackStopped"
| "audio_transition (AudioEventFailed error) = Some PlaybackError"
| "audio_transition _ = None"

definition idle_lifecycle :: "actor_state \<Rightarrow> host_lifecycle" where
  "idle_lifecycle self = (if snap_listeners (act_snapshot self) = [] then HostWaitingForListeners else HostReady)"

text \<open>The effect of a playback transition on the lifecycle of a host session.\<close>

definition host_lifecycle_step :: "actor_state \<Rightarrow> audio_event \<Rightarrow> core_error + actor_state" where
  "host_lifecycle_step self event =
     (let lifecycle = snap_host_lifecycle (act_snapshot self);
          enter = (\<lambda>l. on_snapshot (\<lambda>s. s\<lparr>snap_host_lifecycle := l\<rparr>) self) in
      case audio_transition event of
        Some PlaybackPlaying \<Rightarrow>
          if lifecycle \<notin> {HostReady, HostPaused, HostStreaming}
          then Inl (invalid_state ''host playback entered playing outside an active ready session'' None)
          else Inr (enter HostStreaming)
      | Some PlaybackPaused \<Rightarrow>
          if lifecycle \<notin> {HostStreaming, HostPaused}
          then Inl (invalid_state ''host playback entered paused outside a streaming session'' None)
          else Inr (enter HostPaused)
      | Some PlaybackStopped \<Rightarrow>
          if lifecycle \<in> {HostReady, HostStreaming, HostPaused, HostWaitingForListeners}
          then Inr (enter (idle_lifecycle self)) else Inr self
      | Some PlaybackError \<Rightarrow>
          if (case event of AudioEventFailed error \<Rightarrow> ce_retryable error | _ \<Rightarrow> False)
          then Inr (on_snapshot (\<lambda>s. s\<lparr>snap_recoverable_action := Some ActionRetry\<rparr>) (enter (idle_lifecycle self)))
          else Inr (on_snapshot (\<lambda>s. s\<lparr>snap_recoverable_action := Some ActionReselectAudioSource\<rparr>) (enter HostError))
      | _ \<Rightarrow> Inr self)"

definition apply_audio_with_host_lifecycle :: "actor_state \<Rightarrow> audio_event \<Rightarrow> apply_outcome actor_result" where
  "apply_audio_with_host_lifecycle self event =
     try_bind (apply_audio self event) (\<lambda>(result, self).
     if snap_selected_role (act_snapshot self) \<noteq> Some RoleHost \<or> act_host_session_id self = None
     then Inr (result, self)
     else try_bind (host_lifecycle_step self event) (\<lambda>self. Inr (result, self)))"

text \<open>The checks of \<open>apply_audio_control\<close> on the event of a host with a session.\<close>

definition host_audio_allowed :: "actor_state \<Rightarrow> audio_event \<Rightarrow> core_error + unit" where
  "host_audio_allowed self event =
     (let lifecycle = snap_host_lifecycle (act_snapshot self);
          playback = snap_playback_state (act_snapshot self);
          stop_check = (if lifecycle \<notin> {HostReady, HostWaitingForListeners, HostStreaming, HostPaused}
            then Inl (invalid_state ''host playback can stop only during an active host session'' None) else Inr ()) in
      case event of
        PlaybackStateChanged PlaybackBuffering \<Rightarrow>
          if lifecycle \<notin> {HostReady, HostWaitingForListeners} \<or>
             playback \<notin> {PlaybackStopped, PlaybackReady, PlaybackError}
          then Inl (invalid_state ''host playback can begin buffering only from an active stopped session'' None)
          else Inr ()
      | PlaybackStateChanged PlaybackPlaying \<Rightarrow>
          if lifecycle \<notin> {HostReady, HostWaitingForListeners, HostPaused, HostStreaming} \<or>
             playback \<notin> {PlaybackStopped, PlaybackReady, PlaybackBuffering, PlaybackPaused, PlaybackPlaying}
          then Inl (invalid_state
            ''host playback can enter playing only from an active stopped, buffered, or paused session'' None)
          else Inr ()
      | PlaybackStateChanged PlaybackPaused \<Rightarrow>
          if lifecycle \<noteq> HostStreaming \<or> playback \<noteq> PlaybackPlaying
          then Inl (invalid_state ''host playback can pause only while streaming'' None) else Inr ()
      | PlaybackStateChanged PlaybackStopped \<Rightarrow> stop_check
      | EndOfStream _ \<Rightarrow> stop_check
      | PlaybackStateChanged PlaybackReady \<Rightarrow>
          if playback \<notin> {PlaybackBuffering, PlaybackReady}
          then Inl (invalid_state ''host playback can become ready only after buffering'' None) else Inr ()
      | _ \<Rightarrow> Inr ())"

definition host_audio_checked :: "actor_state \<Rightarrow> audio_event \<Rightarrow> apply_outcome actor_result" where
  "host_audio_checked self event =
     try_bind (host_audio_allowed self event) (\<lambda>_.
     if snap_host_lifecycle (act_snapshot self) = HostWaitingForListeners \<and> event = PlaybackStateChanged PlaybackPlaying
     then try_bind (apply_audio self event) (\<lambda>(result, self).
       Inr (result, on_snapshot (\<lambda>s. s\<lparr>snap_host_lifecycle := HostStreaming\<rparr>) self))
     else apply_audio_with_host_lifecycle self event)"

text \<open>
  The first position of a buffered host stream starts the playback and binds the stream in one
  step; the nested call of \<open>apply_audio_control\<close> is on a state with a host session, so it is
  \<open>host_audio_checked\<close>.
\<close>

definition apply_audio_control :: "actor_state \<Rightarrow> audio_event \<Rightarrow> apply_outcome actor_result" where
  "apply_audio_control self event =
     (if snap_selected_role (act_snapshot self) \<noteq> Some RoleHost \<or> act_host_session_id self = None
      then apply_audio_with_host_lifecycle self event
      else if (case event of PositionAdvanced _ position_ms \<Rightarrow> position_ms = 0 | _ \<Rightarrow> False) \<and>
        snap_playback_state (act_snapshot self) = PlaybackBuffering
      then try_bind (host_audio_checked self (PlaybackStateChanged PlaybackPlaying)) (\<lambda>(_, candidate).
        apply_audio candidate event)
      else host_audio_checked self event)"

end
