(* ===== verification/Actor_Commands.thy ===== *)
theory Actor_Commands
  imports Actor_State
begin

section \<open>Admission and commands of the runtime actor\<close>

text \<open>
  \<open>runtime/actor_runtime/state/admission.rs\<close> (join requests, approvals and their deliveries) and
  \<open>commands.rs\<close> (the commands of the presentation).
\<close>

subsection \<open>Admission\<close>

definition admission_lifecycles :: "host_lifecycle set" where
  "admission_lifecycles = {HostWaitingForListeners, HostReady, HostStreaming, HostPaused}"

definition require_host_admission_event :: "actor_state \<Rightarrow> core_error + unit" where
  "require_host_admission_event self =
     try_bind (require_role_event self RoleHost) (\<lambda>_.
     if snap_host_lifecycle (act_snapshot self) \<notin> admission_lifecycles
     then Inl (invalid_state ''join request arrived while host admission was unavailable'' None)
     else Inr ())"

definition require_host_admission_command :: "actor_state \<Rightarrow> operation_id \<Rightarrow> core_error + unit" where
  "require_host_admission_command self operation_id =
     try_bind (require_role self RoleHost operation_id) (\<lambda>_.
     if act_host_session_id self = None \<or> snap_host_lifecycle (act_snapshot self) \<notin> admission_lifecycles
     then Inl (invalid_state ''host admission command requires an active host session'' (Some operation_id))
     else Inr ())"

definition pending_join_request :: "actor_state \<Rightarrow> request_id \<Rightarrow> operation_id \<Rightarrow> core_error + join_request_summary" where
  "pending_join_request self request_id operation_id =
     ok_or (find (\<lambda>request. jrs_request_id request = request_id) (snap_pending_join_requests (act_snapshot self)))
       (invalid_state ''join request is stale or no longer pending'' (Some operation_id))"

primrec transport_operation_for :: "request_id \<Rightarrow> pending_transport_operation \<Rightarrow> bool" where
  "transport_operation_for request_id (PendingApproveJoin delivery) = (ad_request_id delivery = request_id)"
| "transport_operation_for request_id (PendingRejectJoin pending_id listener_id confirmation) = (pending_id = request_id)"
| "transport_operation_for request_id (PendingDisconnectListener listener_id) = False"

primrec storage_operation_for :: "request_id \<Rightarrow> pending_storage_operation \<Rightarrow> bool" where
  "storage_operation_for request_id (PersistApprovalTrust persistence) = (tpr_request_id persistence = request_id)"
| "storage_operation_for request_id (PersistTuning settings) = False"

definition ensure_request_operation_idle :: "actor_state \<Rightarrow> request_id \<Rightarrow> operation_id \<Rightarrow> core_error + unit" where
  "ensure_request_operation_idle self request_id operation_id =
     (if list_ex (\<lambda>(_, pending). transport_operation_for request_id pending) (act_pending_transport self) \<or>
         list_ex (\<lambda>(_, pending). storage_operation_for request_id pending) (act_pending_storage self)
      then Inl (invalid_state ''join request already has an admission operation in progress'' (Some operation_id))
      else Inr ())"

definition create_approval_transport_effect :: "actor_state \<Rightarrow> approval_delivery \<Rightarrow> transport_effect actor_result" where
  "create_approval_transport_effect self delivery =
     try_bind (ok_or (act_host_session_id self) (invalid_state ''host session is not active'' None)) (\<lambda>session_id.
     start_transport_operation self
       (DeliverJoinApproval (ad_request_id delivery) session_id (ad_device_id delivery) (ad_trusted_for_future delivery))
       (PendingApproveJoin delivery))"

definition start_approval_delivery :: "actor_state \<Rightarrow> approval_delivery \<Rightarrow> apply_outcome actor_result" where
  "start_approval_delivery self delivery =
     try_bind (create_approval_transport_effect self delivery) (\<lambda>(effect, self).
     Inr (outcome_transport_effect effect, self))"

definition start_rejection_delivery ::
    "actor_state \<Rightarrow> join_request_summary \<Rightarrow> join_rejection_reason \<Rightarrow> operation_id option \<Rightarrow> apply_outcome actor_result" where
  "start_rejection_delivery self request reason confirmation_operation_id =
     try_bind (ok_or (act_host_session_id self) (invalid_state ''host session is not active'' None)) (\<lambda>session_id.
     try_bind (start_transport_operation self
       (DeliverJoinRejection (jrs_request_id request) session_id (jrs_device_id request) (lit (rejection_stable_name reason)))
       (PendingRejectJoin (jrs_request_id request) (jrs_device_id request) confirmation_operation_id)) (\<lambda>(effect, self).
     Inr (outcome_transport_effect effect, self)))"

definition handle_join_request :: "actor_state \<Rightarrow> join_request_summary \<Rightarrow> apply_outcome actor_result" where
  "handle_join_request self request =
     try_bind (require_host_admission_event self) (\<lambda>_.
     let requests = snap_pending_join_requests (act_snapshot self) in
     case find (\<lambda>existing. jrs_request_id existing = jrs_request_id request) requests of
       Some existing \<Rightarrow>
         if existing = request then Inr (outcome_default, self)
         else Inl (invalid_state ''join request identifier was reused with different content'' None)
     | None \<Rightarrow>
         if list_ex (\<lambda>existing. jrs_device_id existing = jrs_device_id request) requests
         then Inl (invalid_state ''listener already has a pending join request'' None)
         else if length requests \<ge> MAX_PENDING_JOIN_REQUESTS
         then Inl (resource_limit ''pending join-request capacity reached'' None)
         else
           let disposition = classify_join_request (snap_host_draft (act_snapshot self)) request;
               self = on_snapshot (\<lambda>s. s\<lparr>snap_pending_join_requests := requests @ [request]\<rparr>) self in
           case disposition of
             PendingManualDecision \<Rightarrow> Inr (outcome_changed, self)
           | AutoApprove trusted_for_future \<Rightarrow>
               start_approval_delivery self
                 \<lparr>ad_request_id = jrs_request_id request, ad_device_id = jrs_device_id request,
                  ad_trusted_for_future = trusted_for_future, ad_persistence_failed = False\<rparr>
           | AutoReject reason \<Rightarrow> start_rejection_delivery self request reason None)"

definition approve_join :: "actor_state \<Rightarrow> operation_id \<Rightarrow> request_id \<Rightarrow> bool \<Rightarrow> apply_outcome actor_result" where
  "approve_join self operation_id request_id remember_for_future =
     try_bind (require_host_admission_command self operation_id) (\<lambda>_.
     try_bind (pending_join_request self request_id operation_id) (\<lambda>request.
     try_bind (ensure_request_operation_idle self request_id operation_id) (\<lambda>_.
     case prepare_explicit_approval request remember_for_future of
       PersistTrustFirst persistence \<Rightarrow>
         try_bind (start_storage_operation self
           (PersistTrustedDevice (tpr_device_id persistence) (tpr_display_name persistence))
           (PersistApprovalTrust persistence)) (\<lambda>(effect, self).
         Inr (outcome_storage_effect effect, self))
     | Deliver delivery \<Rightarrow> start_approval_delivery self delivery)))"

definition reject_join :: "actor_state \<Rightarrow> operation_id \<Rightarrow> request_id \<Rightarrow> apply_outcome actor_result" where
  "reject_join self operation_id request_id =
     try_bind (require_host_admission_command self operation_id) (\<lambda>_.
     try_bind (pending_join_request self request_id operation_id) (\<lambda>request.
     try_bind (ensure_request_operation_idle self request_id operation_id) (\<lambda>_.
     start_rejection_delivery self request HostRejected (Some operation_id))))"

definition remove_listener :: "actor_state \<Rightarrow> operation_id \<Rightarrow> device_id \<Rightarrow> apply_outcome actor_result" where
  "remove_listener self operation_id listener_id =
     try_bind (require_host_admission_command self operation_id) (\<lambda>_.
     if \<not> list_ex (\<lambda>listener. ls_device_id listener = listener_id) (snap_listeners (act_snapshot self))
     then Inl (invalid_state ''listener is stale or no longer connected'' (Some operation_id))
     else if list_ex (\<lambda>(_, pending). pending = PendingDisconnectListener listener_id) (act_pending_transport self)
     then Inl (invalid_state ''listener removal is already pending'' (Some operation_id))
     else
       try_bind (ok_or (act_host_session_id self) (invalid_state ''host session is not active'' (Some operation_id)))
         (\<lambda>session_id.
       try_bind (start_transport_operation self
         (DisconnectListenerEffect session_id listener_id (lit ''host_removed_listener''))
         (PendingDisconnectListener listener_id)) (\<lambda>(effect, self).
       Inr (outcome_transport_effect effect, self))))"

text \<open>A failure reported by the platform or the storage carries the operation it belongs to.\<close>

definition wrapped_error :: "string \<Rightarrow> operation_id \<Rightarrow> core_error \<Rightarrow> core_error + core_error" where
  "wrapped_error message operation_id error =
     (if ce_operation_id error \<notin> {None, Some operation_id}
      then Inl (invalid_state message (Some operation_id))
      else Inr (error\<lparr>ce_operation_id := Some operation_id\<rparr>))"

definition storage_mismatch :: string where
  "storage_mismatch = ''storage failure operation ID does not match its wrapper''"

definition contract_ok :: "storage_event \<Rightarrow> core_error + unit" where
  "contract_ok event =
     map_err (\<lambda>error. invalid_argument (contract_error_text error) (Some (storage_event_operation_id event)))
       (storage_event_validate event)"

definition apply_admission_storage :: "actor_state \<Rightarrow> storage_event \<Rightarrow> apply_outcome actor_result" where
  "apply_admission_storage self event =
     try_bind (contract_ok event) (\<lambda>_.
     let wrapper_id = storage_event_operation_id event in
     case remove_pending_storage self wrapper_id of
       (None, _) \<Rightarrow> Inl (invalid_state ''stale or duplicate admission storage completion'' (Some wrapper_id))
     | (Some pending, self) \<Rightarrow>
         (case (pending, event) of
            (PersistApprovalTrust persistence, StorageSucceeded _ (TrustedDeviceUpdated device_id)) \<Rightarrow>
              if device_id = tpr_device_id persistence
              then start_approval_delivery self (approval_after_persistence persistence PersistenceCommitted)
              else Inl (invalid_state ''admission storage completion kind does not match the pending operation''
                (Some wrapper_id))
          | (PersistApprovalTrust persistence, StorageOpFailed operation_id error) \<Rightarrow>
              try_bind (wrapped_error storage_mismatch operation_id error) (\<lambda>error.
              try_bind (create_approval_transport_effect self (approval_after_persistence persistence PersistenceFailed))
                (\<lambda>(effect, self).
              Inr (\<lparr>ao_notifications = [NotifyError error, NotifyTransportEffect effect], ao_changed = True,
                    ao_stop_requested = False\<rparr>,
                on_snapshot (\<lambda>s. s\<lparr>snap_last_error := Some error\<rparr>) self)))
          | _ \<Rightarrow> Inl (invalid_state ''admission storage completion kind does not match the pending operation''
              (Some wrapper_id))))"

fun request_position :: "request_id \<Rightarrow> device_id \<Rightarrow> join_request_summary list \<Rightarrow> usize option" where
  "request_position request_id listener_id [] = None"
| "request_position request_id listener_id (request # requests) =
     (if jrs_request_id request = request_id \<and> jrs_device_id request = listener_id then Some 0
      else map_option Suc (request_position request_id listener_id requests))"

definition remove_pending_request :: "actor_state \<Rightarrow> request_id \<Rightarrow> device_id \<Rightarrow> join_request_summary actor_result" where
  "remove_pending_request self request_id listener_id =
     (let requests = snap_pending_join_requests (act_snapshot self) in
      try_bind (ok_or (request_position request_id listener_id requests)
        (invalid_state ''join request disappeared before delivery completed'' None)) (\<lambda>index.
      Inr (requests ! index, on_snapshot (\<lambda>s. s\<lparr>snap_pending_join_requests := remove_at index requests\<rparr>) self)))"

text \<open>\<open>iter_mut().find(..)\<close> and an assignment to the element found.\<close>

fun replace_first :: "('a \<Rightarrow> bool) \<Rightarrow> 'a \<Rightarrow> 'a list \<Rightarrow> 'a list" where
  "replace_first P x [] = []"
| "replace_first P x (y # ys) = (if P y then x # ys else y # replace_first P x ys)"

definition store_listener :: "actor_state \<Rightarrow> listener_summary \<Rightarrow> core_error + actor_state" where
  "store_listener self listener =
     (let listeners = snap_listeners (act_snapshot self);
          same = (\<lambda>existing. ls_device_id existing = ls_device_id listener) in
      if list_ex same listeners
      then Inr (on_snapshot (\<lambda>s. s\<lparr>snap_listeners := replace_first same listener listeners\<rparr>) self)
      else if length listeners \<ge> MAX_CONNECTED_LISTENERS
      then Inl (resource_limit ''connected-listener capacity reached'' None)
      else Inr (on_snapshot (\<lambda>s. s\<lparr>snap_listeners := listeners @ [listener]\<rparr>) self))"

definition record_approved_listener ::
    "actor_state \<Rightarrow> join_request_summary \<Rightarrow> approval_delivery \<Rightarrow> core_error + actor_state" where
  "record_approved_listener self request delivery =
     try_bind (map_err (\<lambda>error. invalid_argument (record_error_text error) None)
       (listener_summary_new (jrs_device_id request) (jrs_display_name request)
         (if ad_trusted_for_future delivery then TrustTrusted else TrustSessionOnly) TransportConnecting))
     (store_listener self)"

definition commit_delivery ::
    "actor_state \<Rightarrow> operation_id \<Rightarrow> pending_transport_operation \<Rightarrow> core_error + actor_state" where
  "commit_delivery self operation_id pending =
     (case pending of
        PendingApproveJoin delivery \<Rightarrow>
          try_bind (remove_pending_request self (ad_request_id delivery) (ad_device_id delivery)) (\<lambda>(request, self).
          record_approved_listener self request delivery)
      | PendingRejectJoin request_id listener_id confirmation_operation_id \<Rightarrow>
          let self = (case confirmation_operation_id of
              Some confirmation \<Rightarrow> on_snapshot (\<lambda>s. s\<lparr>snap_last_delivery_operation_id := Some confirmation\<rparr>) self
            | None \<Rightarrow> self) in
          try_bind (remove_pending_request self request_id listener_id) (\<lambda>(_, self). Inr self)
      | PendingDisconnectListener listener_id \<Rightarrow>
          let listeners = snap_listeners (act_snapshot self);
              kept = filter (\<lambda>listener. ls_device_id listener \<noteq> listener_id) listeners in
          if length listeners = length kept
          then Inl (invalid_state ''listener disappeared before removal delivery completed'' (Some operation_id))
          else Inr (on_snapshot (\<lambda>s. s\<lparr>snap_listeners := kept\<rparr>) self))"

primrec uncommitted_text :: "delivery_commit_disposition \<Rightarrow> string" where
  "uncommitted_text NoRecipients = ''transport control delivery had no intended recipients''"
| "uncommitted_text DeliveryFailed = ''transport control delivery failed for every intended recipient''"
| "uncommitted_text Delivered = ''transport control delivery did not commit''"
| "uncommitted_text DeliveredWithFailures = ''transport control delivery did not commit''"

definition clear_delivery_error :: "actor_state \<Rightarrow> actor_state" where
  "clear_delivery_error self =
     (case snap_last_error (act_snapshot self) of
        Some error \<Rightarrow>
          if ce_code error = TransportDeliveryFailed then on_snapshot (\<lambda>s. s\<lparr>snap_last_error := None\<rparr>) self else self
      | None \<Rightarrow> self)"

definition complete_transport_delivery :: "actor_state \<Rightarrow> operation_id \<Rightarrow> delivery_report \<Rightarrow> apply_outcome actor_result" where
  "complete_transport_delivery self operation_id report =
     (case remove_pending_transport self operation_id of
        (None, _) \<Rightarrow> Inl (invalid_state ''stale or duplicate transport delivery completion'' (Some operation_id))
      | (Some pending, self) \<Rightarrow>
          let self = on_snapshot (\<lambda>s. s\<lparr>snap_last_delivery := Some report,
                snap_last_delivery_operation_id := Some operation_id\<rparr>) self;
              disposition = classify_delivery report in
          if \<not> commits_domain_decision disposition
          then
            let error = transport_delivery_failed (uncommitted_text disposition) operation_id in
            Inr (outcome_error error, on_snapshot (\<lambda>s. s\<lparr>snap_last_error := Some error\<rparr>) self)
          else
            try_bind (commit_delivery self operation_id pending) (\<lambda>self.
            let self = clear_delivery_error self in
            if disposition = DeliveredWithFailures
            then
              try_bind (diagnostic_entry ''intended_peers'' (lit (digits (unat (dr_intended_peers report))))) (\<lambda>intended.
              try_bind (diagnostic_entry ''successful_peers'' (lit (digits (unat (dr_successful_peers report))))) (\<lambda>successful.
              try_bind (diagnostic_entry ''failed_peers'' (lit (digits (unat (dr_failed_peers report))))) (\<lambda>failed.
              try_bind (diagnostic ''transport_delivery_partial'' [intended, successful, failed]) (\<lambda>result.
              Inr (result\<lparr>ao_changed := True\<rparr>, self)))))
            else Inr (outcome_changed, self)))"

subsection \<open>The role and the host draft\<close>

definition idle_operations :: "actor_state \<Rightarrow> bool" where
  "idle_operations self \<longleftrightarrow>
     act_pending_platform self = [] \<and> act_pending_transport self = [] \<and> act_pending_storage self = []"

definition select_role :: "actor_state \<Rightarrow> operation_id \<Rightarrow> app_role \<Rightarrow> apply_outcome actor_result" where
  "select_role self operation_id role =
     (if snap_host_lifecycle (act_snapshot self) \<noteq> HostIdle \<or> snap_listener_lifecycle (act_snapshot self) \<noteq> ListenerIdle \<or>
         \<not> idle_operations self
      then Inl (invalid_state ''role cannot change while a session or operation is active'' (Some operation_id))
      else if snap_selected_role (act_snapshot self) = Some role then Inr (outcome_default, self)
      else Inr (outcome_changed, clear_failure (on_snapshot (\<lambda>s. s\<lparr>snap_selected_role := Some role\<rparr>) self)))"

definition track_switch_allowed :: "actor_state \<Rightarrow> host_draft_patch \<Rightarrow> bool" where
  "track_switch_allowed self patch \<longleftrightarrow>
     snap_host_lifecycle (act_snapshot self) \<in> {HostReady, HostWaitingForListeners} \<and>
     snap_playback_state (act_snapshot self) = PlaybackStopped \<and>
     hdp_session_name patch = None \<and> hdp_approval_mode patch = None \<and> hdp_invite_code patch = InviteCodeUnchanged \<and>
     hdp_remember_approved_devices patch = None"

definition clear_stale_host_queue_boundary :: "actor_state \<Rightarrow> actor_state" where
  "clear_stale_host_queue_boundary self =
     (let upcoming = queue_upcoming (snap_host_queue (act_snapshot self));
          boundaries = act_pending_host_boundaries self in
      if list_ex (\<lambda>i. \<not> i < length upcoming \<or> qe_entry_id (upcoming ! i) \<noteq> hb_entry_id (boundaries ! i)) [0..<length boundaries]
      then clear_host_boundary_reservations self else self)"

definition update_host_draft :: "actor_state \<Rightarrow> operation_id \<Rightarrow> host_draft_patch \<Rightarrow> apply_outcome actor_result" where
  "update_host_draft self operation_id patch =
     try_bind (require_role self RoleHost operation_id) (\<lambda>_.
     if snap_host_lifecycle (act_snapshot self) \<notin> {HostIdle, HostError} \<and> \<not> track_switch_allowed self patch
     then Inl (invalid_state (''host draft cannot change while a session is active, except swapping the audio '' @
       ''source once playback has stopped'') (Some operation_id))
     else
       try_bind (map_err (\<lambda>error. invalid_argument (record_error_text error) (Some operation_id))
         (patched (snap_host_draft (act_snapshot self)) patch)) (\<lambda>updated.
       try_bind
         (if hd_audio_source updated \<noteq> hd_audio_source (snap_host_draft (act_snapshot self))
          then
            try_bind (case hd_audio_source updated of
                None \<Rightarrow> Inr []
              | Some source \<Rightarrow>
                  try_bind (map_err (\<lambda>error. invalid_argument (queue_error_text error) (Some operation_id))
                    (queue_entry_new (asd_source_id source) source)) (\<lambda>entry. Inr [entry])) (\<lambda>entries.
            try_bind (map_err (\<lambda>error. invalid_argument (queue_error_text error) (Some operation_id))
              (replace_all (snap_host_queue (act_snapshot self)) (hq_revision (snap_host_queue (act_snapshot self))) entries))
              (\<lambda>queue.
            Inr (clear_stale_host_queue_boundary (on_snapshot (\<lambda>s. s\<lparr>snap_host_queue := queue\<rparr>) self))))
          else Inr self) (\<lambda>self.
       Inr (outcome_changed, clear_failure (on_snapshot (\<lambda>s. s\<lparr>snap_host_draft := updated\<rparr>) self)))))"

subsection \<open>The host queue\<close>

definition require_host_queue_editable :: "actor_state \<Rightarrow> operation_id \<Rightarrow> core_error + unit" where
  "require_host_queue_editable self operation_id =
     try_bind (require_role self RoleHost operation_id) (\<lambda>_.
     if snap_host_lifecycle (act_snapshot self) = HostEndingSession
     then Inl (invalid_state ''host queue cannot change while the session is ending'' (Some operation_id))
     else Inr ())"

definition current_locked :: "actor_state \<Rightarrow> bool" where
  "current_locked self \<longleftrightarrow>
     snap_playback_state (act_snapshot self) \<in> {PlaybackPlaying, PlaybackPaused, PlaybackBuffering, PlaybackUnderrun}"

text \<open>The common end of the queue commands: the new queue, its current source and the stale reservations.\<close>

definition store_queue :: "actor_state \<Rightarrow> operation_id \<Rightarrow> host_queue_error + host_queue \<Rightarrow> core_error + actor_state" where
  "store_queue self operation_id result =
     try_bind (map_err (\<lambda>error. invalid_argument (queue_error_text error) (Some operation_id)) result) (\<lambda>queue.
     Inr (sync_legacy_audio_source (on_snapshot (\<lambda>s. s\<lparr>snap_host_queue := queue\<rparr>) self)))"

definition append_host_queue :: "actor_state \<Rightarrow> operation_id \<Rightarrow> u64 \<Rightarrow> queue_entry list \<Rightarrow> apply_outcome actor_result" where
  "append_host_queue self operation_id expected_revision entries =
     try_bind (require_host_queue_editable self operation_id) (\<lambda>_.
     try_bind (store_queue self operation_id (queue_append (snap_host_queue (act_snapshot self)) expected_revision entries))
       (\<lambda>self.
     Inr (outcome_changed, clear_failure (clear_stale_host_queue_boundary self))))"

definition reorder_host_queue :: "actor_state \<Rightarrow> operation_id \<Rightarrow> u64 \<Rightarrow> str list \<Rightarrow> apply_outcome actor_result" where
  "reorder_host_queue self operation_id expected_revision ordered_entry_ids =
     try_bind (require_host_queue_editable self operation_id) (\<lambda>_.
     let boundaries = act_pending_host_boundaries self in
     if list_ex (\<lambda>i. \<not> i + 1 < length ordered_entry_ids \<or> ordered_entry_ids ! (i + 1) \<noteq> hb_entry_id (boundaries ! i))
       [0..<length boundaries]
     then Inl (invalid_state ''queue reorder cannot change already reserved upcoming tracks'' (Some operation_id))
     else
       try_bind (store_queue self operation_id
         (reorder (snap_host_queue (act_snapshot self)) expected_revision ordered_entry_ids (current_locked self))) (\<lambda>self.
       Inr (outcome_changed, clear_failure (clear_stale_host_queue_boundary self))))"

definition remove_host_queue_entry :: "actor_state \<Rightarrow> operation_id \<Rightarrow> u64 \<Rightarrow> str \<Rightarrow> apply_outcome actor_result" where
  "remove_host_queue_entry self operation_id expected_revision entry_id =
     try_bind (require_host_queue_editable self operation_id) (\<lambda>_.
     if list_ex (\<lambda>boundary. hb_entry_id boundary = entry_id) (act_pending_host_boundaries self)
     then Inl (invalid_state ''the already scheduled next track cannot be removed'' (Some operation_id))
     else
       try_bind (store_queue self operation_id
         (queue_remove (snap_host_queue (act_snapshot self)) expected_revision entry_id (current_locked self))) (\<lambda>self.
       Inr (outcome_changed, clear_failure (clear_stale_host_queue_boundary self))))"

definition clear_host_queue :: "actor_state \<Rightarrow> operation_id \<Rightarrow> u64 \<Rightarrow> apply_outcome actor_result" where
  "clear_host_queue self operation_id expected_revision =
     try_bind (require_host_queue_editable self operation_id) (\<lambda>_.
     if act_pending_host_boundaries self \<noteq> []
     then Inl (invalid_state ''host queue cannot be cleared while upcoming tracks are reserved'' (Some operation_id))
     else
       try_bind (store_queue self operation_id
         (queue_clear (snap_host_queue (act_snapshot self)) expected_revision (current_locked self))) (\<lambda>self.
       Inr (outcome_changed, clear_failure (clear_host_boundary_reservations self))))"

subsection \<open>Settings and host sessions\<close>

text \<open>\<open>PartialEq\<close> of the settings: the drift threshold is compared as an \<open>f64\<close>.\<close>

definition tuning_eq :: "tuning_settings \<Rightarrow> tuning_settings \<Rightarrow> bool" where
  "tuning_eq a b \<longleftrightarrow>
     a\<lparr>ts_sync_drift_threshold_ms := ts_sync_drift_threshold_ms b\<rparr> = b \<and>
     f64_le (ts_sync_drift_threshold_ms a) (ts_sync_drift_threshold_ms b) \<and>
     f64_le (ts_sync_drift_threshold_ms b) (ts_sync_drift_threshold_ms a)"

definition update_tuning :: "actor_state \<Rightarrow> operation_id \<Rightarrow> tuning_patch \<Rightarrow> apply_outcome actor_result" where
  "update_tuning self operation_id patch =
     (if list_ex (\<lambda>(_, pending). case pending of PersistTuning _ \<Rightarrow> True | _ \<Rightarrow> False) (act_pending_storage self)
      then Inl (invalid_state ''a tuning update is already pending durable storage'' (Some operation_id))
      else
        try_bind (map_err (\<lambda>error. invalid_argument (record_error_text error) (Some operation_id))
          (apply_to patch (snap_tuning (act_snapshot self)))) (\<lambda>settings.
        if tuning_eq settings (snap_tuning (act_snapshot self)) then Inr (outcome_default, self)
        else
          try_bind (start_storage_operation self (PersistSettings settings) (PersistTuning settings)) (\<lambda>(effect, self).
          Inr (outcome_storage_effect effect, self))))"

definition start_host_advertising :: "actor_state \<Rightarrow> operation_id \<Rightarrow> session_id \<Rightarrow> platform_effect actor_result" where
  "start_host_advertising self operation_id session_id =
     try_bind (map_err (\<lambda>error. invalid_argument (record_error_text error) (Some operation_id))
       (session_advertisement_new session_id (act_local_device_id self)
         (hd_session_name (snap_host_draft (act_snapshot self))) (hd_approval_mode (snap_host_draft (act_snapshot self)))
         current_protocol_version None)) (\<lambda>advertisement.
     start_platform_operation self (StartAdvertising advertisement) (PendingStartAdvertising session_id))"

definition create_host_session :: "actor_state \<Rightarrow> operation_id \<Rightarrow> apply_outcome actor_result" where
  "create_host_session self operation_id =
     try_bind (require_role self RoleHost operation_id) (\<lambda>_.
     if snap_host_lifecycle (act_snapshot self) \<notin> {HostIdle, HostError}
     then Inl (invalid_state ''host session creation is not legal now'' (Some operation_id))
     else
       try_bind (map_err (\<lambda>error. invalid_argument (record_error_text error) (Some operation_id))
         (validate_for_creation (snap_host_draft (act_snapshot self)))) (\<lambda>_.
       try_bind (next_session_id self) (\<lambda>(session_id, self).
       try_bind (start_host_advertising self operation_id session_id) (\<lambda>(effect, self).
       Inr (outcome_effect effect, clear_failure
         (on_snapshot (\<lambda>s. s\<lparr>snap_host_lifecycle := HostCreatingSession, snap_transport_state := TransportIdle\<rparr>)
           (self\<lparr>act_host_session_id := Some session_id\<rparr>)))))))"

definition end_host_session :: "actor_state \<Rightarrow> operation_id \<Rightarrow> apply_outcome actor_result" where
  "end_host_session self operation_id =
     try_bind (require_role self RoleHost operation_id) (\<lambda>_.
     if act_host_session_id self = None \<or> snap_host_lifecycle (act_snapshot self) \<in> {HostIdle, HostEndingSession}
     then Inl (invalid_state ''no active host session can be ended'' (Some operation_id))
     else
       try_bind (start_platform_operation self StopAdvertising PendingStopAdvertising) (\<lambda>(effect, self).
       Inr (outcome_effect effect, on_snapshot (\<lambda>s. s\<lparr>snap_host_lifecycle := HostEndingSession\<rparr>) self)))"

subsection \<open>Discovery and joining\<close>

definition start_discovery :: "actor_state \<Rightarrow> operation_id \<Rightarrow> apply_outcome actor_result" where
  "start_discovery self operation_id =
     try_bind (require_role self RoleListener operation_id) (\<lambda>_.
     if snap_discovery_active (act_snapshot self) \<or>
       list_ex (\<lambda>(_, pending). pending = PendingStartDiscovery) (act_pending_platform self)
     then Inl (invalid_state ''discovery is already active or starting'' (Some operation_id))
     else if snap_listener_lifecycle (act_snapshot self) \<notin> {ListenerIdle, ListenerDisconnected, ListenerError}
     then Inl (invalid_state ''discovery cannot start in the current lifecycle'' (Some operation_id))
     else
       try_bind (start_platform_operation self (StartDiscovery (discovery_from_tuning (snap_tuning (act_snapshot self))))
         PendingStartDiscovery) (\<lambda>(effect, self).
       Inr (outcome_effect effect, clear_failure self)))"

definition stop_discovery :: "actor_state \<Rightarrow> operation_id \<Rightarrow> apply_outcome actor_result" where
  "stop_discovery self operation_id =
     try_bind (require_role self RoleListener operation_id) (\<lambda>_.
     if \<not> snap_discovery_active (act_snapshot self)
     then Inl (invalid_state ''discovery is not active'' (Some operation_id))
     else
       try_bind (start_platform_operation self StopDiscovery PendingStopDiscovery) (\<lambda>(effect, self).
       Inr (outcome_effect effect, self)))"

definition select_session :: "actor_state \<Rightarrow> operation_id \<Rightarrow> session_id \<Rightarrow> apply_outcome actor_result" where
  "select_session self operation_id session_id =
     try_bind (require_role self RoleListener operation_id) (\<lambda>_.
     if \<not> list_ex (\<lambda>session. sa_session_id session = session_id) (snap_discovered_sessions (act_snapshot self))
     then Inl (invalid_argument ''selected session is not in discovery results'' (Some operation_id))
     else if snap_selected_session (act_snapshot self) = Some session_id then Inr (outcome_default, self)
     else if snap_listener_lifecycle (act_snapshot self) \<notin> {ListenerScanning, ListenerSessionSelected}
     then Inl (invalid_state ''session selection is not legal now'' (Some operation_id))
     else Inr (outcome_changed, clear_failure
       (on_snapshot (\<lambda>s. s\<lparr>snap_selected_session := Some session_id,
         snap_listener_lifecycle := ListenerSessionSelected\<rparr>) self)))"

definition submit_join :: "actor_state \<Rightarrow> operation_id \<Rightarrow> apply_outcome actor_result" where
  "submit_join self operation_id =
     try_bind (require_role self RoleListener operation_id) (\<lambda>_.
     if snap_listener_lifecycle (act_snapshot self) \<noteq> ListenerSessionSelected
     then Inl (invalid_state ''join requires a selected session'' (Some operation_id))
     else
       try_bind (ok_or (snap_selected_session (act_snapshot self))
         (invalid_state ''join has no selected session'' (Some operation_id))) (\<lambda>selected_id.
       try_bind (ok_or (find (\<lambda>session. sa_session_id session = selected_id) (snap_discovered_sessions (act_snapshot self)))
         (invalid_state ''selected session disappeared before join'' (Some operation_id))) (\<lambda>advertisement.
       try_bind (start_platform_operation self
         (EstablishNetwork \<lparr>ner_session_id = sa_session_id advertisement, ner_endpoint = sa_endpoint advertisement\<rparr>)
         (PendingEstablishNetwork (sa_session_id advertisement))) (\<lambda>(effect, self).
       Inr (outcome_effect effect, on_snapshot (\<lambda>s. s\<lparr>snap_listener_lifecycle := ListenerJoinRequested,
         snap_transport_state := TransportConnecting, snap_discovery_active := False\<rparr>) self)))))"

definition cancel_join :: "actor_state \<Rightarrow> operation_id \<Rightarrow> apply_outcome actor_result" where
  "cancel_join self operation_id =
     try_bind (require_role self RoleListener operation_id) (\<lambda>_.
     if snap_transport_state (act_snapshot self) \<in> {TransportConnecting, TransportConnected, TransportRetrying}
     then
       try_bind (start_platform_operation self ReleaseNetwork PendingReleaseNetwork) (\<lambda>(effect, self).
       Inr (outcome_effect effect, self))
     else Inr (outcome_changed, on_snapshot (\<lambda>s. s\<lparr>snap_selected_session := None,
       snap_listener_lifecycle := ListenerIdle, snap_transport_state := TransportIdle\<rparr>) self))"

definition export_diagnostics :: "actor_state \<Rightarrow> apply_outcome actor_result" where
  "export_diagnostics self =
     try_bind (next_export_id self) (\<lambda>(export_id, self).
     try_bind (start_platform_operation self (ShareDiagnostics export_id) (PendingShareDiagnostics export_id))
       (\<lambda>(effect, self). Inr (outcome_effect effect, self)))"

subsection \<open>Retrying\<close>

definition retry_listener_connection :: "actor_state \<Rightarrow> operation_id \<Rightarrow> apply_outcome actor_result" where
  "retry_listener_connection self operation_id =
     try_bind (require_role self RoleListener operation_id) (\<lambda>_.
     if \<not> idle_operations self
     then Inl (invalid_state ''listener retry cannot start while another operation is pending'' (Some operation_id))
     else
       let self = on_snapshot (\<lambda>s. s\<lparr>snap_selected_session := None\<rparr>) self in
       try_bind (start_platform_operation self (StartDiscovery (discovery_from_tuning (snap_tuning (act_snapshot self))))
         PendingStartDiscovery) (\<lambda>(effect, self).
       Inr (outcome_effect effect, clear_failure self)))"

definition retry_host_session :: "actor_state \<Rightarrow> operation_id \<Rightarrow> apply_outcome actor_result" where
  "retry_host_session self operation_id =
     try_bind (require_role self RoleHost operation_id) (\<lambda>_.
     if \<not> idle_operations self
     then Inl (invalid_state ''host retry cannot start while another operation is pending'' (Some operation_id))
     else
       try_bind (map_err (\<lambda>error. invalid_argument (record_error_text error) (Some operation_id))
         (validate_for_creation (snap_host_draft (act_snapshot self)))) (\<lambda>_.
       try_bind (ok_or (act_host_session_id self)
         (invalid_state ''host retry has no active session identity'' (Some operation_id))) (\<lambda>session_id.
       try_bind (start_host_advertising self operation_id session_id) (\<lambda>(effect, self).
       Inr (outcome_effect effect, clear_failure
         (on_snapshot (\<lambda>s. s\<lparr>snap_host_lifecycle := HostCreatingSession, snap_transport_state := TransportIdle\<rparr>) self))))))"

definition retry_recoverable :: "actor_state \<Rightarrow> operation_id \<Rightarrow> apply_outcome actor_result" where
  "retry_recoverable self operation_id =
     try_bind (ok_or (snap_last_error (act_snapshot self))
       (invalid_state ''there is no recoverable failure to retry'' (Some operation_id))) (\<lambda>error.
     try_bind (ok_or (snap_recoverable_action (act_snapshot self))
       (invalid_state ''the current failure has no recoverable action'' (Some operation_id))) (\<lambda>action.
     if \<not> ce_retryable error
     then Inl (invalid_state ''the current failure is not retryable'' (Some operation_id))
     else if snap_selected_role (act_snapshot self) = Some RoleHost \<and> action = ActionRetry
     then retry_host_session self operation_id
     else if snap_selected_role (act_snapshot self) = Some RoleListener \<and> action \<in> {ActionReconnect, ActionRescan}
     then retry_listener_connection self operation_id
     else Inr (outcome_changed, clear_failure self)))"

subsection \<open>All commands\<close>

definition playback_unavailable :: "operation_id \<Rightarrow> apply_outcome actor_result" where
  "playback_unavailable operation_id =
     Inl (invalid_state ''playback requires the shared packetizer and scheduler blocks'' (Some operation_id))"

primrec apply_command :: "actor_state \<Rightarrow> operation_id \<Rightarrow> core_command \<Rightarrow> apply_outcome actor_result" where
  "apply_command self operation_id (SelectRole role) = select_role self operation_id role"
| "apply_command self operation_id (UpdateHostDraft patch) = update_host_draft self operation_id patch"
| "apply_command self operation_id (AppendHostQueue revision entries) = append_host_queue self operation_id revision entries"
| "apply_command self operation_id (ReorderHostQueue revision ids) = reorder_host_queue self operation_id revision ids"
| "apply_command self operation_id (RemoveHostQueueEntry revision entry_id) =
     remove_host_queue_entry self operation_id revision entry_id"
| "apply_command self operation_id (ClearHostQueue revision) = clear_host_queue self operation_id revision"
| "apply_command self operation_id CreateHostSession = create_host_session self operation_id"
| "apply_command self operation_id EndHostSession = end_host_session self operation_id"
| "apply_command self operation_id CommandStartDiscovery = start_discovery self operation_id"
| "apply_command self operation_id CommandStopDiscovery = stop_discovery self operation_id"
| "apply_command self operation_id (SelectSession session_id) = select_session self operation_id session_id"
| "apply_command self operation_id (SubmitJoin invite_code) = submit_join self operation_id"
| "apply_command self operation_id CancelJoin = cancel_join self operation_id"
| "apply_command self operation_id (ApproveJoin request_id remember) = approve_join self operation_id request_id remember"
| "apply_command self operation_id (RejectJoin request_id) = reject_join self operation_id request_id"
| "apply_command self operation_id (RemoveListener listener_id) = remove_listener self operation_id listener_id"
| "apply_command self operation_id (StartPlayback source) = playback_unavailable operation_id"
| "apply_command self operation_id PausePlayback = playback_unavailable operation_id"
| "apply_command self operation_id ResumePlayback = playback_unavailable operation_id"
| "apply_command self operation_id StopPlayback = playback_unavailable operation_id"
| "apply_command self operation_id (SetLocalVolume gain) = playback_unavailable operation_id"
| "apply_command self operation_id RequestResync = playback_unavailable operation_id"
| "apply_command self operation_id RetryRecoverableFailure = retry_recoverable self operation_id"
| "apply_command self operation_id (UpdateTuning patch) = update_tuning self operation_id patch"
| "apply_command self operation_id ExportDiagnostics = export_diagnostics self"
| "apply_command self operation_id CommandShutdown =
     Inr (\<lparr>ao_notifications = [], ao_changed = True, ao_stop_requested = True\<rparr>,
          on_snapshot (\<lambda>s. s\<lparr>snap_shutting_down := True\<rparr>) self)"

end
