(* ===== verification/Actor_Runtime.thy ===== *)
theory Actor_Runtime
  imports Actor_Commands
begin

section \<open>The reducer of the runtime actor\<close>

text \<open>
  \<open>runtime/actor_runtime/state/platform.rs\<close>, \<open>transport.rs\<close>, \<open>storage.rs\<close>, \<open>tuning.rs\<close>,
  \<open>reservation.rs\<close> and \<open>ActorState::apply\<close> and \<open>process\<close> of \<open>mod.rs\<close>: the events that enter the actor,
  and the step that applies one input to a copy of the state, validates the snapshot and publishes
  it. A run of the actor is a \<open>call_run\<close> of these steps.
\<close>

subsection \<open>Platform events\<close>

definition LISTENER_JOINED_LIFECYCLES :: "listener_lifecycle list" where
  "LISTENER_JOINED_LIFECYCLES =
     [ListenerJoinRequested, ListenerAwaitingApproval, ListenerApproved, ListenerConnecting, ListenerSyncingClock,
      ListenerBuffering, ListenerPlaying, ListenerReconnecting, ListenerDesynced]"

text \<open>The derived \<open>Debug\<close> form of \<open>ListenerLifecycle\<close>.\<close>

primrec listener_lifecycle_debug :: "listener_lifecycle \<Rightarrow> string" where
  "listener_lifecycle_debug ListenerIdle = ''Idle''"
| "listener_lifecycle_debug ListenerScanning = ''Scanning''"
| "listener_lifecycle_debug ListenerSessionSelected = ''SessionSelected''"
| "listener_lifecycle_debug ListenerJoinRequested = ''JoinRequested''"
| "listener_lifecycle_debug ListenerAwaitingApproval = ''AwaitingApproval''"
| "listener_lifecycle_debug ListenerApproved = ''Approved''"
| "listener_lifecycle_debug ListenerConnecting = ''Connecting''"
| "listener_lifecycle_debug ListenerSyncingClock = ''SyncingClock''"
| "listener_lifecycle_debug ListenerBuffering = ''Buffering''"
| "listener_lifecycle_debug ListenerPlaying = ''Playing''"
| "listener_lifecycle_debug ListenerReconnecting = ''Reconnecting''"
| "listener_lifecycle_debug ListenerDesynced = ''Desynced''"
| "listener_lifecycle_debug ListenerDisconnected = ''Disconnected''"
| "listener_lifecycle_debug ListenerError = ''Error''"

definition apply_platform_failure :: "actor_state \<Rightarrow> operation_id \<Rightarrow> core_error \<Rightarrow> apply_outcome actor_result" where
  "apply_platform_failure self operation_id error =
     (case remove_pending self operation_id of
        (None, _) \<Rightarrow> Inl (invalid_state ''stale or duplicate platform failure completion'' (Some operation_id))
      | (Some pending, self) \<Rightarrow>
          try_bind (wrapped_error ''platform failure operation ID does not match its wrapper'' operation_id error) (\<lambda>error.
          Inr (outcome_error error,
            on_snapshot (\<lambda>s. s\<lparr>snap_last_error := Some error\<rparr>) (apply_pending_failure self pending error))))"

definition record_discovered_session :: "actor_state \<Rightarrow> session_advertisement \<Rightarrow> apply_outcome actor_result" where
  "record_discovered_session self advertisement =
     try_bind (require_discovery_active self) (\<lambda>_.
     let sessions = snap_discovered_sessions (act_snapshot self);
         same = (\<lambda>session. sa_session_id session = sa_session_id advertisement) in
     if list_ex same sessions
     then Inr (outcome_changed,
       on_snapshot (\<lambda>s. s\<lparr>snap_discovered_sessions := replace_first same advertisement sessions\<rparr>) self)
     else if length sessions \<ge> MAX_DISCOVERED_SESSIONS
     then Inl (resource_limit ''discovered-session capacity reached'' None)
     else Inr (outcome_changed, on_snapshot (\<lambda>s. s\<lparr>snap_discovered_sessions := sessions @ [advertisement]\<rparr>) self))"

definition expire_session :: "actor_state \<Rightarrow> session_id \<Rightarrow> apply_outcome actor_result" where
  "expire_session self session_id =
     (let snapshot = act_snapshot self in
      if snap_selected_session snapshot = Some session_id \<and>
         snap_listener_lifecycle snapshot \<in> set LISTENER_JOINED_LIFECYCLES
      then
        try_bind (diagnostic_entry ''session_id'' (session_id_str session_id)) (\<lambda>id_entry.
        try_bind (diagnostic_entry ''listener_lifecycle''
          (lit (listener_lifecycle_debug (snap_listener_lifecycle snapshot)))) (\<lambda>lifecycle_entry.
        try_bind (diagnostic ''session_expiry_ignored_while_joined'' [id_entry, lifecycle_entry]) (\<lambda>result.
        Inr (result, self))))
      else
        let kept = filter (\<lambda>session. sa_session_id session \<noteq> session_id) (snap_discovered_sessions snapshot) in
        if length (snap_discovered_sessions snapshot) = length kept then Inr (outcome_default, self)
        else
          let self = on_snapshot (\<lambda>s. s\<lparr>snap_discovered_sessions := kept\<rparr>) self in
          Inr (outcome_changed,
            if snap_selected_session snapshot = Some session_id
            then on_snapshot (\<lambda>s. s\<lparr>snap_selected_session := None,
              snap_listener_lifecycle := (if snap_discovery_active s then ListenerScanning else ListenerIdle)\<rparr>) self
            else self))"

definition complete_platform ::
    "actor_state \<Rightarrow> operation_id \<Rightarrow> pending_platform_operation \<Rightarrow> platform_operation_completion \<Rightarrow> apply_outcome actor_result" where
  "complete_platform self operation_id pending completion =
     (let mismatch = Inl (invalid_state ''platform completion kind does not match the pending operation'' (Some operation_id)) in
      case pending of
        PendingStartAdvertising session_id \<Rightarrow>
          if completion = AdvertisingStarted \<and> act_host_session_id self = Some session_id
          then Inr (outcome_changed, on_snapshot (\<lambda>s. s\<lparr>snap_host_lifecycle := HostWaitingForListeners,
            snap_transport_state := TransportAdvertising\<rparr>) self)
          else mismatch
      | PendingStopAdvertising \<Rightarrow>
          if completion = AdvertisingStopped then Inr (outcome_changed, reset_host_session self) else mismatch
      | PendingStartDiscovery \<Rightarrow>
          if completion = DiscoveryStarted
          then Inr (outcome_changed, on_snapshot (\<lambda>s. s\<lparr>snap_discovery_active := True,
            snap_transport_state := TransportDiscovering, snap_listener_lifecycle := ListenerScanning\<rparr>) self)
          else mismatch
      | PendingStopDiscovery \<Rightarrow>
          if completion = DiscoveryStopped
          then Inr (outcome_changed, on_snapshot (\<lambda>s. s\<lparr>snap_discovery_active := False,
            snap_transport_state := TransportIdle,
            snap_listener_lifecycle := (if snap_listener_lifecycle s = ListenerScanning then ListenerIdle
              else snap_listener_lifecycle s)\<rparr>) self)
          else mismatch
      | PendingEstablishNetwork session_id \<Rightarrow>
          (case completion of
             NetworkEndpointReady _ \<Rightarrow>
               if snap_selected_session (act_snapshot self) = Some session_id
               then Inr (outcome_changed, on_snapshot (\<lambda>s. s\<lparr>snap_discovery_active := False,
                 snap_transport_state := TransportConnected, snap_listener_lifecycle := ListenerConnecting\<rparr>) self)
               else mismatch
           | _ \<Rightarrow> mismatch)
      | PendingReleaseNetwork \<Rightarrow>
          if completion = NetworkReleased then Inr (outcome_changed, reset_listener_connection self) else mismatch
      | PendingShareDiagnostics expected \<Rightarrow>
          (case completion of
             DiagnosticsShared export_id \<Rightarrow>
               if expected = export_id
               then
                 try_bind (diagnostic_entry ''export_id'' export_id) (\<lambda>entry.
                 try_bind (diagnostic ''diagnostics_shared'' [entry]) (\<lambda>result.
                 Inr (result\<lparr>ao_changed := True\<rparr>, self)))
               else mismatch
           | _ \<Rightarrow> mismatch))"

definition apply_platform_success ::
    "actor_state \<Rightarrow> operation_id \<Rightarrow> platform_operation_completion \<Rightarrow> apply_outcome actor_result" where
  "apply_platform_success self operation_id completion =
     try_bind (ok_or (pending_platform self operation_id)
       (invalid_state ''stale or duplicate platform success completion'' (Some operation_id))) (\<lambda>pending.
     try_bind (complete_platform self operation_id pending completion) (\<lambda>(result, self).
     Inr (result, clear_failure (snd (remove_pending self operation_id)))))"

primrec apply_platform :: "actor_state \<Rightarrow> platform_event \<Rightarrow> apply_outcome actor_result" where
  "apply_platform self (PlatformSucceeded operation_id completion) = apply_platform_success self operation_id completion"
| "apply_platform self (PlatformOpFailed operation_id error) = apply_platform_failure self operation_id error"
| "apply_platform self (SessionDiscovered advertisement) = record_discovered_session self advertisement"
| "apply_platform self (SessionExpired session_id) = expire_session self session_id"
| "apply_platform self (CapabilityStateChanged capabilities) =
     (if capabilities = snap_capabilities (act_snapshot self) then Inr (outcome_default, self)
      else Inr (outcome_changed, on_snapshot (\<lambda>s. s\<lparr>snap_capabilities := capabilities\<rparr>) self))"
| "apply_platform self AppEnteredForeground = try_bind (diagnostic ''app_foreground'' []) (\<lambda>result. Inr (result, self))"
| "apply_platform self AppEnteredBackground = try_bind (diagnostic ''app_background'' []) (\<lambda>result. Inr (result, self))"

subsection \<open>Transport events\<close>

definition LISTENER_ACTIVE_LIFECYCLES :: "listener_lifecycle list" where
  "LISTENER_ACTIVE_LIFECYCLES =
     [ListenerScanning, ListenerSessionSelected, ListenerJoinRequested, ListenerAwaitingApproval, ListenerApproved,
      ListenerConnecting, ListenerSyncingClock, ListenerBuffering, ListenerPlaying, ListenerReconnecting, ListenerDesynced]"

definition record_awaiting_approval :: "actor_state \<Rightarrow> apply_outcome actor_result" where
  "record_awaiting_approval self =
     try_bind (require_role_event self RoleListener) (\<lambda>_.
     if snap_listener_lifecycle (act_snapshot self) \<noteq> ListenerConnecting
     then Inl (invalid_state ''awaiting approval arrived outside an active connection attempt'' None)
     else Inr (outcome_changed, on_snapshot (\<lambda>s. s\<lparr>snap_listener_lifecycle := ListenerAwaitingApproval\<rparr>) self))"

definition record_join_approved :: "actor_state \<Rightarrow> bool \<Rightarrow> apply_outcome actor_result" where
  "record_join_approved self trusted_for_future =
     try_bind (require_role_event self RoleListener) (\<lambda>_.
     if snap_listener_lifecycle (act_snapshot self) \<notin> {ListenerConnecting, ListenerAwaitingApproval}
     then Inl (invalid_state ''join approval arrived outside an active join attempt'' None)
     else Inr (outcome_changed,
       clear_failure (on_snapshot (\<lambda>s. s\<lparr>snap_listener_lifecycle := ListenerApproved\<rparr>) self)))"

definition record_join_rejected :: "actor_state \<Rightarrow> str \<Rightarrow> apply_outcome actor_result" where
  "record_join_rejected self reason =
     try_bind (require_role_event self RoleListener) (\<lambda>_.
     if snap_listener_lifecycle (act_snapshot self) \<notin> {ListenerConnecting, ListenerAwaitingApproval}
     then Inl (invalid_state ''join rejection arrived outside an active join attempt'' None)
     else Inr (outcome_error (join_rejected reason),
       on_snapshot (\<lambda>s. s\<lparr>snap_last_error := Some (join_rejected reason), snap_listener_lifecycle := ListenerError,
         snap_selected_session := None, snap_recoverable_action := Some ActionRescan\<rparr>) self))"

definition record_join_request :: "actor_state \<Rightarrow> join_request_summary \<Rightarrow> apply_outcome actor_result" where
  "record_join_request self request =
     try_bind (require_role_event self RoleHost) (\<lambda>_.
     let requests = snap_pending_join_requests (act_snapshot self) in
     if snap_host_lifecycle (act_snapshot self) \<notin> {HostWaitingForListeners, HostReady, HostStreaming}
     then Inl (invalid_state ''join request arrived while host admission was unavailable'' None)
     else if list_ex (\<lambda>existing. jrs_request_id existing = jrs_request_id request) requests
     then Inl (invalid_state ''duplicate join request identifier'' None)
     else if length requests \<ge> MAX_PENDING_JOIN_REQUESTS
     then Inl (resource_limit ''pending join-request capacity reached'' None)
     else Inr (outcome_changed, on_snapshot (\<lambda>s. s\<lparr>snap_pending_join_requests := requests @ [request]\<rparr>) self))"

definition record_listener :: "actor_state \<Rightarrow> listener_summary \<Rightarrow> apply_outcome actor_result" where
  "record_listener self listener =
     try_bind (require_role_event self RoleHost) (\<lambda>_.
     try_bind (store_listener (on_snapshot (\<lambda>s. s\<lparr>snap_pending_join_requests :=
       filter (\<lambda>request. jrs_device_id request \<noteq> ls_device_id listener) (snap_pending_join_requests s)\<rparr>) self) listener)
       (\<lambda>self.
     Inr (outcome_changed,
       if snap_host_lifecycle (act_snapshot self) = HostWaitingForListeners
       then on_snapshot (\<lambda>s. s\<lparr>snap_host_lifecycle := HostReady\<rparr>) self else self)))"

definition record_listener_disconnect :: "actor_state \<Rightarrow> device_id \<Rightarrow> core_error option \<Rightarrow> apply_outcome actor_result" where
  "record_listener_disconnect self device_id error =
     (let listeners = snap_listeners (act_snapshot self);
          requests = snap_pending_join_requests (act_snapshot self);
          kept_listeners = filter (\<lambda>listener. ls_device_id listener \<noteq> device_id) listeners;
          kept_requests = filter (\<lambda>request. jrs_device_id request \<noteq> device_id) requests;
          listener_removed = (length listeners \<noteq> length kept_listeners);
          request_removed = (length requests \<noteq> length kept_requests);
          self = on_snapshot (\<lambda>s. s\<lparr>snap_listeners := kept_listeners, snap_pending_join_requests := kept_requests\<rparr>) self;
          self = (if listener_removed \<and> kept_listeners = [] \<and> snap_host_lifecycle (act_snapshot self) = HostReady
                  then on_snapshot (\<lambda>s. s\<lparr>snap_host_lifecycle := HostWaitingForListeners\<rparr>) self else self) in
      case error of
        Some error \<Rightarrow> Inr (outcome_error error, on_snapshot (\<lambda>s. s\<lparr>snap_last_error := Some error\<rparr>) self)
      | None \<Rightarrow>
          if \<not> listener_removed \<and> \<not> request_removed then Inr (outcome_default, self)
          else Inr (outcome_changed, self))"

definition record_transport_failure :: "actor_state \<Rightarrow> core_error \<Rightarrow> apply_outcome actor_result" where
  "record_transport_failure self error =
     (let self = on_snapshot (\<lambda>s. s\<lparr>snap_last_error := Some error, snap_transport_state := TransportFailed,
            snap_discovery_active := False\<rparr>) self in
      Inr (outcome_error error,
        case snap_selected_role (act_snapshot self) of
          Some RoleHost \<Rightarrow> on_snapshot (\<lambda>s. s\<lparr>snap_host_lifecycle := HostError,
            snap_recoverable_action := retry_if error ActionRetry\<rparr>) self
        | Some RoleListener \<Rightarrow>
            if snap_listener_lifecycle (act_snapshot self) \<in> set LISTENER_ACTIVE_LIFECYCLES
            then on_snapshot (\<lambda>s. s\<lparr>snap_listener_lifecycle := ListenerError,
              snap_recoverable_action := retry_if error ActionReconnect\<rparr>) self
            else self
        | None \<Rightarrow> self))"

primrec apply_transport :: "actor_state \<Rightarrow> transport_event \<Rightarrow> apply_outcome actor_result" where
  "apply_transport self (TransportStateChanged state) =
     Inr (outcome_changed, on_snapshot (\<lambda>s. s\<lparr>snap_transport_state := state,
       snap_discovery_active := (state = TransportDiscovering)\<rparr>) self)"
| "apply_transport self (JoinRequested request) = record_join_request self request"
| "apply_transport self (TransportListenerConnected listener) = record_listener self listener"
| "apply_transport self (TransportListenerDisconnected device_id error) = record_listener_disconnect self device_id error"
| "apply_transport self (DeliveryCompleted operation_id report) =
     Inr (outcome_changed, on_snapshot (\<lambda>s. s\<lparr>snap_last_delivery := Some report,
       snap_last_delivery_operation_id := Some operation_id\<rparr>) self)"
| "apply_transport self (SessionEnded session_id) =
     (if snap_selected_session (act_snapshot self) \<noteq> Some session_id then Inr (outcome_default, self)
      else Inr (outcome_changed, on_snapshot (\<lambda>s. s\<lparr>snap_listener_lifecycle := ListenerDisconnected,
        snap_transport_state := TransportDisconnected, snap_playback_state := PlaybackStopped,
        snap_recoverable_action := Some ActionReconnect\<rparr>) self))"
| "apply_transport self (TransportEventFailed error) = record_transport_failure self error"
| "apply_transport self AwaitingApproval = record_awaiting_approval self"
| "apply_transport self (JoinApproved trusted_for_future) = record_join_approved self trusted_for_future"
| "apply_transport self (JoinRejected reason) = record_join_rejected self reason"

definition apply_transport_state :: "actor_state \<Rightarrow> transport_state \<Rightarrow> apply_outcome actor_result" where
  "apply_transport_state self state =
     try_bind (apply_transport self (TransportStateChanged state)) (\<lambda>(result, self).
     Inr (result,
       if snap_selected_role (act_snapshot self) = Some RoleHost \<and>
          snap_host_lifecycle (act_snapshot self) = HostCreatingSession \<and> state = TransportAdvertising
       then on_snapshot (\<lambda>s. s\<lparr>snap_host_lifecycle := HostAdvertising\<rparr>) self else self))"

subsection \<open>Storage events\<close>

definition apply_tuning_storage :: "actor_state \<Rightarrow> storage_event \<Rightarrow> apply_outcome actor_result" where
  "apply_tuning_storage self event =
     try_bind (contract_ok event) (\<lambda>_.
     let wrapper_id = storage_event_operation_id event in
     case remove_pending_storage self wrapper_id of
       (None, _) \<Rightarrow> Inl (invalid_state ''stale or duplicate tuning storage completion'' (Some wrapper_id))
     | (Some pending, self) \<Rightarrow>
         (case (pending, event) of
            (PersistTuning settings, StorageSucceeded _ SettingsSaved) \<Rightarrow>
              try_bind (diagnostic ''settings_saved'' []) (\<lambda>result.
              Inr (result\<lparr>ao_changed := True\<rparr>, on_snapshot (\<lambda>s. s\<lparr>snap_tuning := settings\<rparr>) self))
          | (PersistTuning _, StorageOpFailed operation_id error) \<Rightarrow>
              try_bind (wrapped_error storage_mismatch operation_id error) (\<lambda>error.
              Inr (outcome_error error, on_snapshot (\<lambda>s. s\<lparr>snap_last_error := Some error\<rparr>) self))
          | _ \<Rightarrow> Inl (invalid_state ''tuning storage completion kind does not match the pending operation''
              (Some wrapper_id))))"

definition apply_storage :: "actor_state \<Rightarrow> storage_event \<Rightarrow> apply_outcome actor_result" where
  "apply_storage self event =
     try_bind (contract_ok event) (\<lambda>_.
     case event of
       StorageSucceeded _ completion \<Rightarrow>
         (case completion of
            SettingsLoaded (Some settings) \<Rightarrow>
              Inr (outcome_changed, on_snapshot (\<lambda>s. s\<lparr>snap_tuning := sts_tuning settings\<rparr>) self)
          | SettingsLoaded None \<Rightarrow> Inr (outcome_default, self)
          | SettingsSaved \<Rightarrow> try_bind (diagnostic ''settings_saved'' []) (\<lambda>result. Inr (result, self))
          | TrustedDevicesLoaded devices \<Rightarrow>
              try_bind (diagnostic_entry ''count'' (lit (digits (length devices)))) (\<lambda>entry.
              try_bind (diagnostic ''trusted_devices_loaded'' [entry]) (\<lambda>result. Inr (result, self)))
          | TrustedDeviceUpdated device_id \<Rightarrow>
              try_bind (diagnostic_entry ''device_id'' (device_id_str device_id)) (\<lambda>entry.
              try_bind (diagnostic ''trusted_device_updated'' [entry]) (\<lambda>result. Inr (result, self)))
          | DiagnosticsExportReady export_id \<Rightarrow>
              try_bind (diagnostic_entry ''export_id'' export_id) (\<lambda>entry.
              try_bind (diagnostic ''diagnostics_export_ready'' [entry]) (\<lambda>result. Inr (result, self))))
     | StorageOpFailed operation_id error \<Rightarrow>
         try_bind (wrapped_error storage_mismatch operation_id error) (\<lambda>error.
         Inr (outcome_error error, on_snapshot (\<lambda>s. s\<lparr>snap_last_error := Some error\<rparr>) self)))"

subsection \<open>One input\<close>

definition apply_input_command :: "actor_state \<Rightarrow> operation_id \<Rightarrow> core_command_request \<Rightarrow> apply_outcome actor_result" where
  "apply_input_command self operation_id request =
     (if ccr_expected_revision request \<noteq> snap_revision (act_snapshot self) \<and> ccr_command request \<noteq> EndHostSession
      then Inl (invalid_state (''command expected snapshot revision '' @ decimal (ccr_expected_revision request) @
        '', but current revision is '' @ decimal (snap_revision (act_snapshot self))) (Some operation_id))
      else apply_command self operation_id (ccr_command request))"

definition apply_input_transport :: "actor_state \<Rightarrow> transport_event \<Rightarrow> apply_outcome actor_result" where
  "apply_input_transport self event =
     (case event of
        JoinRequested request \<Rightarrow> handle_join_request self request
      | DeliveryCompleted operation_id report \<Rightarrow> complete_transport_delivery self operation_id report
      | TransportStateChanged state \<Rightarrow> apply_transport_state self state
      | _ \<Rightarrow> apply_transport self event)"

definition apply_input_storage :: "actor_state \<Rightarrow> storage_event \<Rightarrow> apply_outcome actor_result" where
  "apply_input_storage self event =
     (let pending = pending_storage self (storage_event_operation_id event) in
      if (case pending of Some (PersistTuning _) \<Rightarrow> True | _ \<Rightarrow> False) then apply_tuning_storage self event
      else if (case pending of Some (PersistApprovalTrust _) \<Rightarrow> True | _ \<Rightarrow> False) \<or>
        (case event of StorageSucceeded _ (TrustedDeviceUpdated _) \<Rightarrow> True | _ \<Rightarrow> False)
      then apply_admission_storage self event
      else apply_storage self event)"

primrec apply_input :: "actor_state \<Rightarrow> core_actor_input \<Rightarrow> apply_outcome actor_result" where
  "apply_input self (InputCommand operation_id request) = apply_input_command self operation_id request"
| "apply_input self (InputPlatform event) = apply_platform self event"
| "apply_input self (InputTransport event) = apply_input_transport self event"
| "apply_input self (InputAudio event) = apply_audio_control self event"
| "apply_input self (InputStorage event) = apply_input_storage self event"

record process_result =
  pr_notifications :: "core_notification list"
  pr_stop_requested :: bool

definition process_input :: "actor_state \<Rightarrow> core_actor_input \<Rightarrow> process_result \<times> actor_state" where
  "process_input self input =
     (let operation_id = input_operation_id input in
      case apply_input self input of
        Inr (result, candidate) \<Rightarrow>
          if ao_changed result
          then
            (case revision_checked_next (snap_revision (act_snapshot candidate)) of
               Inl _ \<Rightarrow>
                 (\<lparr>pr_notifications = [NotifyError (resource_limit ''snapshot revision overflow'' operation_id)],
                   pr_stop_requested = True\<rparr>, self)
             | Inr revision \<Rightarrow>
                 let candidate = on_snapshot (\<lambda>s. s\<lparr>snap_revision := revision\<rparr>) candidate in
                 (case core_snapshot_validate (act_snapshot candidate) of
                    Inl error \<Rightarrow>
                      (\<lparr>pr_notifications = [NotifyError (invalid_argument (contract_error_text error) operation_id)],
                        pr_stop_requested = False\<rparr>, self)
                  | Inr _ \<Rightarrow>
                      (\<lparr>pr_notifications = NotifySnapshot (act_snapshot candidate) # ao_notifications result,
                        pr_stop_requested = ao_stop_requested result\<rparr>, candidate)))
          else (\<lparr>pr_notifications = ao_notifications result, pr_stop_requested = ao_stop_requested result\<rparr>, candidate)
      | Inl error \<Rightarrow> (\<lparr>pr_notifications = [NotifyError error], pr_stop_requested = False\<rparr>, self))"

definition reserve_track_boundary ::
    "actor_state \<Rightarrow> stream_id \<Rightarrow> str \<Rightarrow> u64 \<Rightarrow> core_error + process_result \<times> actor_state" where
  "reserve_track_boundary self stream_id entry_id first_sample_index =
     (if act_active_audio_stream_id self \<noteq> Some stream_id
      then Inl (invalid_state ''track boundary reservation does not match the active stream'' None)
      else
        try_bind (apply_audio_control self (TrackBoundaryScheduled entry_id first_sample_index)) (\<lambda>(result, candidate).
        if ao_changed result
        then
          try_bind (map_err (\<lambda>_. resource_limit ''snapshot revision overflow'' None)
            (revision_checked_next (snap_revision (act_snapshot candidate)))) (\<lambda>revision.
          let candidate = on_snapshot (\<lambda>s. s\<lparr>snap_revision := revision\<rparr>) candidate in
          try_bind (map_err (\<lambda>error. invalid_argument (contract_error_text error) None)
            (core_snapshot_validate (act_snapshot candidate))) (\<lambda>_.
          Inr (\<lparr>pr_notifications = NotifySnapshot (act_snapshot candidate) # ao_notifications result,
                pr_stop_requested = ao_stop_requested result\<rparr>, candidate)))
        else Inr (\<lparr>pr_notifications = ao_notifications result, pr_stop_requested = ao_stop_requested result\<rparr>, candidate)))"

end
