(* ===== verification/Actor_Invariants.thy ===== *)
theory Actor_Invariants
  imports Actor_Runtime Call_Runs
begin

section \<open>What the runtime actor preserves\<close>

text \<open>
  The invariant of the actor is a conjunction of predicates on groups of fields: the queue and its
  reservations (\<open>queue_view\<close>), the identities of audio streams (\<open>streams_ok\<close>), the operations in
  progress (\<open>ops_ok\<close>), the host session (\<open>session_ok\<close>), the admissions (\<open>admission_ok\<close>) and the number of published snapshots. Each handler
  that touches a group has one lemma per group; the others only change fields outside of it.
\<close>

subsection \<open>Runs of the actor\<close>

datatype actor_call =
    Process core_actor_input
  | Reserve stream_id str u64

fun perform_actor_call :: "actor_state \<Rightarrow> actor_call \<Rightarrow> core_notification list \<times> actor_state" where
  "perform_actor_call self (Process input) =
     (case process_input self input of (result, self') \<Rightarrow> (pr_notifications result, self'))"
| "perform_actor_call self (Reserve stream_id entry_id first_sample_index) =
     (case reserve_track_boundary self stream_id entry_id first_sample_index of
        Inl _ \<Rightarrow> ([], self)
      | Inr (result, self') \<Rightarrow> (pr_notifications result, self'))"

abbreviation actor_run :: "actor_state \<Rightarrow> actor_call list \<Rightarrow> core_notification list \<Rightarrow> actor_state \<Rightarrow> bool" where
  "actor_run \<equiv> call_run (\<lambda>_ _. True) perform_actor_call"

subsection \<open>The groups of the invariant\<close>

definition reserved_prefix :: "host_queue_boundary list \<Rightarrow> queue_entry list \<Rightarrow> bool" where
  "reserved_prefix boundaries upcoming \<longleftrightarrow>
     length boundaries \<le> length upcoming \<and>
     map hb_entry_id boundaries = map qe_entry_id (take (length boundaries) upcoming)"

definition boundaries_ordered :: "host_queue_boundary list \<Rightarrow> bool" where
  "boundaries_ordered boundaries \<longleftrightarrow>
     sorted_wrt (<) (map hb_first_sample_index boundaries) \<and> list_all (\<lambda>b. 0 < hb_first_sample_index b) boundaries"

definition queue_view ::
    "audio_source_descriptor option \<Rightarrow> host_queue \<Rightarrow> host_queue_boundary list \<Rightarrow> host_queue_boundary option \<Rightarrow> bool" where
  "queue_view source queue boundaries next \<longleftrightarrow>
     entries_ok (hq_entries queue) \<and> source = map_option qe_source (queue_current queue) \<and>
     reserved_prefix boundaries (queue_upcoming queue) \<and> boundaries_ordered boundaries \<and> next = first_boundary boundaries"

definition streams_ok :: "stream_id option \<Rightarrow> stream_id list \<Rightarrow> bool" where
  "streams_ok active retired \<longleftrightarrow>
     distinct retired \<and> length retired \<le> MAX_RETIRED_AUDIO_STREAM_IDS \<and> set_option active \<inter> set retired = {}"

definition effect_operation :: "u64 \<Rightarrow> operation_id" where
  "effect_operation n = OperationId (lit (''effect-'' @ decimal n))"

fun effect_ids_of :: "core_notification \<Rightarrow> operation_id list" where
  "effect_ids_of (NotifyEffect effect) = [pe_operation_id effect]"
| "effect_ids_of (NotifyTransportEffect effect) = [te_operation_id effect]"
| "effect_ids_of (NotifyStorageEffect effect) = [se_operation_id effect]"
| "effect_ids_of _ = []"

definition effect_ids :: "core_notification list \<Rightarrow> operation_id list" where
  "effect_ids out = concat (map effect_ids_of out)"

definition ops_ok ::
    "operation_id list \<Rightarrow> u64 \<Rightarrow> (operation_id \<times> 'p) list \<Rightarrow> (operation_id \<times> 't) list \<Rightarrow> (operation_id \<times> 's) list \<Rightarrow> bool" where
  "ops_ok ids next platform transport storage \<longleftrightarrow>
     distinct ids \<and> set ids \<subseteq> {effect_operation k | k. k < next} \<and>
     distinct (map fst platform @ map fst transport @ map fst storage) \<and>
     set (map fst platform @ map fst transport @ map fst storage) \<subseteq> set ids \<and>
     length platform + length transport + length storage \<le> MAX_PENDING_EFFECT_OPERATIONS"

definition session_ok :: "host_lifecycle \<Rightarrow> session_id option \<Rightarrow> bool" where
  "session_ok lifecycle session \<longleftrightarrow> lifecycle \<in> {HostIdle, HostError} \<or> session \<noteq> None"

subsection \<open>Admissions and their history\<close>

text \<open>What the calls so far say about a request, an approval command, a stored trust and a connection.\<close>

definition requested :: "actor_call list \<Rightarrow> join_request_summary \<Rightarrow> bool" where
  "requested cs request \<longleftrightarrow> Process (InputTransport (JoinRequested request)) \<in> set cs"

definition host_approved :: "actor_call list \<Rightarrow> request_id \<Rightarrow> bool" where
  "host_approved cs request_id \<longleftrightarrow>
     (\<exists>operation_id request remember. Process (InputCommand operation_id request) \<in> set cs \<and>
        ccr_command request = ApproveJoin request_id remember)"

definition trust_stored :: "actor_call list \<Rightarrow> device_id \<Rightarrow> bool" where
  "trust_stored cs device_id \<longleftrightarrow>
     (\<exists>operation_id. Process (InputStorage (StorageSucceeded operation_id (TrustedDeviceUpdated device_id))) \<in> set cs)"

definition connection_reported :: "actor_call list \<Rightarrow> device_id \<Rightarrow> bool" where
  "connection_reported cs device_id \<longleftrightarrow>
     (\<exists>listener. Process (InputTransport (TransportListenerConnected listener)) \<in> set cs \<and> ls_device_id listener = device_id)"

text \<open>
  An approval is justified by a join request of the device with this id that the host approved by
  a command, or whose device was already trusted; the promise of durable trust additionally needs
  a request of a trusted device or a trust record that the storage confirmed.
\<close>

definition approval_justified :: "actor_call list \<Rightarrow> request_id \<Rightarrow> device_id \<Rightarrow> bool \<Rightarrow> bool" where
  "approval_justified cs request_id device_id trusted \<longleftrightarrow>
     (\<exists>request. requested cs request \<and> jrs_request_id request = request_id \<and> jrs_device_id request = device_id \<and>
        (host_approved cs request_id \<or> jrs_trust_state request = TrustTrusted) \<and>
        (trusted \<longrightarrow> jrs_trust_state request = TrustTrusted \<or> trust_stored cs device_id))"

fun approvals_of :: "core_notification \<Rightarrow> (request_id \<times> device_id \<times> bool) list" where
  "approvals_of (NotifyTransportEffect effect) =
     (case te_request effect of
        DeliverJoinApproval request_id session_id device_id trusted \<Rightarrow> [(request_id, device_id, trusted)]
      | _ \<Rightarrow> [])"
| "approvals_of _ = []"

definition approvals :: "core_notification list \<Rightarrow> (request_id \<times> device_id \<times> bool) list" where
  "approvals out = concat (map approvals_of out)"

fun transport_justified :: "(request_id \<times> device_id \<times> bool) list \<Rightarrow> pending_transport_operation \<Rightarrow> bool" where
  "transport_justified emitted (PendingApproveJoin delivery) =
     ((ad_request_id delivery, ad_device_id delivery, ad_trusted_for_future delivery) \<in> set emitted)"
| "transport_justified emitted _ = True"

fun storage_justified :: "actor_call list \<Rightarrow> pending_storage_operation \<Rightarrow> bool" where
  "storage_justified cs (PersistApprovalTrust persistence) =
     (host_approved cs (tpr_request_id persistence) \<and>
      (\<exists>request. requested cs request \<and> jrs_request_id request = tpr_request_id persistence \<and>
         jrs_device_id request = tpr_device_id persistence))"
| "storage_justified cs (PersistTuning settings) = True"

definition admission_ok ::
    "actor_call list \<Rightarrow> (request_id \<times> device_id \<times> bool) list \<Rightarrow> join_request_summary list \<Rightarrow> device_id list \<Rightarrow>
       (operation_id \<times> pending_transport_operation) list \<Rightarrow> (operation_id \<times> pending_storage_operation) list \<Rightarrow> bool" where
  "admission_ok cs emitted requests listeners transport storage \<longleftrightarrow>
     list_all (requested cs) requests \<and>
     list_all (\<lambda>(request_id, device_id, trusted). approval_justified cs request_id device_id trusted) emitted \<and>
     list_all (\<lambda>device_id. connection_reported cs device_id \<or> device_id \<in> (fst \<circ> snd) ` set emitted) listeners \<and>
     list_all (transport_justified emitted \<circ> snd) transport \<and>
     list_all (storage_justified cs \<circ> snd) storage"

fun published_of :: "core_notification \<Rightarrow> core_snapshot list" where
  "published_of (NotifySnapshot snapshot) = [snapshot]"
| "published_of _ = []"

definition published :: "core_notification list \<Rightarrow> core_snapshot list" where
  "published out = concat (map published_of out)"

definition actor_inv :: "nat \<Rightarrow> actor_call list \<Rightarrow> core_notification list \<Rightarrow> actor_state \<Rightarrow> bool" where
  "actor_inv n cs out self \<longleftrightarrow>
     queue_view (hd_audio_source (snap_host_draft (act_snapshot self))) (snap_host_queue (act_snapshot self))
       (act_pending_host_boundaries self) (snap_host_queue_next_boundary (act_snapshot self)) \<and>
     streams_ok (act_active_audio_stream_id self) (act_retired_audio_stream_ids self) \<and>
     ops_ok (effect_ids out) (act_next_effect_sequence self) (act_pending_platform self) (act_pending_transport self)
       (act_pending_storage self) \<and>
     session_ok (snap_host_lifecycle (act_snapshot self)) (act_host_session_id self) \<and>
     admission_ok cs (approvals out) (snap_pending_join_requests (act_snapshot self))
       (map ls_device_id (snap_listeners (act_snapshot self))) (act_pending_transport self) (act_pending_storage self) \<and>
     length (published out) = n \<and> unat (snap_revision (act_snapshot self)) = n"

subsection \<open>Simplification of state updates\<close>

lemma on_snapshot_fields [simp]:
  "act_snapshot (on_snapshot f self) = f (act_snapshot self)"
  "act_local_device_id (on_snapshot f self) = act_local_device_id self"
  "act_host_session_id (on_snapshot f self) = act_host_session_id self"
  "act_active_audio_stream_id (on_snapshot f self) = act_active_audio_stream_id self"
  "act_pending_host_boundaries (on_snapshot f self) = act_pending_host_boundaries self"
  "act_retired_audio_stream_ids (on_snapshot f self) = act_retired_audio_stream_ids self"
  "act_pending_platform (on_snapshot f self) = act_pending_platform self"
  "act_pending_transport (on_snapshot f self) = act_pending_transport self"
  "act_pending_storage (on_snapshot f self) = act_pending_storage self"
  "act_next_effect_sequence (on_snapshot f self) = act_next_effect_sequence self"
  "act_next_session_sequence (on_snapshot f self) = act_next_session_sequence self"
  "act_next_export_sequence (on_snapshot f self) = act_next_export_sequence self"
  "act_session_id_namespace (on_snapshot f self) = act_session_id_namespace self"
  by (simp_all add: on_snapshot_def)

lemmas reset_defs = clear_failure_def clear_host_boundary_reservations_def sync_legacy_audio_source_def
  publish_earliest_host_boundary_def

definition retired_after :: "stream_id option \<Rightarrow> stream_id list \<Rightarrow> stream_id list" where
  "retired_after active retired =
     (case active of
        None \<Rightarrow> retired
      | Some stream_id \<Rightarrow>
          if stream_id \<in> set retired then retired
          else (if length retired = MAX_RETIRED_AUDIO_STREAM_IDS then tl retired else retired) @ [stream_id])"

lemma retire_fields [simp]:
  "act_snapshot (retire_active_audio_stream self) = (act_snapshot self)\<lparr>snap_host_queue_next_boundary := None\<rparr>"
  "act_host_session_id (retire_active_audio_stream self) = act_host_session_id self"
  "act_active_audio_stream_id (retire_active_audio_stream self) = None"
  "act_pending_host_boundaries (retire_active_audio_stream self) = []"
  "act_retired_audio_stream_ids (retire_active_audio_stream self) =
     retired_after (act_active_audio_stream_id self) (act_retired_audio_stream_ids self)"
  "act_pending_platform (retire_active_audio_stream self) = act_pending_platform self"
  "act_pending_transport (retire_active_audio_stream self) = act_pending_transport self"
  "act_pending_storage (retire_active_audio_stream self) = act_pending_storage self"
  "act_next_effect_sequence (retire_active_audio_stream self) = act_next_effect_sequence self"
  by (simp_all add: retire_active_audio_stream_def reset_defs retired_after_def Let_def split: option.splits)

lemma streams_ok_retire [simp]: "streams_ok active retired \<Longrightarrow> streams_ok None (retired_after active retired)"
proof -
  assume ok: "streams_ok active retired"
  have "distinct (tl retired)" "set (tl retired) \<subseteq> set retired"
    using ok by (simp add: streams_ok_def distinct_tl) (cases retired; auto)
  then show ?thesis
    using ok by (auto simp: streams_ok_def retired_after_def MAX_RETIRED_AUDIO_STREAM_IDS_def split: option.splits)
qed

lemma streams_ok_active: "streams_ok active retired \<Longrightarrow> stream_id \<notin> set retired \<Longrightarrow> streams_ok (Some stream_id) retired"
  by (simp add: streams_ok_def)

lemma queue_view_clear:
  "queue_view source queue boundaries next \<Longrightarrow> queue_view source queue [] None"
  by (simp add: queue_view_def reserved_prefix_def boundaries_ordered_def first_boundary_def)

lemma session_ok_simps [simp]:
  "session_ok HostIdle session" "session_ok HostError session" "session_ok lifecycle (Some session_id)"
  by (simp_all add: session_ok_def)

lemma session_ok_active: "session_ok lifecycle session \<Longrightarrow> lifecycle \<notin> {HostIdle, HostError} \<Longrightarrow> session_ok l session"
  by (auto simp: session_ok_def)

lemma effect_ids_simps [simp]:
  "effect_ids [] = []" "effect_ids (xs @ ys) = effect_ids xs @ effect_ids ys"
  "effect_ids (n # ns) = effect_ids_of n @ effect_ids ns"
  "approvals [] = []" "approvals (xs @ ys) = approvals xs @ approvals ys"
  "approvals (n # ns) = approvals_of n @ approvals ns"
  "published [] = []" "published (xs @ ys) = published xs @ published ys"
  "published (n # ns) = published_of n @ published ns"
  by (simp_all add: effect_ids_def approvals_def published_def)

lemma outcome_simps [simp]:
  "ao_notifications outcome_default = []" "ao_changed outcome_default = False"
  "ao_notifications outcome_changed = []" "ao_changed outcome_changed = True"
  "ao_notifications (outcome_effect pe) = [NotifyEffect pe]" "ao_changed (outcome_effect pe) = True"
  "ao_notifications (outcome_transport_effect te) = [NotifyTransportEffect te]" "ao_changed (outcome_transport_effect te) = True"
  "ao_notifications (outcome_storage_effect se) = [NotifyStorageEffect se]" "ao_changed (outcome_storage_effect se) = True"
  "ao_notifications (outcome_error e) = [NotifyError e]" "ao_changed (outcome_error e) = True"
  by (simp_all add: outcome_default_def outcome_changed_def outcome_effect_def outcome_transport_effect_def
      outcome_storage_effect_def outcome_error_def)

subsection \<open>Operations in progress\<close>

lemma effect_operation_inject [simp]: "effect_operation m = effect_operation n \<longleftrightarrow> m = n"
  by (simp add: effect_operation_def)

lemma effect_operation_new: "id_new Operation OperationId (lit (''effect-'' @ decimal n)) = Inr (effect_operation n)"
proof -
  have "printable_token ''effect-''"
    by code_simp
  from valid_identifier_numbered [OF this, of n] show ?thesis
    by (simp add: id_new_ok_iff effect_operation_def)
qed

declare ok_or_Inr_iff [simp]

lemma next_effect_id_iff:
  "next_effect_id self = Inr (operation_id, self') \<longleftrightarrow>
     unat (act_next_effect_sequence self) < U64_MAX \<and> operation_id = effect_operation (act_next_effect_sequence self) \<and>
     self' = self\<lparr>act_next_effect_sequence := act_next_effect_sequence self + 1\<rparr>"
  unfolding next_effect_id_def Let_def effect_operation_new
  by (auto simp: try_bind_Inr_iff checked_add_def U64_MAX_def split: if_splits)

lemma ensure_effect_capacity_iff:
  "ensure_effect_capacity self = Inr () \<longleftrightarrow>
     length (act_pending_platform self) + length (act_pending_transport self) + length (act_pending_storage self)
       < MAX_PENDING_EFFECT_OPERATIONS"
  by (simp add: ensure_effect_capacity_def Let_def MAX_PENDING_EFFECT_OPERATIONS_def usize_max_def not_le)

lemmas start_operation_simps = try_bind_Inr_iff next_effect_id_iff ensure_effect_capacity_iff platform_effect_new_iff
  transport_effect_new_iff storage_effect_new_iff

lemma start_platform_operation_iff:
  "start_platform_operation self request pending = Inr (effect, self') \<longleftrightarrow>
     length (act_pending_platform self) + length (act_pending_transport self) + length (act_pending_storage self)
       < MAX_PENDING_EFFECT_OPERATIONS \<and>
     unat (act_next_effect_sequence self) < U64_MAX \<and> platform_effect_validate request = Inr () \<and>
     effect = \<lparr>pe_operation_id = effect_operation (act_next_effect_sequence self), pe_request = request\<rparr> \<and>
     self' = self\<lparr>act_next_effect_sequence := act_next_effect_sequence self + 1,
       act_pending_platform := act_pending_platform self @ [(effect_operation (act_next_effect_sequence self), pending)]\<rparr>"
  unfolding start_platform_operation_def by (simp add: start_operation_simps split_paired_Ex) blast

lemma start_transport_operation_iff:
  "start_transport_operation self request pending = Inr (effect, self') \<longleftrightarrow>
     length (act_pending_platform self) + length (act_pending_transport self) + length (act_pending_storage self)
       < MAX_PENDING_EFFECT_OPERATIONS \<and>
     unat (act_next_effect_sequence self) < U64_MAX \<and> transport_effect_validate request = Inr () \<and>
     effect = \<lparr>te_operation_id = effect_operation (act_next_effect_sequence self), te_request = request\<rparr> \<and>
     self' = self\<lparr>act_next_effect_sequence := act_next_effect_sequence self + 1,
       act_pending_transport := act_pending_transport self @ [(effect_operation (act_next_effect_sequence self), pending)]\<rparr>"
  unfolding start_transport_operation_def by (simp add: start_operation_simps split_paired_Ex) blast

lemma start_storage_operation_iff:
  "start_storage_operation self request pending = Inr (effect, self') \<longleftrightarrow>
     length (act_pending_platform self) + length (act_pending_transport self) + length (act_pending_storage self)
       < MAX_PENDING_EFFECT_OPERATIONS \<and>
     unat (act_next_effect_sequence self) < U64_MAX \<and> storage_effect_validate request = Inr () \<and>
     effect = \<lparr>se_operation_id = effect_operation (act_next_effect_sequence self), se_request = request\<rparr> \<and>
     self' = self\<lparr>act_next_effect_sequence := act_next_effect_sequence self + 1,
       act_pending_storage := act_pending_storage self @ [(effect_operation (act_next_effect_sequence self), pending)]\<rparr>"
  unfolding start_storage_operation_def by (simp add: start_operation_simps split_paired_Ex) blast

lemmas start_iffs = start_platform_operation_iff start_transport_operation_iff start_storage_operation_iff

lemma less_next: "unat (n :: u64) < U64_MAX \<Longrightarrow> k < n + 1 \<longleftrightarrow> k \<le> n"
proof -
  assume "unat n < U64_MAX"
  then have "unat (n + 1) = unat n + 1"
    by (simp add: unat_word_ariths U64_MAX_def)
  then show ?thesis
    by (simp add: word_less_nat_alt word_le_nat_alt less_Suc_eq_le)
qed

lemma ops_ok_fresh: "ops_ok ids next P T S \<Longrightarrow> effect_operation next \<notin> set ids"
  by (auto simp: ops_ok_def)

lemma ops_ok_issue:
  assumes "ops_ok ids next P T S" and "unat next < U64_MAX"
  shows "distinct (ids @ [effect_operation next])"
    and "set (ids @ [effect_operation next]) \<subseteq> {effect_operation k | k. k < next + 1}"
proof -
  have ids: "distinct ids" "set ids \<subseteq> {effect_operation k | k. k < next}"
    using assms(1) by (simp_all add: ops_ok_def)
  then show "distinct (ids @ [effect_operation next])"
    using ops_ok_fresh [OF assms(1)] by simp
  show "set (ids @ [effect_operation next]) \<subseteq> {effect_operation k | k. k < next + 1}"
    using ids(2) unfolding less_next [OF assms(2)] by (auto simp: subset_iff intro: less_imp_le)
qed

lemma ops_ok_add:
  assumes "ops_ok ids next P T S" and "unat next < U64_MAX"
    and "length P + length T + length S < MAX_PENDING_EFFECT_OPERATIONS"
  shows "ops_ok (ids @ [effect_operation next]) (next + 1) (P @ [(effect_operation next, p)]) T S"
    and "ops_ok (ids @ [effect_operation next]) (next + 1) P (T @ [(effect_operation next, t)]) S"
    and "ops_ok (ids @ [effect_operation next]) (next + 1) P T (S @ [(effect_operation next, s)])"
proof -
  have fresh: "effect_operation next \<notin> fst ` set P" "effect_operation next \<notin> fst ` set T" "effect_operation next \<notin> fst ` set S"
    using assms(1) ops_ok_fresh [OF assms(1)] by (auto simp: ops_ok_def)
  note issue = ops_ok_issue [OF assms(1,2)]
  show "ops_ok (ids @ [effect_operation next]) (next + 1) (P @ [(effect_operation next, p)]) T S"
    "ops_ok (ids @ [effect_operation next]) (next + 1) P (T @ [(effect_operation next, t)]) S"
    "ops_ok (ids @ [effect_operation next]) (next + 1) P T (S @ [(effect_operation next, s)])"
    using assms(1,3) fresh issue unfolding ops_ok_def by auto
qed

lemma disjoint_sub: "A' \<subseteq> A \<Longrightarrow> B' \<subseteq> B \<Longrightarrow> A \<inter> B = {} \<Longrightarrow> A' \<inter> B' = {}"
  by blast

lemma ops_ok_sub:
  assumes "ops_ok ids next P T S" and "distinct (map fst P')" "distinct (map fst T')" "distinct (map fst S')"
    and "set P' \<subseteq> set P" "set T' \<subseteq> set T" "set S' \<subseteq> set S"
    and "length P' \<le> length P" "length T' \<le> length T" "length S' \<le> length S"
  shows "ops_ok ids next P' T' S'"
proof -
  have sub: "fst ` set P' \<subseteq> fst ` set P" "fst ` set T' \<subseteq> fst ` set T" "fst ` set S' \<subseteq> fst ` set S"
    using assms(5-7) by (simp_all add: image_mono)
  have disj: "fst ` set P \<inter> fst ` set T = {}" "fst ` set P \<inter> fst ` set S = {}" "fst ` set T \<inter> fst ` set S = {}"
    and ids: "fst ` set P \<subseteq> set ids" "fst ` set T \<subseteq> set ids" "fst ` set S \<subseteq> set ids"
    using assms(1) by (auto simp: ops_ok_def)
  note disj' = disjoint_sub [OF sub(1,2) disj(1)] disjoint_sub [OF sub(1,3) disj(2)] disjoint_sub [OF sub(2,3) disj(3)]
  note ids' = subset_trans [OF sub(1) ids(1)] subset_trans [OF sub(2) ids(2)] subset_trans [OF sub(3) ids(3)]
  have "distinct (map fst P' @ map fst T' @ map fst S')"
    using assms(2-4) disj' by (simp add: Int_Un_distrib)
  then show ?thesis
    using assms(1,8-10) ids' by (simp add: ops_ok_def)
qed

lemma pending_delete_props:
  "set (pending_delete operation_id pending) \<subseteq> set pending"
  "length (pending_delete operation_id pending) \<le> length pending"
  "distinct (map fst pending) \<Longrightarrow> distinct (map fst (pending_delete operation_id pending))"
proof -
  show "set (pending_delete operation_id pending) \<subseteq> set pending"
    by (induction operation_id pending rule: pending_delete.induct) auto
  show "length (pending_delete operation_id pending) \<le> length pending"
    by (induction operation_id pending rule: pending_delete.induct) auto
  show "distinct (map fst pending) \<Longrightarrow> distinct (map fst (pending_delete operation_id pending))"
  proof (induction operation_id pending rule: pending_delete.induct)
    case (2 operation_id candidate p pending)
    have "set (pending_delete operation_id pending) \<subseteq> set pending"
      by (induction operation_id pending rule: pending_delete.induct) auto
    with 2 show ?case
      by auto
  qed simp
qed

lemma ops_ok_delete [simp]:
  assumes "ops_ok ids next P T S"
  shows "ops_ok ids next (pending_delete operation_id P) T S" "ops_ok ids next P (pending_delete operation_id T) S"
    "ops_ok ids next P T (pending_delete operation_id S)"
proof -
  have "distinct (map fst P)" "distinct (map fst T)" "distinct (map fst S)"
    using assms by (simp_all add: ops_ok_def)
  then show "ops_ok ids next (pending_delete operation_id P) T S" "ops_ok ids next P (pending_delete operation_id T) S"
    "ops_ok ids next P T (pending_delete operation_id S)"
    by - (rule ops_ok_sub [OF assms]; simp add: pending_delete_props)+
qed

lemma pending_lookup_mem: "pending_lookup operation_id pending = Some p \<Longrightarrow> (operation_id, p) \<in> set pending"
  by (fastforce simp: pending_lookup_def find_Some_iff in_set_conv_nth)

end
