(* ===== verification/Actor_Handlers.thy ===== *)
theory Actor_Handlers
  imports Actor_Invariants
begin

section \<open>Every handler of the runtime actor preserves its invariant\<close>

text \<open>
  One lemma per handler of \<open>runtime/actor_runtime/state/\<close>, then \<open>apply_input\<close>, the step of the actor
  and its runs. A handler that returns notifications extends the notifications emitted so far.
\<close>

subsection \<open>Admission facts\<close>

lemma list_all_pending_delete [simp]: "list_all P pending \<Longrightarrow> list_all P (pending_delete operation_id pending)"
  using pending_delete_props(1) by (fastforce simp: list_all_iff)

lemma list_all_filter [simp]: "list_all P xs \<Longrightarrow> list_all P (filter Q xs)"
  by (simp add: list_all_iff)

lemma transport_justified_append [simp]:
  "list_all (transport_justified emitted \<circ> snd) T \<Longrightarrow> list_all (transport_justified (emitted @ es) \<circ> snd) T"
proof -
  have "transport_justified emitted p \<Longrightarrow> transport_justified (emitted @ es) p" for p
    by (cases p) auto
  then show "list_all (transport_justified emitted \<circ> snd) T \<Longrightarrow> ?thesis"
    by (simp add: list_all_iff)
qed

lemma admission_ok_deliver:
  assumes "admission_ok cs emitted requests listeners T S"
    and "approval_justified cs (ad_request_id delivery) (ad_device_id delivery) (ad_trusted_for_future delivery)"
  shows "admission_ok cs (emitted @ [(ad_request_id delivery, ad_device_id delivery, ad_trusted_for_future delivery)])
    requests listeners (T @ [(operation_id, PendingApproveJoin delivery)]) S"
  using assms unfolding admission_ok_def by (simp, auto elim: list.pred_mono_strong)

lemma admission_ok_transport:
  "admission_ok cs emitted requests listeners T S \<Longrightarrow> transport_justified emitted pending \<Longrightarrow>
     admission_ok cs emitted requests listeners (T @ [(operation_id, pending)]) S"
  by (simp add: admission_ok_def)

lemma admission_ok_storage:
  "admission_ok cs emitted requests listeners T S \<Longrightarrow> storage_justified cs pending \<Longrightarrow>
     admission_ok cs emitted requests listeners T (S @ [(operation_id, pending)])"
  by (simp add: admission_ok_def)

lemma admission_ok_delete [simp]:
  "admission_ok cs emitted requests listeners T S \<Longrightarrow> admission_ok cs emitted requests listeners (pending_delete i T) S"
  "admission_ok cs emitted requests listeners T S \<Longrightarrow> admission_ok cs emitted requests listeners T (pending_delete i S)"
  by (simp_all add: admission_ok_def)

lemma admission_ok_sub:
  assumes "admission_ok cs emitted requests listeners T S" and "set requests' \<subseteq> set requests" and "set listeners' \<subseteq> set listeners"
  shows "admission_ok cs emitted requests' listeners' T S"
  using assms by (auto simp: admission_ok_def list_all_iff)

lemma admission_ok_request:
  "admission_ok cs emitted requests listeners T S \<Longrightarrow> requested cs request \<Longrightarrow>
     admission_ok cs emitted (requests @ [request]) listeners T S"
  by (simp add: admission_ok_def)

lemma admission_ok_pending:
  assumes "admission_ok cs emitted requests listeners T S"
  shows "request \<in> set requests \<Longrightarrow> requested cs request"
    and "(i, PendingApproveJoin delivery) \<in> set T \<Longrightarrow>
      (ad_request_id delivery, ad_device_id delivery, ad_trusted_for_future delivery) \<in> set emitted"
    and "(i, pending) \<in> set S \<Longrightarrow> storage_justified cs pending"
  using assms by (auto simp: admission_ok_def list_all_iff)

lemma admission_ok_listener:
  assumes "admission_ok cs emitted requests listeners T S"
    and "connection_reported cs device_id \<or> device_id \<in> (fst \<circ> snd) ` set emitted"
    and "set listeners' \<subseteq> insert device_id (set listeners)" and "set requests' \<subseteq> set requests"
  shows "admission_ok cs emitted requests' listeners' T S"
  using assms unfolding admission_ok_def list_all_iff by (simp; blast)

lemma justified_mono:
  "requested cs request \<Longrightarrow> requested (cs @ es) request" "host_approved cs request_id \<Longrightarrow> host_approved (cs @ es) request_id"
  "trust_stored cs device_id \<Longrightarrow> trust_stored (cs @ es) device_id"
  "connection_reported cs device_id \<Longrightarrow> connection_reported (cs @ es) device_id"
  by (auto simp: requested_def host_approved_def trust_stored_def connection_reported_def)

lemma approval_justified_mono:
  "approval_justified cs request_id device_id trusted \<Longrightarrow> approval_justified (cs @ es) request_id device_id trusted"
  unfolding approval_justified_def using justified_mono(1-3) [of cs _ es] by blast

lemma storage_justified_mono: "storage_justified cs pending \<Longrightarrow> storage_justified (cs @ es) pending"
  using justified_mono(1,2) [of cs _ es] by (cases pending) (simp_all, blast)

lemma admission_ok_mono:
  "admission_ok cs emitted requests listeners T S \<Longrightarrow> admission_ok (cs @ es) emitted requests listeners T S"
  using justified_mono(1,4) [of cs _ es] approval_justified_mono [of cs _ _ _ es] storage_justified_mono [of cs _ es]
  unfolding admission_ok_def list_all_iff by (simp; blast)

lemma actor_inv_mono: "actor_inv n cs out self \<Longrightarrow> actor_inv n (cs @ es) out self"
  by (simp add: actor_inv_def admission_ok_mono)

subsection \<open>Queue facts\<close>

lemma stale_iff:
  "list_ex (\<lambda>i. \<not> i < length upcoming \<or> qe_entry_id (upcoming ! i) \<noteq> hb_entry_id (boundaries ! i)) [0..<length boundaries]
     \<longleftrightarrow> \<not> reserved_prefix boundaries upcoming"
proof -
  have "reserved_prefix boundaries upcoming \<longleftrightarrow>
      (\<forall>i < length boundaries. i < length upcoming \<and> qe_entry_id (upcoming ! i) = hb_entry_id (boundaries ! i))"
  proof
    assume "\<forall>i < length boundaries. i < length upcoming \<and> qe_entry_id (upcoming ! i) = hb_entry_id (boundaries ! i)"
    moreover from this have "length boundaries \<le> length upcoming"
      by (meson leI less_irrefl)
    ultimately show "reserved_prefix boundaries upcoming"
      by (auto simp: reserved_prefix_def list_eq_iff_nth_eq)
  qed (auto simp: reserved_prefix_def list_eq_iff_nth_eq)
  then show ?thesis
    by (auto simp: list_ex_iff)
qed

lemma clear_stale_eq:
  "clear_stale_host_queue_boundary self =
     (if reserved_prefix (act_pending_host_boundaries self) (queue_upcoming (snap_host_queue (act_snapshot self)))
      then self else clear_host_boundary_reservations self)"
  unfolding clear_stale_host_queue_boundary_def Let_def stale_iff by simp

lemma no_boundaries [simp]: "reserved_prefix [] upcoming" "boundaries_ordered []" "first_boundary [] = None"
  by (simp_all add: reserved_prefix_def boundaries_ordered_def first_boundary_def)

lemma queue_view_cleared [simp]:
  "queue_view source queue [] None \<longleftrightarrow> entries_ok (hq_entries queue) \<and> source = map_option qe_source (queue_current queue)"
  by (simp add: queue_view_def)

lemma queue_view_D:
  assumes "queue_view source queue boundaries next"
  shows "entries_ok (hq_entries queue)" "source = map_option qe_source (queue_current queue)" "boundaries_ordered boundaries"
    "reserved_prefix boundaries (queue_upcoming queue)" "next = first_boundary boundaries"
  using assms by (simp_all add: queue_view_def)

lemma boundaries_last:
  "boundaries_ordered boundaries \<Longrightarrow> boundary \<in> set boundaries \<Longrightarrow>
     hb_first_sample_index boundary \<le> hb_first_sample_index (last boundaries)"
proof (induction boundaries)
  case (Cons b boundaries)
  show ?case
  proof (cases "boundaries = []")
    case False
    then have "hb_first_sample_index b < hb_first_sample_index (last boundaries)" "boundaries_ordered boundaries"
      using Cons.prems(1) by (simp_all add: boundaries_ordered_def)
    then show ?thesis
      using Cons False by auto
  qed (use Cons in simp)
qed simp

lemma reserved_tl:
  "reserved_prefix (b # bs) upcoming \<Longrightarrow> reserved_prefix bs (tl upcoming)" "boundaries_ordered (b # bs) \<Longrightarrow> boundaries_ordered bs"
  by (cases upcoming; simp add: reserved_prefix_def) (simp add: boundaries_ordered_def)

lemma queue_view_requeue:
  assumes "queue_view source queue boundaries next" and "entries_ok (hq_entries queue')"
    and "reserved_prefix boundaries (queue_upcoming queue')"
  shows "queue_view (map_option qe_source (queue_current queue')) queue' boundaries next"
  using assms by (simp add: queue_view_def)

lemma actor_inv_queue:
  "actor_inv n cs out self \<Longrightarrow> entries_ok (hq_entries (snap_host_queue (act_snapshot self)))"
  by (simp add: actor_inv_def queue_view_def)

lemma store_queue_inv:
  assumes "store_queue self operation_id (perform_queue_call (snap_host_queue (act_snapshot self)) call) = Inr self'"
    and "actor_inv n cs out self"
  shows "actor_inv n cs out (clear_stale_host_queue_boundary self')"
    and "actor_inv n cs out (clear_host_boundary_reservations self')"
proof -
  obtain queue where queue: "perform_queue_call (snap_host_queue (act_snapshot self)) call = Inr queue"
    and self': "self' = sync_legacy_audio_source (on_snapshot (\<lambda>s. s\<lparr>snap_host_queue := queue\<rparr>) self)"
    using assms(1) by (auto simp: store_queue_def try_bind_Inr_iff)
  have ok: "entries_ok (hq_entries queue)"
    using perform_queue_call_ok [OF actor_inv_queue [OF assms(2)] queue] .
  show "actor_inv n cs out (clear_host_boundary_reservations self')"
    using assms(2) ok by (simp add: self' actor_inv_def reset_defs)
  then show "actor_inv n cs out (clear_stale_host_queue_boundary self')"
    using assms(2) ok queue_view_requeue [OF _ ok] by (auto simp: self' actor_inv_def clear_stale_eq reset_defs)
qed

lemma clear_failure_inv [simp]: "actor_inv n cs out (clear_failure self) = actor_inv n cs out self"
  by (simp add: actor_inv_def clear_failure_def)

lemma retire_stream_inv [simp]: "actor_inv n cs out self \<Longrightarrow> actor_inv n cs out (retire_active_audio_stream self)"
  by (auto simp: actor_inv_def dest: queue_view_D(1,2))

lemma clear_reservations_inv [simp]:
  "actor_inv n cs out self \<Longrightarrow> actor_inv n cs out (clear_host_boundary_reservations self)"
  by (auto simp: actor_inv_def reset_defs dest: queue_view_D(1,2))

text \<open>Changes of the snapshot outside the invariant, and changes of the lifecycle alone.\<close>

lemma actor_inv_frame [simp]:
  assumes "\<And>s. hd_audio_source (snap_host_draft (f s)) = hd_audio_source (snap_host_draft s)"
    and "\<And>s. snap_host_queue (f s) = snap_host_queue s"
    and "\<And>s. snap_host_queue_next_boundary (f s) = snap_host_queue_next_boundary s"
    and "\<And>s. snap_host_lifecycle (f s) = snap_host_lifecycle s"
    and "\<And>s. snap_pending_join_requests (f s) = snap_pending_join_requests s"
    and "\<And>s. map ls_device_id (snap_listeners (f s)) = map ls_device_id (snap_listeners s)"
    and "\<And>s. snap_revision (f s) = snap_revision s"
  shows "actor_inv n cs out (on_snapshot f self) \<longleftrightarrow> actor_inv n cs out self"
  by (simp add: actor_inv_def assms)

lemma actor_inv_lifecycle:
  assumes "actor_inv n cs out self" and "session_ok (snap_host_lifecycle (f (act_snapshot self))) (act_host_session_id self)"
    and "\<And>s. hd_audio_source (snap_host_draft (f s)) = hd_audio_source (snap_host_draft s)"
    and "\<And>s. snap_host_queue (f s) = snap_host_queue s"
    and "\<And>s. snap_host_queue_next_boundary (f s) = snap_host_queue_next_boundary s"
    and "\<And>s. snap_pending_join_requests (f s) = snap_pending_join_requests s"
    and "\<And>s. map ls_device_id (snap_listeners (f s)) = map ls_device_id (snap_listeners s)"
    and "\<And>s. snap_revision (f s) = snap_revision s"
  shows "actor_inv n cs out (on_snapshot f self)"
  using assms by (simp add: actor_inv_def)

lemma actor_inv_silent:
  "effect_ids es = [] \<Longrightarrow> approvals es = [] \<Longrightarrow> published es = [] \<Longrightarrow> actor_inv n cs (out @ es) self \<longleftrightarrow> actor_inv n cs out self"
  by (simp add: actor_inv_def)

lemma actor_inv_error [simp]:
  "actor_inv n cs (out @ [NotifyError e]) self \<longleftrightarrow> actor_inv n cs out self"
  "actor_inv n cs (out @ [NotifyDiagnostic d]) self \<longleftrightarrow> actor_inv n cs out self"
  by (simp_all add: actor_inv_silent)

lemma diagnostic_iff:
  "diagnostic name entries = Inr result \<longleftrightarrow>
     (\<exists>d. core_diagnostic_new (lit name) entries = Inr d \<and>
        result = \<lparr>ao_notifications = [NotifyDiagnostic d], ao_changed = False, ao_stop_requested = False\<rparr>)"
  by (auto simp: diagnostic_def try_bind_Inr_iff)

subsection \<open>Audio events\<close>

lemma change_playback_state_inv: "actor_inv n cs out self \<Longrightarrow> actor_inv n cs out (change_playback_state self state)"
  by (simp add: change_playback_state_def Let_def)

lemma change_playback_state_session [simp]:
  "act_host_session_id (change_playback_state self state) = act_host_session_id self"
  "snap_selected_role (act_snapshot (change_playback_state self state)) = snap_selected_role (act_snapshot self)"
  by (simp_all add: change_playback_state_def Let_def reset_defs)

lemma advance_position_inv:
  assumes "advance_position self stream_id position_ms = Inr (result, self')" and "actor_inv n cs out self"
  shows "actor_inv n cs (out @ ao_notifications result) self'"
proof -
  have fresh: "stream_id \<notin> set (act_retired_audio_stream_ids self)" "result = outcome_changed"
    and self': "self' = on_snapshot (\<lambda>s. s\<lparr>snap_playback_position_ms := position_ms\<rparr>)
      (self\<lparr>act_active_audio_stream_id := Some stream_id\<rparr>)"
    using assms(1) by (simp_all add: advance_position_def split: if_splits)
  show ?thesis
    unfolding self' using assms(2) fresh by (auto simp: actor_inv_def intro: streams_ok_active)
qed

lemma apply_boundary_inv:
  assumes "apply_boundary self entry_id first_sample_index = Inr (result, self')" and "actor_inv n cs out self"
  shows "actor_inv n cs (out @ ao_notifications result) self'"
proof -
  obtain boundary boundaries queue where b: "act_pending_host_boundaries self = boundary # boundaries"
    and queue: "complete_current (snap_host_queue (act_snapshot self)) (hq_revision (snap_host_queue (act_snapshot self))) = Inr queue"
    and result: "result = outcome_changed"
    and self': "self' = publish_earliest_host_boundary
      ((sync_legacy_audio_source (on_snapshot (\<lambda>s. s\<lparr>snap_host_queue := queue\<rparr>) self))\<lparr>act_pending_host_boundaries := boundaries\<rparr>)"
    using assms(1) by (auto simp: apply_boundary_def try_bind_Inr_iff split: if_splits list.splits)
  have entries: "hq_entries queue = tl (hq_entries (snap_host_queue (act_snapshot self)))"
    using queue by (auto simp: complete_current_def try_bind_Inr_iff replace_entries_iff remove_at_def drop_Suc split: if_splits)
  have "perform_queue_call (snap_host_queue (act_snapshot self)) (CompleteCurrent (hq_revision (snap_host_queue (act_snapshot self)))) = Inr queue"
    using queue by simp
  then have ok: "entries_ok (hq_entries queue)"
    using perform_queue_call_ok [OF actor_inv_queue [OF assms(2)]] by blast
  have "reserved_prefix boundaries (queue_upcoming queue)" "boundaries_ordered boundaries"
    using assms(2) reserved_tl by (auto simp: actor_inv_def b entries queue_upcoming_def dest: queue_view_D(3,4))
  with ok assms(2) show ?thesis
    by (simp add: self' result actor_inv_def reset_defs queue_view_def)
qed

lemma schedule_boundary_inv:
  assumes "schedule_boundary self entry_id first_sample_index = Inr (result, self')" and "actor_inv n cs out self"
  shows "actor_inv n cs (out @ ao_notifications result) self'"
proof (cases "find (\<lambda>boundary. hb_entry_id boundary = entry_id) (act_pending_host_boundaries self)")
  case (Some boundary)
  then show ?thesis
    using assms by (auto simp: schedule_boundary_def split: if_splits)
next
  case None
  let ?b = "act_pending_host_boundaries self" and ?up = "queue_upcoming (snap_host_queue (act_snapshot self))"
  have new: "length ?b < length ?up" "qe_entry_id (?up ! length ?b) = entry_id" "first_sample_index \<noteq> 0"
      "?b = [] \<or> hb_first_sample_index (last ?b) < first_sample_index" "result = outcome_changed"
    and self': "self' = publish_earliest_host_boundary (self\<lparr>act_pending_host_boundaries :=
       ?b @ [\<lparr>hb_entry_id = entry_id, hb_first_sample_index = first_sample_index\<rparr>]\<rparr>)"
    using assms(1) None by (auto simp: schedule_boundary_def Let_def split: if_splits)
  have old: "reserved_prefix ?b ?up" "boundaries_ordered ?b"
    using assms(2) by (auto simp: actor_inv_def dest: queue_view_D)
  have "reserved_prefix (?b @ [\<lparr>hb_entry_id = entry_id, hb_first_sample_index = first_sample_index\<rparr>]) ?up"
    using old(1) new(1,2) by (simp add: reserved_prefix_def take_Suc_conv_app_nth)
  moreover have "boundaries_ordered (?b @ [\<lparr>hb_entry_id = entry_id, hb_first_sample_index = first_sample_index\<rparr>])"
    using old(2) new(3,4) boundaries_last [OF old(2)] by (auto simp: boundaries_ordered_def sorted_wrt_append word_neq_0_conv
        intro: order_le_less_trans)
  ultimately show ?thesis
    using assms(2) by (simp add: self' new(5) actor_inv_def reset_defs queue_view_def)
qed

lemma end_of_stream_inv:
  assumes "end_of_stream self stream_id = Inr (result, self')" and "actor_inv n cs out self"
  shows "actor_inv n cs (out @ ao_notifications result) self'"
proof (cases "queue_upcoming (snap_host_queue (act_snapshot self)) \<noteq> [] \<or> snap_host_queue_next_boundary (act_snapshot self) \<noteq> None")
  case True
  then show ?thesis
    using assms by (auto simp: end_of_stream_def split: if_splits)
next
  case False
  then obtain queue where queue: "queue_clear (snap_host_queue (act_snapshot self)) (hq_revision (snap_host_queue (act_snapshot self))) False = Inr queue"
    and result: "result = outcome_changed"
    and self': "self' = on_snapshot (\<lambda>s. s\<lparr>snap_playback_state := PlaybackStopped, snap_stream_ended_naturally := True\<rparr>)
      (retire_active_audio_stream (clear_host_boundary_reservations
        (on_snapshot (\<lambda>s. s\<lparr>snap_host_queue := queue, snap_host_draft := (snap_host_draft s)\<lparr>hd_audio_source := None\<rparr>\<rparr>) self)))"
    using assms(1) by (auto simp: end_of_stream_def try_bind_Inr_iff split: if_splits)
  have "hq_entries queue = []"
    using queue by (auto simp: queue_clear_def try_bind_Inr_iff replace_entries_iff split: if_splits)
  then have "entries_ok (hq_entries queue)" "queue_current queue = None"
    by (simp_all add: entries_ok_def sources_agree_def queue_current_def)
  then show ?thesis
    using assms(2) by (simp add: self' result actor_inv_def reset_defs)
qed

lemma map_update_listener [simp]:
  "map ls_device_id (update_listener device_id summary listeners) = map ls_device_id listeners"
  by (induction device_id summary listeners rule: update_listener.induct) simp_all

lemma apply_audio_inv:
  assumes "apply_audio self event = Inr (result, self')" and "actor_inv n cs out self"
  shows "actor_inv n cs (out @ ao_notifications result) self'"
  using assms advance_position_inv apply_boundary_inv schedule_boundary_inv end_of_stream_inv
  by (cases event) (auto simp: change_playback_state_inv try_bind_Inr_iff diagnostic_iff Let_def)

lemma apply_audio_session:
  assumes "apply_audio self event = Inr (result, self')"
  shows "act_host_session_id self' = act_host_session_id self"
  using assms
  by (cases event) (auto simp: try_bind_Inr_iff Let_def advance_position_def apply_boundary_def schedule_boundary_def
      end_of_stream_def reset_defs split: if_splits option.splits list.splits)

lemma host_lifecycle_step_inv:
  assumes "host_lifecycle_step self event = Inr self'" and "act_host_session_id self = Some session_id" and "actor_inv n cs out self"
  shows "actor_inv n cs out self'"
proof -
  have enter: "actor_inv n cs out (on_snapshot (\<lambda>s. s\<lparr>snap_host_lifecycle := l\<rparr>) self)" for l
    using assms(2,3) by (intro actor_inv_lifecycle) simp_all
  show ?thesis
    using assms(1,3) enter
    by (auto simp: host_lifecycle_step_def Let_def split: option.splits playback_state.splits if_splits)
qed

lemma apply_audio_with_host_lifecycle_inv:
  assumes "apply_audio_with_host_lifecycle self event = Inr (result, self')" and "actor_inv n cs out self"
  shows "actor_inv n cs (out @ ao_notifications result) self'"
proof -
  obtain self1 where self1: "apply_audio self event = Inr (result, self1)"
    and self': "self' = self1 \<or> act_host_session_id self1 \<noteq> None \<and> host_lifecycle_step self1 event = Inr self'"
    using assms(1) by (auto simp: apply_audio_with_host_lifecycle_def try_bind_Inr_iff split: if_splits)
  from self' apply_audio_inv [OF self1 assms(2)] show ?thesis
    using host_lifecycle_step_inv by blast
qed

lemma host_audio_checked_inv:
  assumes "host_audio_checked self event = Inr (result, self')" and "act_host_session_id self \<noteq> None" and "actor_inv n cs out self"
  shows "actor_inv n cs (out @ ao_notifications result) self'"
proof -
  consider (direct) "apply_audio_with_host_lifecycle self event = Inr (result, self')"
    | (first) self1 where "apply_audio self event = Inr (result, self1)"
        "self' = on_snapshot (\<lambda>s. s\<lparr>snap_host_lifecycle := HostStreaming\<rparr>) self1"
    using assms(1) by (auto simp: host_audio_checked_def try_bind_Inr_iff split: if_splits)
  then show ?thesis
  proof cases
    case direct
    from apply_audio_with_host_lifecycle_inv [OF this assms(3)] show ?thesis .
  next
    case first
    have "act_host_session_id self1 \<noteq> None"
      using apply_audio_session [OF first(1)] assms(2) by simp
    then show ?thesis
      unfolding first(2) using apply_audio_inv [OF first(1) assms(3)] by (intro actor_inv_lifecycle) (auto simp: session_ok_def)
  qed
qed

lemma apply_audio_control_inv:
  assumes "apply_audio_control self event = Inr (result, self')" and "actor_inv n cs out self"
  shows "actor_inv n cs (out @ ao_notifications result) self'"
proof -
  consider (plain) "apply_audio_with_host_lifecycle self event = Inr (result, self')"
    | (host) "act_host_session_id self \<noteq> None" "host_audio_checked self event = Inr (result, self')"
    | (started) result1 self1 where "act_host_session_id self \<noteq> None"
        "host_audio_checked self (PlaybackStateChanged PlaybackPlaying) = Inr (result1, self1)"
        "apply_audio self1 event = Inr (result, self')"
    using assms(1) by (auto simp: apply_audio_control_def try_bind_Inr_iff split: if_splits)
  then show ?thesis
  proof cases
    case plain
    from apply_audio_with_host_lifecycle_inv [OF this assms(2)] show ?thesis .
  next
    case host
    from host_audio_checked_inv [OF host(2,1) assms(2)] show ?thesis .
  next
    case started
    have "result1 = outcome_changed"
      using started(2) by (auto simp: host_audio_checked_def apply_audio_with_host_lifecycle_def try_bind_Inr_iff split: if_splits)
    with host_audio_checked_inv [OF started(2,1) assms(2)] have "actor_inv n cs out self1"
      by simp
    from apply_audio_inv [OF started(3) this] show ?thesis .
  qed
qed

end
