(* ===== verification/Actor_Steps.thy ===== *)
theory Actor_Steps
  imports Actor_Handlers
begin

section \<open>The commands and events of the runtime actor preserve its invariant\<close>

text \<open>
  The handlers of \<open>admission.rs\<close>, \<open>commands.rs\<close>, \<open>platform.rs\<close>, \<open>transport.rs\<close>, \<open>tuning.rs\<close> and
  \<open>storage.rs\<close>, then \<open>apply\<close>, \<open>process\<close> and \<open>reserve_track_boundary\<close>.
\<close>

subsection \<open>Starting operations\<close>

lemma start_platform_inv:
  assumes "start_platform_operation self request pending = Inr (effect, self')" and "actor_inv n cs out self"
  shows "actor_inv n cs (out @ [NotifyEffect effect]) self'"
    and "act_snapshot self' = act_snapshot self" and "act_host_session_id self' = act_host_session_id self"
proof -
  note start = assms(1) [unfolded start_platform_operation_iff]
  then show "actor_inv n cs (out @ [NotifyEffect effect]) self'"
    using assms(2) by (simp add: actor_inv_def ops_ok_add)
  show "act_snapshot self' = act_snapshot self" "act_host_session_id self' = act_host_session_id self"
    using start by simp_all
qed

lemma start_transport_inv:
  assumes "start_transport_operation self request pending = Inr (effect, self')" and "actor_inv n cs out self"
    and "case pending of
       PendingApproveJoin delivery \<Rightarrow>
         approvals [NotifyTransportEffect effect] = [(ad_request_id delivery, ad_device_id delivery, ad_trusted_for_future delivery)] \<and>
         approval_justified cs (ad_request_id delivery) (ad_device_id delivery) (ad_trusted_for_future delivery)
     | _ \<Rightarrow> approvals [NotifyTransportEffect effect] = []"
  shows "actor_inv n cs (out @ [NotifyTransportEffect effect]) self'"
proof -
  note start = assms(1) [unfolded start_transport_operation_iff]
  show ?thesis
  proof (cases pending)
    case (PendingApproveJoin delivery)
    with start assms(2,3) show ?thesis
      by (simp add: actor_inv_def ops_ok_add admission_ok_deliver)
  next
    case (PendingRejectJoin r d c)
    with start assms(2,3) show ?thesis
      by (simp add: actor_inv_def ops_ok_add admission_ok_transport)
  next
    case (PendingDisconnectListener d)
    with start assms(2,3) show ?thesis
      by (simp add: actor_inv_def ops_ok_add admission_ok_transport)
  qed
qed

lemma start_storage_inv:
  assumes "start_storage_operation self request pending = Inr (effect, self')" and "actor_inv n cs out self"
    and "storage_justified cs pending"
  shows "actor_inv n cs (out @ [NotifyStorageEffect effect]) self'"
proof -
  note start = assms(1) [unfolded start_storage_operation_iff]
  then show ?thesis
    using assms(2,3) by (simp add: actor_inv_def ops_ok_add admission_ok_storage)
qed

subsection \<open>Admission\<close>

lemma create_approval_inv:
  assumes "create_approval_transport_effect self delivery = Inr (effect, self')" and "actor_inv n cs out self"
    and "approval_justified cs (ad_request_id delivery) (ad_device_id delivery) (ad_trusted_for_future delivery)"
  shows "actor_inv n cs (out @ [NotifyTransportEffect effect]) self'"
proof -
  obtain session_id where start: "start_transport_operation self
      (DeliverJoinApproval (ad_request_id delivery) session_id (ad_device_id delivery) (ad_trusted_for_future delivery))
      (PendingApproveJoin delivery) = Inr (effect, self')"
    using assms(1) by (auto simp: create_approval_transport_effect_def try_bind_Inr_iff)
  from start_transport_inv [OF this assms(2)] show ?thesis
    using start assms(3) by (simp add: start_transport_operation_iff)
qed

lemma start_approval_inv:
  assumes "start_approval_delivery self delivery = Inr (result, self')" and "actor_inv n cs out self"
    and "approval_justified cs (ad_request_id delivery) (ad_device_id delivery) (ad_trusted_for_future delivery)"
  shows "actor_inv n cs (out @ ao_notifications result) self'"
proof -
  obtain effect where "create_approval_transport_effect self delivery = Inr (effect, self')" "result = outcome_transport_effect effect"
    using assms(1) by (auto simp: start_approval_delivery_def try_bind_Inr_iff)
  then show ?thesis
    using create_approval_inv [OF _ assms(2,3)] by simp
qed

lemma start_rejection_inv:
  assumes "start_rejection_delivery self request reason confirmation = Inr (result, self')" and "actor_inv n cs out self"
  shows "actor_inv n cs (out @ ao_notifications result) self'"
proof -
  obtain session_id effect where start: "start_transport_operation self
      (DeliverJoinRejection (jrs_request_id request) session_id (jrs_device_id request) (lit (rejection_stable_name reason)))
      (PendingRejectJoin (jrs_request_id request) (jrs_device_id request) confirmation) = Inr (effect, self')"
    and "result = outcome_transport_effect effect"
    using assms(1) by (auto simp: start_rejection_delivery_def try_bind_Inr_iff)
  then show ?thesis
    using start_transport_inv [OF start assms(2)] by (simp add: start_transport_operation_iff)
qed

lemma add_request_inv:
  assumes "actor_inv n cs out self" and "requested cs request"
  shows "actor_inv n cs out (on_snapshot (\<lambda>s. s\<lparr>snap_pending_join_requests := snap_pending_join_requests (act_snapshot self) @ [request]\<rparr>) self)"
  using assms by (simp add: actor_inv_def admission_ok_request)

lemma handle_join_request_inv:
  assumes "handle_join_request self request = Inr (result, self')" and "actor_inv n cs out self" and "requested cs request"
  shows "actor_inv n cs (out @ ao_notifications result) self'"
proof -
  let ?self = "on_snapshot (\<lambda>s. s\<lparr>snap_pending_join_requests := snap_pending_join_requests (act_snapshot self) @ [request]\<rparr>) self"
  note inv = add_request_inv [OF assms(2,3)]
  consider (same) "result = outcome_default" "self' = self"
    | (manual) "result = outcome_changed" "self' = ?self"
    | (approve) trusted where "classify_join_request (snap_host_draft (act_snapshot self)) request = AutoApprove trusted"
        "start_approval_delivery ?self \<lparr>ad_request_id = jrs_request_id request, ad_device_id = jrs_device_id request,
          ad_trusted_for_future = trusted, ad_persistence_failed = False\<rparr> = Inr (result, self')"
    | (reject) reason where "start_rejection_delivery ?self request reason None = Inr (result, self')"
  proof (cases "find (\<lambda>existing. jrs_request_id existing = jrs_request_id request) (snap_pending_join_requests (act_snapshot self))")
    case (Some existing)
    then show thesis
      using assms(1) same by (auto simp: handle_join_request_def try_bind_Inr_iff split: if_splits)
  next
    case None
    then show thesis
      using assms(1) manual approve reject
      by (cases "classify_join_request (snap_host_draft (act_snapshot self)) request")
        (simp_all add: handle_join_request_def try_bind_Inr_iff Let_def split: if_splits, blast)
  qed
  then show ?thesis
  proof cases
    case (approve trusted)
    from start_approval_inv [OF approve(2) inv] show ?thesis
      using approve(1) assms(3) by (auto simp: classify_auto_approve approval_justified_def)
  next
    case (reject reason)
    from start_rejection_inv [OF this inv] show ?thesis .
  qed (use assms(2) inv in simp_all)
qed

lemma pending_join_requestD:
  assumes "pending_join_request self request_id operation_id = Inr request" and "actor_inv n cs out self"
  shows "requested cs request" "jrs_request_id request = request_id"
proof -
  have "request \<in> set (snap_pending_join_requests (act_snapshot self))" "jrs_request_id request = request_id"
    using assms(1) by (auto simp: pending_join_request_def find_Some_iff in_set_conv_nth)
  then show "requested cs request" "jrs_request_id request = request_id"
    using assms(2) admission_ok_pending(1) by (auto simp: actor_inv_def)
qed

lemma approve_join_inv:
  assumes "approve_join self operation_id request_id remember = Inr (result, self')" and "actor_inv n cs out self"
    and "host_approved cs request_id"
  shows "actor_inv n cs (out @ ao_notifications result) self'"
proof -
  obtain request where request: "pending_join_request self request_id operation_id = Inr request"
    and rest: "(case prepare_explicit_approval request remember of
       PersistTrustFirst persistence \<Rightarrow>
         try_bind (start_storage_operation self
           (PersistTrustedDevice (tpr_device_id persistence) (tpr_display_name persistence))
           (PersistApprovalTrust persistence)) (\<lambda>(effect, self).
         Inr (outcome_storage_effect effect, self))
     | Deliver delivery \<Rightarrow> start_approval_delivery self delivery) = Inr (result, self')"
    using assms(1) by (auto simp: approve_join_def try_bind_Inr_iff)
  note known = pending_join_requestD [OF request assms(2)]
  show ?thesis
  proof (cases "prepare_explicit_approval request remember")
    case (PersistTrustFirst persistence)
    then obtain effect where "start_storage_operation self
        (PersistTrustedDevice (tpr_device_id persistence) (tpr_display_name persistence))
        (PersistApprovalTrust persistence) = Inr (effect, self')" "result = outcome_storage_effect effect"
      using rest by (auto simp: try_bind_Inr_iff)
    moreover have "storage_justified cs (PersistApprovalTrust persistence)"
      using prepare_persist [OF PersistTrustFirst] known assms(3) by auto
    ultimately show ?thesis
      using start_storage_inv [OF _ assms(2)] by simp
  next
    case (Deliver delivery)
    have "approval_justified cs (ad_request_id delivery) (ad_device_id delivery) (ad_trusted_for_future delivery)"
      using prepare_deliver [OF Deliver] known assms(3) by (auto simp: approval_justified_def)
    then show ?thesis
      using start_approval_inv [OF _ assms(2)] rest Deliver by simp
  qed
qed

lemma reject_join_inv:
  assumes "reject_join self operation_id request_id = Inr (result, self')" and "actor_inv n cs out self"
  shows "actor_inv n cs (out @ ao_notifications result) self'"
proof -
  obtain request where "start_rejection_delivery self request HostRejected (Some operation_id) = Inr (result, self')"
    using assms(1) unfolding reject_join_def try_bind_Inr_iff by blast
  from start_rejection_inv [OF this assms(2)] show ?thesis .
qed

lemma remove_listener_inv:
  assumes "remove_listener self operation_id listener_id = Inr (result, self')" and "actor_inv n cs out self"
  shows "actor_inv n cs (out @ ao_notifications result) self'"
proof -
  obtain session_id effect reason where start: "start_transport_operation self
      (DisconnectListenerEffect session_id listener_id reason)
      (PendingDisconnectListener listener_id) = Inr (effect, self')" and "result = outcome_transport_effect effect"
    using assms(1) unfolding remove_listener_def by (auto simp: try_bind_Inr_iff split: if_splits)
  then show ?thesis
    using start_transport_inv [OF start assms(2)] by (simp add: start_transport_operation_iff)
qed

lemma remove_pending_storage_inv:
  assumes "actor_inv n cs out self"
  shows "actor_inv n cs out (self\<lparr>act_pending_storage := pending_delete operation_id (act_pending_storage self)\<rparr>)"
    and "actor_inv n cs out (self\<lparr>act_pending_transport := pending_delete operation_id (act_pending_transport self)\<rparr>)"
    and "actor_inv n cs out (self\<lparr>act_pending_platform := pending_delete operation_id (act_pending_platform self)\<rparr>)"
  using assms by (simp_all add: actor_inv_def)

lemma apply_admission_storage_inv:
  assumes "apply_admission_storage self event = Inr (result, self')" and "actor_inv n cs out self"
    and "Process (InputStorage event) \<in> set cs"
  shows "actor_inv n cs (out @ ao_notifications result) self'"
proof -
  let ?id = "storage_event_operation_id event"
  let ?self = "self\<lparr>act_pending_storage := pending_delete ?id (act_pending_storage self)\<rparr>"
  note inv = remove_pending_storage_inv(1) [OF assms(2), of ?id]
  obtain pending where pending: "pending_lookup ?id (act_pending_storage self) = Some pending"
    using assms(1) by (cases "pending_lookup ?id (act_pending_storage self)")
      (simp_all add: apply_admission_storage_def try_bind_Inr_iff remove_pending_storage_def Let_def)
  have "storage_justified cs pending"
    using assms(2) admission_ok_pending(3) pending_lookup_mem [OF pending] unfolding actor_inv_def by blast
  moreover obtain persistence where persistence: "pending = PersistApprovalTrust persistence"
    using assms(1) pending by (cases pending)
      (simp_all add: apply_admission_storage_def try_bind_Inr_iff remove_pending_storage_def Let_def)
  ultimately have justified: "approval_justified cs (tpr_request_id persistence) (tpr_device_id persistence) trusted"
      if "trusted \<longrightarrow> trust_stored cs (tpr_device_id persistence)" for trusted
    using that by (auto simp: approval_justified_def)
  show ?thesis
  proof (cases event)
    case (StorageSucceeded operation_id completion)
    then have completion: "completion = TrustedDeviceUpdated (tpr_device_id persistence)"
      and start: "start_approval_delivery ?self (approval_after_persistence persistence PersistenceCommitted) = Inr (result, self')"
      using assms(1) pending persistence
      by (auto simp: apply_admission_storage_def try_bind_Inr_iff remove_pending_storage_def Let_def
          split: storage_completion.splits if_splits)
    have "trust_stored cs (tpr_device_id persistence)"
      using assms(3) StorageSucceeded completion by (auto simp: trust_stored_def)
    with start_approval_inv [OF start inv] justified show ?thesis
      by simp
  next
    case (StorageOpFailed operation_id error)
    obtain e effect self1 where start: "create_approval_transport_effect ?self (approval_after_persistence persistence PersistenceFailed) = Inr (effect, self1)"
      and result: "ao_notifications result = [NotifyError e, NotifyTransportEffect effect]"
      and self': "self' = on_snapshot (\<lambda>s. s\<lparr>snap_last_error := Some e\<rparr>) self1"
      using assms(1) pending persistence StorageOpFailed
      by (auto simp: apply_admission_storage_def try_bind_Inr_iff remove_pending_storage_def Let_def)
    have "actor_inv n cs (out @ [NotifyError e] @ [NotifyTransportEffect effect]) self1"
      using create_approval_inv [OF start, of n cs "out @ [NotifyError e]"] inv justified by simp
    then show ?thesis
      by (simp add: result self')
  qed
qed

lemma request_position_nth:
  "request_position request_id listener_id requests = Some i \<Longrightarrow>
     i < length requests \<and> jrs_device_id (requests ! i) = listener_id"
  by (induction request_id listener_id requests arbitrary: i rule: request_position.induct) (auto split: if_splits)

lemma remove_pending_request_inv:
  assumes "remove_pending_request self request_id listener_id = Inr (request, self')" and "actor_inv n cs out self"
  shows "actor_inv n cs out self'" and "jrs_device_id request = listener_id"
proof -
  obtain index where index: "request_position request_id listener_id (snap_pending_join_requests (act_snapshot self)) = Some index"
    and request: "request = snap_pending_join_requests (act_snapshot self) ! index"
    and self': "self' = on_snapshot (\<lambda>s. s\<lparr>snap_pending_join_requests :=
      remove_at index (snap_pending_join_requests (act_snapshot self))\<rparr>) self"
    using assms(1) by (auto simp: remove_pending_request_def Let_def try_bind_Inr_iff)
  show "actor_inv n cs out self'"
    using assms(2) admission_ok_sub [OF _ set_remove_at subset_refl] by (simp add: self' actor_inv_def)
  show "jrs_device_id request = listener_id"
    using request_position_nth [OF index] by (simp add: request)
qed

lemma map_replace_first:
  "set (map f (replace_first P x xs)) \<subseteq> insert (f x) (set (map f xs))"
  by (induction P x xs rule: replace_first.induct) auto

lemma store_listener_inv:
  assumes "store_listener self listener = Inr self'" and "actor_inv n cs out self"
    and "connection_reported cs (ls_device_id listener) \<or> ls_device_id listener \<in> (fst \<circ> snd) ` set (approvals out)"
  shows "actor_inv n cs out self'"
proof -
  let ?same = "\<lambda>existing. ls_device_id existing = ls_device_id listener" and ?old = "snap_listeners (act_snapshot self)"
  define listeners where "listeners = (if list_ex ?same ?old then replace_first ?same listener ?old else ?old @ [listener])"
  have self': "self' = on_snapshot (\<lambda>s. s\<lparr>snap_listeners := listeners\<rparr>) self"
    using assms(1) by (simp add: store_listener_def listeners_def Let_def split: if_splits)
  have listeners: "set (map ls_device_id listeners) \<subseteq> insert (ls_device_id listener) (set (map ls_device_id ?old))"
    using map_replace_first [of ls_device_id ?same listener ?old] by (simp add: listeners_def)
  show ?thesis
    using assms(2) admission_ok_listener [OF _ assms(3) listeners subset_refl] by (simp add: self' actor_inv_def)
qed

lemma record_approved_listener_inv:
  assumes "record_approved_listener self request delivery = Inr self'" and "actor_inv n cs out self"
    and "jrs_device_id request \<in> (fst \<circ> snd) ` set (approvals out)"
  shows "actor_inv n cs out self'"
proof -
  obtain listener where "store_listener self listener = Inr self'" "ls_device_id listener = jrs_device_id request"
    using assms(1) by (auto simp: record_approved_listener_def listener_summary_new_def try_bind_Inr_iff)
  then show ?thesis
    using store_listener_inv [OF _ assms(2)] assms(3) by simp
qed

lemma commit_delivery_inv:
  assumes "commit_delivery self operation_id pending = Inr self'" and "actor_inv n cs out self"
    and "transport_justified (approvals out) pending"
  shows "actor_inv n cs out self'"
proof (cases pending)
  case (PendingApproveJoin delivery)
  then obtain request self1 where removed: "remove_pending_request self (ad_request_id delivery) (ad_device_id delivery) = Inr (request, self1)"
    and listener: "record_approved_listener self1 request delivery = Inr self'"
    using assms(1) by (auto simp: commit_delivery_def try_bind_Inr_iff)
  note r = remove_pending_request_inv [OF removed assms(2)]
  have "jrs_device_id request \<in> (fst \<circ> snd) ` set (approvals out)"
    using assms(3) r(2) PendingApproveJoin by force
  from record_approved_listener_inv [OF listener r(1) this] show ?thesis .
next
  case (PendingRejectJoin request_id listener_id confirmation)
  let ?self = "case confirmation of
      Some confirmation \<Rightarrow> on_snapshot (\<lambda>s. s\<lparr>snap_last_delivery_operation_id := Some confirmation\<rparr>) self
    | None \<Rightarrow> self"
  have "actor_inv n cs out ?self"
    using assms(2) by (cases confirmation) simp_all
  moreover obtain request where "remove_pending_request ?self request_id listener_id = Inr (request, self')"
    using assms(1) PendingRejectJoin by (auto simp: commit_delivery_def try_bind_Inr_iff Let_def)
  ultimately show ?thesis
    using remove_pending_request_inv(1) by blast
next
  case (PendingDisconnectListener listener_id)
  then have self': "self' = on_snapshot (\<lambda>s. s\<lparr>snap_listeners :=
      filter (\<lambda>listener. ls_device_id listener \<noteq> listener_id) (snap_listeners (act_snapshot self))\<rparr>) self"
    using assms(1) by (auto simp: commit_delivery_def Let_def split: if_splits)
  show ?thesis
    using assms(2) by (auto simp: self' actor_inv_def elim!: admission_ok_sub)
qed

lemma clear_delivery_error_inv [simp]: "actor_inv n cs out (clear_delivery_error self) = actor_inv n cs out self"
  by (simp add: clear_delivery_error_def split: option.splits)

lemma complete_transport_delivery_inv:
  assumes "complete_transport_delivery self operation_id report = Inr (result, self')" and "actor_inv n cs out self"
  shows "actor_inv n cs (out @ ao_notifications result) self'"
proof -
  let ?self = "on_snapshot (\<lambda>s. s\<lparr>snap_last_delivery := Some report, snap_last_delivery_operation_id := Some operation_id\<rparr>)
    (self\<lparr>act_pending_transport := pending_delete operation_id (act_pending_transport self)\<rparr>)"
  have inv: "actor_inv n cs out ?self"
    using remove_pending_storage_inv(2) [OF assms(2)] by simp
  obtain pending where pending: "pending_lookup operation_id (act_pending_transport self) = Some pending"
    using assms(1) by (cases "pending_lookup operation_id (act_pending_transport self)")
      (simp_all add: complete_transport_delivery_def remove_pending_transport_def)
  have justified: "transport_justified (approvals out) pending"
    using assms(2) pending_lookup_mem [OF pending] by (auto simp: actor_inv_def admission_ok_def list_all_iff)
  show ?thesis
  proof (cases "commits_domain_decision (classify_delivery report)")
    case False
    then show ?thesis
      using assms(1) pending inv by (auto simp: complete_transport_delivery_def remove_pending_transport_def Let_def)
  next
    case True
    then obtain self1 where commit: "commit_delivery ?self operation_id pending = Inr self1"
      and self': "self' = clear_delivery_error self1"
      and result: "result = outcome_changed \<or> (\<exists>d. ao_notifications result = [NotifyDiagnostic d])"
      using assms(1) pending
      by (auto simp: complete_transport_delivery_def remove_pending_transport_def Let_def try_bind_Inr_iff diagnostic_iff
          split: if_splits)
    show ?thesis
      using commit_delivery_inv [OF commit inv justified] result by (auto simp: self')
  qed
qed

subsection \<open>Commands\<close>

lemma update_host_draft_inv:
  assumes "update_host_draft self operation_id patch = Inr (result, self')" and "actor_inv n cs out self"
  shows "actor_inv n cs (out @ ao_notifications result) self'"
proof -
  let ?q = "snap_host_queue (act_snapshot self)"
  obtain updated self1 where self': "self' = clear_failure (on_snapshot (\<lambda>s. s\<lparr>snap_host_draft := updated\<rparr>) self1)"
    and result: "result = outcome_changed"
    and self1: "(hd_audio_source updated = hd_audio_source (snap_host_draft (act_snapshot self)) \<and> self1 = self) \<or>
      (\<exists>entries queue. replace_all ?q (hq_revision ?q) entries = Inr queue \<and>
         hd_audio_source updated = map_option qe_source (case entries of [] \<Rightarrow> None | entry # _ \<Rightarrow> Some entry) \<and>
         self1 = clear_stale_host_queue_boundary (on_snapshot (\<lambda>s. s\<lparr>snap_host_queue := queue\<rparr>) self))"
    using assms(1)
    by (auto simp: update_host_draft_def try_bind_Inr_iff queue_entry_new_def split: if_splits option.splits) force+
  from self1 show ?thesis
  proof (elim disjE exE conjE)
    fix entries queue
    assume queue: "replace_all ?q (hq_revision ?q) entries = Inr queue"
      and source: "hd_audio_source updated = map_option qe_source (case entries of [] \<Rightarrow> None | entry # _ \<Rightarrow> Some entry)"
      and self1: "self1 = clear_stale_host_queue_boundary (on_snapshot (\<lambda>s. s\<lparr>snap_host_queue := queue\<rparr>) self)"
    have "hq_entries queue = entries" "entries_ok entries"
      using queue by (auto simp: replace_all_iff replace_entries_iff split: if_splits)
    then have "entries_ok (hq_entries queue)" "hd_audio_source updated = map_option qe_source (queue_current queue)"
      using source by (simp_all add: queue_current_def)
    then show ?thesis
      using assms(2) by (auto simp: self' self1 result clear_stale_eq actor_inv_def reset_defs queue_view_def)
  qed (use assms(2) in \<open>simp add: self' result actor_inv_def reset_defs\<close>)
qed

lemma append_host_queue_inv:
  assumes "append_host_queue self operation_id revision entries = Inr (result, self')" and "actor_inv n cs out self"
  shows "actor_inv n cs (out @ ao_notifications result) self'"
  using assms(1) store_queue_inv(1) [OF _ assms(2), of operation_id "Append revision entries"]
  by (auto simp: append_host_queue_def try_bind_Inr_iff)

lemma reorder_host_queue_inv:
  assumes "reorder_host_queue self operation_id revision ids = Inr (result, self')" and "actor_inv n cs out self"
  shows "actor_inv n cs (out @ ao_notifications result) self'"
  using assms(1) store_queue_inv(1) [OF _ assms(2), of operation_id "Reorder revision ids (current_locked self)"]
  by (auto simp: reorder_host_queue_def try_bind_Inr_iff Let_def split: if_splits)

lemma remove_host_queue_entry_inv:
  assumes "remove_host_queue_entry self operation_id revision entry_id = Inr (result, self')" and "actor_inv n cs out self"
  shows "actor_inv n cs (out @ ao_notifications result) self'"
  using assms(1) store_queue_inv(1) [OF _ assms(2), of operation_id "Remove revision entry_id (current_locked self)"]
  by (auto simp: remove_host_queue_entry_def try_bind_Inr_iff split: if_splits)

lemma clear_host_queue_inv:
  assumes "clear_host_queue self operation_id revision = Inr (result, self')" and "actor_inv n cs out self"
  shows "actor_inv n cs (out @ ao_notifications result) self'"
  using assms(1) store_queue_inv(2) [OF _ assms(2), of operation_id "Clear revision (current_locked self)"]
  by (auto simp: clear_host_queue_def try_bind_Inr_iff split: if_splits)

lemma next_session_id_inv:
  assumes "next_session_id self = Inr (session_id, self')"
  shows "actor_inv n cs out self' \<longleftrightarrow> actor_inv n cs out self"
  using assms by (auto simp: next_session_id_def Let_def try_bind_Inr_iff actor_inv_def)

lemma start_host_advertising_start:
  assumes "start_host_advertising self operation_id session_id = Inr (effect, self')"
  obtains request where "start_platform_operation self request (PendingStartAdvertising session_id) = Inr (effect, self')"
  using assms by (auto simp: start_host_advertising_def try_bind_Inr_iff)

text \<open>A platform operation starts and the lifecycle of the host moves with a session in place.\<close>

lemma start_platform_lifecycle_inv:
  assumes "start_platform_operation self request pending = Inr (effect, self')" and "actor_inv n cs out self"
    and "act_host_session_id self \<noteq> None"
  shows "actor_inv n cs (out @ [NotifyEffect effect]) (on_snapshot (\<lambda>s. s\<lparr>snap_host_lifecycle := l\<rparr>) self')"
    and "actor_inv n cs (out @ [NotifyEffect effect]) (on_snapshot (\<lambda>s. s\<lparr>snap_host_lifecycle := l, snap_transport_state := t\<rparr>) self')"
  using start_platform_inv [OF assms(1,2)] assms(3) by (auto intro!: actor_inv_lifecycle simp: session_ok_def)

lemma create_host_session_inv:
  assumes "create_host_session self operation_id = Inr (result, self')" and "actor_inv n cs out self"
  shows "actor_inv n cs (out @ ao_notifications result) self'"
proof -
  obtain session_id self1 effect self2 where session: "next_session_id self = Inr (session_id, self1)"
    and start: "start_host_advertising self1 operation_id session_id = Inr (effect, self2)"
    and result: "result = outcome_effect effect"
    and self': "self' = clear_failure (on_snapshot (\<lambda>s. s\<lparr>snap_host_lifecycle := HostCreatingSession,
      snap_transport_state := TransportIdle\<rparr>) (self2\<lparr>act_host_session_id := Some session_id\<rparr>))"
    using assms(1) by (auto simp: create_host_session_def try_bind_Inr_iff split: if_splits)
  have "actor_inv n cs out self1"
    using next_session_id_inv [OF session] assms(2) by simp
  then have "actor_inv n cs (out @ [NotifyEffect effect]) self2"
    using start_host_advertising_start [OF start] start_platform_inv(1) by metis
  then show ?thesis
    by (simp add: self' result actor_inv_def reset_defs)
qed

lemma retry_host_session_inv:
  assumes "retry_host_session self operation_id = Inr (result, self')" and "actor_inv n cs out self"
  shows "actor_inv n cs (out @ ao_notifications result) self'"
proof -
  obtain session_id effect self1 where session: "act_host_session_id self = Some session_id"
    and start: "start_host_advertising self operation_id session_id = Inr (effect, self1)"
    and result: "result = outcome_effect effect"
    and self': "self' = clear_failure (on_snapshot (\<lambda>s. s\<lparr>snap_host_lifecycle := HostCreatingSession,
      snap_transport_state := TransportIdle\<rparr>) self1)"
    using assms(1) by (auto simp: retry_host_session_def try_bind_Inr_iff split: if_splits)
  obtain request where "start_platform_operation self request (PendingStartAdvertising session_id) = Inr (effect, self1)"
    using start_host_advertising_start [OF start] .
  from start_platform_lifecycle_inv(2) [OF this assms(2)] session show ?thesis
    by (simp add: self' result)
qed

lemma end_host_session_inv:
  assumes "end_host_session self operation_id = Inr (result, self')" and "actor_inv n cs out self"
  shows "actor_inv n cs (out @ ao_notifications result) self'"
  using assms(1) start_platform_lifecycle_inv(1) [OF _ assms(2), of StopAdvertising PendingStopAdvertising]
  by (auto simp: end_host_session_def try_bind_Inr_iff split: if_splits)

lemma start_discovery_inv:
  assumes "start_discovery self operation_id = Inr (result, self')" and "actor_inv n cs out self"
  shows "actor_inv n cs (out @ ao_notifications result) self'"
  using assms(1) start_platform_inv(1) [OF _ assms(2)]
  by (auto simp: start_discovery_def try_bind_Inr_iff split: if_splits)

lemma stop_discovery_inv:
  assumes "stop_discovery self operation_id = Inr (result, self')" and "actor_inv n cs out self"
  shows "actor_inv n cs (out @ ao_notifications result) self'"
  using assms(1) start_platform_inv(1) [OF _ assms(2)]
  by (auto simp: stop_discovery_def try_bind_Inr_iff split: if_splits)

lemma select_session_inv:
  assumes "select_session self operation_id session_id = Inr (result, self')" and "actor_inv n cs out self"
  shows "actor_inv n cs (out @ ao_notifications result) self'"
  using assms by (auto simp: select_session_def try_bind_Inr_iff split: if_splits)

lemma submit_join_inv:
  assumes "submit_join self operation_id = Inr (result, self')" and "actor_inv n cs out self"
  shows "actor_inv n cs (out @ ao_notifications result) self'"
  using assms(1) start_platform_inv(1) [OF _ assms(2)]
  by (auto simp: submit_join_def try_bind_Inr_iff split: if_splits)

lemma cancel_join_inv:
  assumes "cancel_join self operation_id = Inr (result, self')" and "actor_inv n cs out self"
  shows "actor_inv n cs (out @ ao_notifications result) self'"
  using assms start_platform_inv(1) [OF _ assms(2)]
  by (auto simp: cancel_join_def try_bind_Inr_iff split: if_splits)

lemma export_diagnostics_inv:
  assumes "export_diagnostics self = Inr (result, self')" and "actor_inv n cs out self"
  shows "actor_inv n cs (out @ ao_notifications result) self'"
proof -
  obtain export_id self1 effect where exported: "next_export_id self = Inr (export_id, self1)"
    and start: "start_platform_operation self1 (ShareDiagnostics export_id) (PendingShareDiagnostics export_id) = Inr (effect, self')"
    and result: "result = outcome_effect effect"
    using assms(1) by (auto simp: export_diagnostics_def try_bind_Inr_iff)
  have "actor_inv n cs out self1"
    using exported assms(2) by (auto simp: next_export_id_def Let_def try_bind_Inr_iff actor_inv_def)
  from start_platform_inv(1) [OF start this] show ?thesis
    by (simp add: result)
qed

lemma retry_listener_connection_inv:
  assumes "retry_listener_connection self operation_id = Inr (result, self')" and "actor_inv n cs out self"
  shows "actor_inv n cs (out @ ao_notifications result) self'"
proof -
  have "actor_inv n cs out (on_snapshot (\<lambda>s. s\<lparr>snap_selected_session := None\<rparr>) self)"
    using assms(2) by simp
  from start_platform_inv(1) [OF _ this] assms(1) show ?thesis
    by (auto simp: retry_listener_connection_def try_bind_Inr_iff Let_def split: if_splits)
qed

lemma retry_recoverable_inv:
  assumes "retry_recoverable self operation_id = Inr (result, self')" and "actor_inv n cs out self"
  shows "actor_inv n cs (out @ ao_notifications result) self'"
  using assms(1) retry_host_session_inv [OF _ assms(2)] retry_listener_connection_inv [OF _ assms(2)] assms(2)
  unfolding retry_recoverable_def try_bind_Inr_iff by (auto split: if_splits)

lemma select_role_inv:
  assumes "select_role self operation_id role = Inr (result, self')" and "actor_inv n cs out self"
  shows "actor_inv n cs (out @ ao_notifications result) self'"
  using assms by (auto simp: select_role_def split: if_splits)

lemma update_tuning_inv:
  assumes "update_tuning self operation_id patch = Inr (result, self')" and "actor_inv n cs out self"
  shows "actor_inv n cs (out @ ao_notifications result) self'"
proof -
  consider "result = outcome_default" "self' = self"
    | settings effect where "start_storage_operation self (PersistSettings settings) (PersistTuning settings) = Inr (effect, self')"
        "result = outcome_storage_effect effect"
    using assms(1) unfolding update_tuning_def by (auto simp: try_bind_Inr_iff split: if_splits)
  then show ?thesis
    using assms(2) start_storage_inv [OF _ assms(2)] by cases simp_all
qed

lemmas command_inv = select_role_inv update_host_draft_inv append_host_queue_inv reorder_host_queue_inv
  remove_host_queue_entry_inv clear_host_queue_inv create_host_session_inv end_host_session_inv start_discovery_inv
  stop_discovery_inv select_session_inv submit_join_inv cancel_join_inv reject_join_inv remove_listener_inv
  retry_recoverable_inv update_tuning_inv export_diagnostics_inv

lemma apply_command_inv:
  assumes "apply_command self operation_id command = Inr (result, self')" and "actor_inv n cs out self"
    and "\<And>request_id remember. command = ApproveJoin request_id remember \<Longrightarrow> host_approved cs request_id"
  shows "actor_inv n cs (out @ ao_notifications result) self'"
  using assms(1)
  by (cases command)
    (simp_all add: command_inv [OF _ assms(2)] approve_join_inv [OF _ assms(2)] assms(3) playback_unavailable_def,
     use assms(2) in auto)

subsection \<open>Platform events\<close>

lemma apply_pending_failure_inv: "actor_inv n cs out self \<Longrightarrow> actor_inv n cs out (apply_pending_failure self pending error)"
  by (auto simp: apply_pending_failure_def Let_def intro!: actor_inv_lifecycle split: pending_platform_operation.splits)

lemma apply_platform_failure_inv:
  assumes "apply_platform_failure self operation_id error = Inr (result, self')" and "actor_inv n cs out self"
  shows "actor_inv n cs (out @ ao_notifications result) self'"
  using assms(1) apply_pending_failure_inv [OF remove_pending_storage_inv(3) [OF assms(2)]]
  by (auto simp: apply_platform_failure_def remove_pending_def try_bind_Inr_iff split: option.splits)

lemma reset_host_session_inv: "actor_inv n cs out self \<Longrightarrow> actor_inv n cs out (reset_host_session self)"
proof -
  assume inv: "actor_inv n cs out self"
  have entries: "entries_ok []"
    by (simp add: entries_ok_def sources_agree_def)
  let ?S = "filter (\<lambda>(_, pending). case pending of PersistTuning _ \<Rightarrow> True | _ \<Rightarrow> False) (act_pending_storage self)"
  have "admission_ok cs (approvals out) [] [] [] ?S"
    using inv by (auto simp: actor_inv_def admission_ok_def list_all_iff)
  moreover have "ops_ok (effect_ids out) (act_next_effect_sequence self) (act_pending_platform self)
      ([] :: (operation_id \<times> pending_transport_operation) list) ?S"
  proof (rule ops_ok_sub)
    show "ops_ok (effect_ids out) (act_next_effect_sequence self) (act_pending_platform self) (act_pending_transport self)
        (act_pending_storage self)"
      using inv by (simp add: actor_inv_def)
  qed (use inv in \<open>auto simp: actor_inv_def ops_ok_def distinct_map_filter\<close>)
  ultimately show ?thesis
    using inv entries
    by (simp add: reset_host_session_def Let_def actor_inv_def reset_defs host_queue_default_def queue_current_def)
qed

lemma reset_listener_connection_inv: "actor_inv n cs out self \<Longrightarrow> actor_inv n cs out (reset_listener_connection self)"
  by (simp add: reset_listener_connection_def)

lemma complete_platform_inv:
  assumes "complete_platform self operation_id pending completion = Inr (result, self')" and "actor_inv n cs out self"
  shows "actor_inv n cs (out @ ao_notifications result) self'"
proof (cases pending)
  case (PendingStartAdvertising session_id)
  then have "act_host_session_id self = Some session_id" "result = outcome_changed"
    and self': "self' = on_snapshot (\<lambda>s. s\<lparr>snap_host_lifecycle := HostWaitingForListeners,
      snap_transport_state := TransportAdvertising\<rparr>) self"
    using assms(1) by (auto simp: complete_platform_def split: if_splits)
  then show ?thesis
    using assms(2) by (auto simp: self' intro!: actor_inv_lifecycle)
qed (use assms in \<open>auto simp: complete_platform_def reset_host_session_inv reset_listener_connection_inv try_bind_Inr_iff
      diagnostic_iff Let_def split: if_splits platform_operation_completion.splits\<close>)

lemma apply_platform_success_inv:
  assumes "apply_platform_success self operation_id completion = Inr (result, self')" and "actor_inv n cs out self"
  shows "actor_inv n cs (out @ ao_notifications result) self'"
proof -
  obtain pending self1 where "complete_platform self operation_id pending completion = Inr (result, self1)"
    and self': "self' = clear_failure (self1\<lparr>act_pending_platform := pending_delete operation_id (act_pending_platform self1)\<rparr>)"
    using assms(1) by (auto simp: apply_platform_success_def try_bind_Inr_iff remove_pending_def)
  from remove_pending_storage_inv(3) [OF complete_platform_inv [OF this(1) assms(2)]] show ?thesis
    by (simp add: self')
qed

lemma record_discovered_session_inv:
  assumes "record_discovered_session self advertisement = Inr (result, self')" and "actor_inv n cs out self"
  shows "actor_inv n cs (out @ ao_notifications result) self'"
  using assms by (auto simp: record_discovered_session_def try_bind_Inr_iff Let_def split: if_splits)

lemma expire_session_inv:
  assumes "expire_session self session_id = Inr (result, self')" and "actor_inv n cs out self"
  shows "actor_inv n cs (out @ ao_notifications result) self'"
  using assms unfolding expire_session_def Let_def by (auto simp: try_bind_Inr_iff diagnostic_iff split: if_splits)

lemma apply_platform_inv:
  assumes "apply_platform self event = Inr (result, self')" and "actor_inv n cs out self"
  shows "actor_inv n cs (out @ ao_notifications result) self'"
  using assms(1) apply_platform_success_inv [OF _ assms(2)] apply_platform_failure_inv [OF _ assms(2)]
    record_discovered_session_inv [OF _ assms(2)] expire_session_inv [OF _ assms(2)] assms(2)
  by (cases event) (auto simp: try_bind_Inr_iff diagnostic_iff split: if_splits)

subsection \<open>Transport events\<close>

lemma record_listener_inv:
  assumes "record_listener self listener = Inr (result, self')" and "actor_inv n cs out self"
    and "connection_reported cs (ls_device_id listener)"
  shows "actor_inv n cs (out @ ao_notifications result) self'"
proof -
  let ?self = "on_snapshot (\<lambda>s. s\<lparr>snap_pending_join_requests :=
    filter (\<lambda>request. jrs_device_id request \<noteq> ls_device_id listener) (snap_pending_join_requests s)\<rparr>) self"
  have "actor_inv n cs out ?self"
    using assms(2) by (auto simp: actor_inv_def elim!: admission_ok_sub)
  moreover obtain self1 where "store_listener ?self listener = Inr self1" and result: "result = outcome_changed"
    and self': "self' = self1 \<or> snap_host_lifecycle (act_snapshot self1) = HostWaitingForListeners \<and>
      self' = on_snapshot (\<lambda>s. s\<lparr>snap_host_lifecycle := HostReady\<rparr>) self1"
    using assms(1) by (auto simp: record_listener_def try_bind_Inr_iff split: if_splits)
  ultimately have "actor_inv n cs out self1"
    using store_listener_inv assms(3) by blast
  moreover from this have "session_ok (snap_host_lifecycle (act_snapshot self1)) (act_host_session_id self1)"
    by (simp add: actor_inv_def)
  ultimately show ?thesis
    using self' by (auto simp: result session_ok_def intro!: actor_inv_lifecycle)
qed

lemma record_listener_disconnect_inv:
  assumes "record_listener_disconnect self device_id error = Inr (result, self')" and "actor_inv n cs out self"
  shows "actor_inv n cs (out @ ao_notifications result) self'"
proof -
  let ?self = "on_snapshot (\<lambda>s. s\<lparr>snap_listeners := filter (\<lambda>listener. ls_device_id listener \<noteq> device_id) (snap_listeners (act_snapshot self)),
      snap_pending_join_requests := filter (\<lambda>request. jrs_device_id request \<noteq> device_id) (snap_pending_join_requests (act_snapshot self))\<rparr>) self"
  let ?waiting = "on_snapshot (\<lambda>s. s\<lparr>snap_host_lifecycle := HostWaitingForListeners\<rparr>) ?self"
  have inv: "actor_inv n cs out ?self"
    using assms(2) by (auto simp: actor_inv_def elim!: admission_ok_sub)
  moreover have "actor_inv n cs out ?waiting" if "snap_host_lifecycle (act_snapshot self) = HostReady"
  proof (rule actor_inv_lifecycle [OF inv])
    show "session_ok (snap_host_lifecycle ((act_snapshot ?self)\<lparr>snap_host_lifecycle := HostWaitingForListeners\<rparr>)) (act_host_session_id ?self)"
      using inv that by (auto simp: actor_inv_def session_ok_def)
  qed simp_all
  ultimately show ?thesis
    using assms(1) unfolding record_listener_disconnect_def Let_def by (auto split: option.splits if_splits)
qed

lemma record_transport_failure_inv:
  assumes "record_transport_failure self error = Inr (result, self')" and "actor_inv n cs out self"
  shows "actor_inv n cs (out @ ao_notifications result) self'"
proof -
  have "actor_inv n cs out (on_snapshot (\<lambda>s. s\<lparr>snap_host_lifecycle := HostError, snap_recoverable_action := retry_if error ActionRetry\<rparr>)
     (on_snapshot (\<lambda>s. s\<lparr>snap_last_error := Some error, snap_transport_state := TransportFailed, snap_discovery_active := False\<rparr>) self))"
    using assms(2) by - (rule actor_inv_lifecycle; simp)
  then show ?thesis
    using assms by (auto simp: record_transport_failure_def Let_def split: option.splits app_role.splits)
qed

lemma apply_transport_state_inv:
  assumes "apply_transport_state self state = Inr (result, self')" and "actor_inv n cs out self"
  shows "actor_inv n cs (out @ ao_notifications result) self'"
proof -
  let ?self = "on_snapshot (\<lambda>s. s\<lparr>snap_transport_state := state, snap_discovery_active := (state = TransportDiscovering)\<rparr>) self"
  have "actor_inv n cs out (on_snapshot (\<lambda>s. s\<lparr>snap_host_lifecycle := HostAdvertising\<rparr>) ?self)"
    if "snap_host_lifecycle (act_snapshot self) = HostCreatingSession"
    using assms(2) that by - (rule actor_inv_lifecycle; simp add: actor_inv_def session_ok_def)
  then show ?thesis
    using assms by (auto simp: apply_transport_state_def try_bind_Inr_iff split: if_splits)
qed

lemma listener_event_inv:
  assumes "actor_inv n cs out self"
  shows "record_awaiting_approval self = Inr (result, self') \<Longrightarrow> actor_inv n cs (out @ ao_notifications result) self'"
    and "record_join_approved self trusted = Inr (result, self') \<Longrightarrow> actor_inv n cs (out @ ao_notifications result) self'"
    and "record_join_rejected self reason = Inr (result, self') \<Longrightarrow> actor_inv n cs (out @ ao_notifications result) self'"
  using assms
  by (auto simp: record_awaiting_approval_def record_join_approved_def record_join_rejected_def try_bind_Inr_iff split: if_splits)

lemma apply_input_transport_inv:
  assumes "apply_input_transport self event = Inr (result, self')" and "actor_inv n cs out self"
    and "Process (InputTransport event) \<in> set cs"
  shows "actor_inv n cs (out @ ao_notifications result) self'"
proof (cases event)
  case (JoinRequested request)
  then show ?thesis
    using assms handle_join_request_inv [OF _ assms(2)] by (simp add: apply_input_transport_def requested_def)
next
  case (TransportListenerConnected listener)
  then have "connection_reported cs (ls_device_id listener)"
    using assms(3) by (auto simp: connection_reported_def)
  then show ?thesis
    using TransportListenerConnected assms(1) record_listener_inv [OF _ assms(2)] by (simp add: apply_input_transport_def)
qed (use assms(1,2) complete_transport_delivery_inv [OF _ assms(2)] apply_transport_state_inv [OF _ assms(2)]
    record_listener_disconnect_inv [OF _ assms(2)] record_transport_failure_inv [OF _ assms(2)] listener_event_inv [OF assms(2)]
    in \<open>auto simp: apply_input_transport_def split: if_splits\<close>)

end
