(* ===== verification/Actor_Properties.thy ===== *)
theory Actor_Properties
  imports Actor_Steps
begin

section \<open>Properties of the runtime actor\<close>

text \<open>
  The step of the actor and its runs from the initial state: the invariant of \<open>Actor_Invariants\<close>
  holds in every reachable state, and the snapshots published so far describe the current one.
\<close>

subsection \<open>Storage events and the reducer\<close>

lemma apply_tuning_storage_inv:
  assumes "apply_tuning_storage self event = Inr (result, self')" and "actor_inv n cs out self"
  shows "actor_inv n cs (out @ ao_notifications result) self'"
proof -
  let ?id = "storage_event_operation_id event"
  note inv = remove_pending_storage_inv(1) [OF assms(2), of ?id]
  obtain settings where "pending_lookup ?id (act_pending_storage self) = Some (PersistTuning settings)"
    using assms(1)
    by (auto simp: apply_tuning_storage_def try_bind_Inr_iff remove_pending_storage_def Let_def
        split: option.splits pending_storage_operation.splits)
  then show ?thesis
    using assms(1) inv
    by (cases event) (auto simp: apply_tuning_storage_def try_bind_Inr_iff remove_pending_storage_def diagnostic_iff Let_def
        split: storage_completion.splits)
qed

lemma apply_storage_inv:
  assumes "apply_storage self event = Inr (result, self')" and "actor_inv n cs out self"
  shows "actor_inv n cs (out @ ao_notifications result) self'"
  using assms unfolding apply_storage_def
  by (auto simp: try_bind_Inr_iff diagnostic_iff split: storage_event.splits storage_completion.splits option.splits)

lemma apply_input_inv:
  assumes "apply_input self input = Inr (result, self')" and "actor_inv n cs out self" and "Process input \<in> set cs"
  shows "actor_inv n cs (out @ ao_notifications result) self'"
proof (cases input)
  case (InputCommand operation_id request)
  then have "apply_command self operation_id (ccr_command request) = Inr (result, self')"
    using assms(1) by (simp add: apply_input_command_def split: if_splits)
  from apply_command_inv [OF this assms(2)] show ?thesis
    using assms(3) InputCommand by (auto simp: host_approved_def)
next
  case (InputStorage event)
  then show ?thesis
    using assms apply_tuning_storage_inv [OF _ assms(2)] apply_admission_storage_inv [OF _ assms(2)] apply_storage_inv [OF _ assms(2)]
    by (simp add: apply_input_storage_def Let_def split: if_splits)
qed (use assms apply_platform_inv [OF _ assms(2)] apply_input_transport_inv [OF _ assms(2)] apply_audio_control_inv [OF _ assms(2)]
    in simp_all)

subsection \<open>Inputs that report no change leave the state as it is\<close>

lemma approve_join_changed:
  assumes "approve_join self operation_id request_id remember = Inr (result, self')"
  shows "ao_changed result"
proof -
  obtain request where "(case prepare_explicit_approval request remember of
       PersistTrustFirst persistence \<Rightarrow>
         try_bind (start_storage_operation self
           (PersistTrustedDevice (tpr_device_id persistence) (tpr_display_name persistence))
           (PersistApprovalTrust persistence)) (\<lambda>(effect, self).
         Inr (outcome_storage_effect effect, self))
     | Deliver delivery \<Rightarrow> start_approval_delivery self delivery) = Inr (result, self')"
    using assms by (auto simp: approve_join_def try_bind_Inr_iff)
  then show ?thesis
    by (cases "prepare_explicit_approval request remember") (auto simp: start_approval_delivery_def try_bind_Inr_iff)
qed

lemma complete_platform_changed:
  "complete_platform self operation_id pending completion = Inr (result, self') \<Longrightarrow> ao_changed result"
  by (cases pending) (auto simp: complete_platform_def Let_def try_bind_Inr_iff split: if_splits platform_operation_completion.splits)

lemma apply_command_unchanged:
  assumes "apply_command self operation_id command = Inr (result, self')" and "\<not> ao_changed result"
  shows "self' = self"
  using assms
  by (cases command)
    (auto simp: select_role_def select_session_def update_tuning_def update_host_draft_def append_host_queue_def
      reorder_host_queue_def remove_host_queue_entry_def clear_host_queue_def create_host_session_def end_host_session_def
      start_discovery_def stop_discovery_def submit_join_def cancel_join_def reject_join_def start_rejection_delivery_def remove_listener_def playback_unavailable_def retry_recoverable_def
      retry_host_session_def retry_listener_connection_def export_diagnostics_def Let_def try_bind_Inr_iff
      dest!: approve_join_changed split: if_splits)

lemma apply_platform_unchanged:
  assumes "apply_platform self event = Inr (result, self')" and "\<not> ao_changed result"
  shows "self' = self"
  using assms
  by (cases event)
    (auto simp: apply_platform_success_def apply_platform_failure_def record_discovered_session_def
      expire_session_def remove_pending_def Let_def try_bind_Inr_iff diagnostic_iff
      dest!: complete_platform_changed split: if_splits option.splits)

lemma apply_audio_unchanged:
  assumes "apply_audio self event = Inr (result, self')" and "\<not> ao_changed result"
  shows "self' = self" and "audio_transition event = None"
  using assms
  by (cases event; auto simp: advance_position_def apply_boundary_def schedule_boundary_def end_of_stream_def Let_def try_bind_Inr_iff
      split: if_splits option.splits list.splits)+

lemma apply_audio_control_unchanged:
  assumes "apply_audio_control self event = Inr (result, self')" and "\<not> ao_changed result"
  shows "self' = self"
proof -
  have lifecycle: "s' = s" if "apply_audio_with_host_lifecycle s event = Inr (result, s')" for s s'
    using that apply_audio_unchanged [OF _ assms(2)] assms(2)
    by (auto simp: apply_audio_with_host_lifecycle_def host_lifecycle_step_def try_bind_Inr_iff Let_def split: if_splits)
  have checked: "s' = s" if "host_audio_checked s event = Inr (result, s')" for s s'
    using that apply_audio_unchanged [OF _ assms(2)] assms(2) lifecycle
    by (auto simp: host_audio_checked_def try_bind_Inr_iff split: if_splits)
  have "ao_changed r" if "apply_audio s (PositionAdvanced stream_id position) = Inr (r, s')" for s s' r stream_id position
    using that by (auto simp: advance_position_def split: if_splits)
  then show ?thesis
    using assms lifecycle checked
    by (auto simp: apply_audio_control_def try_bind_Inr_iff split: if_splits audio_event.splits)
qed

lemma filter_length_same: "length xs = length (filter P xs) \<Longrightarrow> filter P xs = xs"
  by (metis filter_True length_filter_less less_irrefl)

lemma record_listener_disconnect_unchanged:
  assumes "record_listener_disconnect self device_id error = Inr (result, self')" and "\<not> ao_changed result"
  shows "self' = self"
proof -
  have "(act_snapshot self)\<lparr>snap_listeners := snap_listeners (act_snapshot self),
      snap_pending_join_requests := snap_pending_join_requests (act_snapshot self)\<rparr> = act_snapshot self"
    by (cases "act_snapshot self") simp
  moreover have "self\<lparr>act_snapshot := act_snapshot self\<rparr> = self"
    by simp
  ultimately show ?thesis
    using assms
    by (auto simp: record_listener_disconnect_def on_snapshot_def Let_def dest!: filter_length_same split: if_splits option.splits)
qed

lemma apply_input_transport_unchanged:
  assumes "apply_input_transport self event = Inr (result, self')" and "\<not> ao_changed result"
  shows "self' = self"
  using assms record_listener_disconnect_unchanged [OF _ assms(2)]
  by (cases event)
    (auto simp: apply_input_transport_def handle_join_request_def start_approval_delivery_def start_rejection_delivery_def
      complete_transport_delivery_def remove_pending_transport_def apply_transport_state_def record_listener_def
      record_transport_failure_def record_awaiting_approval_def record_join_approved_def record_join_rejected_def Let_def try_bind_Inr_iff
      split: if_splits option.splits join_request_disposition.splits)

lemma apply_input_unchanged:
  assumes "apply_input self input = Inr (result, self')" and "\<not> ao_changed result"
  shows "self' = self"
proof (cases input)
  case (InputStorage event)
  then show ?thesis
    using assms
    by (auto simp: apply_input_storage_def apply_tuning_storage_def apply_admission_storage_def apply_storage_def
        start_approval_delivery_def remove_pending_storage_def Let_def try_bind_Inr_iff diagnostic_iff
        split: if_splits option.splits storage_event.splits storage_completion.splits pending_storage_operation.splits)
qed (use assms apply_command_unchanged [OF _ assms(2)] apply_platform_unchanged [OF _ assms(2)]
    apply_input_transport_unchanged [OF _ assms(2)] apply_audio_control_unchanged [OF _ assms(2)]
    in \<open>auto simp: apply_input_command_def split: if_splits\<close>)

subsection \<open>One call and runs\<close>

lemma revision_checked_next_iff:
  "revision_checked_next revision = Inr r \<longleftrightarrow> unat revision < U64_MAX \<and> r = revision + 1"
  by (auto simp: revision_checked_next_def checked_add_def U64_MAX_def split: if_splits)

lemma publish_inv:
  assumes "actor_inv n cs out self" and "actor_inv n cs (out @ es) candidate"
    and "revision_checked_next (snap_revision (act_snapshot candidate)) = Inr revision"
    and "self' = on_snapshot (\<lambda>s. s\<lparr>snap_revision := revision\<rparr>) candidate"
  shows "actor_inv (Suc n) cs (out @ NotifySnapshot (act_snapshot self') # es) self'" and "published es = []"
proof -
  show "published es = []"
    using assms(1,2) by (simp add: actor_inv_def)
  moreover have "unat revision = Suc n"
    using assms(2,3) by (simp add: revision_checked_next_iff unat_word_ariths U64_MAX_def actor_inv_def)
  ultimately show "actor_inv (Suc n) cs (out @ NotifySnapshot (act_snapshot self') # es) self'"
    using assms(2) by (simp add: assms(4) actor_inv_def)
qed

text \<open>A call changes nothing, or it publishes the snapshot that follows the last one.\<close>

definition quiet_step :: "nat \<Rightarrow> actor_call list \<Rightarrow> core_notification list \<Rightarrow> actor_state \<Rightarrow> core_notification list \<Rightarrow> actor_state \<Rightarrow> bool" where
  "quiet_step n cs out self es self' \<longleftrightarrow> self' = self \<and> published es = [] \<and> actor_inv n cs (out @ es) self"

definition publishing_step :: "nat \<Rightarrow> actor_call list \<Rightarrow> core_notification list \<Rightarrow> core_notification list \<Rightarrow> actor_state \<Rightarrow> bool" where
  "publishing_step n cs out es self' \<longleftrightarrow> published es = [act_snapshot self'] \<and> snapshot_ok (act_snapshot self') \<and>
     actor_inv (Suc n) cs (out @ es) self'"

lemma outcome_step:
  assumes "actor_inv n cs out self" and "actor_inv n cs (out @ ao_notifications result) candidate"
    and "\<not> ao_changed result \<Longrightarrow> candidate = self"
  shows "\<not> ao_changed result \<Longrightarrow> quiet_step n cs out self (ao_notifications result) candidate"
    and "revision_checked_next (snap_revision (act_snapshot candidate)) = Inr revision \<Longrightarrow>
      core_snapshot_validate (act_snapshot self') = Inr () \<Longrightarrow>
      self' = on_snapshot (\<lambda>s. s\<lparr>snap_revision := revision\<rparr>) candidate \<Longrightarrow>
      publishing_step n cs out (NotifySnapshot (act_snapshot self') # ao_notifications result) self'"
proof -
  show "quiet_step n cs out self (ao_notifications result) candidate" if "\<not> ao_changed result"
    using assms(1,2) assms(3) [OF that] by (simp add: quiet_step_def actor_inv_def)
  show "publishing_step n cs out (NotifySnapshot (act_snapshot self') # ao_notifications result) self'"
    if "revision_checked_next (snap_revision (act_snapshot candidate)) = Inr revision"
      "core_snapshot_validate (act_snapshot self') = Inr ()" "self' = on_snapshot (\<lambda>s. s\<lparr>snap_revision := revision\<rparr>) candidate"
    using publish_inv [OF assms(1,2) that(1,3)] that(2) by (simp add: publishing_step_def core_snapshot_validate_iff)
qed

lemma error_quiet: "actor_inv n cs out self \<Longrightarrow> quiet_step n cs out self [NotifyError e] self"
  "actor_inv n cs out self \<Longrightarrow> quiet_step n cs out self [] self"
  by (simp_all add: quiet_step_def)

lemma process_step:
  assumes "perform_actor_call self (Process input) = (es, self')" and "actor_inv n cs out self" and "Process input \<in> set cs"
  shows "quiet_step n cs out self es self' \<or> publishing_step n cs out es self'"
proof (cases "apply_input self input")
  case (Inl error)
  then show ?thesis
    using assms(1,2) error_quiet by (auto simp: process_input_def)
next
  case (Inr r)
  obtain result candidate where r: "r = (result, candidate)"
    by fastforce
  note step = outcome_step [OF assms(2) apply_input_inv [OF Inr [unfolded r] assms(2,3)]
      apply_input_unchanged [OF Inr [unfolded r]]]
  show ?thesis
    using assms(1) Inr r step error_quiet [OF assms(2)]
    by (auto simp: process_input_def Let_def split: if_splits sum.splits)
qed

lemma reserve_step:
  assumes "perform_actor_call self (Reserve stream_id entry_id index) = (es, self')" and "actor_inv n cs out self"
  shows "quiet_step n cs out self es self' \<or> publishing_step n cs out es self'"
proof (cases "reserve_track_boundary self stream_id entry_id index")
  case (Inl error)
  then show ?thesis
    using assms error_quiet by auto
next
  case (Inr r)
  obtain result candidate where step: "apply_audio_control self (TrackBoundaryScheduled entry_id index) = Inr (result, candidate)"
    using Inr by (auto simp: reserve_track_boundary_def try_bind_Inr_iff split: if_splits)
  note steps = outcome_step [OF assms(2) apply_audio_control_inv [OF step assms(2)] apply_audio_control_unchanged [OF step]]
  show ?thesis
    using Inr step steps assms(1)
    by (auto simp: reserve_track_boundary_def try_bind_Inr_iff Let_def split: if_splits)
qed

lemma actor_call_step:
  assumes "perform_actor_call self c = (es, self')" and "actor_inv n cs out self"
  shows "quiet_step n (cs @ [c]) out self es self' \<or> publishing_step n (cs @ [c]) out es self'"
proof -
  have inv: "actor_inv n (cs @ [c]) out self"
    using assms(2) by (rule actor_inv_mono)
  show ?thesis
  proof (cases c)
    case (Process input)
    from process_step [OF assms(1) [unfolded Process] inv] Process show ?thesis
      by simp
  next
    case (Reserve stream_id entry_id index)
    from reserve_step [OF assms(1) [unfolded Reserve] inv] show ?thesis .
  qed
qed

lemma actor_state_new_inv: "actor_inv 0 [] [] (actor_state_new device_id namespace)"
  by (simp add: actor_inv_def actor_state_new_def core_snapshot_default_def queue_view_def host_queue_default_def
      host_draft_default_def queue_current_def entries_ok_def sources_agree_def streams_ok_def ops_ok_def session_ok_def admission_ok_def)

lemma actor_run_inv:
  assumes "actor_run (actor_state_new device_id namespace) cs out self"
  shows "actor_inv (length (published out)) cs out self \<and>
    act_snapshot self = last (core_snapshot_default # published out) \<and>
    map (unat \<circ> snap_revision) (published out) = [1..<Suc (length (published out))] \<and>
    list_all snapshot_ok (published out)"
  using assms
proof (induction rule: call_run.induct)
  case run_start
  then show ?case
    using actor_state_new_inv by (simp add: actor_state_new_def)
next
  case (run_call cs out self c es self')
  then have inv: "actor_inv (length (published out)) cs out self"
    by simp
  from actor_call_step [OF run_call.hyps(3) inv] show ?case
  proof
    assume "quiet_step (length (published out)) (cs @ [c]) out self es self'"
    then show ?thesis
      using run_call.IH by (simp add: quiet_step_def)
  next
    assume publishing: "publishing_step (length (published out)) (cs @ [c]) out es self'"
    then have "unat (snap_revision (act_snapshot self')) = Suc (length (published out))"
      by (simp add: publishing_step_def actor_inv_def)
    then show ?thesis
      using run_call.IH publishing by (simp add: publishing_step_def)
  qed
qed

subsection \<open>Concrete runs\<close>

definition sample_device :: device_id where "sample_device = DeviceId (lit ''host'')"

definition sample_source :: "string \<Rightarrow> audio_source_descriptor" where
  "sample_source name = \<lparr>asd_source_id = lit name, asd_display_name = lit name, asd_byte_length = Some 1000, asd_duration_ms = None\<rparr>"

definition sample_command :: "u64 \<Rightarrow> core_command \<Rightarrow> actor_call" where
  "sample_command revision command =
     Process (InputCommand (OperationId (lit ''op'')) \<lparr>ccr_expected_revision = revision, ccr_command = command\<rparr>)"

definition sample_request :: join_request_summary where
  "sample_request = \<lparr>jrs_request_id = RequestId (lit ''r''), jrs_device_id = DeviceId (lit ''phone''), jrs_display_name = lit ''Phone'',
     jrs_trust_state = TrustSessionOnly, jrs_invite_code_valid = False, jrs_received_at = 0\<rparr>"

text \<open>A host session that approves a listener.\<close>

definition admission_calls :: "actor_call list" where
  "admission_calls =
     [sample_command 0 (SelectRole RoleHost),
      sample_command 1 (UpdateHostDraft \<lparr>hdp_session_name = Some (lit ''Party''), hdp_approval_mode = None,
        hdp_invite_code = InviteCodeUnchanged, hdp_audio_source = AudioSourceSet (sample_source ''a''),
        hdp_remember_approved_devices = None\<rparr>),
      sample_command 2 CreateHostSession,
      Process (InputPlatform (PlatformSucceeded (OperationId (lit ''effect-1'')) AdvertisingStarted)),
      Process (InputTransport (JoinRequested sample_request)),
      sample_command 5 (ApproveJoin (RequestId (lit ''r'')) False)]"

text \<open>A host queue whose second track is reserved while the first one plays.\<close>

definition queue_calls :: "actor_call list" where
  "queue_calls =
     [sample_command 0 (SelectRole RoleHost),
      sample_command 1 (AppendHostQueue 0
        [\<lparr>qe_entry_id = lit ''a'', qe_source = sample_source ''a''\<rparr>, \<lparr>qe_entry_id = lit ''b'', qe_source = sample_source ''b''\<rparr>]),
      Process (InputAudio (PlaybackStateChanged PlaybackPlaying)),
      Process (InputAudio (PositionAdvanced (StreamId (lit ''s'')) 0)),
      Reserve (StreamId (lit ''s'')) (lit ''b'') 48000]"

definition sample_run :: "actor_call list \<Rightarrow> core_notification list \<times> actor_state" where
  "sample_run calls = the (call_exec (\<lambda>_ _. True) perform_actor_call (actor_state_new sample_device None) calls)"

lemma sample_run: "actor_run (actor_state_new sample_device None) calls (fst (sample_run calls)) (snd (sample_run calls))"
proof -
  have "\<exists>r. call_exec_from (\<lambda>_ _. True) perform p calls = Some r" for perform :: "'s \<Rightarrow> 'c \<Rightarrow> 'e list \<times> 's" and p calls
    by (induction calls arbitrary: p) (auto simp: split_paired_all call_append_eq)
  then have "call_exec (\<lambda>_ _. True) perform_actor_call (actor_state_new sample_device None) calls = Some (sample_run calls)"
    unfolding sample_run_def call_exec_def by (metis option.sel)
  then show ?thesis
    by (metis call_exec_run prod.collapse)
qed

lemma admission_sample:
  "(case sample_run admission_calls of (out, self) \<Rightarrow> (approvals out, length (published out), effect_ids out)) =
     ([(RequestId (lit ''r''), DeviceId (lit ''phone''), False)], 6, [OperationId (lit ''effect-1''), OperationId (lit ''effect-2'')])"
  by code_simp

lemma queue_sample:
  "(case sample_run queue_calls of (out, self) \<Rightarrow>
      (act_pending_host_boundaries self, snap_host_queue_next_boundary (act_snapshot self))) =
     ([\<lparr>hb_entry_id = lit ''b'', hb_first_sample_index = 48000\<rparr>], Some \<lparr>hb_entry_id = lit ''b'', hb_first_sample_index = 48000\<rparr>)"
  by code_simp

definition connected_calls :: "actor_call list" where
  "connected_calls = admission_calls @ [Process (InputTransport (TransportListenerConnected
     \<lparr>ls_device_id = DeviceId (lit ''phone''), ls_display_name = lit ''Phone'', ls_trust_state = TrustSessionOnly,
      ls_transport_state = TransportConnected, ls_synchronization = None, ls_last_contact = None, ls_last_error = None\<rparr>))]"

lemma connected_sample:
  "(case sample_run connected_calls of (out, self) \<Rightarrow>
      (pending_lookup (OperationId (lit ''effect-2'')) (act_pending_transport self),
       request_position (RequestId (lit ''r'')) (DeviceId (lit ''phone'')) (snap_pending_join_requests (act_snapshot self)))) =
     (Some (PendingApproveJoin \<lparr>ad_request_id = RequestId (lit ''r''), ad_device_id = DeviceId (lit ''phone''),
        ad_trusted_for_future = False, ad_persistence_failed = False\<rparr>), None)"
  by code_simp

subsection \<open>Properties\<close>

text \<open>
  C5: After any run of the runtime actor from its initial state, the snapshots it published carry the
  revisions 1, 2, 3, \<dots> without gaps or repetition, each of them is valid (bounded lists, unique
  identifiers, a selected session that was discovered, discovery exactly while the transport
  discovers), and the snapshot the actor holds is the last one it published: no input, accepted,
  rejected or ignored, changes what observers see without publishing it.
\<close>

theorem actor_publishes_every_change:
  assumes "actor_run (actor_state_new device_id namespace) cs out self"
  shows "act_snapshot self = last (core_snapshot_default # published out) \<and>
    map (unat \<circ> snap_revision) (published out) = [1..<Suc (length (published out))] \<and>
    list_all snapshot_ok (published out)"
  using actor_run_inv [OF assms] by simp

theorem actor_publishes_every_change_witness:
  "map (unat \<circ> snap_revision) (published (fst (sample_run admission_calls))) = [1, 2, 3, 4, 5, 6] \<and>
   list_all snapshot_ok (published (fst (sample_run admission_calls)))"
proof -
  have "length (published (fst (sample_run admission_calls))) = 6"
    using admission_sample by (simp add: split_beta)
  with actor_publishes_every_change [OF sample_run, of admission_calls] show ?thesis
    by (simp add: upt_rec)
qed

text \<open>
  C2: No listener is admitted without consent. In every run, each approval the actor hands to the
  transport answers a join request of that device that the host approved by a command, or whose
  device was already trusted; an approval that promises trust for the future needs a trusted
  request or a trust record confirmed by the storage. Every listener in the snapshot was
  reported connected by the transport or has been sent such an approval.
\<close>

theorem actor_admits_only_with_consent:
  assumes "actor_run (actor_state_new device_id namespace) cs out self"
  shows "list_all (\<lambda>(request_id, device_id, trusted). approval_justified cs request_id device_id trusted) (approvals out) \<and>
    list_all (\<lambda>listener. connection_reported cs (ls_device_id listener) \<or> ls_device_id listener \<in> (fst \<circ> snd) ` set (approvals out))
      (snap_listeners (act_snapshot self))"
  using actor_run_inv [OF assms, THEN conjunct1] by (simp add: actor_inv_def admission_ok_def list.pred_map comp_def)

theorem actor_admits_only_with_consent_witness:
  "approvals (fst (sample_run admission_calls)) = [(RequestId (lit ''r''), DeviceId (lit ''phone''), False)] \<and>
   approval_justified admission_calls (RequestId (lit ''r'')) (DeviceId (lit ''phone'')) False"
proof -
  have "approvals (fst (sample_run admission_calls)) = [(RequestId (lit ''r''), DeviceId (lit ''phone''), False)]"
    using admission_sample by (simp add: split_beta)
  with actor_admits_only_with_consent [OF sample_run, of admission_calls] show ?thesis
    by simp
qed

text \<open>
  C12: In every run the tracks reserved for gapless playback are the next tracks of the queue, in
  queue order, at positive and strictly increasing sample indices; the boundary shown to
  observers is the first of them; the audio source of the host draft is the source of the current
  track; and the queue respects its limits. So no command can move, remove or replace a reserved
  track while its reservation stands.
\<close>

theorem actor_reservations_match_queue:
  assumes "actor_run (actor_state_new device_id namespace) cs out self"
  shows "reserved_prefix (act_pending_host_boundaries self) (queue_upcoming (snap_host_queue (act_snapshot self))) \<and>
    boundaries_ordered (act_pending_host_boundaries self) \<and>
    snap_host_queue_next_boundary (act_snapshot self) = first_boundary (act_pending_host_boundaries self) \<and>
    hd_audio_source (snap_host_draft (act_snapshot self)) = map_option qe_source (queue_current (snap_host_queue (act_snapshot self))) \<and>
    entries_ok (hq_entries (snap_host_queue (act_snapshot self)))"
  using actor_run_inv [OF assms, THEN conjunct1] by (simp add: actor_inv_def queue_view_def)

theorem actor_reservations_match_queue_witness:
  "act_pending_host_boundaries (snd (sample_run queue_calls)) = [\<lparr>hb_entry_id = lit ''b'', hb_first_sample_index = 48000\<rparr>] \<and>
   reserved_prefix [\<lparr>hb_entry_id = lit ''b'', hb_first_sample_index = 48000\<rparr>]
     (queue_upcoming (snap_host_queue (act_snapshot (snd (sample_run queue_calls)))))"
proof -
  have "act_pending_host_boundaries (snd (sample_run queue_calls)) = [\<lparr>hb_entry_id = lit ''b'', hb_first_sample_index = 48000\<rparr>]"
    using queue_sample by (simp add: split_beta)
  with actor_reservations_match_queue [OF sample_run, of queue_calls] show ?thesis
    by simp
qed

text \<open>
  C13: In every run the operation identifiers of all effects the actor issues, to the platform, the
  transport and the storage, are different; every operation still in progress is an effect that was
  issued, is in progress once, and there are at most 128 of them. So a completion is matched with
  at most one operation. Moreover the stream that plays is never one of the retired streams, of
  which at most 16 different ones are remembered, and a host outside the idle and error states
  has a session.
\<close>

theorem actor_operations_correlated:
  assumes "actor_run (actor_state_new device_id namespace) cs out self"
  shows "distinct (effect_ids out) \<and>
    distinct (map fst (act_pending_platform self) @ map fst (act_pending_transport self) @ map fst (act_pending_storage self)) \<and>
    set (map fst (act_pending_platform self) @ map fst (act_pending_transport self) @ map fst (act_pending_storage self))
      \<subseteq> set (effect_ids out) \<and>
    length (act_pending_platform self) + length (act_pending_transport self) + length (act_pending_storage self) \<le> 128 \<and>
    streams_ok (act_active_audio_stream_id self) (act_retired_audio_stream_ids self) \<and>
    session_ok (snap_host_lifecycle (act_snapshot self)) (act_host_session_id self)"
  using actor_run_inv [OF assms, THEN conjunct1] by (simp add: actor_inv_def ops_ok_def MAX_PENDING_EFFECT_OPERATIONS_def)

theorem actor_operations_correlated_witness:
  "effect_ids (fst (sample_run admission_calls)) = [OperationId (lit ''effect-1''), OperationId (lit ''effect-2'')] \<and>
   set (map fst (act_pending_transport (snd (sample_run admission_calls))))
     \<subseteq> {OperationId (lit ''effect-1''), OperationId (lit ''effect-2'')}"
proof -
  have "effect_ids (fst (sample_run admission_calls)) = [OperationId (lit ''effect-1''), OperationId (lit ''effect-2'')]"
    using admission_sample by (simp add: split_beta)
  with actor_operations_correlated [OF sample_run, of admission_calls] show ?thesis
    by simp
qed

text \<open>
  C37: The delivery of an approval whose join request is no longer pending cannot be completed: each
  report of a successful delivery is answered by an error and leaves the state as it was, so that the
  operation stays in progress.
\<close>

theorem orphaned_approval_stays_pending:
  assumes "pending_lookup operation_id (act_pending_transport self) = Some (PendingApproveJoin delivery)"
    and "request_position (ad_request_id delivery) (ad_device_id delivery) (snap_pending_join_requests (act_snapshot self)) = None"
    and "commits_domain_decision (classify_delivery report)"
  shows "\<exists>error. process_input self (InputTransport (DeliveryCompleted operation_id report)) =
    (\<lparr>pr_notifications = [NotifyError error], pr_stop_requested = False\<rparr>, self)"
  using assms
  by (simp add: process_input_def apply_input_transport_def complete_transport_delivery_def remove_pending_transport_def
      commit_delivery_def remove_pending_request_def Let_def)

theorem orphaned_approval_stays_pending_witness:
  "\<exists>error. perform_actor_call (snd (sample_run connected_calls))
     (Process (InputTransport (DeliveryCompleted (OperationId (lit ''effect-2''))
       \<lparr>dr_intended_peers = 1, dr_successful_peers = 1, dr_failed_peers = 0, dr_severity = DeliveryOk\<rparr>))) =
     ([NotifyError error], snd (sample_run connected_calls))"
proof -
  have "commits_domain_decision (classify_delivery
      \<lparr>dr_intended_peers = 1, dr_successful_peers = 1, dr_failed_peers = 0, dr_severity = DeliveryOk\<rparr>)"
    by (simp add: classify_delivery_def)
  from orphaned_approval_stays_pending [OF _ _ this, of "OperationId (lit ''effect-2'')" "snd (sample_run connected_calls)"]
  show ?thesis
    using connected_sample by (fastforce simp: split_beta)
qed

end
