(* ===== verification/Playback_Pump.thy ===== *)
theory Playback_Pump
  imports Playback_Scheduler Render_Ring
begin

section \<open>The playback pump\<close>

text \<open>
  \<open>audio/playback_pump\<close>: the pump drives one scheduler into one render ring. The ring is shared with
  the audio callback; between two calls of the pump the callback may read from it, so the ring is
  a field of the model's pump and a read of the callback is a call of its own. The optional debug
  recorder, which copies frames into a file, is left out: it changes nothing else.
\<close>

subsection \<open>Configuration\<close>

definition DEFAULT_WRITE_LEAD_MS :: u64 where "DEFAULT_WRITE_LEAD_MS = 400"
definition DEFAULT_MAX_PREFILL_MS :: u64 where "DEFAULT_MAX_PREFILL_MS = 800"

record playback_pump_config =
  ppc_volume :: f32
  ppc_write_lead_ms :: u64
  ppc_max_prefill_ms :: u64
  ppc_target_depth_frames :: usize

definition playback_pump_config_default :: playback_pump_config where
  "playback_pump_config_default =
     \<lparr>ppc_volume = f32_one, ppc_write_lead_ms = DEFAULT_WRITE_LEAD_MS, ppc_max_prefill_ms = DEFAULT_MAX_PREFILL_MS,
      ppc_target_depth_frames = DEFAULT_TARGET_FILL_FRAMES\<rparr>"

datatype playback_pump_config_error_kind = InvalidVolume | ChannelCountMismatch | InvalidTargetDepth

record playback_pump =
  pp_scheduler :: playback_scheduler
  pp_ring :: ring_inner
  pp_config :: playback_pump_config
  pp_pending :: "f32 list"
  pp_awaiting_prefill :: bool
  pp_prefill_frames :: usize
  pp_sync_locked :: bool
  pp_offset_ms :: f64
  pp_peak_queued_frames :: usize
  pp_dropped_before_sync :: u64
  pp_last_observed_underrun_callbacks :: u64
  pp_timeline_started :: bool
  pp_offset_driven_rebuffers :: u64

definition volume_valid :: "f32 \<Rightarrow> bool" where
  "volume_valid volume \<longleftrightarrow> f32_is_finite volume \<and> \<not> f32_less volume f32_zero \<and> \<not> f32_less f32_one volume"

definition playback_pump_new ::
    "playback_scheduler \<Rightarrow> ring_inner \<Rightarrow> playback_pump_config \<Rightarrow> playback_pump_config_error_kind + playback_pump" where
  "playback_pump_new scheduler producer config =
     (if \<not> volume_valid (ppc_volume config) then Inl InvalidVolume
      else if unat (sc_channels (ps_config scheduler)) \<noteq> RENDER_CHANNELS then Inl ChannelCountMismatch
      else if ppc_target_depth_frames config = 0 \<or> ppc_target_depth_frames config > ri_capacity_frames producer
      then Inl InvalidTargetDepth
      else Inr
        \<lparr>pp_scheduler = scheduler, pp_ring = producer, pp_config = config, pp_pending = [],
         pp_awaiting_prefill = True, pp_prefill_frames = 0, pp_sync_locked = False, pp_offset_ms = f64_of_rat 0,
         pp_peak_queued_frames = 0, pp_dropped_before_sync = 0,
         pp_last_observed_underrun_callbacks = rt_underrun_callbacks (ri_telemetry producer),
         pp_timeline_started = False, pp_offset_driven_rebuffers = 0\<rparr>)"

definition set_volume :: "playback_pump \<Rightarrow> f32 \<Rightarrow> playback_pump_config_error_kind + playback_pump" where
  "set_volume self volume =
     (if \<not> volume_valid volume then Inl InvalidVolume
      else Inr (self\<lparr>pp_config := (pp_config self)\<lparr>ppc_volume := volume\<rparr>\<rparr>))"

definition pending_frames :: "playback_pump \<Rightarrow> usize" where
  "pending_frames self = length (pp_pending self) div RENDER_CHANNELS"

definition queued_frames :: "playback_pump \<Rightarrow> usize" where
  "queued_frames self = ri_capacity_frames (pp_ring self) - free_frames (pp_ring self)"

subsection \<open>Conversion\<close>

definition PCM16_FULL_SCALE :: f32 where "PCM16_FULL_SCALE = 0x47000000"

definition convert_sample :: "f32 \<Rightarrow> i16 \<Rightarrow> f32" where
  "convert_sample volume sample = f32_mul (f32_div (f32_from_i16 sample) PCM16_FULL_SCALE) volume"

definition flush_pending :: "playback_pump \<Rightarrow> usize \<times> playback_pump" where
  "flush_pending self =
     (if pp_pending self = [] then (0, self)
      else
        let (written, ring) = push_frames (pp_ring self) (pp_pending self);
            self = self\<lparr>pp_ring := ring,
              pp_pending := (if written > 0 then drop (written * RENDER_CHANNELS) (pp_pending self) else pp_pending self)\<rparr> in
        (written, self\<lparr>pp_peak_queued_frames := max (pp_peak_queued_frames self) (queued_frames self)\<rparr>))"

definition enqueue_frame :: "playback_pump \<Rightarrow> scheduled_frame \<Rightarrow> usize \<times> playback_pump" where
  "enqueue_frame self frame =
     flush_pending (self\<lparr>pp_pending := pp_pending self @ map (convert_sample (ppc_volume (pp_config self))) (sf_samples frame)\<rparr>)"

subsection \<open>The clock-offset gate\<close>

definition MAX_SOFT_OFFSET_STEP_MS :: f64 where "MAX_SOFT_OFFSET_STEP_MS = f64_of_rat 5"

datatype sync_apply_outcome = Locked | SyncSoftCorrected | Rebuffered | RejectedNonFinite

text \<open>\<open>clamp(-5.0, 5.0)\<close>.\<close>

definition clamp_step :: "f64 \<Rightarrow> f64" where
  "clamp_step delta_ms =
     (if f64_less delta_ms (f64_of_rat (- 5)) then f64_of_rat (- 5)
      else if f64_less MAX_SOFT_OFFSET_STEP_MS delta_ms then MAX_SOFT_OFFSET_STEP_MS else delta_ms)"

definition apply_sync_offset :: "playback_pump \<Rightarrow> f64 \<Rightarrow> sync_apply_outcome \<times> playback_pump" where
  "apply_sync_offset self offset_ms =
     (if \<not> is_finite offset_ms then (RejectedNonFinite, self)
      else if \<not> pp_sync_locked self
      then (Locked, self\<lparr>pp_offset_ms := offset_ms, pp_sync_locked := True,
              pp_scheduler := rebuffer (pp_scheduler self) offset_ms, pp_awaiting_prefill := True\<rparr>)
      else
        let delta_ms = f64_sub offset_ms (pp_offset_ms self) in
        if f64_less (sc_hard_resync_threshold_ms (ps_config (pp_scheduler self))) (f64_abs delta_ms)
        then
          let self = self\<lparr>pp_offset_ms := offset_ms\<rparr>;
              (outcome, scheduler) = apply_offset_update (pp_scheduler self) offset_ms in
          case outcome of
            SoftCorrected \<Rightarrow> (SyncSoftCorrected, self\<lparr>pp_scheduler := scheduler\<rparr>)
          | OffsetHardResyncRequired \<Rightarrow>
              (Rebuffered, self\<lparr>pp_scheduler := rebuffer scheduler offset_ms, pp_awaiting_prefill := True,
                 pp_prefill_frames := 0,
                 pp_offset_driven_rebuffers := saturating_add (pp_offset_driven_rebuffers self) 1\<rparr>)
        else
          let self = self\<lparr>pp_offset_ms := f64_add (pp_offset_ms self) (clamp_step delta_ms)\<rparr> in
          (SyncSoftCorrected, self\<lparr>pp_scheduler := snd (apply_offset_update (pp_scheduler self) (pp_offset_ms self))\<rparr>))"

definition pump_submit_packet :: "playback_pump \<Rightarrow> audio_datagram \<Rightarrow> (jitter_buffer_rejection_kind + unit) \<times> playback_pump" where
  "pump_submit_packet self datagram =
     (if \<not> pp_sync_locked self
      then (Inr (), self\<lparr>pp_dropped_before_sync := saturating_add (pp_dropped_before_sync self) 1\<rparr>)
      else let (r, scheduler) = submit_packet (pp_scheduler self) datagram in (r, self\<lparr>pp_scheduler := scheduler\<rparr>))"

subsection \<open>One tick\<close>

datatype pump_tick =
    TickBuffering u64
  | TickQueued u64 usize bool
  | TickFlushedPending usize
  | TickRingFull usize
  | TickAtTargetDepth usize
  | TickWaiting
  | TickAwaitingSync
  | TickAwaitingRebuffer
  | TickStopped

definition underrun_observed :: "playback_pump \<Rightarrow> bool" where
  "underrun_observed self \<longleftrightarrow>
     pp_timeline_started self \<and> pp_last_observed_underrun_callbacks self < rt_underrun_callbacks (ri_telemetry (pp_ring self))"

definition realign_after_output_underrun :: "playback_pump \<Rightarrow> u64 \<Rightarrow> playback_pump" where
  "realign_after_output_underrun self local_now_ms =
     (let underruns = rt_underrun_callbacks (ri_telemetry (pp_ring self)) in
      if \<not> pp_timeline_started self then self\<lparr>pp_last_observed_underrun_callbacks := underruns\<rparr>
      else if underruns \<le> pp_last_observed_underrun_callbacks self then self
      else self\<lparr>pp_last_observed_underrun_callbacks := underruns, pp_pending := [], pp_awaiting_prefill := True,
                pp_prefill_frames := 0, pp_scheduler := realign_to_now (pp_scheduler self) local_now_ms\<rparr>)"

text \<open>The product of milliseconds and rate is a \<open>u64\<close>, as in the source.\<close>

definition alignment_frames :: "playback_pump \<Rightarrow> scheduled_frame \<Rightarrow> u64 \<Rightarrow> usize" where
  "alignment_frames self frame local_now_ms =
     (let deadline_ms = local_time_for_host_ms (pp_scheduler self) (sf_host_presentation_time_ms frame);
          lead_ms = min (saturating_sub deadline_ms local_now_ms) (ppc_max_prefill_ms (pp_config self)) in
      if lead_ms = 0 then 0
      else unat (lead_ms * ucast (sc_sample_rate (ps_config (pp_scheduler self))) div 1000))"

definition queue_alignment_prefill :: "playback_pump \<Rightarrow> scheduled_frame \<Rightarrow> u64 \<Rightarrow> playback_pump" where
  "queue_alignment_prefill self frame local_now_ms =
     (if \<not> pp_awaiting_prefill self then self
      else
        let frames = alignment_frames self frame local_now_ms in
        self\<lparr>pp_awaiting_prefill := False, pp_prefill_frames := frames,
             pp_pending := pp_pending self @ replicate (frames * RENDER_CHANNELS) f32_zero\<rparr>)"

text \<open>The arm of \<open>tick\<close> for a frame, and the three parts of \<open>tick\<close> in order.\<close>

definition release_frame :: "playback_pump \<Rightarrow> scheduled_frame \<Rightarrow> u64 \<Rightarrow> pump_tick \<times> playback_pump" where
  "release_frame self frame local_now_ms =
     (let (frames, self) = enqueue_frame (queue_alignment_prefill self frame local_now_ms) frame;
          self = self\<lparr>pp_timeline_started := True\<rparr> in
      (if pp_pending self = [] then TickQueued (sf_sequence frame) frames (sf_concealed frame)
       else TickRingFull (pending_frames self), self))"

definition tick_poll :: "playback_pump \<Rightarrow> u64 \<Rightarrow> pump_tick \<times> playback_pump" where
  "tick_poll self local_now_ms =
     (let poll_time_ms = saturating_add local_now_ms (ppc_write_lead_ms (pp_config self));
          (p, scheduler) = poll_with_release_horizon (pp_scheduler self) local_now_ms poll_time_ms;
          self = self\<lparr>pp_scheduler := scheduler\<rparr> in
      case p of
        Buffering ms \<Rightarrow> (TickBuffering ms, self)
      | Waiting _ \<Rightarrow> (TickWaiting, self)
      | AwaitingRebuffer \<Rightarrow>
          (TickAwaitingRebuffer,
           self\<lparr>pp_scheduler := rebuffer (pp_scheduler self) (pp_offset_ms self), pp_awaiting_prefill := True\<rparr>)
      | Stopped \<Rightarrow> (TickStopped, self)
      | Frame frame _ \<Rightarrow> release_frame self frame local_now_ms)"

definition tick_flush :: "playback_pump \<Rightarrow> pump_tick \<times> playback_pump" where
  "tick_flush self =
     (let (flushed, self) = flush_pending self in
      (if pp_pending self = [] then TickFlushedPending flushed else TickRingFull (pending_frames self), self))"

definition tick :: "playback_pump \<Rightarrow> u64 \<Rightarrow> pump_tick \<times> playback_pump" where
  "tick self local_now_ms =
     (if \<not> pp_sync_locked self then (TickAwaitingSync, self)
      else
        let self = realign_after_output_underrun self local_now_ms in
        if pp_pending self \<noteq> [] then tick_flush self
        else
          let queued = queued_frames self;
              self = self\<lparr>pp_peak_queued_frames := max (pp_peak_queued_frames self) queued\<rparr> in
          if queued \<ge> ppc_target_depth_frames (pp_config self) then (TickAtTargetDepth queued, self)
          else tick_poll self local_now_ms)"

fun enqueue_frames :: "playback_pump \<Rightarrow> scheduled_frame list \<Rightarrow> usize \<times> playback_pump" where
  "enqueue_frames self [] = (0, self)"
| "enqueue_frames self (frame # frames) =
     (let (n, self) = enqueue_frame self frame; (m, self) = enqueue_frames self frames in (n + m, self))"

definition finish :: "playback_pump \<Rightarrow> usize \<times> playback_pump" where
  "finish self =
     (let (drained, scheduler) = drain_remaining (pp_scheduler self);
          (written, self) = enqueue_frames (self\<lparr>pp_scheduler := scheduler\<rparr>) drained in
      (written, self\<lparr>pp_scheduler := scheduler_stop (pp_scheduler self)\<rparr>))"

subsection \<open>Diagnostics\<close>

record playback_diagnostics =
  pd_phase :: playback_phase
  pd_sync_locked :: bool
  pd_packets_accepted :: u64
  pd_packets_emitted :: u64
  pd_sequences_skipped :: u64
  pd_wrong_session_rejections :: u64
  pd_wrong_stream_rejections :: u64
  pd_late_rejections :: u64
  pd_duplicate_rejections :: u64
  pd_reorder_window_rejections :: u64
  pd_buffered_duration_rejections :: u64
  pd_resynchronisations :: u64
  pd_dropped_before_sync :: u64
  pd_concealed_packets :: u64
  pd_concealment_driven_rebuffers :: u64
  pd_offset_driven_rebuffers :: u64
  pd_hard_resync_signals :: u64
  pd_buffered_span_ms :: u64
  pd_ring_queued_frames :: usize
  pd_ring_peak_queued_frames :: usize
  pd_pending_frames :: usize
  pd_prefill_frames :: usize
  pd_ring_underruns :: u64
  pd_ring_silence_filled_frames :: u64
  pd_ring_full_events :: u64

definition diagnostics :: "playback_pump \<Rightarrow> playback_diagnostics" where
  "diagnostics self =
     (let jitter = jb_statistics (ps_jitter_buffer (pp_scheduler self));
          concealment = cp_statistics (ps_concealment (pp_scheduler self));
          ring = ri_telemetry (pp_ring self) in
      \<lparr>pd_phase = phase (pp_scheduler self), pd_sync_locked = pp_sync_locked self,
       pd_packets_accepted = jbs_accepted jitter, pd_packets_emitted = jbs_emitted jitter,
       pd_sequences_skipped = jbs_skipped jitter, pd_wrong_session_rejections = jbs_wrong_session_rejections jitter,
       pd_wrong_stream_rejections = jbs_wrong_stream_rejections jitter, pd_late_rejections = jbs_late_rejections jitter,
       pd_duplicate_rejections = jbs_duplicate_rejections jitter,
       pd_reorder_window_rejections = jbs_reorder_window_rejections jitter,
       pd_buffered_duration_rejections = jbs_buffered_duration_rejections jitter,
       pd_resynchronisations = jbs_resynchronisations jitter, pd_dropped_before_sync = pp_dropped_before_sync self,
       pd_concealed_packets = cs_total_concealed_packets concealment,
       pd_concealment_driven_rebuffers = cs_hard_resync_signals concealment,
       pd_offset_driven_rebuffers = pp_offset_driven_rebuffers self,
       pd_hard_resync_signals = saturating_add (cs_hard_resync_signals concealment) (pp_offset_driven_rebuffers self),
       pd_buffered_span_ms = buffered_span_ms (ps_jitter_buffer (pp_scheduler self)),
       pd_ring_queued_frames = queued_frames self, pd_ring_peak_queued_frames = pp_peak_queued_frames self,
       pd_pending_frames = pending_frames self, pd_prefill_frames = pp_prefill_frames self,
       pd_ring_underruns = rt_underrun_callbacks ring, pd_ring_silence_filled_frames = rt_silence_filled_frames ring,
       pd_ring_full_events = rt_ring_full_events ring\<rparr>)"

end
