(* ===== verification/Pump_Properties.thy ===== *)
theory Pump_Properties
  imports Playback_Pump Scheduler_Example
begin

section \<open>What a listener hears\<close>

text \<open>
  Runs of the pump, with the reads of the audio callback in between: the samples heard are, in order,
  those of the frames the scheduler released, behind the alignment silence.
\<close>

subsection \<open>Runs\<close>

datatype pump_call =
    PumpTickAt u64
  | PumpSync f64
  | PumpPacket audio_datagram
  | PumpVolume f32
  | PumpFinish
  | CallbackRead "f32 list"

text \<open>
  What a call contributes: silence frames in front of a frame, a released frame with its volume, the
  number of converted samples given up after an underrun, and what a read of the callback
  received from the ring (without the silence that fills it up).
\<close>

datatype pump_event =
    Silence usize
  | Sound f32 scheduled_frame
  | Discard usize
  | Heard "f32 list"

definition release_events :: "playback_pump \<Rightarrow> scheduled_frame \<Rightarrow> u64 \<Rightarrow> pump_event list" where
  "release_events self frame now =
     (if pp_awaiting_prefill self then [Silence (alignment_frames self frame now)] else []) @
     [Sound (ppc_volume (pp_config self)) frame]"

definition poll_events :: "playback_pump \<Rightarrow> u64 \<Rightarrow> pump_event list" where
  "poll_events self now =
     (let (p, scheduler) = poll_with_release_horizon (pp_scheduler self) now
            (saturating_add now (ppc_write_lead_ms (pp_config self))) in
      case p of Frame frame _ \<Rightarrow> release_events (self\<lparr>pp_scheduler := scheduler\<rparr>) frame now | _ \<Rightarrow> [])"

definition tick_events :: "playback_pump \<Rightarrow> u64 \<Rightarrow> pump_event list" where
  "tick_events self now =
     (if \<not> pp_sync_locked self then []
      else
        (if underrun_observed self then [Discard (length (pp_pending self))] else []) @
        (let self = realign_after_output_underrun self now in
         if pp_pending self \<noteq> [] \<or> queued_frames self \<ge> ppc_target_depth_frames (pp_config self) then []
         else poll_events self now))"

primrec perform_pump_call :: "playback_pump \<Rightarrow> pump_call \<Rightarrow> pump_event list \<times> playback_pump" where
  "perform_pump_call self (PumpTickAt now) = (tick_events self now, snd (tick self now))"
| "perform_pump_call self (PumpSync offset) = ([], snd (apply_sync_offset self offset))"
| "perform_pump_call self (PumpPacket datagram) = ([], snd (pump_submit_packet self datagram))"
| "perform_pump_call self (PumpVolume volume) =
     ([], case set_volume self volume of Inr self' \<Rightarrow> self' | Inl _ \<Rightarrow> self)"
| "perform_pump_call self PumpFinish =
     (map (Sound (ppc_volume (pp_config self))) (fst (drain_remaining (pp_scheduler self))), snd (finish self))"
| "perform_pump_call self (CallbackRead buffer) =
     (let (outcome, buffer', ring) = read_frames (pp_ring self) buffer in
      ([Heard (take (RENDER_CHANNELS * ro_frames_supplied outcome) buffer')], self\<lparr>pp_ring := ring\<rparr>))"

abbreviation pump_run :: "playback_pump \<Rightarrow> pump_call list \<Rightarrow> pump_event list \<Rightarrow> playback_pump \<Rightarrow> bool" where
  "pump_run \<equiv> call_run (\<lambda>_ _. True) perform_pump_call"

text \<open>The stream of samples that the events describe, what was heard of it, and its frames.\<close>

fun extend_stream :: "f32 list \<Rightarrow> pump_event \<Rightarrow> f32 list" where
  "extend_stream stream (Silence n) = stream @ replicate (n * RENDER_CHANNELS) f32_zero"
| "extend_stream stream (Sound volume frame) = stream @ map (convert_sample volume) (sf_samples frame)"
| "extend_stream stream (Discard n) = take (length stream - n) stream"
| "extend_stream stream (Heard samples) = stream"

definition stream_of :: "pump_event list \<Rightarrow> f32 list" where
  "stream_of events = foldl extend_stream [] events"

fun heard_in :: "pump_event \<Rightarrow> f32 list" where
  "heard_in (Heard samples) = samples"
| "heard_in _ = []"

definition heard :: "pump_event list \<Rightarrow> f32 list" where
  "heard events = concat (map heard_in events)"

fun frame_in :: "pump_event \<Rightarrow> scheduled_frame list" where
  "frame_in (Sound volume frame) = [frame]"
| "frame_in _ = []"

definition released_frames :: "pump_event list \<Rightarrow> scheduled_frame list" where
  "released_frames events = concat (map frame_in events)"

lemma event_simps [simp]:
  "heard [] = []" "heard (xs @ ys) = heard xs @ heard ys" "heard (x # xs) = heard_in x @ heard xs"
  "released_frames [] = []" "released_frames (xs @ ys) = released_frames xs @ released_frames ys"
  "released_frames (x # xs) = frame_in x @ released_frames xs"
  "released_frames (map (Sound v) frames) = frames" "heard (map (Sound v) frames) = []"
  by (simp_all add: heard_def released_frames_def concat_map_singleton [where f = "\<lambda>x. x", simplified] comp_def)

subsection \<open>Samples on the way\<close>

definition on_the_way :: "playback_pump \<Rightarrow> f32 list" where
  "on_the_way self = ring_contents (pp_ring self) @ pp_pending self"

lemma flush_pending_spec:
  assumes "flush_pending self = (n, self')" and "ring_inv (pp_ring self)"
  shows "on_the_way self' = on_the_way self" "ring_inv (pp_ring self')" "pp_scheduler self' = pp_scheduler self"
    "pp_config self' = pp_config self" "pp_sync_locked self' = pp_sync_locked self" "pp_offset_ms self' = pp_offset_ms self"
proof -
  obtain k ring where push: "push_frames (pp_ring self) (pp_pending self) = (k, ring)"
    by fastforce
  note refines = push_frames_refines [OF assms(2) push]
  have "k * RENDER_CHANNELS \<le> length (pp_pending self)"
    using refines(1) by (simp add: RENDER_CHANNELS_def)
  then show "on_the_way self' = on_the_way self"
    using assms(1) push refines(3) by (auto simp: flush_pending_def on_the_way_def Let_def mult.commute split: if_splits)
  show "ring_inv (pp_ring self')" "pp_scheduler self' = pp_scheduler self" "pp_config self' = pp_config self"
    "pp_sync_locked self' = pp_sync_locked self" "pp_offset_ms self' = pp_offset_ms self"
    using assms push refines(2) by (auto simp: flush_pending_def Let_def split: if_splits)
qed

lemma enqueue_frame_spec:
  assumes "enqueue_frame self frame = (n, self')" and "ring_inv (pp_ring self)"
  shows "on_the_way self' = extend_stream (on_the_way self) (Sound (ppc_volume (pp_config self)) frame)"
    "ring_inv (pp_ring self')" "pp_scheduler self' = pp_scheduler self"
    "pp_config self' = pp_config self" "pp_sync_locked self' = pp_sync_locked self" "pp_offset_ms self' = pp_offset_ms self"
  using flush_pending_spec [OF assms(1) [unfolded enqueue_frame_def]] assms(2) by (simp_all add: on_the_way_def)

lemma enqueue_frames_spec:
  assumes "enqueue_frames self frames = (n, self')" and "ring_inv (pp_ring self)"
  shows "H @ on_the_way self' = foldl extend_stream (H @ on_the_way self) (map (Sound (ppc_volume (pp_config self))) frames) \<and>
    ring_inv (pp_ring self') \<and> pp_scheduler self' = pp_scheduler self \<and> pp_config self' = pp_config self \<and>
    pp_sync_locked self' = pp_sync_locked self \<and> pp_offset_ms self' = pp_offset_ms self"
  using assms
proof (induction frames arbitrary: self n)
  case (Cons frame frames)
  obtain k self1 where first: "enqueue_frame self frame = (k, self1)"
    by fastforce
  obtain m where rest: "enqueue_frames self1 frames = (m, self')"
    using Cons.prems(1) first by (auto split: prod.splits)
  note spec = enqueue_frame_spec [OF first Cons.prems(2)]
  from Cons.IH [OF rest spec(2)] show ?case
    using spec by simp
qed simp

text \<open>A call extends the samples heard so far, \<open>H\<close>, and those on the way by its events.\<close>

abbreviation extends :: "f32 list \<Rightarrow> playback_pump \<Rightarrow> pump_event list \<Rightarrow> playback_pump \<Rightarrow> bool" where
  "extends H self events self' \<equiv>
     H @ on_the_way self' = foldl extend_stream (H @ on_the_way self) events \<and> ring_inv (pp_ring self')"

lemma release_frame_spec:
  assumes "release_frame self frame now = (t, self')" and "ring_inv (pp_ring self)"
  shows "extends H self (release_events self frame now) self'" and "pp_scheduler self' = pp_scheduler self"
    and "pp_sync_locked self' = pp_sync_locked self" "pp_offset_ms self' = pp_offset_ms self"
proof -
  let ?self = "queue_alignment_prefill self frame now"
  obtain n self1 where enqueue: "enqueue_frame ?self frame = (n, self1)"
    by fastforce
  have ring: "ring_inv (pp_ring ?self)"
    using assms(2) by (simp add: queue_alignment_prefill_def Let_def)
  note spec = enqueue_frame_spec [OF enqueue ring]
  have self': "self' = self1\<lparr>pp_timeline_started := True\<rparr>"
    using assms(1) enqueue by (simp add: release_frame_def Let_def)
  then show "extends H self (release_events self frame now) self'" "pp_scheduler self' = pp_scheduler self"
    "pp_sync_locked self' = pp_sync_locked self" "pp_offset_ms self' = pp_offset_ms self"
    using spec by (auto simp: release_events_def queue_alignment_prefill_def on_the_way_def Let_def split: if_splits)
qed

lemma tick_poll_spec:
  assumes "tick_poll self now = (t, self')" and "ring_inv (pp_ring self)"
  shows "extends H self (poll_events self now) self'"
proof -
  obtain p scheduler where poll: "poll_with_release_horizon (pp_scheduler self) now
      (saturating_add now (ppc_write_lead_ms (pp_config self))) = (p, scheduler)"
    by fastforce
  show ?thesis
  proof (cases p)
    case (Frame frame health)
    then have "release_frame (self\<lparr>pp_scheduler := scheduler\<rparr>) frame now = (t, self')"
      using assms(1) poll by (simp add: tick_poll_def)
    from release_frame_spec(1) [OF this] show ?thesis
      using assms(2) Frame poll by (simp add: poll_events_def on_the_way_def)
  qed (use assms poll in \<open>auto simp: tick_poll_def poll_events_def on_the_way_def\<close>)
qed

lemma realign_spec:
  shows "pp_ring (realign_after_output_underrun self now) = pp_ring self"
    and "pp_pending (realign_after_output_underrun self now) = (if underrun_observed self then [] else pp_pending self)"
    and "pp_config (realign_after_output_underrun self now) = pp_config self"
  by (auto simp: realign_after_output_underrun_def underrun_observed_def Let_def not_le)

lemma tick_spec:
  assumes "ring_inv (pp_ring self)"
  shows "extends H self (tick_events self now) (snd (tick self now))"
proof (cases "pp_sync_locked self")
  case True
  let ?self = "realign_after_output_underrun self now"
  have on_the_way: "H @ on_the_way ?self = foldl extend_stream (H @ on_the_way self)
      (if underrun_observed self then [Discard (length (pp_pending self))] else [])"
    by (simp add: on_the_way_def realign_spec)
  have ring: "ring_inv (pp_ring ?self)"
    using assms by (simp add: realign_spec)
  show ?thesis
  proof (cases "pp_pending ?self = []")
    case False
    then have flush: "snd (tick self now) = snd (flush_pending ?self)"
      using True by (auto simp: tick_def tick_flush_def Let_def split: prod.splits)
    obtain n self1 where self1: "flush_pending ?self = (n, self1)"
      by fastforce
    show ?thesis
      using flush_pending_spec(1,2) [OF self1 ring] flush self1 on_the_way True False by (simp add: tick_events_def)
  next
    case empty: True
    let ?peak = "?self\<lparr>pp_peak_queued_frames := max (pp_peak_queued_frames ?self) (queued_frames ?self)\<rparr>"
    have peak: "on_the_way ?peak = on_the_way ?self" "poll_events ?peak now = poll_events ?self now"
      by (simp_all add: on_the_way_def poll_events_def release_events_def alignment_frames_def Let_def split: prod.splits scheduler_poll.splits)
    show ?thesis
    proof (cases "queued_frames ?self \<ge> ppc_target_depth_frames (pp_config ?self)")
      case deep: True
      then have "snd (tick self now) = ?peak"
        using True empty by (simp add: tick_def Let_def)
      then show ?thesis
        using on_the_way peak ring True deep by (simp add: tick_events_def)
    next
      case False
      obtain t self' where poll: "tick_poll ?peak now = (t, self')"
        by fastforce
      then have "snd (tick self now) = self'"
        using True empty False by (simp add: tick_def Let_def)
      then show ?thesis
        using tick_poll_spec [OF poll] on_the_way peak ring True empty False by (simp add: tick_events_def)
    qed
  qed
qed (use assms in \<open>simp add: tick_def tick_events_def\<close>)

lemma pump_call_extends:
  assumes "perform_pump_call self c = (es, self')" and "ring_inv (pp_ring self)"
  shows "H @ heard es @ on_the_way self' = foldl extend_stream (H @ on_the_way self) es \<and> ring_inv (pp_ring self')"
proof (cases c)
  case (PumpTickAt now)
  then have "self' = snd (tick self now)" "es = tick_events self now"
    using assms(1) by auto
  moreover have "heard (tick_events self now) = []"
    by (simp add: tick_events_def poll_events_def release_events_def Let_def split: prod.splits scheduler_poll.splits)
  ultimately show ?thesis
    using tick_spec [OF assms(2), of H now] by simp
next
  case PumpFinish
  let ?self = "self\<lparr>pp_scheduler := snd (drain_remaining (pp_scheduler self))\<rparr>"
  obtain n self1 where enqueue: "enqueue_frames ?self (fst (drain_remaining (pp_scheduler self))) = (n, self1)"
    by fastforce
  have self': "self' = self1\<lparr>pp_scheduler := scheduler_stop (pp_scheduler self1)\<rparr>"
    and es: "es = map (Sound (ppc_volume (pp_config self))) (fst (drain_remaining (pp_scheduler self)))"
    using assms(1) enqueue PumpFinish by (auto simp: finish_def Let_def split: prod.splits)
  show ?thesis
    using enqueue_frames_spec [OF enqueue, of H] assms(2) unfolding self' es by (simp add: on_the_way_def)
next
  case (CallbackRead buffer)
  obtain outcome buffer' ring where read: "read_frames (pp_ring self) buffer = (outcome, buffer', ring)"
    by (metis prod_cases3)
  note refines = read_frames_refines(2,3) [OF assms(2) read]
  have "es = [Heard (take (RENDER_CHANNELS * ro_frames_supplied outcome) buffer')]" "self' = self\<lparr>pp_ring := ring\<rparr>"
    using assms(1) read CallbackRead by auto
  then show ?thesis
    using refines by (simp add: on_the_way_def)
qed (use assms in \<open>auto simp: on_the_way_def apply_sync_offset_def pump_submit_packet_def set_volume_def Let_def
    split: if_splits prod.splits offset_update_outcome.splits sum.splits\<close>)

lemma pump_run_extends:
  assumes "pump_run self0 calls out self" and "ring_inv (pp_ring self0)"
  shows "heard out @ on_the_way self = foldl extend_stream (on_the_way self0) out" and "ring_inv (pp_ring self)"
proof -
  have "heard out @ on_the_way self = foldl extend_stream (on_the_way self0) out \<and> ring_inv (pp_ring self)"
    using assms
  proof (induction rule: call_run.induct)
    case (run_call cs out s c es s')
    then show ?case
      using pump_call_extends [OF run_call.hyps(3), of "heard out"] by simp
  qed simp
  then show "heard out @ on_the_way self = foldl extend_stream (on_the_way self0) out" and "ring_inv (pp_ring self)"
    by simp_all
qed

subsection \<open>The scheduler's side\<close>

text \<open>A call of the pump is at most three calls of its scheduler.\<close>

abbreviation drives :: "playback_pump \<Rightarrow> pump_call \<Rightarrow> scheduled_frame list \<Rightarrow> playback_pump \<Rightarrow> bool" where
  "drives self c frames self' \<equiv>
     \<exists>calls. sched_run (pp_scheduler self) calls frames (pp_scheduler self') \<and> length calls \<le> 3 \<and>
       (\<forall>d. SubmitPacket d \<in> set calls \<longrightarrow> c = PumpPacket d)"

lemma sched_run_one: "sched_perform s c = (frames, s') \<Longrightarrow> sched_run s [c] frames s'"
  by (rule call_run_single) simp_all

lemma flush_pending_scheduler: "pp_scheduler (snd (flush_pending self)) = pp_scheduler self"
  by (simp add: flush_pending_def Let_def split: prod.splits)

lemma enqueue_frame_scheduler: "pp_scheduler (snd (enqueue_frame self frame)) = pp_scheduler self"
  by (simp add: enqueue_frame_def flush_pending_scheduler)

lemma enqueue_frames_scheduler: "pp_scheduler (snd (enqueue_frames self frames)) = pp_scheduler self"
  by (induction frames arbitrary: self) (simp_all add: enqueue_frame_scheduler [symmetric] split: prod.splits, metis enqueue_frame_scheduler snd_conv)

lemma release_frame_scheduler: "pp_scheduler (snd (release_frame self frame now)) = pp_scheduler self"
  using enqueue_frame_scheduler [of "queue_alignment_prefill self frame now" frame]
  by (auto simp: release_frame_def queue_alignment_prefill_def Let_def split: prod.splits if_splits)

lemma tick_poll_scheduler:
  assumes "poll_with_release_horizon (pp_scheduler self) now
      (saturating_add now (ppc_write_lead_ms (pp_config self))) = (p, scheduler)"
  shows "pp_scheduler (snd (tick_poll self now)) =
      (if p = AwaitingRebuffer then rebuffer scheduler (pp_offset_ms self) else scheduler)"
    and "released_frames (poll_events self now) = frames_of_poll p"
  using assms by (cases p; simp add: tick_poll_def poll_events_def release_events_def release_frame_scheduler)+

lemma tick_poll_drives:
  "\<exists>calls. sched_run (pp_scheduler self) calls (released_frames (poll_events self now)) (pp_scheduler (snd (tick_poll self now))) \<and>
     length calls \<le> 2 \<and> (\<forall>d. SubmitPacket d \<notin> set calls)"
proof -
  let ?horizon = "saturating_add now (ppc_write_lead_ms (pp_config self))"
  obtain p scheduler where poll: "poll_with_release_horizon (pp_scheduler self) now ?horizon = (p, scheduler)"
    by fastforce
  note after = tick_poll_scheduler [OF poll]
  have first: "sched_run (pp_scheduler self) [PollAt now ?horizon] (frames_of_poll p) scheduler"
    using poll by (intro sched_run_one) simp
  have second: "sched_run scheduler [Rebuffer (pp_offset_ms self)] [] (rebuffer scheduler (pp_offset_ms self))"
    by (intro sched_run_one) simp
  show ?thesis
  proof (cases "p = AwaitingRebuffer")
    case True
    then show ?thesis
      using call_run_trans [OF first second] after by (intro exI [of _ "[PollAt now ?horizon, Rebuffer (pp_offset_ms self)]"]) simp
  next
    case False
    then show ?thesis
      using first after by (intro exI [of _ "[PollAt now ?horizon]"]) simp
  qed
qed

lemma tick_drives: "drives self (PumpTickAt now) (released_frames (tick_events self now)) (snd (tick self now))"
proof (cases "pp_sync_locked self")
  case True
  let ?self = "realign_after_output_underrun self now"
  have "\<exists>calls. sched_run (pp_scheduler self) calls [] (pp_scheduler ?self) \<and> length calls \<le> 1 \<and> (\<forall>d. SubmitPacket d \<notin> set calls)"
  proof (cases "underrun_observed self")
    case True
    then show ?thesis
      by (intro exI [of _ "[RealignToNow now]"] conjI sched_run_one)
        (auto simp: realign_after_output_underrun_def underrun_observed_def Let_def)
  next
    case False
    then have "pp_scheduler ?self = pp_scheduler self"
      by (auto simp: realign_after_output_underrun_def underrun_observed_def Let_def)
    then show ?thesis
      using run_start by (intro exI [of _ "[]"]) simp
  qed
  then obtain calls where calls: "sched_run (pp_scheduler self) calls [] (pp_scheduler ?self)" "length calls \<le> 1"
    "\<forall>d. SubmitPacket d \<notin> set calls"
    by blast
  let ?peak = "?self\<lparr>pp_peak_queued_frames := max (pp_peak_queued_frames ?self) (queued_frames ?self)\<rparr>"
  have events: "poll_events ?peak now = poll_events ?self now"
    by (simp add: poll_events_def release_events_def alignment_frames_def Let_def split: prod.splits scheduler_poll.splits)
  show ?thesis
  proof (cases "pp_pending ?self \<noteq> [] \<or> queued_frames ?self \<ge> ppc_target_depth_frames (pp_config ?self)")
    case stays: True
    then have "pp_scheduler (snd (tick self now)) = pp_scheduler ?self" "released_frames (tick_events self now) = []"
      using True flush_pending_scheduler [of ?self]
      by (auto simp: tick_def tick_flush_def tick_events_def Let_def split: prod.splits)
    then show ?thesis
      using calls by (intro exI [of _ calls]) auto
  next
    case polls: False
    obtain calls' where calls': "sched_run (pp_scheduler ?peak) calls' (released_frames (poll_events ?peak now))
        (pp_scheduler (snd (tick_poll ?peak now)))" "length calls' \<le> 2" "\<forall>d. SubmitPacket d \<notin> set calls'"
      using tick_poll_drives by blast
    have "snd (tick self now) = snd (tick_poll ?peak now)"
      "released_frames (tick_events self now) = released_frames (poll_events ?peak now)"
      using True polls events by (simp_all add: tick_def tick_events_def Let_def)
    then show ?thesis
      using call_run_trans [OF calls(1)] calls calls' by (intro exI [of _ "calls @ calls'"]) auto
  qed
next
  case False
  then show ?thesis
    using run_start by (intro exI [of _ "[]"]) (simp add: tick_def tick_events_def)
qed

lemma drives_still: "pp_scheduler self' = pp_scheduler self \<Longrightarrow> frames = [] \<Longrightarrow> drives self c frames self'"
  using run_start by (intro exI [of _ "[]"]) simp

lemma drives_one:
  assumes "sched_perform (pp_scheduler self) call = (frames, pp_scheduler self')"
    and "\<forall>d. call = SubmitPacket d \<longrightarrow> c = PumpPacket d"
  shows "drives self c frames self'"
  using sched_run_one [OF assms(1)] assms(2) by (intro exI [of _ "[call]"]) auto

lemma sync_drives: "drives self (PumpSync offset) [] (snd (apply_sync_offset self offset))"
proof -
  define delta where "delta = f64_sub offset (pp_offset_ms self)"
  let ?hard = "f64_less (sc_hard_resync_threshold_ms (ps_config (pp_scheduler self))) (f64_abs delta)"
  consider "\<not> is_finite offset" | "is_finite offset" "\<not> pp_sync_locked self"
    | "is_finite offset" "pp_sync_locked self" "\<not> ?hard"
    | "is_finite offset" "pp_sync_locked self" ?hard
    by blast
  then show ?thesis
  proof cases
    case 1
    then show ?thesis
      by (intro drives_still) (simp_all add: apply_sync_offset_def)
  next
    case 2
    then show ?thesis
      by (intro drives_one [of _ "Rebuffer offset"]) (simp_all add: apply_sync_offset_def)
  next
    case 3
    then show ?thesis
      by (intro drives_one [of _ "OffsetUpdate (f64_add (pp_offset_ms self) (clamp_step delta))"])
        (simp_all add: apply_sync_offset_def Let_def delta_def)
  next
    case 4
    obtain outcome scheduler where update: "apply_offset_update (pp_scheduler self) offset = (outcome, scheduler)"
      by fastforce
    have first: "sched_run (pp_scheduler self) [OffsetUpdate offset] [] scheduler"
      using update by (intro sched_run_one) simp
    have again: "sched_run scheduler [Rebuffer offset] [] (rebuffer scheduler offset)"
      by (intro sched_run_one) simp
    have "pp_scheduler (snd (apply_sync_offset self offset)) =
        (if outcome = SoftCorrected then scheduler else rebuffer scheduler offset)"
      using 4 update by (cases outcome) (simp_all add: apply_sync_offset_def Let_def delta_def)
    then show ?thesis
      using first call_run_trans [OF first again]
      by (intro exI [of _ "if outcome = SoftCorrected then [OffsetUpdate offset] else [OffsetUpdate offset, Rebuffer offset]"]) auto
  qed
qed

lemma pump_call_drives:
  assumes "perform_pump_call self c = (es, self')"
  shows "drives self c (released_frames es) self'"
proof (cases c)
  case (PumpTickAt now)
  then show ?thesis
    using assms tick_drives by auto
next
  case (PumpSync offset)
  then show ?thesis
    using assms sync_drives by auto
next
  case (PumpPacket d)
  show ?thesis
  proof (cases "pp_sync_locked self")
    case True
    then show ?thesis
      using assms PumpPacket by (intro drives_one [of _ "SubmitPacket d"]) (auto simp: pump_submit_packet_def split: prod.splits)
  next
    case False
    then show ?thesis
      using assms PumpPacket by (intro drives_still) (auto simp: pump_submit_packet_def)
  qed
next
  case PumpFinish
  obtain frames scheduler where drain: "drain_remaining (pp_scheduler self) = (frames, scheduler)"
    by fastforce
  have "sched_run (pp_scheduler self) [DrainRemaining] frames scheduler"
    "sched_run scheduler [StopScheduler] [] (scheduler_stop scheduler)"
    using drain by (auto intro: sched_run_one)
  from call_run_trans [OF this]
  have "sched_run (pp_scheduler self) [DrainRemaining, StopScheduler] frames (scheduler_stop scheduler)"
    by simp
  moreover have "released_frames es = frames" "pp_scheduler self' = scheduler_stop scheduler"
    using assms PumpFinish drain enqueue_frames_scheduler [of "self\<lparr>pp_scheduler := scheduler\<rparr>" frames]
    by (auto simp: finish_def Let_def split: prod.splits)
  ultimately show ?thesis
    by (intro exI [of _ "[DrainRemaining, StopScheduler]"]) simp
next
  case (PumpVolume volume)
  then show ?thesis
    using assms by (intro drives_still) (auto simp: set_volume_def)
next
  case (CallbackRead buffer)
  then show ?thesis
    using assms by (intro drives_still) (auto split: prod.splits)
qed

lemma pump_run_drives:
  assumes "pump_run self0 calls out self"
  shows "\<exists>scalls. sched_run (pp_scheduler self0) scalls (released_frames out) (pp_scheduler self) \<and>
    length scalls \<le> 3 * length calls \<and> (\<forall>d. SubmitPacket d \<in> set scalls \<longrightarrow> PumpPacket d \<in> set calls)"
  using assms
proof (induction rule: call_run.induct)
  case (run_call cs out s c es s')
  obtain scalls where scalls: "sched_run (pp_scheduler self0) scalls (released_frames out) (pp_scheduler s)"
    "length scalls \<le> 3 * length cs" "\<forall>d. SubmitPacket d \<in> set scalls \<longrightarrow> PumpPacket d \<in> set cs"
    using run_call.IH by blast
  obtain more where more: "sched_run (pp_scheduler s) more (released_frames es) (pp_scheduler s')" "length more \<le> 3"
    "\<forall>d. SubmitPacket d \<in> set more \<longrightarrow> c = PumpPacket d"
    using pump_call_drives [OF run_call.hyps(3)] by blast
  show ?case
    using call_run_trans [OF scalls(1) more(1)] scalls(2,3) more(2,3) by (intro exI [of _ "scalls @ more"]) auto
next
  case run_start
  then show ?case
    by (intro exI [of _ "[]"]) (simp add: call_run.run_start)
qed

subsection \<open>Before the clocks are known\<close>

definition unlocked :: "playback_pump \<Rightarrow> bool" where
  "unlocked self \<longleftrightarrow> \<not> pp_sync_locked self \<and> pp_pending self = [] \<and> ring_contents (pp_ring self) = [] \<and>
     ring_inv (pp_ring self) \<and> jb_packets (ps_jitter_buffer (pp_scheduler self)) = []"

lemma drain_remaining_empty:
  assumes "jb_packets (ps_jitter_buffer self) = []"
  shows "fst (drain_remaining self) = []" "jb_packets (ps_jitter_buffer (snd (drain_remaining self))) = []"
  using assms by (simp_all add: drain_remaining_def drain_all_def fade_last_def bt_values_def bt_empty_def jb_count_def Let_def split: prod.splits)

lemma pump_call_unlocked:
  assumes "perform_pump_call self c = (es, self')" and "unlocked self" and "\<forall>offset. c = PumpSync offset \<longrightarrow> \<not> is_finite offset"
  shows "unlocked self'" "released_frames es = []" "heard es = []" "foldl extend_stream [] es = []"
proof -
  have "unlocked self' \<and> released_frames es = [] \<and> heard es = [] \<and> foldl extend_stream [] es = []"
  proof (cases c)
    case (CallbackRead buffer)
    obtain outcome buffer' ring where read: "read_frames (pp_ring self) buffer = (outcome, buffer', ring)"
      by (metis prod_cases3)
    then show ?thesis
      using assms(1,2) CallbackRead read_frames_refines(2,3) [OF _ read] by (auto simp: unlocked_def)
  qed (use assms drain_remaining_empty [of "pp_scheduler self"] in
      \<open>auto simp: unlocked_def tick_def tick_events_def apply_sync_offset_def pump_submit_packet_def set_volume_def finish_def
        scheduler_stop_def split: prod.splits sum.splits if_splits\<close>)
  then show "unlocked self'" "released_frames es = []" "heard es = []" "foldl extend_stream [] es = []"
    by simp_all
qed

lemma pump_run_unlocked:
  assumes "pump_run self0 calls out self" and "unlocked self0"
    and "\<forall>offset. PumpSync offset \<in> set calls \<longrightarrow> \<not> is_finite offset"
  shows "unlocked self \<and> released_frames out = [] \<and> heard out = [] \<and> stream_of out = []"
  using assms
proof (induction rule: call_run.induct)
  case (run_call cs out s c es s')
  then have IH: "unlocked s" "released_frames out = []" "heard out = []" "stream_of out = []"
    by auto
  then show ?case
    using pump_call_unlocked [OF run_call.hyps(3) IH(1)] run_call.prems by (auto simp: stream_of_def)
qed (simp add: stream_of_def)

lemma playback_pump_new_starts:
  assumes "playback_pump_new scheduler ring config = Inr self"
  shows "pp_scheduler self = scheduler" "pp_ring self = ring" "pp_pending self = []" "\<not> pp_sync_locked self"
  using assms by (auto simp: playback_pump_new_def split: if_splits)

subsection \<open>A concrete run\<close>

text \<open>
  The small stream of the scheduler's example, in stereo, on a ring of eight frames: two packets are
  released, the first one faded in, and the callback reads the two stereo frames of the first.
\<close>

definition example_pump_sched_config :: scheduler_config where
  "example_pump_sched_config = example_sched_config\<lparr>sc_channels := 2\<rparr>"

definition example_pump_sched :: playback_scheduler where
  "example_pump_sched = example_scheduler\<lparr>ps_config := example_pump_sched_config\<rparr>"

definition example_pump_ring :: ring_inner where
  "example_pump_ring = \<lparr>ri_capacity_frames = 8, ri_slots = replicate 16 0, ri_write_index = 0, ri_read_index = 0,
     ri_telemetry = render_ring_telemetry_default\<rparr>"

definition example_pump_config :: playback_pump_config where
  "example_pump_config = playback_pump_config_default\<lparr>ppc_write_lead_ms := 10, ppc_target_depth_frames := 8\<rparr>"

definition example_pump :: playback_pump where
  "example_pump =
     \<lparr>pp_scheduler = example_pump_sched, pp_ring = example_pump_ring, pp_config = example_pump_config, pp_pending = [],
      pp_awaiting_prefill = True, pp_prefill_frames = 0, pp_sync_locked = False, pp_offset_ms = F64 0,
      pp_peak_queued_frames = 0, pp_dropped_before_sync = 0, pp_last_observed_underrun_callbacks = 0,
      pp_timeline_started = False, pp_offset_driven_rebuffers = 0\<rparr>"

definition example_pump_packet :: "u64 \<Rightarrow> i16 list \<Rightarrow> audio_datagram" where
  "example_pump_packet sequence samples = (example_datagram sequence samples)\<lparr>ad_channels := 2\<rparr>"

definition example_unsynced_calls :: "pump_call list" where
  "example_unsynced_calls =
     [PumpSync (F64 0x7FF0000000000000), PumpPacket (example_pump_packet 0 [100, 200, 300, 400]), PumpTickAt 0,
      CallbackRead [7, 7]]"

definition example_pump_calls :: "pump_call list" where
  "example_pump_calls =
     [PumpSync (F64 0), PumpPacket (example_pump_packet 0 [8192, 8192, 16384, 0]),
      PumpPacket (example_pump_packet 1 [- 16384, 0, 0, 0]), PumpTickAt 0, CallbackRead [7, 7], PumpTickAt 20, CallbackRead [7, 7]]"

definition pump_exec :: "pump_call list \<Rightarrow> (pump_event list \<times> playback_pump) option" where
  "pump_exec calls = call_exec (\<lambda>_ _. True) perform_pump_call example_pump calls"

fun pump_view :: "pump_event list \<times> playback_pump \<Rightarrow>
    f32 list \<times> (u64 \<times> i16 list \<times> bool) list \<times> f32 list \<times> f32 list" where
  "pump_view (out, self) =
     (heard out, map frame_view (released_frames out), ring_contents (pp_ring self), pp_pending self)"

lemma example_pump_new:
  "playback_scheduler_new example_pump_sched_config (F64 0) = Inr example_pump_sched"
  "playback_pump_new example_pump_sched example_pump_ring example_pump_config = Inr example_pump"
proof -
  show "playback_scheduler_new example_pump_sched_config (F64 0) = Inr example_pump_sched"
    by code_simp
  have "volume_valid f32_one"
    by code_simp
  then show "playback_pump_new example_pump_sched example_pump_ring example_pump_config = Inr example_pump"
    by (simp add: playback_pump_new_def example_pump_def example_pump_config_def playback_pump_config_default_def
        example_pump_sched_def example_pump_sched_config_def example_pump_ring_def render_ring_telemetry_default_def
        RENDER_CHANNELS_def f64_of_rat_def)
qed

lemma example_pump_ring_empty: "ring_inv example_pump_ring" "ring_contents example_pump_ring = []"
  by (simp_all add: example_pump_ring_def ring_inv_def ring_contents_def RENDER_CHANNELS_def)

lemma example_pump_view:
  "map_option pump_view (pump_exec example_pump_calls) =
     Some ([0, 0, 1056964608, 0],
           [(0, [0, 0, 16384, 0], False), (1, [- 16384, 0, 0, 0], False)], [3204448256, 0, 0, 0], [])"
  by code_simp

lemma example_pump_run:
  "\<exists>out self. pump_run example_pump example_pump_calls out self \<and>
     heard out = [0, 0, 1056964608, 0] \<and>
     map frame_view (released_frames out) = [(0, [0, 0, 16384, 0], False), (1, [- 16384, 0, 0, 0], False)] \<and>
     ring_contents (pp_ring self) = [3204448256, 0, 0, 0] \<and> pp_pending self = []"
proof -
  obtain out self where exec: "pump_exec example_pump_calls = Some (out, self)"
    using example_pump_view by (cases "pump_exec example_pump_calls") auto
  then have "pump_run example_pump example_pump_calls out self"
    unfolding pump_exec_def by (rule call_exec_run)
  then show ?thesis
    using example_pump_view [unfolded exec] by (intro exI [of _ out] exI [of _ self]) simp
qed

lemma example_unsynced_view:
  "map_option pump_view (pump_exec example_unsynced_calls) = Some ([], [], [], [])"
  by code_simp

subsection \<open>Properties\<close>



text \<open>
  C11: the frames a pump releases are in order and genuine. Scheduler and pump together: over any
  run the released frames have strictly increasing sequence numbers from the first expected one
  on, and every frame that is not concealed carries the numbers and the sample count of a packet
  of this session and stream that was handed to the pump.
\<close>

theorem pump_frames_in_order:
  assumes "playback_scheduler_new sconfig offset = Inr scheduler" and "playback_pump_new scheduler ring config = Inr self0"
    and "pump_run self0 calls out self"
    and "unat (sc_first_sequence sconfig) \<le> B"
    and "\<forall>d. PumpPacket d \<in> set calls \<longrightarrow> unat (ad_sequence d) < B"
    and "B + 3 * length calls < 2 ^ 64"
  shows "sorted_wrt (<) (map sf_sequence (released_frames out)) \<and>
    (\<forall>f \<in> set (released_frames out). sc_first_sequence sconfig \<le> sf_sequence f \<and>
       (\<not> sf_concealed f \<longrightarrow> (\<exists>d. PumpPacket d \<in> set calls \<and> frame_of_packet f d \<and>
          ad_session_id d = sc_session_id sconfig \<and> ad_stream_id d = sc_stream_id sconfig)))"
proof -
  obtain scalls where scalls: "sched_run scheduler scalls (released_frames out) (pp_scheduler self)"
    "length scalls \<le> 3 * length calls" "\<forall>d. SubmitPacket d \<in> set scalls \<longrightarrow> PumpPacket d \<in> set calls"
    using pump_run_drives [OF assms(3)] playback_pump_new_starts(1) [OF assms(2)] by auto
  from sched_run_in_order [OF assms(1) scalls(1) assms(4)] show ?thesis
    using assms(5,6) scalls(2,3) by (meson add_left_mono order_le_less_trans)
qed

theorem pump_frames_in_order_witness:
  "\<exists>out self. pump_run example_pump example_pump_calls out self \<and> map sf_sequence (released_frames out) = [0, 1] \<and>
     sorted_wrt (<) (map sf_sequence (released_frames out)) \<and>
     (\<exists>d. PumpPacket d \<in> set example_pump_calls \<and> frame_of_packet (hd (released_frames out)) d)"
proof -
  obtain out self where run: "pump_run example_pump example_pump_calls out self"
    and view: "map frame_view (released_frames out) = [(0, [0, 0, 16384, 0], False), (1, [- 16384, 0, 0, 0], False)]"
    using example_pump_run by (elim exE conjE) (rule that)
  then have frames: "map sf_sequence (released_frames out) = [0, 1]" "hd (released_frames out) \<in> set (released_frames out)"
    "\<not> sf_concealed (hd (released_frames out))"
    by (auto simp: frame_view_def map_eq_Cons_conv)
  have "unat (sc_first_sequence example_pump_sched_config) \<le> 4"
    "\<forall>d. PumpPacket d \<in> set example_pump_calls \<longrightarrow> unat (ad_sequence d) < 4" "4 + 3 * length example_pump_calls < 2 ^ 64"
    by (auto simp: example_pump_sched_config_def example_sched_config_def example_pump_calls_def example_pump_packet_def
        example_datagram_def)
  note order = pump_frames_in_order [OF example_pump_new run this]
  then have "\<exists>d. PumpPacket d \<in> set example_pump_calls \<and> frame_of_packet (hd (released_frames out)) d"
    using frames(2,3) by blast
  then show ?thesis
    using run frames(1) order by (intro exI [of _ out] exI [of _ self] conjI) simp_all
qed

text \<open>
  C16: nothing plays against a placeholder clock. As long as no finite clock offset was applied,
  a pump releases nothing, whatever packets arrive, whenever it ticks and even when it is
  finished: no frame, no silence, nothing in the ring and nothing held back; the callback is
  given silence only.
\<close>

theorem pump_silent_before_sync:
  assumes "playback_scheduler_new sconfig offset = Inr scheduler" and "playback_pump_new scheduler ring config = Inr self0"
    and "ring_inv ring" and "ring_contents ring = []" and "pump_run self0 calls out self"
    and "\<forall>offset. PumpSync offset \<in> set calls \<longrightarrow> \<not> is_finite offset"
  shows "released_frames out = [] \<and> heard out = [] \<and> stream_of out = [] \<and> ring_contents (pp_ring self) = [] \<and>
    pp_pending self = [] \<and> \<not> pp_sync_locked self"
proof -
  have "unlocked self0"
    using playback_scheduler_new_ok(4) [OF assms(1)] playback_pump_new_starts [OF assms(2)] assms(3,4) by (simp add: unlocked_def)
  from pump_run_unlocked [OF assms(5) this assms(6)] show ?thesis
    by (simp add: unlocked_def)
qed

theorem pump_silent_before_sync_witness:
  "\<exists>out self. pump_run example_pump example_unsynced_calls out self \<and> released_frames out = [] \<and> stream_of out = []"
proof -
  obtain out self where "pump_exec example_unsynced_calls = Some (out, self)"
    using example_unsynced_view by (cases "pump_exec example_unsynced_calls") auto
  then have run: "pump_run example_pump example_unsynced_calls out self"
    unfolding pump_exec_def by (rule call_exec_run)
  have "\<not> is_finite (F64 0x7FF0000000000000)"
    by code_simp
  then have "\<forall>offset. PumpSync offset \<in> set example_unsynced_calls \<longrightarrow> \<not> is_finite offset"
    by (auto simp: example_unsynced_calls_def)
  from pump_silent_before_sync [OF example_pump_new example_pump_ring_empty run this] show ?thesis
    using run by (intro exI [of _ out] exI [of _ self]) simp
qed

end
