(* ===== verification/Spec2Isabelle.thy ===== *)
theory Spec2Isabelle
  imports Domain_Settings Protocol_Integrity Scheduler_Properties Render_Ring_Threads Host_Queue Secure_Replay Clock_Sync Actor_Properties Pump_Properties
begin

text \<open>
  Silent Disco: a host streams PCM audio over a local network to listeners that play it in
  synchrony. This library models the shared Rust core, the crate \<open>src/rust/silent-disco-core\<close> (all
  paths below are relative to its \<open>src\<close> directory), on which the Android, desktop and foreign
  function layers of the repository are built.

  \<^bold>\<open>The parts of the program and how they meet.\<close> On the host, decoded PCM chunks enter the
  packetizer, which cuts them into datagrams with presentation times; the codec encodes datagrams
  and control messages into frames. On a listener, the decoder checks frames, the replay registry
  refuses repeated datagrams, and the clock estimator measures the offset to the host from
  four-timestamp exchanges. Audio datagrams go into the jitter buffer of the playback scheduler,
  which emits one frame per slot of the host's timeline, real or concealed, joined by PCM ramps;
  the playback pump converts the frames to \<open>f32\<close> samples and writes them into the render ring, from
  which the audio callback reads. On both sides the runtime actor is the one owner of the
  application state: it reduces commands and platform, transport, audio and storage events to
  a snapshot, hands out effects and admits listeners.

  \<^bold>\<open>How Rust is modelled.\<close> \<open>Rust_Prelude\<close>: \<open>uN\<close> is an \<open>N word\<close>, \<open>usize\<close> a \<open>nat\<close> with the 64-bit bound
  written where the code depends on it, \<open>Result\<close> is a sum with \<open>Inl\<close> the error and \<open>try_bind\<close> the
  operator \<open>?\<close>; saturating, checked and wrapping arithmetic as in the standard library. \<open>Rust_Str\<close>:
  \<open>str\<close> as a list of Unicode scalar values with UTF-8, \<open>trim\<close> and the character classes. \<open>Rust_F64\<close> and
  \<open>F64_Order\<close>: \<open>f64\<close> as its bit pattern, every operation the rounding to nearest even of the exact
  rational result, with the monotonicity and exactness lemmas; \<open>Rust_F32\<close> the same for \<open>f32\<close>, with the
  sign of zero. \<open>Rust_Format\<close>: decimal numerals of
  \<open>format!\<close>. \<open>BTree_Map\<close>: ordered maps behind the locale \<open>ordered_map\<close>. \<open>Call_Runs\<close>: \<open>call_run\<close>, the
  reachability relation of a component under sequences of calls, its executable version
  \<open>call_exec\<close>, and the locale \<open>ordered_emitter\<close>, the contract of a component that emits a numbered
  stream in order, which the jitter buffer and the scheduler interpret.

  \<^bold>\<open>Which theory models which part.\<close>

  \<^item> \<open>Domain_Ids\<close>, \<open>Domain_Enums\<close>, \<open>Domain_Settings\<close>: \<open>domain/ids.rs\<close>, \<open>enums.rs\<close>, \<open>settings.rs\<close>. Identifiers
    round-trip through their canonical bytes; the enums interpret the locale \<open>stable_enum\<close> (codes and wire
    names are injective and decode exactly); validated settings are usable.
  \<^item> \<open>Protocol_Types\<close>, \<open>Protocol_Wire\<close>, \<open>Protocol_Codec\<close>, \<open>Protocol_Integrity\<close>: \<open>protocol/types.rs\<close> and
    \<open>protocol/codec\<close>. Readers and writers of single fields interpret the locale \<open>wire_field\<close>; the codec is
    canonical (bytes decode to a frame if and only if the frame encodes to them); the CRC detects every
    burst of at most four payload bytes; the decoder delivers exactly the admitted frames and
    counts every refusal once.
  \<^item> \<open>Jitter_Buffer\<close>, \<open>Pcm_Ramp\<close>, \<open>Concealment\<close>: \<open>audio/jitter_buffer.rs\<close>, \<open>ramp.rs\<close>, \<open>concealment.rs\<close>. Emission
    in order, bounds of what is held, exact accounting; ramps that join without a step; the bound on
    consecutive concealments.
  \<^item> \<open>Audio_Types\<close>, \<open>Packetizer\<close>: \<open>audio/types.rs\<close>, \<open>packetizer.rs\<close>. However a track is chunked, the datagrams
    are those of a reference that cuts the whole track, they carry its PCM, and they encode.
  \<^item> \<open>Playback_Scheduler\<close>, \<open>Scheduler_Timeline\<close>, \<open>Scheduler_Seams\<close>, \<open>Scheduler_Gaps\<close>,
    \<open>Scheduler_Example\<close>, \<open>Scheduler_Properties\<close>: \<open>audio/scheduler\<close>. Frames leave in order, on time and from
    submitted packets. While playback is not silent and packets have the configured size, frames next
    to concealed ones and behind slots given up start on the values heard last; after a jump of the
    buffer to far-future packets they do not. While playing, a due slot is filled when the gap is within
    the threshold, and a wider gap is abandoned for the earliest buffered packet; late slots are caught up by
    a loop that ends.
  \<^item> \<open>Render_Ring\<close>, \<open>Render_Ring_Threads\<close>: \<open>audio/render_ring.rs\<close>. The sequential operations interpret the
    locale \<open>fifo_queue\<close>; the second theory takes them apart into atomic loads and stores of two threads, a
    step relation over all interleavings, and shows safety and wait-freedom: a thread in a call always
    has exactly one step, and completes after a fixed number of its own steps under every schedule.
  \<^item> \<open>Playback_Pump\<close>, \<open>Pump_Properties\<close>: \<open>audio/playback_pump\<close>. A run of the pump drives a run of its scheduler and
    pushes into the ring, with reads of the callback in between: what is heard is the stream of the
    released frames, in order, converted; nothing plays before the clocks are synchronised.
  \<^item> \<open>Clock_Sync\<close>: \<open>sync/types.rs\<close>, \<open>estimator.rs\<close>. The measured offset is within half the round trip of the true
    one; the gate on round trips is strict after the first sample; probing recovers.
  \<^item> \<open>Secure_Replay\<close>: \<open>transport/secure_replay.rs\<close>. The bit windows refine the set of all accepted numbers, so no
    number is accepted twice.
  \<^item> \<open>Core_Error\<close>, \<open>Runtime_Records\<close>, \<open>Host_Queue\<close>: \<open>error.rs\<close>, \<open>runtime/types.rs\<close>, \<open>runtime/playlist.rs\<close>. Errors
    round-trip through their record; the host draft stays consistent under patches; the queue stays within
    its limits and never loses an update.
  \<^item> \<open>Host_Admission\<close>: \<open>runtime/host_admission.rs\<close> and \<open>runtime/effects.rs\<close>. \<open>Actor_Records\<close>: \<open>runtime/records\<close>.
    \<open>Actor_State\<close>, \<open>Actor_Commands\<close>, \<open>Actor_Runtime\<close>: \<open>runtime/actor_runtime/state\<close>, one definition per handler,
    up to \<open>process_input\<close> (\<open>ActorState::process\<close>) and \<open>reserve_track_boundary\<close>. \<open>Actor_Invariants\<close>,
    \<open>Actor_Handlers\<close>, \<open>Actor_Steps\<close>: the invariant and its preservation, handler by handler.
    \<open>Actor_Properties\<close>: over every run from \<open>actor_state_new\<close>, snapshots are published with consecutive
    revisions and are valid, listeners are admitted only with consent, reserved tracks match the queue,
    operations in progress are correlated with issued effects; and an approval whose request has gone
    is never completed.

  \<^bold>\<open>State and operations.\<close> A struct is a record with the source's fields under a prefix, a method on
  \<open>&mut self\<close> a function that returns the updated record (paired with its result, or in a sum when it
  may fail; the caller of a failed method of the actor drops the state, as \<open>process\<close> does by
  working on a clone). Enum variants keep their names where HOL allows.

  \<^bold>\<open>Bounds and termination.\<close> Every loop is a total function, the non-structural ones with a
  termination measure (\<open>discard_already_late_head\<close>, the loops of the codec and of the decimal digits). One
  loop takes fuel: \<open>emit_full\<close>, the loop of \<open>push_chunk\<close> that emits full packets, gets the length of the
  carry, which is enough because each packet takes at least one sample (\<open>emit_full_done\<close>). Theorems about streams of numbered packets assume that the numbers handed in plus the
  number of calls stay below \<open>2 ^ 64\<close>, where the counters of the code would wrap; ring indices are
  unbounded for the same reason.

  \<^bold>\<open>Not modelled.\<close> Threads, channels and handles around the actor and the packetizer workers; the
  decoder, which calls a package outside the repository, the resampler behind it, and file input; the
  debug recorder's files; the SQLite storage; sockets, TLS, certificates and signatures, whose behaviour is
  that of the network and of cryptographic packages; the virtual transport of the tests;
  \<open>runtime/records_v2.rs\<close>, which no module declaration reaches; the foreign function, Android and
  desktop layers. \<open>Display\<close> texts are modelled only where the actor puts them into messages; error
  values of the audio components keep their kind and drop the message. The sign of a zero \<open>f64\<close> is not
  tracked: no operation of the core observes it.
\<close>

end
